(* ===== verification/Prelude.thy ===== *)
theory Prelude
  imports Main "HOL-Library.Word"
begin

text \<open>
  Shared ground of the development.  Machine integers are words: \<open>u8\<close>, \<open>u16\<close>, \<open>u32\<close>,
  \<open>u64\<close> and \<open>usize\<close> (64 bits, as on every target the workspace builds for).  The
  workspace compiles with \<^verbatim>\<open>overflow-checks = false\<close> (\<^verbatim>\<open>src/Cargo.toml\<close>), so Rust's
  \<open>+\<close>, \<open>-\<close> and \<open>*\<close> are the wrapping operations of the word type; \<^verbatim>\<open>checked_add\<close> and
  \<^verbatim>\<open>saturating_sub\<close> are written out below.  Fixed byte arrays (\<^verbatim>\<open>B256\<close>, \<^verbatim>\<open>Address\<close>,
  \<^verbatim>\<open>ChannelId\<close>) are words of the same number of bits, read big-endian.

  The theory also holds the big-endian byte encoding of numbers with its round trips, the
  lemmas on lists the component theories share, and the collections of simplification
  rules the component proofs name.
\<close>

section \<open>Types\<close>

type_synonym u8 = "8 word"
type_synonym u16 = "16 word"
type_synonym u32 = "32 word"
type_synonym u64 = "64 word"
type_synonym usize = "64 word"
type_synonym bytes = "u8 list"
type_synonym b256 = "256 word"
type_synonym address = "160 word"
type_synonym fixed20 = "160 word"

named_theorems cfg_defs \<open>definitions of the rollup configuration's queries\<close>

section \<open>Checked and saturating arithmetic\<close>

definition checked_add :: "u64 \<Rightarrow> u64 \<Rightarrow> u64 option" where
  "checked_add a b = (if unat a + unat b < 2 ^ 64 then Some (a + b) else None)"

definition saturating_add :: "u64 \<Rightarrow> u64 \<Rightarrow> u64" where
  "saturating_add a b = (case checked_add a b of Some c \<Rightarrow> c | None \<Rightarrow> - 1)"

definition saturating_sub :: "u64 \<Rightarrow> u64 \<Rightarrow> u64" where
  "saturating_sub a b = (if b \<le> a then a - b else 0)"

lemma checked_add_Some:
  "checked_add a b = Some c \<Longrightarrow> unat c = unat a + unat b \<and> c = a + b"
  by (auto simp: checked_add_def unat_word_ariths split: if_splits)

lemma checked_add_NoneI: "2 ^ 64 \<le> unat a + unat b \<Longrightarrow> checked_add a b = None"
  by (simp add: checked_add_def)

lemma saturating_sub_le: "saturating_sub a b \<le> a"
  by (auto simp: saturating_sub_def intro: word_sub_le)

lemma saturating_sub_0 [simp]: "saturating_sub a 0 = a"
  by (simp add: saturating_sub_def)

lemma saturating_sub_less:
  assumes "0 < b" and "b \<le> a"
  shows "saturating_sub a b < a"
proof -
  have "unat (a - b) = unat a - unat b"
    using assms(2) by (rule unat_sub)
  moreover have "0 < unat b"
    using assms(1) by (simp add: unat_gt_0 word_neq_0_conv)
  moreover have "unat b \<le> unat a"
    using assms(2) by (simp add: word_le_nat_alt)
  ultimately show ?thesis
    using assms(2) by (simp add: saturating_sub_def word_less_nat_alt)
qed

section \<open>Big-endian encodings\<close>

text \<open>\<^verbatim>\<open>to_be_bytes\<close> and \<^verbatim>\<open>from_be_bytes\<close> of Rust's integers, at any width.\<close>

fun be_encode :: "nat \<Rightarrow> nat \<Rightarrow> bytes" where
  "be_encode 0 n = []"
| "be_encode (Suc k) n = be_encode k (n div 256) @ [word_of_nat n]"

definition be_decode :: "bytes \<Rightarrow> nat" where
  "be_decode bs = foldl (\<lambda>acc b. acc * 256 + unat b) 0 bs"

lemma length_be_encode [simp]: "length (be_encode k n) = k"
  by (induction k arbitrary: n) auto

lemma be_decode_Nil [simp]: "be_decode [] = 0"
  by (simp add: be_decode_def)

lemma be_decode_snoc [simp]: "be_decode (bs @ [b]) = be_decode bs * 256 + unat b"
  by (simp add: be_decode_def)

lemma be_decode_append: "be_decode (xs @ ys) = be_decode xs * 256 ^ length ys + be_decode ys"
  by (induction ys rule: rev_induct) (simp_all add: algebra_simps flip: append_assoc)

lemma be_decode_bound: "be_decode bs < 256 ^ length bs"
proof (induction bs rule: rev_induct)
  case Nil
  then show ?case by simp
next
  case (snoc b bs)
  have "unat b < 256"
    using unsigned_less [of b] by simp
  with snoc show ?case by simp
qed

lemma mod_mult_div_decomp:
  fixes n m :: nat
  shows "n mod (256 * m) = (n div 256) mod m * 256 + n mod 256"
  by (simp add: mod_mult2_eq)

lemma be_encode_split: "be_encode (k + m) n = be_encode k (n div 256 ^ m) @ be_encode m n"
  by (induction m arbitrary: n) (simp_all add: div_mult2_eq)

lemma be_decode_encode: "be_decode (be_encode k n) = n mod 256 ^ k"
proof (induction k arbitrary: n)
  case 0
  then show ?case by simp
next
  case (Suc k)
  then show ?case
    by (simp add: mod_mult_div_decomp unsigned_of_nat take_bit_eq_mod)
qed

lemma be_encode_decode: "be_encode (length bs) (be_decode bs) = bs"
proof (induction bs rule: rev_induct)
  case Nil
  then show ?case by simp
next
  case (snoc b bs)
  have "unat b < 256"
    using unsigned_less [of b] by simp
  moreover have "word_of_nat (be_decode bs * 256 + unat b) = (b :: u8)"
    using \<open>unat b < 256\<close> by (simp add: word_unat_eq_iff unsigned_of_nat take_bit_eq_mod
      del: of_nat_add of_nat_mult of_nat_numeral)
  ultimately show ?case
    using snoc by simp
qed

text \<open>Words through their bytes: the width in bytes covers the word exactly.\<close>

lemma word_of_be_decode_encode:
  fixes w :: "'a::len word"
  assumes "LENGTH('a) \<le> 8 * k"
  shows "(word_of_nat (be_decode (be_encode k (unat w))) :: 'a word) = w"
proof -
  have "unat w < 2 ^ LENGTH('a)"
    by simp
  also have "\<dots> \<le> (2 :: nat) ^ (8 * k)"
    using assms by (simp add: power_increasing)
  also have "\<dots> = 256 ^ k"
    by (simp add: power_mult)
  finally have "unat w mod 256 ^ k = unat w"
    by simp
  then show ?thesis
    by (simp add: be_decode_encode)
qed

lemma be_encode_word_of_be_decode:
  assumes "length bs = k" and "LENGTH('a::len) = 8 * k"
  shows "be_encode k (unat (word_of_nat (be_decode bs) :: 'a word)) = bs"
proof -
  have "be_decode bs < 256 ^ k"
    using be_decode_bound [of bs] assms(1) by simp
  also have "256 ^ k = (2 :: nat) ^ LENGTH('a)"
    using assms(2) by (simp add: power_mult)
  finally have "unat (word_of_nat (be_decode bs) :: 'a word) = be_decode bs"
    by (simp add: unsigned_of_nat take_bit_nat_eq_self)
  then show ?thesis
    using be_encode_decode [of bs] assms(1) by simp
qed

section \<open>Lists\<close>

text \<open>\<^verbatim>\<open>Iterator::position\<close>: the index of the first element that satisfies a predicate.\<close>

fun position :: "('a \<Rightarrow> bool) \<Rightarrow> 'a list \<Rightarrow> nat option" where
  "position p [] = None"
| "position p (x # xs) = (if p x then Some 0 else map_option Suc (position p xs))"

lemma position_Some:
  "position p xs = Some i \<Longrightarrow> i < length xs \<and> p (xs ! i) \<and> (\<forall>j<i. \<not> p (xs ! j))"
proof (induction xs arbitrary: i)
  case Nil
  then show ?case by simp
next
  case (Cons x xs)
  then show ?case
    by (cases i) (auto simp: less_Suc_eq_0_disj split: if_splits)
qed

lemma position_le:
  "i < length xs \<Longrightarrow> p (xs ! i) \<Longrightarrow> \<exists>j\<le>i. position p xs = Some j"
proof (induction xs arbitrary: i)
  case Nil
  then show ?case by simp
next
  case (Cons x xs)
  show ?case
  proof (cases "p x")
    case False
    with Cons.prems obtain k where k: "i = Suc k" "k < length xs" "p (xs ! k)"
      by (cases i) auto
    with Cons.IH obtain j where "j \<le> k" "position p xs = Some j" by blast
    with k False show ?thesis by auto
  qed auto
qed

text \<open>\<^verbatim>\<open>VecDeque::remove\<close> and \<^verbatim>\<open>Vec::remove\<close> at an index, \<^verbatim>\<open>drain\<close> of an index range.\<close>

definition remove_at :: "nat \<Rightarrow> 'a list \<Rightarrow> 'a list" where
  "remove_at i xs = take i xs @ drop (Suc i) xs"

definition drain :: "nat \<Rightarrow> nat \<Rightarrow> 'a list \<Rightarrow> 'a list" where
  "drain i j xs = take i xs @ drop j xs"

lemma length_remove_at [simp]: "i < length xs \<Longrightarrow> length (remove_at i xs) = length xs - 1"
  by (simp add: remove_at_def)

lemma set_remove_at_subset: "set (remove_at i xs) \<subseteq> set xs"
  by (auto simp: remove_at_def dest: in_set_takeD in_set_dropD)

lemma set_drain_subset: "set (drain i j xs) \<subseteq> set xs"
  by (auto simp: drain_def dest: in_set_takeD in_set_dropD)

lemma remove_at_0 [simp]: "remove_at 0 xs = tl xs"
  by (cases xs) (simp_all add: remove_at_def)

lemma distinct_remove_at: "distinct xs \<Longrightarrow> distinct (remove_at i xs)"
  by (auto simp: remove_at_def set_take_disj_set_drop_if_distinct)

lemma set_remove_at_distinct:
  assumes "distinct xs" and "i < length xs"
  shows "set (remove_at i xs) = set xs - {xs ! i}"
proof -
  have xs: "xs = take i xs @ xs ! i # drop (Suc i) xs"
    using assms(2) by (rule id_take_nth_drop)
  have "distinct (take i xs @ xs ! i # drop (Suc i) xs)"
    using assms(1) xs by simp
  then have "xs ! i \<notin> set (take i xs) \<union> set (drop (Suc i) xs)"
    by simp
  moreover have "set xs = set (take i xs) \<union> {xs ! i} \<union> set (drop (Suc i) xs)"
    using arg_cong [OF xs, of set] by simp
  ultimately show ?thesis
    by (auto simp: remove_at_def)
qed

end
