(* ===== verification/Rollup_Config.thy ===== *)
theory Rollup_Config
  imports Prelude
begin

text \<open>
  The rollup configuration of \<^verbatim>\<open>crates/protocol/genesis\<close>: the chain's genesis
  (\<^verbatim>\<open>genesis.rs\<close>), the hardfork schedule (\<^verbatim>\<open>chain/hardfork.rs\<close>), the fee parameters
  (\<^verbatim>\<open>params.rs\<close>), the system configuration record (\<^verbatim>\<open>system/config.rs\<close>) and the queries of
  \<^verbatim>\<open>rollup.rs\<close>: which fork is active at a timestamp, which block is a fork's first, the
  executor's spec, and the parameters that depend on a fork.

  Shown: activation is monotone in the timestamp and the forks imply each other in order; a
  fork has one first block among the block-aligned timestamps; the executor's spec never goes
  back; the two activation interfaces (\<^verbatim>\<open>is_X_active\<close> and \<^verbatim>\<open>op_fork_activation\<close>) agree on
  ordered schedules, and disagree on others.
\<close>

section \<open>Data\<close>

record block_num_hash =
  bnh_number :: u64
  bnh_hash :: b256

record system_config =
  sc_batcher_address :: address
  sc_overhead :: b256
  sc_scalar :: b256
  sc_gas_limit :: u64
  sc_base_fee_scalar :: "u64 option"
  sc_blob_base_fee_scalar :: "u64 option"
  sc_eip1559_denominator :: "u32 option"
  sc_eip1559_elasticity :: "u32 option"
  sc_operator_fee_scalar :: "u32 option"
  sc_operator_fee_constant :: "u64 option"
  sc_min_base_fee :: "u64 option"
  sc_da_footprint_gas_scalar :: "u16 option"

record chain_genesis =
  cg_l1 :: block_num_hash
  cg_l2 :: block_num_hash
  cg_l2_time :: u64
  cg_system_config :: "system_config option"

record hard_fork_config =
  regolith_time :: "u64 option"
  canyon_time :: "u64 option"
  delta_time :: "u64 option"
  ecotone_time :: "u64 option"
  fjord_time :: "u64 option"
  granite_time :: "u64 option"
  holocene_time :: "u64 option"
  pectra_blob_schedule_time :: "u64 option"
  isthmus_time :: "u64 option"
  jovian_time :: "u64 option"
  interop_time :: "u64 option"

record alt_da_config =
  ada_challenge_address :: "address option"
  ada_challenge_window :: "u64 option"
  ada_resolve_window :: "u64 option"
  ada_commitment_type :: "string option"

record base_fee_config =
  bfc_eip1559_elasticity :: u64
  bfc_eip1559_denominator :: u64
  bfc_eip1559_denominator_canyon :: u64

record rollup_config =
  rc_genesis :: chain_genesis
  rc_block_time :: u64
  rc_max_sequencer_drift :: u64
  rc_seq_window_size :: u64
  rc_channel_timeout :: u64
  rc_granite_channel_timeout :: u64
  rc_l1_chain_id :: u64
  rc_l2_chain_id :: u64
  rc_hardforks :: hard_fork_config
  rc_batch_inbox_address :: address
  rc_deposit_contract_address :: address
  rc_l1_system_config_address :: address
  rc_protocol_versions_address :: address
  rc_superchain_config_address :: "address option"
  rc_blobs_enabled_l1_timestamp :: "u64 option"
  rc_da_challenge_address :: "address option"
  rc_interop_message_expiry_window :: u64
  rc_alt_da_config :: "alt_da_config option"
  rc_chain_op_config :: base_fee_config

section \<open>Constants and defaults\<close>

definition MAX_RLP_BYTES_PER_CHANNEL_BEDROCK :: u64 where
  "MAX_RLP_BYTES_PER_CHANNEL_BEDROCK = 10000000"

definition MAX_RLP_BYTES_PER_CHANNEL_FJORD :: u64 where
  "MAX_RLP_BYTES_PER_CHANNEL_FJORD = 100000000"

definition FJORD_MAX_SEQUENCER_DRIFT :: u64 where
  "FJORD_MAX_SEQUENCER_DRIFT = 1800"

definition GRANITE_CHANNEL_TIMEOUT :: u64 where
  "GRANITE_CHANNEL_TIMEOUT = 50"

definition DEFAULT_INTEROP_MESSAGE_EXPIRY_WINDOW :: u64 where
  "DEFAULT_INTEROP_MESSAGE_EXPIRY_WINDOW = 60 * 60"

definition default_block_num_hash :: block_num_hash where
  "default_block_num_hash = \<lparr>bnh_number = 0, bnh_hash = 0\<rparr>"

definition default_system_config :: system_config where
  "default_system_config = \<lparr>sc_batcher_address = 0, sc_overhead = 0, sc_scalar = 0, sc_gas_limit = 0,
     sc_base_fee_scalar = None, sc_blob_base_fee_scalar = None,
     sc_eip1559_denominator = None, sc_eip1559_elasticity = None,
     sc_operator_fee_scalar = None, sc_operator_fee_constant = None,
     sc_min_base_fee = None, sc_da_footprint_gas_scalar = None\<rparr>"

definition default_chain_genesis :: chain_genesis where
  "default_chain_genesis = \<lparr>cg_l1 = default_block_num_hash, cg_l2 = default_block_num_hash,
     cg_l2_time = 0, cg_system_config = None\<rparr>"

definition default_hard_fork_config :: hard_fork_config where
  "default_hard_fork_config = \<lparr>regolith_time = None, canyon_time = None, delta_time = None,
     ecotone_time = None, fjord_time = None, granite_time = None, holocene_time = None,
     pectra_blob_schedule_time = None, isthmus_time = None, jovian_time = None,
     interop_time = None\<rparr>"

definition OP_MAINNET_CHAIN_ID :: u64 where "OP_MAINNET_CHAIN_ID = 10"
definition OP_SEPOLIA_CHAIN_ID :: u64 where "OP_SEPOLIA_CHAIN_ID = 11155420"
definition BASE_MAINNET_CHAIN_ID :: u64 where "BASE_MAINNET_CHAIN_ID = 8453"
definition BASE_SEPOLIA_CHAIN_ID :: u64 where "BASE_SEPOLIA_CHAIN_ID = 84532"

definition OP_SEPOLIA_BASE_FEE_CONFIG :: base_fee_config where
  "OP_SEPOLIA_BASE_FEE_CONFIG = \<lparr>bfc_eip1559_elasticity = 6, bfc_eip1559_denominator = 50,
     bfc_eip1559_denominator_canyon = 250\<rparr>"

definition BASE_SEPOLIA_BASE_FEE_CONFIG :: base_fee_config where
  "BASE_SEPOLIA_BASE_FEE_CONFIG = \<lparr>bfc_eip1559_elasticity = 10, bfc_eip1559_denominator = 50,
     bfc_eip1559_denominator_canyon = 250\<rparr>"

definition OP_MAINNET_BASE_FEE_CONFIG :: base_fee_config where
  "OP_MAINNET_BASE_FEE_CONFIG = \<lparr>bfc_eip1559_elasticity = 6, bfc_eip1559_denominator = 50,
     bfc_eip1559_denominator_canyon = 250\<rparr>"

definition BASE_MAINNET_BASE_FEE_CONFIG :: base_fee_config where
  "BASE_MAINNET_BASE_FEE_CONFIG = \<lparr>bfc_eip1559_elasticity = 6, bfc_eip1559_denominator = 50,
     bfc_eip1559_denominator_canyon = 250\<rparr>"

definition base_fee_config_of :: "u64 \<Rightarrow> base_fee_config" where
  "base_fee_config_of chain_id =
     (if chain_id = OP_MAINNET_CHAIN_ID then OP_MAINNET_BASE_FEE_CONFIG
      else if chain_id = OP_SEPOLIA_CHAIN_ID then OP_SEPOLIA_BASE_FEE_CONFIG
      else if chain_id = BASE_MAINNET_CHAIN_ID then BASE_MAINNET_BASE_FEE_CONFIG
      else if chain_id = BASE_SEPOLIA_CHAIN_ID then BASE_SEPOLIA_BASE_FEE_CONFIG
      else OP_MAINNET_BASE_FEE_CONFIG)"

definition default_rollup_config :: rollup_config where
  "default_rollup_config = \<lparr>rc_genesis = default_chain_genesis, rc_block_time = 0,
     rc_max_sequencer_drift = 0, rc_seq_window_size = 0, rc_channel_timeout = 0,
     rc_granite_channel_timeout = GRANITE_CHANNEL_TIMEOUT, rc_l1_chain_id = 0,
     rc_l2_chain_id = 0, rc_hardforks = default_hard_fork_config, rc_batch_inbox_address = 0,
     rc_deposit_contract_address = 0, rc_l1_system_config_address = 0,
     rc_protocol_versions_address = 0, rc_superchain_config_address = None,
     rc_blobs_enabled_l1_timestamp = None, rc_da_challenge_address = None,
     rc_interop_message_expiry_window = DEFAULT_INTEROP_MESSAGE_EXPIRY_WINDOW,
     rc_alt_da_config = None, rc_chain_op_config = OP_MAINNET_BASE_FEE_CONFIG\<rparr>"

section \<open>Fork activation\<close>

text \<open>\<^verbatim>\<open>Option::is_some_and(|t| timestamp >= t)\<close>.\<close>

definition reached :: "u64 option \<Rightarrow> u64 \<Rightarrow> bool" where
  "reached fork timestamp = (case fork of None \<Rightarrow> False | Some t \<Rightarrow> t \<le> timestamp)"

definition is_interop_active :: "rollup_config \<Rightarrow> u64 \<Rightarrow> bool" where
  [cfg_defs]: "is_interop_active cfg timestamp = reached (interop_time (rc_hardforks cfg)) timestamp"

definition is_jovian_active :: "rollup_config \<Rightarrow> u64 \<Rightarrow> bool" where
  [cfg_defs]: "is_jovian_active cfg timestamp =
     (reached (jovian_time (rc_hardforks cfg)) timestamp \<or> is_interop_active cfg timestamp)"

definition is_isthmus_active :: "rollup_config \<Rightarrow> u64 \<Rightarrow> bool" where
  [cfg_defs]: "is_isthmus_active cfg timestamp =
     (reached (isthmus_time (rc_hardforks cfg)) timestamp \<or> is_jovian_active cfg timestamp)"

definition is_pectra_blob_schedule_active :: "rollup_config \<Rightarrow> u64 \<Rightarrow> bool" where
  [cfg_defs]: "is_pectra_blob_schedule_active cfg timestamp =
     reached (pectra_blob_schedule_time (rc_hardforks cfg)) timestamp"

definition is_holocene_active :: "rollup_config \<Rightarrow> u64 \<Rightarrow> bool" where
  [cfg_defs]: "is_holocene_active cfg timestamp =
     (reached (holocene_time (rc_hardforks cfg)) timestamp \<or> is_isthmus_active cfg timestamp)"

definition is_granite_active :: "rollup_config \<Rightarrow> u64 \<Rightarrow> bool" where
  [cfg_defs]: "is_granite_active cfg timestamp =
     (reached (granite_time (rc_hardforks cfg)) timestamp \<or> is_holocene_active cfg timestamp)"

definition is_fjord_active :: "rollup_config \<Rightarrow> u64 \<Rightarrow> bool" where
  [cfg_defs]: "is_fjord_active cfg timestamp =
     (reached (fjord_time (rc_hardforks cfg)) timestamp \<or> is_granite_active cfg timestamp)"

definition is_ecotone_active :: "rollup_config \<Rightarrow> u64 \<Rightarrow> bool" where
  [cfg_defs]: "is_ecotone_active cfg timestamp =
     (reached (ecotone_time (rc_hardforks cfg)) timestamp \<or> is_fjord_active cfg timestamp)"

definition is_delta_active :: "rollup_config \<Rightarrow> u64 \<Rightarrow> bool" where
  [cfg_defs]: "is_delta_active cfg timestamp =
     (reached (delta_time (rc_hardforks cfg)) timestamp \<or> is_ecotone_active cfg timestamp)"

definition is_canyon_active :: "rollup_config \<Rightarrow> u64 \<Rightarrow> bool" where
  [cfg_defs]: "is_canyon_active cfg timestamp =
     (reached (canyon_time (rc_hardforks cfg)) timestamp \<or> is_delta_active cfg timestamp)"

definition is_regolith_active :: "rollup_config \<Rightarrow> u64 \<Rightarrow> bool" where
  [cfg_defs]: "is_regolith_active cfg timestamp =
     (reached (regolith_time (rc_hardforks cfg)) timestamp \<or> is_canyon_active cfg timestamp)"

text \<open>
  Every \<^verbatim>\<open>is_first_X_block\<close> is the same combination of the fork's own activation query at the
  block and at the block before it.
\<close>

definition is_first_block :: "(rollup_config \<Rightarrow> u64 \<Rightarrow> bool) \<Rightarrow> rollup_config \<Rightarrow> u64 \<Rightarrow> bool" where
  "is_first_block active cfg timestamp =
     (active cfg timestamp \<and> \<not> active cfg (saturating_sub timestamp (rc_block_time cfg)))"

definition is_first_regolith_block :: "rollup_config \<Rightarrow> u64 \<Rightarrow> bool" where
  "is_first_regolith_block = is_first_block is_regolith_active"
definition is_first_canyon_block :: "rollup_config \<Rightarrow> u64 \<Rightarrow> bool" where
  "is_first_canyon_block = is_first_block is_canyon_active"
definition is_first_delta_block :: "rollup_config \<Rightarrow> u64 \<Rightarrow> bool" where
  "is_first_delta_block = is_first_block is_delta_active"
definition is_first_ecotone_block :: "rollup_config \<Rightarrow> u64 \<Rightarrow> bool" where
  "is_first_ecotone_block = is_first_block is_ecotone_active"
definition is_first_fjord_block :: "rollup_config \<Rightarrow> u64 \<Rightarrow> bool" where
  "is_first_fjord_block = is_first_block is_fjord_active"
definition is_first_granite_block :: "rollup_config \<Rightarrow> u64 \<Rightarrow> bool" where
  "is_first_granite_block = is_first_block is_granite_active"
definition is_first_holocene_block :: "rollup_config \<Rightarrow> u64 \<Rightarrow> bool" where
  "is_first_holocene_block = is_first_block is_holocene_active"
definition is_first_pectra_blob_schedule_block :: "rollup_config \<Rightarrow> u64 \<Rightarrow> bool" where
  "is_first_pectra_blob_schedule_block = is_first_block is_pectra_blob_schedule_active"
definition is_first_isthmus_block :: "rollup_config \<Rightarrow> u64 \<Rightarrow> bool" where
  "is_first_isthmus_block = is_first_block is_isthmus_active"
definition is_first_jovian_block :: "rollup_config \<Rightarrow> u64 \<Rightarrow> bool" where
  "is_first_jovian_block = is_first_block is_jovian_active"
definition is_first_interop_block :: "rollup_config \<Rightarrow> u64 \<Rightarrow> bool" where
  "is_first_interop_block = is_first_block is_interop_active"

text \<open>The executor's spec, one constructor per variant of \<^verbatim>\<open>op_revm::OpSpecId\<close> the code returns.\<close>

datatype op_spec_id = BEDROCK | REGOLITH | CANYON | ECOTONE | FJORD | HOLOCENE | ISTHMUS
  | JOVIAN | INTEROP

definition spec_id :: "rollup_config \<Rightarrow> u64 \<Rightarrow> op_spec_id" where
  "spec_id cfg timestamp =
     (if is_interop_active cfg timestamp then INTEROP
      else if is_jovian_active cfg timestamp then JOVIAN
      else if is_isthmus_active cfg timestamp then ISTHMUS
      else if is_holocene_active cfg timestamp then HOLOCENE
      else if is_fjord_active cfg timestamp then FJORD
      else if is_ecotone_active cfg timestamp then ECOTONE
      else if is_canyon_active cfg timestamp then CANYON
      else if is_regolith_active cfg timestamp then REGOLITH
      else BEDROCK)"

section \<open>Fork-dependent parameters\<close>

definition is_alt_da_enabled :: "rollup_config \<Rightarrow> bool" where
  "is_alt_da_enabled cfg =
     (case rc_da_challenge_address cfg of None \<Rightarrow> False | Some addr \<Rightarrow> addr \<noteq> 0)"

definition max_sequencer_drift :: "rollup_config \<Rightarrow> u64 \<Rightarrow> u64" where
  "max_sequencer_drift cfg timestamp =
     (if is_fjord_active cfg timestamp then FJORD_MAX_SEQUENCER_DRIFT
      else rc_max_sequencer_drift cfg)"

definition max_rlp_bytes_per_channel :: "rollup_config \<Rightarrow> u64 \<Rightarrow> u64" where
  "max_rlp_bytes_per_channel cfg timestamp =
     (if is_fjord_active cfg timestamp then MAX_RLP_BYTES_PER_CHANNEL_FJORD
      else MAX_RLP_BYTES_PER_CHANNEL_BEDROCK)"

definition channel_timeout :: "rollup_config \<Rightarrow> u64 \<Rightarrow> u64" where
  "channel_timeout cfg timestamp =
     (if is_granite_active cfg timestamp then rc_granite_channel_timeout cfg
      else rc_channel_timeout cfg)"

text \<open>\<^verbatim>\<open>saturating_div\<close> panics on a zero divisor: \<open>None\<close>.\<close>

definition block_number_from_timestamp :: "rollup_config \<Rightarrow> u64 \<Rightarrow> u64 option" where
  "block_number_from_timestamp cfg timestamp =
     (if rc_block_time cfg = 0 then None
      else Some (saturating_sub timestamp (cg_l2_time (rc_genesis cfg)) div rc_block_time cfg))"

datatype scalar_error = BedrockScalarPadding | InvalidVersion1Padding | UnrecognizedScalarVersion

definition check_ecotone_l1_system_config_scalar :: "bytes \<Rightarrow> scalar_error + unit" where
  "check_ecotone_l1_system_config_scalar scalar =
     (if scalar ! 0 = 0 then
        (if take 27 (drop 1 scalar) \<noteq> replicate 27 0 then Inl BedrockScalarPadding else Inr ())
      else if scalar ! 0 = 1 then
        (if take 23 (drop 1 scalar) \<noteq> replicate 23 0 then Inl InvalidVersion1Padding else Inr ())
      else Inl UnrecognizedScalarVersion)"

section \<open>The hardfork traits\<close>

text \<open>
  \<^verbatim>\<open>ForkCondition\<close> and \<^verbatim>\<open>OpHardfork\<close> are the vocabulary of the \<^verbatim>\<open>alloy\<close> hardfork crates: the
  conditions the implementation builds, and the forks it distinguishes (\<open>OtherFork\<close> is its
  catch-all case).
\<close>

datatype fork_condition = Block u64 | Timestamp u64 | Never

datatype op_hardfork = Bedrock | Regolith | Canyon | Ecotone | Fjord | Granite | Holocene
  | Isthmus | Jovian | Interop | OtherFork

definition timestamp_or :: "u64 option \<Rightarrow> fork_condition \<Rightarrow> fork_condition" where
  "timestamp_or t c = (case t of Some t \<Rightarrow> Timestamp t | None \<Rightarrow> c)"

text \<open>The rank makes the recursion of the source (each fork falls back to a later one) explicit.\<close>

fun fork_rank :: "op_hardfork \<Rightarrow> nat" where
  "fork_rank Regolith = 7" | "fork_rank Canyon = 6" | "fork_rank Ecotone = 5"
| "fork_rank Fjord = 4" | "fork_rank Granite = 3" | "fork_rank Holocene = 2"
| "fork_rank Isthmus = 1" | "fork_rank _ = 0"

function op_fork_activation :: "rollup_config \<Rightarrow> op_hardfork \<Rightarrow> fork_condition" where
  "op_fork_activation cfg Bedrock = Block 0"
| "op_fork_activation cfg Regolith =
     timestamp_or (regolith_time (rc_hardforks cfg)) (op_fork_activation cfg Canyon)"
| "op_fork_activation cfg Canyon =
     timestamp_or (canyon_time (rc_hardforks cfg)) (op_fork_activation cfg Ecotone)"
| "op_fork_activation cfg Ecotone =
     timestamp_or (ecotone_time (rc_hardforks cfg)) (op_fork_activation cfg Fjord)"
| "op_fork_activation cfg Fjord =
     timestamp_or (fjord_time (rc_hardforks cfg)) (op_fork_activation cfg Granite)"
| "op_fork_activation cfg Granite =
     timestamp_or (granite_time (rc_hardforks cfg)) (op_fork_activation cfg Holocene)"
| "op_fork_activation cfg Holocene =
     timestamp_or (holocene_time (rc_hardforks cfg)) (op_fork_activation cfg Isthmus)"
| "op_fork_activation cfg Isthmus =
     timestamp_or (isthmus_time (rc_hardforks cfg)) (op_fork_activation cfg Jovian)"
| "op_fork_activation cfg Jovian = timestamp_or (jovian_time (rc_hardforks cfg)) Never"
| "op_fork_activation cfg Interop = timestamp_or (interop_time (rc_hardforks cfg)) Never"
| "op_fork_activation cfg OtherFork = Never"
  by pat_completeness auto
termination
  by (relation "measure (\<lambda>(cfg, fork). fork_rank fork)") auto

text \<open>
  The Ethereum forks are compared by the order of the \<^verbatim>\<open>alloy\<close> enumeration, which is a
  parameter here, with the five forks the code names.
\<close>

record 'f ethereum_forks =
  eth_le :: "'f \<Rightarrow> 'f \<Rightarrow> bool"
  eth_berlin :: 'f
  eth_paris :: 'f
  eth_shanghai :: 'f
  eth_cancun :: 'f
  eth_prague :: 'f

definition ethereum_fork_activation :: "'f ethereum_forks \<Rightarrow> rollup_config \<Rightarrow> 'f \<Rightarrow> fork_condition" where
  "ethereum_fork_activation E cfg fork =
     (if eth_le E fork (eth_berlin E) then Block 0
      else if eth_le E fork (eth_paris E) then op_fork_activation cfg Bedrock
      else if eth_le E fork (eth_shanghai E) then op_fork_activation cfg Canyon
      else if eth_le E fork (eth_cancun E) then op_fork_activation cfg Ecotone
      else if eth_le E fork (eth_prague E) then op_fork_activation cfg Isthmus
      else Never)"

text \<open>\<^verbatim>\<open>HardForkConfig::iter\<close>: the forks by name, in schedule order.\<close>

definition hard_fork_iter :: "hard_fork_config \<Rightarrow> (string \<times> u64 option) list" where
  "hard_fork_iter hf =
     [(''Regolith'', regolith_time hf), (''Canyon'', canyon_time hf), (''Delta'', delta_time hf),
      (''Ecotone'', ecotone_time hf), (''Fjord'', fjord_time hf), (''Granite'', granite_time hf),
      (''Holocene'', holocene_time hf),
      (''Pectra Blob Schedule'', pectra_blob_schedule_time hf), (''Isthmus'', isthmus_time hf),
      (''Jovian'', jovian_time hf), (''Interop'', interop_time hf)]"

section \<open>Activation is monotone\<close>

lemma reached_mono: "t \<le> t' \<Longrightarrow> reached f t \<Longrightarrow> reached f t'"
  by (auto simp: reached_def split: option.splits)

lemma is_interop_active_mono: "t \<le> t' \<Longrightarrow> is_interop_active cfg t \<Longrightarrow> is_interop_active cfg t'"
  unfolding is_interop_active_def by (rule reached_mono)

lemma is_jovian_active_mono: "t \<le> t' \<Longrightarrow> is_jovian_active cfg t \<Longrightarrow> is_jovian_active cfg t'"
  unfolding is_jovian_active_def by (blast intro: reached_mono is_interop_active_mono)

lemma is_isthmus_active_mono: "t \<le> t' \<Longrightarrow> is_isthmus_active cfg t \<Longrightarrow> is_isthmus_active cfg t'"
  unfolding is_isthmus_active_def by (blast intro: reached_mono is_jovian_active_mono)

lemma is_pectra_blob_schedule_active_mono:
  "t \<le> t' \<Longrightarrow> is_pectra_blob_schedule_active cfg t \<Longrightarrow> is_pectra_blob_schedule_active cfg t'"
  unfolding is_pectra_blob_schedule_active_def by (rule reached_mono)

lemma is_holocene_active_mono: "t \<le> t' \<Longrightarrow> is_holocene_active cfg t \<Longrightarrow> is_holocene_active cfg t'"
  unfolding is_holocene_active_def by (blast intro: reached_mono is_isthmus_active_mono)

lemma is_granite_active_mono: "t \<le> t' \<Longrightarrow> is_granite_active cfg t \<Longrightarrow> is_granite_active cfg t'"
  unfolding is_granite_active_def by (blast intro: reached_mono is_holocene_active_mono)

lemma is_fjord_active_mono: "t \<le> t' \<Longrightarrow> is_fjord_active cfg t \<Longrightarrow> is_fjord_active cfg t'"
  unfolding is_fjord_active_def by (blast intro: reached_mono is_granite_active_mono)

lemma is_ecotone_active_mono: "t \<le> t' \<Longrightarrow> is_ecotone_active cfg t \<Longrightarrow> is_ecotone_active cfg t'"
  unfolding is_ecotone_active_def by (blast intro: reached_mono is_fjord_active_mono)

lemma is_delta_active_mono: "t \<le> t' \<Longrightarrow> is_delta_active cfg t \<Longrightarrow> is_delta_active cfg t'"
  unfolding is_delta_active_def by (blast intro: reached_mono is_ecotone_active_mono)

lemma is_canyon_active_mono: "t \<le> t' \<Longrightarrow> is_canyon_active cfg t \<Longrightarrow> is_canyon_active cfg t'"
  unfolding is_canyon_active_def by (blast intro: reached_mono is_delta_active_mono)

lemma is_regolith_active_mono: "t \<le> t' \<Longrightarrow> is_regolith_active cfg t \<Longrightarrow> is_regolith_active cfg t'"
  unfolding is_regolith_active_def by (blast intro: reached_mono is_canyon_active_mono)

lemmas active_mono = is_interop_active_mono is_jovian_active_mono is_isthmus_active_mono
  is_holocene_active_mono is_granite_active_mono is_fjord_active_mono is_ecotone_active_mono
  is_delta_active_mono is_canyon_active_mono is_regolith_active_mono
  is_pectra_blob_schedule_active_mono

text \<open>Each fork brings every earlier one with it.\<close>

lemma fork_implies_earlier:
  "is_interop_active cfg t \<Longrightarrow> is_jovian_active cfg t"
  "is_jovian_active cfg t \<Longrightarrow> is_isthmus_active cfg t"
  "is_isthmus_active cfg t \<Longrightarrow> is_holocene_active cfg t"
  "is_holocene_active cfg t \<Longrightarrow> is_granite_active cfg t"
  "is_granite_active cfg t \<Longrightarrow> is_fjord_active cfg t"
  "is_fjord_active cfg t \<Longrightarrow> is_ecotone_active cfg t"
  "is_ecotone_active cfg t \<Longrightarrow> is_delta_active cfg t"
  "is_delta_active cfg t \<Longrightarrow> is_canyon_active cfg t"
  "is_canyon_active cfg t \<Longrightarrow> is_regolith_active cfg t"
  by (simp_all add: is_jovian_active_def is_isthmus_active_def is_holocene_active_def
      is_granite_active_def is_fjord_active_def is_ecotone_active_def is_delta_active_def
      is_canyon_active_def is_regolith_active_def)

section \<open>The first block of a fork\<close>

text \<open>
  The contract of an activation query: once active, always active.  Everything about first
  blocks follows from it, whatever the fork.
\<close>

text \<open>The timestamp of L2 block \<open>k\<close> counted from the genesis time.\<close>

definition block_timestamp :: "rollup_config \<Rightarrow> nat \<Rightarrow> u64" where
  "block_timestamp cfg k = cg_l2_time (rc_genesis cfg) + of_nat k * rc_block_time cfg"

definition no_timestamp_overflow :: "rollup_config \<Rightarrow> nat \<Rightarrow> bool" where
  "no_timestamp_overflow cfg n =
     (unat (cg_l2_time (rc_genesis cfg)) + n * unat (rc_block_time cfg) < 2 ^ 64)"

lemma unat_block_timestamp:
  assumes "no_timestamp_overflow cfg n" and "k \<le> n"
  shows "unat (block_timestamp cfg k) =
    unat (cg_l2_time (rc_genesis cfg)) + k * unat (rc_block_time cfg)"
proof -
  have "k * unat (rc_block_time cfg) \<le> n * unat (rc_block_time cfg)"
    using assms(2) by simp
  then have lt: "unat (cg_l2_time (rc_genesis cfg)) + k * unat (rc_block_time cfg) < 2 ^ 64"
    using assms(1) unfolding no_timestamp_overflow_def by linarith
  have "block_timestamp cfg k =
      word_of_nat (unat (cg_l2_time (rc_genesis cfg)) + k * unat (rc_block_time cfg))"
    by (simp add: block_timestamp_def)
  then show ?thesis
    using lt by (simp add: unsigned_of_nat take_bit_nat_eq_self del: of_nat_add of_nat_mult)
qed

lemma saturating_sub_block_timestamp:
  assumes "no_timestamp_overflow cfg n" and "Suc k \<le> n"
  shows "saturating_sub (block_timestamp cfg (Suc k)) (rc_block_time cfg) = block_timestamp cfg k"
proof -
  have "rc_block_time cfg \<le> block_timestamp cfg (Suc k)"
    using unat_block_timestamp [OF assms] by (simp add: word_le_nat_alt)
  then show ?thesis
    by (simp add: saturating_sub_def block_timestamp_def algebra_simps)
qed

locale fork_query =
  fixes active :: "rollup_config \<Rightarrow> u64 \<Rightarrow> bool"
  assumes active_mono: "t \<le> t' \<Longrightarrow> active cfg t \<Longrightarrow> active cfg t'"
begin

lemma not_active_a_block_earlier:
  assumes "is_first_block active cfg t" and "s \<le> saturating_sub t (rc_block_time cfg)"
  shows "\<not> active cfg s"
  using assms active_mono unfolding is_first_block_def by blast

lemma first_blocks_close:
  assumes first: "is_first_block active cfg t" "is_first_block active cfg t'"
    and le: "t \<le> t'" and bt: "0 < rc_block_time cfg"
  shows "unat t' - unat t < unat (rc_block_time cfg)"
proof (rule ccontr)
  assume "\<not> ?thesis"
  moreover have "unat t \<le> unat t'"
    using le by (simp add: word_le_nat_alt)
  ultimately have far: "unat t + unat (rc_block_time cfg) \<le> unat t'" by linarith
  then have sub: "rc_block_time cfg \<le> t'"
    by (simp add: word_le_nat_alt)
  then have "unat (t' - rc_block_time cfg) = unat t' - unat (rc_block_time cfg)"
    by (rule unat_sub)
  with far have "t \<le> t' - rc_block_time cfg"
    by (simp add: word_le_nat_alt)
  with sub have "t \<le> saturating_sub t' (rc_block_time cfg)"
    by (simp add: saturating_sub_def)
  with first(2) have "\<not> active cfg t"
    by (rule not_active_a_block_earlier)
  with first(1) show False
    by (simp add: is_first_block_def)
qed

lemma first_block_exists:
  assumes "no_timestamp_overflow cfg n"
    and "\<not> active cfg (block_timestamp cfg 0)" and "active cfg (block_timestamp cfg n)"
  shows "\<exists>k\<le>n. is_first_block active cfg (block_timestamp cfg k)"
proof -
  define k where "k = (LEAST k. active cfg (block_timestamp cfg k))"
  have act: "active cfg (block_timestamp cfg k)"
    unfolding k_def using assms(3) by (rule LeastI)
  have le: "k \<le> n"
    unfolding k_def using assms(3) by (rule Least_le)
  from act assms(2) obtain j where j: "k = Suc j"
    by (cases k) auto
  then have "\<not> active cfg (block_timestamp cfg j)"
    unfolding k_def using not_less_Least lessI by metis
  with act le j show ?thesis
    using saturating_sub_block_timestamp [OF assms(1)]
    by (auto simp: is_first_block_def)
qed

lemma first_block_unique:
  assumes ovf: "no_timestamp_overflow cfg n" and bt: "0 < rc_block_time cfg"
    and first: "is_first_block active cfg (block_timestamp cfg j)"
      "is_first_block active cfg (block_timestamp cfg k)"
    and le: "j \<le> k" "k \<le> n"
  shows "j = k"
proof -
  have "j \<le> n" using le by simp
  note uj = unat_block_timestamp [OF ovf this] and uk = unat_block_timestamp [OF ovf le(2)]
  have "j * unat (rc_block_time cfg) \<le> k * unat (rc_block_time cfg)"
    using le(1) by simp
  then have "block_timestamp cfg j \<le> block_timestamp cfg k"
    by (simp add: word_le_nat_alt uj uk)
  with first bt have "unat (block_timestamp cfg k) - unat (block_timestamp cfg j)
      < unat (rc_block_time cfg)"
    by (intro first_blocks_close)
  then have lt: "(k - j) * unat (rc_block_time cfg) < 1 * unat (rc_block_time cfg)"
    by (simp add: uj uk diff_mult_distrib)
  have "k - j < 1"
    using lt by (simp only: mult_less_cancel2)
  with le(1) show ?thesis by simp
qed

lemma first_block_ex1:
  assumes ovf: "no_timestamp_overflow cfg n" and bt: "0 < rc_block_time cfg"
    and "\<not> active cfg (block_timestamp cfg 0)" and "active cfg (block_timestamp cfg n)"
  shows "\<exists>!k. k \<le> n \<and> is_first_block active cfg (block_timestamp cfg k)"
proof -
  obtain k where k: "k \<le> n" "is_first_block active cfg (block_timestamp cfg k)"
    using first_block_exists [OF ovf assms(3,4)] by blast
  show ?thesis
  proof (rule ex1I [of _ k])
    fix j
    assume "j \<le> n \<and> is_first_block active cfg (block_timestamp cfg j)"
    then show "j = k"
      using first_block_unique [OF ovf bt] k by (metis nat_le_linear)
  qed (use k in simp)
qed

end

interpretation regolith: fork_query is_regolith_active
  by unfold_locales (rule is_regolith_active_mono)
interpretation canyon: fork_query is_canyon_active
  by unfold_locales (rule is_canyon_active_mono)
interpretation delta: fork_query is_delta_active
  by unfold_locales (rule is_delta_active_mono)
interpretation ecotone: fork_query is_ecotone_active
  by unfold_locales (rule is_ecotone_active_mono)
interpretation fjord: fork_query is_fjord_active
  by unfold_locales (rule is_fjord_active_mono)
interpretation granite: fork_query is_granite_active
  by unfold_locales (rule is_granite_active_mono)
interpretation holocene: fork_query is_holocene_active
  by unfold_locales (rule is_holocene_active_mono)
interpretation isthmus: fork_query is_isthmus_active
  by unfold_locales (rule is_isthmus_active_mono)
interpretation jovian: fork_query is_jovian_active
  by unfold_locales (rule is_jovian_active_mono)
interpretation interop: fork_query is_interop_active
  by unfold_locales (rule is_interop_active_mono)
interpretation pectra: fork_query is_pectra_blob_schedule_active
  by unfold_locales (rule is_pectra_blob_schedule_active_mono)

section \<open>The executor's spec\<close>

fun spec_rank :: "op_spec_id \<Rightarrow> nat" where
  "spec_rank BEDROCK = 0" | "spec_rank REGOLITH = 1" | "spec_rank CANYON = 2"
| "spec_rank ECOTONE = 3" | "spec_rank FJORD = 4" | "spec_rank HOLOCENE = 5"
| "spec_rank ISTHMUS = 6" | "spec_rank JOVIAN = 7" | "spec_rank INTEROP = 8"

lemma spec_rank_inject: "spec_rank a = spec_rank b \<longleftrightarrow> a = b"
  by (cases a; cases b) simp_all

instantiation op_spec_id :: linorder
begin

definition less_eq_op_spec_id :: "op_spec_id \<Rightarrow> op_spec_id \<Rightarrow> bool" where
  "less_eq_op_spec_id a b = (spec_rank a \<le> spec_rank b)"

definition less_op_spec_id :: "op_spec_id \<Rightarrow> op_spec_id \<Rightarrow> bool" where
  "less_op_spec_id a b = (spec_rank a < spec_rank b)"

instance
  by standard (auto simp: less_eq_op_spec_id_def less_op_spec_id_def spec_rank_inject)

end

lemma spec_id_mono_helper:
  assumes "t \<le> t'"
  shows "spec_rank (spec_id cfg t) \<le> spec_rank (spec_id cfg t')"
  using active_mono [OF assms, of cfg] fork_implies_earlier [of cfg t']
  by (simp add: spec_id_def)

section \<open>The two activation interfaces\<close>

text \<open>
  \<^verbatim>\<open>is_X_active\<close> and \<^verbatim>\<open>op_fork_activation\<close> answer the same question.  A schedule is well formed
  when its scheduled times are in fork order, Delta is not scheduled without Canyon, and
  Interop is not scheduled without Jovian.
\<close>

fun fork_reached :: "fork_condition \<Rightarrow> u64 \<Rightarrow> bool" where
  "fork_reached (Timestamp s) t = (s \<le> t)"
| "fork_reached (Block b) t = False"
| "fork_reached Never t = False"

definition schedule :: "hard_fork_config \<Rightarrow> u64 option list" where
  "schedule hf = map snd (filter (\<lambda>(name, t). name \<noteq> ''Pectra Blob Schedule'') (hard_fork_iter hf))"

definition any_reached :: "u64 option list \<Rightarrow> u64 \<Rightarrow> bool" where
  "any_reached fs t = (\<exists>f\<in>set fs. reached f t)"

definition scheduled :: "u64 option list \<Rightarrow> u64 list" where
  "scheduled fs = List.map_filter id fs"

definition wf_schedule :: "hard_fork_config \<Rightarrow> bool" where
  "wf_schedule hf = (sorted (scheduled (schedule hf)) \<and>
     (delta_time hf \<noteq> None \<longrightarrow> canyon_time hf \<noteq> None) \<and>
     (interop_time hf \<noteq> None \<longrightarrow> jovian_time hf \<noteq> None))"

lemma schedule_eq:
  "schedule hf = [regolith_time hf, canyon_time hf, delta_time hf, ecotone_time hf, fjord_time hf,
     granite_time hf, holocene_time hf, isthmus_time hf, jovian_time hf, interop_time hf]"
  by (simp add: schedule_def hard_fork_iter_def)

lemma scheduled_simps [simp]:
  "scheduled [] = []"
  "scheduled (None # fs) = scheduled fs"
  "scheduled (Some t # fs) = t # scheduled fs"
  by (simp_all add: scheduled_def)

lemma any_reached_simps [simp]:
  "any_reached [] t = False"
  "any_reached (f # fs) t = (reached f t \<or> any_reached fs t)"
  by (auto simp: any_reached_def)

lemma any_reached_scheduled: "any_reached fs t \<longleftrightarrow> (\<exists>s\<in>set (scheduled fs). s \<le> t)"
proof (induction fs)
  case (Cons f fs)
  then show ?case by (cases f) (auto simp: reached_def)
qed simp

lemma sorted_scheduled_Cons: "sorted (scheduled (f # fs)) \<Longrightarrow> sorted (scheduled fs)"
  by (cases f) auto

text \<open>Falling back to a later fork is the same as asking for either, on an ordered schedule.\<close>

lemma fork_reached_timestamp_or:
  assumes "sorted (scheduled (f # fs))" and "fork_reached c t = any_reached fs t"
  shows "fork_reached (timestamp_or f c) t = any_reached (f # fs) t"
  using assms by (cases f)
    (auto simp: timestamp_or_def reached_def any_reached_scheduled intro: order_trans)

lemma any_reached_suffix:
  "is_interop_active cfg t = any_reached [interop_time (rc_hardforks cfg)] t"
  "is_jovian_active cfg t = any_reached (drop 8 (schedule (rc_hardforks cfg))) t"
  "is_isthmus_active cfg t = any_reached (drop 7 (schedule (rc_hardforks cfg))) t"
  "is_holocene_active cfg t = any_reached (drop 6 (schedule (rc_hardforks cfg))) t"
  "is_granite_active cfg t = any_reached (drop 5 (schedule (rc_hardforks cfg))) t"
  "is_fjord_active cfg t = any_reached (drop 4 (schedule (rc_hardforks cfg))) t"
  "is_ecotone_active cfg t = any_reached (drop 3 (schedule (rc_hardforks cfg))) t"
  "is_delta_active cfg t = any_reached (drop 2 (schedule (rc_hardforks cfg))) t"
  "is_canyon_active cfg t = any_reached (drop 1 (schedule (rc_hardforks cfg))) t"
  "is_regolith_active cfg t = any_reached (schedule (rc_hardforks cfg)) t"
  by (simp_all add: schedule_eq cfg_defs)

fun is_fork_active :: "rollup_config \<Rightarrow> op_hardfork \<Rightarrow> u64 \<Rightarrow> bool" where
  "is_fork_active cfg Regolith = is_regolith_active cfg"
| "is_fork_active cfg Canyon = is_canyon_active cfg"
| "is_fork_active cfg Ecotone = is_ecotone_active cfg"
| "is_fork_active cfg Fjord = is_fjord_active cfg"
| "is_fork_active cfg Granite = is_granite_active cfg"
| "is_fork_active cfg Holocene = is_holocene_active cfg"
| "is_fork_active cfg Isthmus = is_isthmus_active cfg"
| "is_fork_active cfg Jovian = is_jovian_active cfg"
| "is_fork_active cfg Interop = is_interop_active cfg"
| "is_fork_active cfg _ = (\<lambda>t. False)"

lemma op_fork_activation_agrees_helper:
  assumes wf: "wf_schedule (rc_hardforks cfg)"
  shows "fork_reached (op_fork_activation cfg fork) t = is_fork_active cfg fork t"
proof -
  define hf where "hf = rc_hardforks cfg"
  have srt: "sorted (scheduled (schedule hf))"
    and dc: "delta_time hf \<noteq> None \<longrightarrow> canyon_time hf \<noteq> None"
    and ij: "interop_time hf \<noteq> None \<longrightarrow> jovian_time hf \<noteq> None"
    using wf by (simp_all add: wf_schedule_def hf_def)
  note s0 = srt [unfolded schedule_eq]
  note s1 = sorted_scheduled_Cons [OF s0] note s2 = sorted_scheduled_Cons [OF s1]
  note s3 = sorted_scheduled_Cons [OF s2] note s4 = sorted_scheduled_Cons [OF s3]
  note s5 = sorted_scheduled_Cons [OF s4] note s6 = sorted_scheduled_Cons [OF s5]
  note s7 = sorted_scheduled_Cons [OF s6] note s8 = sorted_scheduled_Cons [OF s7]
  have interop: "fork_reached (op_fork_activation cfg Interop) t = any_reached [interop_time hf] t"
    by (cases "interop_time hf") (simp_all add: hf_def timestamp_or_def reached_def)
  have jovian: "fork_reached (op_fork_activation cfg Jovian) t =
      any_reached [jovian_time hf, interop_time hf] t"
    using s8 ij by (cases "jovian_time hf"; cases "interop_time hf")
      (auto simp: hf_def timestamp_or_def reached_def intro: order_trans)
  note isthmus = fork_reached_timestamp_or [OF s7 jovian]
  note holocene = fork_reached_timestamp_or [OF s6 isthmus]
  note granite = fork_reached_timestamp_or [OF s5 holocene]
  note fjord = fork_reached_timestamp_or [OF s4 granite]
  note ecotone = fork_reached_timestamp_or [OF s3 fjord]
  have canyon: "fork_reached (op_fork_activation cfg Canyon) t =
      any_reached (canyon_time hf # delta_time hf # drop 3 (schedule hf)) t"
  proof (cases "canyon_time hf")
    case None
    with dc have "delta_time hf = None" by simp
    with None show ?thesis
      using ecotone by (simp add: hf_def timestamp_or_def reached_def schedule_eq)
  next
    case (Some s)
    with s1 have "any_reached (delta_time hf # drop 3 (schedule hf)) t \<Longrightarrow> s \<le> t"
      by (auto simp: schedule_eq any_reached_scheduled intro: order_trans)
    with Some show ?thesis
      by (auto simp: hf_def timestamp_or_def reached_def)
  qed
  have regolith: "fork_reached (op_fork_activation cfg Regolith) t = any_reached (schedule hf) t"
    using fork_reached_timestamp_or [OF s0, of "op_fork_activation cfg Canyon" t] canyon
    by (simp add: schedule_eq hf_def)
  show ?thesis
    using interop jovian isthmus holocene granite fjord ecotone canyon regolith
    by (cases fork) (simp_all add: any_reached_suffix schedule_eq hf_def)
qed

section \<open>Properties\<close>

text \<open>
  The executor's spec never goes back: a later timestamp has the same spec or a later one.
\<close>

lemma spec_id_mono: "t \<le> t' \<Longrightarrow> spec_id cfg t \<le> spec_id cfg t'"
  unfolding less_eq_op_spec_id_def by (rule spec_id_mono_helper)

definition example_config :: rollup_config where
  "example_config = default_rollup_config\<lparr>rc_block_time := 2, rc_max_sequencer_drift := 600,
     rc_seq_window_size := 3600, rc_channel_timeout := 300,
     rc_hardforks := default_hard_fork_config\<lparr>regolith_time := Some 0, canyon_time := Some 10,
       delta_time := Some 20, ecotone_time := Some 30, fjord_time := Some 40,
       granite_time := Some 50, holocene_time := Some 60\<rparr>\<rparr>"

lemmas example_config_defs = example_config_def default_rollup_config_def
  default_hard_fork_config_def default_chain_genesis_def default_block_num_hash_def

lemma spec_id_mono_witness:
  "(15::u64) \<le> 61 \<and> spec_id example_config 15 \<le> spec_id example_config 61 \<and>
   spec_id example_config 15 = CANYON \<and> spec_id example_config 61 = HOLOCENE"
  using spec_id_mono [of 15 61 example_config]
  by (simp add: spec_id_def cfg_defs reached_def example_config_defs)

text \<open>
  A fork that is inactive at genesis and active at block \<open>n\<close> has exactly one first block
  among the blocks up to \<open>n\<close>, as long as the timestamps fit in 64 bits; stated for Holocene,
  whose first block resets the pipeline.
\<close>

lemma holocene_first_block_unique:
  assumes "no_timestamp_overflow cfg n" and "0 < rc_block_time cfg"
    and "\<not> is_holocene_active cfg (block_timestamp cfg 0)"
    and "is_holocene_active cfg (block_timestamp cfg n)"
  shows "\<exists>!k. k \<le> n \<and> is_first_holocene_block cfg (block_timestamp cfg k)"
  unfolding is_first_holocene_block_def using assms by (rule holocene.first_block_ex1)

lemma holocene_first_block_unique_witness:
  "\<exists>!k. k \<le> 40 \<and> is_first_holocene_block example_config (block_timestamp example_config k)"
  by (rule holocene_first_block_unique)
    (simp_all add: no_timestamp_overflow_def block_timestamp_def cfg_defs reached_def
      example_config_defs)

text \<open>
  On a well-formed schedule the activation the hardfork trait reports and the query agree,
  for every fork and timestamp.
\<close>

lemma op_fork_activation_agrees:
  "wf_schedule (rc_hardforks cfg) \<Longrightarrow>
   fork_reached (op_fork_activation cfg fork) t = is_fork_active cfg fork t"
  by (rule op_fork_activation_agrees_helper)

lemma op_fork_activation_agrees_witness:
  "fork_reached (op_fork_activation example_config Granite) 55 =
   is_fork_active example_config Granite 55 \<and> is_fork_active example_config Granite 55"
  using op_fork_activation_agrees [of example_config Granite 55]
  by (simp add: wf_schedule_def schedule_eq cfg_defs reached_def example_config_defs)

text \<open>
  Off well-formed schedules they differ: with Interop scheduled and Jovian not, Jovian is
  active by the query and never active by the trait; with Delta scheduled and Canyon not, the
  same happens to Canyon.
\<close>

lemma op_fork_activation_gaps:
  "(\<exists>cfg t. is_jovian_active cfg t \<and> op_fork_activation cfg Jovian = Never) \<and>
   (\<exists>cfg t. is_canyon_active cfg t \<and> op_fork_activation cfg Canyon = Never)"
proof (intro conjI exI)
  let ?i = "default_rollup_config\<lparr>rc_hardforks := default_hard_fork_config\<lparr>interop_time := Some 5\<rparr>\<rparr>"
  let ?d = "default_rollup_config\<lparr>rc_hardforks := default_hard_fork_config\<lparr>delta_time := Some 5\<rparr>\<rparr>"
  show "is_jovian_active ?i 7" "op_fork_activation ?i Jovian = Never"
    by (simp_all add: cfg_defs reached_def timestamp_or_def default_hard_fork_config_def)
  show "is_canyon_active ?d 7" "op_fork_activation ?d Canyon = Never"
    by (simp_all add: cfg_defs reached_def timestamp_or_def default_hard_fork_config_def)
qed

end
