(* ===== verification/Blocks.thy ===== *)
theory Blocks
  imports Rollup_Config
begin

text \<open>
  Block references, \<^verbatim>\<open>crates/protocol/protocol/src/block.rs\<close>: \<open>block_info\<close>, the header data
  of an L1 or L2 block, and \<open>l2_block_info\<close>, an L2 block with its L1 origin.
\<close>

record block_info =
  bi_hash :: b256
  bi_number :: u64
  bi_parent_hash :: b256
  bi_timestamp :: u64

record l2_block_info =
  l2_info :: block_info
  l2_l1_origin :: block_num_hash
  l2_seq_num :: u64

definition default_block_info :: block_info where
  "default_block_info = \<lparr>bi_hash = 0, bi_number = 0, bi_parent_hash = 0, bi_timestamp = 0\<rparr>"

definition block_id :: "block_info \<Rightarrow> block_num_hash" where
  "block_id b = \<lparr>bnh_number = bi_number b, bnh_hash = bi_hash b\<rparr>"

definition is_parent_of :: "block_info \<Rightarrow> block_info \<Rightarrow> bool" where
  "is_parent_of b block = (bi_number b + 1 = bi_number block \<and> bi_hash b = bi_parent_hash block)"

definition l2_hash :: "l2_block_info \<Rightarrow> b256" where
  "l2_hash b = bi_hash (l2_info b)"

end
