(* ===== verification/System_Config.thy ===== *)
theory System_Config
  imports Rollup_Config
begin

text \<open>
  System config updates, \<^verbatim>\<open>crates/protocol/genesis/src/system\<close> and \<^verbatim>\<open>.../src/updates\<close>: the logs
  by which the L1 system config contract changes the rollup's parameters, their decoding into
  updates and their application to the \<open>system_config\<close> record.

  The Solidity ABI decoder (\<^verbatim>\<open>alloy_sol_types\<close>) is a parameter, the record \<open>abi\<close>; \<open>abi_laws\<close>
  states what the ABI specification says of it on one 32-byte word.  Logs and receipts are the
  parts of the \<^verbatim>\<open>alloy\<close> types that the code reads.

  Shown: the receipts of a block act as one sequence of config logs, applied in order up to the
  first that fails to decode; no sequence of receipts installs a scalar that Ecotone forbids
  or a zero DA footprint scalar; the updates a decoded log makes, for each kind of log.
\<close>

section \<open>Logs and receipts\<close>

record log =
  log_address :: address
  log_topics :: "b256 list"
  log_data :: bytes

datatype eip658_value = Eip658 bool | PostState b256

record receipt =
  rcpt_status :: eip658_value
  rcpt_logs :: "log list"

record abi =
  abi_uint16 :: "bytes \<Rightarrow> u16 option"
  abi_uint64 :: "bytes \<Rightarrow> u64 option"
  abi_uint256 :: "bytes \<Rightarrow> b256 option"
  abi_address :: "bytes \<Rightarrow> address option"

definition CONFIG_UPDATE_TOPIC :: b256 where
  "CONFIG_UPDATE_TOPIC = 0x1d2b0bda21d56b8bd12d4f94ebacffdfb35f5e226f84b461103bb8beab6353be"

definition CONFIG_UPDATE_EVENT_VERSION_0 :: b256 where "CONFIG_UPDATE_EVENT_VERSION_0 = 0"

section \<open>Errors\<close>

datatype log_processing_error = InvalidTopicLen nat | InvalidTopic | UnsupportedVersion b256
  | UpdateTypeDecodingError | InvalidSystemConfigUpdateType u64

datatype batcher_update_error = InvalidDataLen nat | PointerDecodingError | InvalidDataPointer u64
  | LengthDecodingError | InvalidDataLength u64 | BatcherAddressDecodingError

datatype unsafe_block_signer_update_error = InvalidDataLen nat | PointerDecodingError
  | InvalidDataPointer u64 | LengthDecodingError | InvalidDataLength u64
  | UnsafeBlockSignerAddressDecodingError

datatype gas_config_update_error = InvalidDataLen nat | PointerDecodingError
  | InvalidDataPointer u64 | LengthDecodingError | InvalidDataLength u64
  | OverheadDecodingError | ScalarDecodingError

datatype min_base_fee_update_error = InvalidDataLen nat | PointerDecodingError
  | InvalidDataPointer u64 | LengthDecodingError | InvalidDataLength u64 | MinBaseFeeDecodingError

datatype da_footprint_gas_scalar_update_error = InvalidDataLen nat | PointerDecodingError
  | InvalidDataPointer u64 | LengthDecodingError | InvalidDataLength u64
  | DaFootprintGasScalarDecodingError

datatype gas_limit_update_error = InvalidDataLen nat | PointerDecodingError
  | InvalidDataPointer u64 | LengthDecodingError | InvalidDataLength u64 | GasLimitDecodingError

datatype eip1559_update_error = InvalidDataLen nat | PointerDecodingError
  | InvalidDataPointer u64 | LengthDecodingError | InvalidDataLength u64 | EIP1559DecodingError

datatype operator_fee_update_error = InvalidDataLen nat | PointerDecodingError
  | InvalidDataPointer u64 | LengthDecodingError | InvalidDataLength u64
  | ScalarDecodingError | ConstantDecodingError

datatype system_config_update_error =
    LogProcessing log_processing_error
  | Batcher batcher_update_error
  | GasConfig gas_config_update_error
  | GasLimit gas_limit_update_error
  | Eip1559 eip1559_update_error
  | OperatorFee operator_fee_update_error
  | UnsafeBlockSigner unsafe_block_signer_update_error
  | MinBaseFee min_base_fee_update_error
  | DaFootprintGasScalar da_footprint_gas_scalar_update_error

text \<open>The common validation error of \<^verbatim>\<open>updates/common.rs\<close>.\<close>

datatype validation_error = InvalidDataLen nat nat | PointerDecodingError
  | InvalidDataPointer u64 | LengthDecodingError | InvalidDataLength u64

section \<open>The updates\<close>

definition STANDARD_UPDATE_DATA_LEN :: nat where "STANDARD_UPDATE_DATA_LEN = 96"

definition EXPECTED_POINTER :: u64 where "EXPECTED_POINTER = 32"

definition EXPECTED_DATA_LENGTH :: u64 where "EXPECTED_DATA_LENGTH = 32"

text \<open>\<^verbatim>\<open>validate_update_data\<close>; \<^verbatim>\<open>ValidatedUpdateData\<close> is represented by its payload.\<close>

definition validate_update_data :: "abi \<Rightarrow> bytes \<Rightarrow> validation_error + bytes" where
  "validate_update_data A data =
     (if length data \<noteq> STANDARD_UPDATE_DATA_LEN
      then Inl (validation_error.InvalidDataLen STANDARD_UPDATE_DATA_LEN (length data))
      else case abi_uint64 A (take 32 data) of
        None \<Rightarrow> Inl validation_error.PointerDecodingError
      | Some pointer \<Rightarrow>
          if pointer \<noteq> EXPECTED_POINTER then Inl (validation_error.InvalidDataPointer pointer)
          else case abi_uint64 A (take 32 (drop 32 data)) of
            None \<Rightarrow> Inl validation_error.LengthDecodingError
          | Some len \<Rightarrow>
              if len \<noteq> EXPECTED_DATA_LENGTH then Inl (validation_error.InvalidDataLength len)
              else Inr (drop 64 data))"

record batcher_update = bu_batcher_address :: address

record gas_config_update =
  gcu_scalar :: "b256 option"
  gcu_overhead :: "b256 option"

record gas_limit_update = glu_gas_limit :: u64

record eip1559_update =
  eu_denominator :: u32
  eu_elasticity :: u32

record operator_fee_update =
  ofu_scalar :: u32
  ofu_constant :: u64

record unsafe_block_signer_update = ubs_address :: address

record min_base_fee_update = mbf_min_base_fee :: u64

record da_footprint_gas_scalar_update = dfu_scalar :: u16

section \<open>Decoding a log's data\<close>

fun batcher_error :: "validation_error \<Rightarrow> batcher_update_error" where
  "batcher_error (validation_error.InvalidDataLen expected actual) = batcher_update_error.InvalidDataLen actual"
| "batcher_error validation_error.PointerDecodingError = batcher_update_error.PointerDecodingError"
| "batcher_error (validation_error.InvalidDataPointer pointer) = batcher_update_error.InvalidDataPointer pointer"
| "batcher_error validation_error.LengthDecodingError = batcher_update_error.LengthDecodingError"
| "batcher_error (validation_error.InvalidDataLength len) = batcher_update_error.InvalidDataLength len"

definition batcher_update_try_from :: "abi \<Rightarrow> bytes \<Rightarrow> batcher_update_error + batcher_update" where
  "batcher_update_try_from A data =
     (case validate_update_data A data of
        Inl e \<Rightarrow> Inl (batcher_error e)
      | Inr payload \<Rightarrow>
          (case abi_address A payload of
             None \<Rightarrow> Inl BatcherAddressDecodingError
           | Some a \<Rightarrow> Inr \<lparr>bu_batcher_address = a\<rparr>))"

fun signer_error :: "validation_error \<Rightarrow> unsafe_block_signer_update_error" where
  "signer_error (validation_error.InvalidDataLen expected actual) = unsafe_block_signer_update_error.InvalidDataLen actual"
| "signer_error validation_error.PointerDecodingError = unsafe_block_signer_update_error.PointerDecodingError"
| "signer_error (validation_error.InvalidDataPointer pointer) = unsafe_block_signer_update_error.InvalidDataPointer pointer"
| "signer_error validation_error.LengthDecodingError = unsafe_block_signer_update_error.LengthDecodingError"
| "signer_error (validation_error.InvalidDataLength len) = unsafe_block_signer_update_error.InvalidDataLength len"

definition unsafe_block_signer_update_try_from ::
    "abi \<Rightarrow> bytes \<Rightarrow> unsafe_block_signer_update_error + unsafe_block_signer_update" where
  "unsafe_block_signer_update_try_from A data =
     (case validate_update_data A data of
        Inl e \<Rightarrow> Inl (signer_error e)
      | Inr payload \<Rightarrow>
          (case abi_address A payload of
             None \<Rightarrow> Inl UnsafeBlockSignerAddressDecodingError
           | Some a \<Rightarrow> Inr \<lparr>ubs_address = a\<rparr>))"

text \<open>Bytes of a \<^verbatim>\<open>U256\<close>, as \<^verbatim>\<open>to_be_bytes\<close> gives them.\<close>

definition u256_bytes :: "b256 \<Rightarrow> bytes" where
  "u256_bytes v = be_encode 32 (unat v)"

definition scalar_ok :: "b256 \<Rightarrow> bool" where
  "scalar_ok v = (check_ecotone_l1_system_config_scalar (u256_bytes v) = Inr ())"

definition gas_config_update_try_from ::
    "abi \<Rightarrow> bool \<Rightarrow> bytes \<Rightarrow> gas_config_update_error + gas_config_update" where
  "gas_config_update_try_from A ecotone_active data =
     (if length data \<noteq> 128 then Inl (gas_config_update_error.InvalidDataLen (length data))
      else case abi_uint64 A (take 32 data) of
        None \<Rightarrow> Inl gas_config_update_error.PointerDecodingError
      | Some pointer \<Rightarrow>
          if pointer \<noteq> 32 then Inl (gas_config_update_error.InvalidDataPointer pointer)
          else case abi_uint64 A (take 32 (drop 32 data)) of
            None \<Rightarrow> Inl gas_config_update_error.LengthDecodingError
          | Some len \<Rightarrow>
              if len \<noteq> 64 then Inl (gas_config_update_error.InvalidDataLength len)
              else case abi_uint256 A (take 32 (drop 64 data)) of
                None \<Rightarrow> Inl OverheadDecodingError
              | Some overhead \<Rightarrow>
                  (case abi_uint256 A (drop 96 data) of
                     None \<Rightarrow> Inl gas_config_update_error.ScalarDecodingError
                   | Some scalar \<Rightarrow>
                       if ecotone_active \<and> \<not> scalar_ok scalar
                       then Inr \<lparr>gcu_scalar = None, gcu_overhead = None\<rparr>
                       else Inr \<lparr>gcu_scalar = Some scalar,
                                 gcu_overhead = Some (if ecotone_active then 0 else overhead)\<rparr>))"

definition gas_limit_update_try_from :: "abi \<Rightarrow> bytes \<Rightarrow> gas_limit_update_error + gas_limit_update" where
  "gas_limit_update_try_from A data =
     (if length data \<noteq> 96 then Inl (gas_limit_update_error.InvalidDataLen (length data))
      else case abi_uint64 A (take 32 data) of
        None \<Rightarrow> Inl gas_limit_update_error.PointerDecodingError
      | Some pointer \<Rightarrow>
          if pointer \<noteq> 32 then Inl (gas_limit_update_error.InvalidDataPointer pointer)
          else case abi_uint64 A (take 32 (drop 32 data)) of
            None \<Rightarrow> Inl gas_limit_update_error.LengthDecodingError
          | Some len \<Rightarrow>
              if len \<noteq> 32 then Inl (gas_limit_update_error.InvalidDataLength len)
              else case abi_uint256 A (drop 64 data) of
                None \<Rightarrow> Inl GasLimitDecodingError
              | Some gas_limit \<Rightarrow>
                  if gas_limit > 2 ^ 64 - 1 then Inl GasLimitDecodingError
                  else Inr \<lparr>glu_gas_limit = ucast gas_limit\<rparr>)"

fun eip1559_error :: "validation_error \<Rightarrow> eip1559_update_error" where
  "eip1559_error (validation_error.InvalidDataLen expected actual) = eip1559_update_error.InvalidDataLen actual"
| "eip1559_error validation_error.PointerDecodingError = eip1559_update_error.PointerDecodingError"
| "eip1559_error (validation_error.InvalidDataPointer pointer) = eip1559_update_error.InvalidDataPointer pointer"
| "eip1559_error validation_error.LengthDecodingError = eip1559_update_error.LengthDecodingError"
| "eip1559_error (validation_error.InvalidDataLength len) = eip1559_update_error.InvalidDataLength len"

definition eip1559_update_try_from :: "abi \<Rightarrow> bytes \<Rightarrow> eip1559_update_error + eip1559_update" where
  "eip1559_update_try_from A data =
     (case validate_update_data A data of
        Inl e \<Rightarrow> Inl (eip1559_error e)
      | Inr payload \<Rightarrow>
          (case abi_uint64 A payload of
             None \<Rightarrow> Inl EIP1559DecodingError
           | Some params \<Rightarrow>
               Inr \<lparr>eu_denominator = ucast (drop_bit 32 params), eu_elasticity = ucast params\<rparr>))"

fun operator_fee_error :: "validation_error \<Rightarrow> operator_fee_update_error" where
  "operator_fee_error (validation_error.InvalidDataLen expected actual) = operator_fee_update_error.InvalidDataLen actual"
| "operator_fee_error validation_error.PointerDecodingError = operator_fee_update_error.PointerDecodingError"
| "operator_fee_error (validation_error.InvalidDataPointer pointer) = operator_fee_update_error.InvalidDataPointer pointer"
| "operator_fee_error validation_error.LengthDecodingError = operator_fee_update_error.LengthDecodingError"
| "operator_fee_error (validation_error.InvalidDataLength len) = operator_fee_update_error.InvalidDataLength len"

definition operator_fee_update_try_from ::
    "abi \<Rightarrow> bytes \<Rightarrow> operator_fee_update_error + operator_fee_update" where
  "operator_fee_update_try_from A data =
     (case validate_update_data A data of
        Inl e \<Rightarrow> Inl (operator_fee_error e)
      | Inr payload \<Rightarrow>
          Inr \<lparr>ofu_scalar = word_of_nat (be_decode (take 4 (drop 20 payload))),
               ofu_constant = word_of_nat (be_decode (take 8 (drop 24 payload)))\<rparr>)"

definition min_base_fee_update_try_from :: "abi \<Rightarrow> bytes \<Rightarrow> min_base_fee_update_error + min_base_fee_update" where
  "min_base_fee_update_try_from A data =
     (if length data \<noteq> 96 then Inl (min_base_fee_update_error.InvalidDataLen (length data))
      else case abi_uint64 A (take 32 data) of
        None \<Rightarrow> Inl min_base_fee_update_error.PointerDecodingError
      | Some pointer \<Rightarrow>
          if pointer \<noteq> 32 then Inl (min_base_fee_update_error.InvalidDataPointer pointer)
          else case abi_uint64 A (take 32 (drop 32 data)) of
            None \<Rightarrow> Inl min_base_fee_update_error.LengthDecodingError
          | Some len \<Rightarrow>
              if len \<noteq> 32 then Inl (min_base_fee_update_error.InvalidDataLength len)
              else case abi_uint64 A (take 32 (drop 64 data)) of
                None \<Rightarrow> Inl MinBaseFeeDecodingError
              | Some fee \<Rightarrow> Inr \<lparr>mbf_min_base_fee = fee\<rparr>)"

definition da_footprint_gas_scalar_update_try_from :: "abi \<Rightarrow> bytes \<Rightarrow> da_footprint_gas_scalar_update_error + da_footprint_gas_scalar_update" where
  "da_footprint_gas_scalar_update_try_from A data =
     (if length data \<noteq> 96 then Inl (da_footprint_gas_scalar_update_error.InvalidDataLen (length data))
      else case abi_uint64 A (take 32 data) of
        None \<Rightarrow> Inl da_footprint_gas_scalar_update_error.PointerDecodingError
      | Some pointer \<Rightarrow>
          if pointer \<noteq> 32 then Inl (da_footprint_gas_scalar_update_error.InvalidDataPointer pointer)
          else case abi_uint64 A (take 32 (drop 32 data)) of
            None \<Rightarrow> Inl da_footprint_gas_scalar_update_error.LengthDecodingError
          | Some len \<Rightarrow>
              if len \<noteq> 32 then Inl (da_footprint_gas_scalar_update_error.InvalidDataLength len)
              else case abi_uint16 A (take 32 (drop 64 data)) of
                None \<Rightarrow> Inl DaFootprintGasScalarDecodingError
              | Some scalar \<Rightarrow> Inr \<lparr>dfu_scalar = scalar\<rparr>)"

section \<open>Updates as a whole\<close>

datatype system_config_update_kind = Batcher | GasConfig | GasLimit | UnsafeBlockSigner | Eip1559
  | OperatorFee | MinBaseFee | DaFootprintGasScalar

definition update_kind_of :: "u64 \<Rightarrow> system_config_update_kind option" where
  "update_kind_of ty =
     (if ty = 0 then Some system_config_update_kind.Batcher
      else if ty = 1 then Some system_config_update_kind.GasConfig
      else if ty = 2 then Some system_config_update_kind.GasLimit
      else if ty = 3 then Some system_config_update_kind.UnsafeBlockSigner
      else if ty = 4 then Some system_config_update_kind.Eip1559
      else if ty = 5 then Some system_config_update_kind.OperatorFee
      else if ty = 6 then Some system_config_update_kind.MinBaseFee
      else if ty = 7 then Some system_config_update_kind.DaFootprintGasScalar
      else None)"

datatype system_config_update =
    Batcher batcher_update
  | GasConfig gas_config_update
  | GasLimit gas_limit_update
  | UnsafeBlockSigner unsafe_block_signer_update
  | Eip1559 eip1559_update
  | OperatorFee operator_fee_update
  | MinBaseFee min_base_fee_update
  | DaFootprintGasScalar da_footprint_gas_scalar_update

definition DEFAULT_DA_FOOTPRINT_GAS_SCALAR :: u16 where "DEFAULT_DA_FOOTPRINT_GAS_SCALAR = 400"

definition batcher_update_apply :: "batcher_update \<Rightarrow> system_config \<Rightarrow> system_config" where
  "batcher_update_apply u config = config\<lparr>sc_batcher_address := bu_batcher_address u\<rparr>"

definition gas_config_update_apply :: "gas_config_update \<Rightarrow> system_config \<Rightarrow> system_config" where
  "gas_config_update_apply u config =
     (let config = (case gcu_scalar u of Some s \<Rightarrow> config\<lparr>sc_scalar := s\<rparr> | None \<Rightarrow> config)
      in case gcu_overhead u of Some h \<Rightarrow> config\<lparr>sc_overhead := h\<rparr> | None \<Rightarrow> config)"

definition gas_limit_update_apply :: "gas_limit_update \<Rightarrow> system_config \<Rightarrow> system_config" where
  "gas_limit_update_apply u config = config\<lparr>sc_gas_limit := glu_gas_limit u\<rparr>"

definition eip1559_update_apply :: "eip1559_update \<Rightarrow> system_config \<Rightarrow> system_config" where
  "eip1559_update_apply u config =
     config\<lparr>sc_eip1559_denominator := Some (eu_denominator u),
            sc_eip1559_elasticity := Some (eu_elasticity u)\<rparr>"

definition operator_fee_update_apply :: "operator_fee_update \<Rightarrow> system_config \<Rightarrow> system_config" where
  "operator_fee_update_apply u config =
     config\<lparr>sc_operator_fee_scalar := Some (ofu_scalar u),
            sc_operator_fee_constant := Some (ofu_constant u)\<rparr>"

definition min_base_fee_update_apply :: "min_base_fee_update \<Rightarrow> system_config \<Rightarrow> system_config" where
  "min_base_fee_update_apply u config = config\<lparr>sc_min_base_fee := Some (mbf_min_base_fee u)\<rparr>"

definition da_footprint_gas_scalar_update_apply ::
    "da_footprint_gas_scalar_update \<Rightarrow> system_config \<Rightarrow> system_config" where
  "da_footprint_gas_scalar_update_apply u config =
     config\<lparr>sc_da_footprint_gas_scalar :=
       Some (if dfu_scalar u = 0 then DEFAULT_DA_FOOTPRINT_GAS_SCALAR else dfu_scalar u)\<rparr>"

fun system_config_update_apply :: "system_config_update \<Rightarrow> system_config \<Rightarrow> system_config" where
  "system_config_update_apply (system_config_update.Batcher u) config = batcher_update_apply u config"
| "system_config_update_apply (system_config_update.GasConfig u) config = gas_config_update_apply u config"
| "system_config_update_apply (system_config_update.GasLimit u) config = gas_limit_update_apply u config"
| "system_config_update_apply (system_config_update.UnsafeBlockSigner _) config = config"
| "system_config_update_apply (system_config_update.Eip1559 u) config = eip1559_update_apply u config"
| "system_config_update_apply (system_config_update.OperatorFee u) config = operator_fee_update_apply u config"
| "system_config_update_apply (system_config_update.MinBaseFee u) config = min_base_fee_update_apply u config"
| "system_config_update_apply (system_config_update.DaFootprintGasScalar u) config =
     da_footprint_gas_scalar_update_apply u config"

fun update_kind :: "system_config_update \<Rightarrow> system_config_update_kind" where
  "update_kind (system_config_update.Batcher _) = system_config_update_kind.Batcher"
| "update_kind (system_config_update.GasConfig _) = system_config_update_kind.GasConfig"
| "update_kind (system_config_update.GasLimit _) = system_config_update_kind.GasLimit"
| "update_kind (system_config_update.UnsafeBlockSigner _) = system_config_update_kind.UnsafeBlockSigner"
| "update_kind (system_config_update.Eip1559 _) = system_config_update_kind.Eip1559"
| "update_kind (system_config_update.OperatorFee _) = system_config_update_kind.OperatorFee"
| "update_kind (system_config_update.MinBaseFee _) = system_config_update_kind.MinBaseFee"
| "update_kind (system_config_update.DaFootprintGasScalar _) =
     system_config_update_kind.DaFootprintGasScalar"

section \<open>From logs to updates\<close>

text \<open>\<^verbatim>\<open>SystemConfigLog\<close> pairs a log with the Ecotone flag: the two are separate arguments here.\<close>

definition validate_topic :: "log \<Rightarrow> log_processing_error + unit" where
  "validate_topic l =
     (if length (log_topics l) < 3 then Inl (InvalidTopicLen (length (log_topics l)))
      else if log_topics l ! 0 \<noteq> CONFIG_UPDATE_TOPIC then Inl InvalidTopic
      else Inr ())"

definition validate_version :: "log \<Rightarrow> log_processing_error + unit" where
  "validate_version l =
     (let version = log_topics l ! 1
      in if version \<noteq> CONFIG_UPDATE_EVENT_VERSION_0 then Inl (UnsupportedVersion version) else Inr ())"

definition update_type :: "log \<Rightarrow> system_config_update_error + system_config_update_kind" where
  "update_type l =
     (if length (log_topics l) < 3
      then Inl (LogProcessing (InvalidTopicLen (length (log_topics l))))
      else
        let ty = ucast (log_topics l ! 2)
        in case update_kind_of ty of
             None \<Rightarrow> Inl (LogProcessing (InvalidSystemConfigUpdateType ty))
           | Some kind \<Rightarrow> Inr kind)"

definition build_update :: "abi \<Rightarrow> bool \<Rightarrow> log \<Rightarrow> system_config_update_error + system_config_update" where
  "build_update A ecotone_active l =
     (case validate_topic l of Inl e \<Rightarrow> Inl (LogProcessing e) | Inr _ \<Rightarrow>
      case validate_version l of Inl e \<Rightarrow> Inl (LogProcessing e) | Inr _ \<Rightarrow>
      case update_type l of
        Inl e \<Rightarrow> Inl e
      | Inr kind \<Rightarrow>
          (case kind of
             system_config_update_kind.Batcher \<Rightarrow>
               map_sum system_config_update_error.Batcher system_config_update.Batcher
                 (batcher_update_try_from A (log_data l))
           | system_config_update_kind.GasConfig \<Rightarrow>
               map_sum system_config_update_error.GasConfig system_config_update.GasConfig
                 (gas_config_update_try_from A ecotone_active (log_data l))
           | system_config_update_kind.GasLimit \<Rightarrow>
               map_sum system_config_update_error.GasLimit system_config_update.GasLimit
                 (gas_limit_update_try_from A (log_data l))
           | system_config_update_kind.UnsafeBlockSigner \<Rightarrow>
               map_sum system_config_update_error.UnsafeBlockSigner system_config_update.UnsafeBlockSigner
                 (unsafe_block_signer_update_try_from A (log_data l))
           | system_config_update_kind.Eip1559 \<Rightarrow>
               map_sum system_config_update_error.Eip1559 system_config_update.Eip1559
                 (eip1559_update_try_from A (log_data l))
           | system_config_update_kind.OperatorFee \<Rightarrow>
               map_sum system_config_update_error.OperatorFee system_config_update.OperatorFee
                 (operator_fee_update_try_from A (log_data l))
           | system_config_update_kind.MinBaseFee \<Rightarrow>
               map_sum system_config_update_error.MinBaseFee system_config_update.MinBaseFee
                 (min_base_fee_update_try_from A (log_data l))
           | system_config_update_kind.DaFootprintGasScalar \<Rightarrow>
               map_sum system_config_update_error.DaFootprintGasScalar system_config_update.DaFootprintGasScalar
                 (da_footprint_gas_scalar_update_try_from A (log_data l))))"

definition process_config_update_log ::
    "abi \<Rightarrow> bool \<Rightarrow> log \<Rightarrow> system_config \<Rightarrow>
     system_config \<times> (system_config_update_error + system_config_update_kind)" where
  "process_config_update_log A ecotone_active l config =
     (case build_update A ecotone_active l of
        Inl e \<Rightarrow> (config, Inl e)
      | Inr update \<Rightarrow> (system_config_update_apply update config, Inr (update_kind update)))"

definition is_config_log :: "address \<Rightarrow> log \<Rightarrow> bool" where
  "is_config_log l1_system_config_address l =
     (log_address l = l1_system_config_address \<and> log_topics l \<noteq> [] \<and>
      log_topics l ! 0 = CONFIG_UPDATE_TOPIC)"

text \<open>
  The inner \<^verbatim>\<open>try_for_each\<close> over the logs of a receipt and the outer loop over the receipts; both
  carry the config and the \<^verbatim>\<open>updated\<close> flag.  A failing log ends both loops, and the config keeps
  the updates made before it.
\<close>

fun update_with_logs ::
    "abi \<Rightarrow> address \<Rightarrow> bool \<Rightarrow> log list \<Rightarrow> system_config \<times> bool \<Rightarrow>
     (system_config \<times> bool) \<times> (system_config_update_error + unit)" where
  "update_with_logs A a ecotone_active [] (config, updated) = ((config, updated), Inr ())"
| "update_with_logs A a ecotone_active (l # ls) (config, updated) =
     (if is_config_log a l then
        (case process_config_update_log A ecotone_active l config of
           (config, Inl e) \<Rightarrow> ((config, updated), Inl e)
         | (config, Inr _) \<Rightarrow> update_with_logs A a ecotone_active ls (config, True))
      else update_with_logs A a ecotone_active ls (config, updated))"

fun update_with_receipts_loop ::
    "abi \<Rightarrow> address \<Rightarrow> bool \<Rightarrow> receipt list \<Rightarrow> system_config \<times> bool \<Rightarrow>
     (system_config \<times> bool) \<times> (system_config_update_error + unit)" where
  "update_with_receipts_loop A a ecotone_active [] st = (st, Inr ())"
| "update_with_receipts_loop A a ecotone_active (r # rs) st =
     (if Eip658 False = rcpt_status r then update_with_receipts_loop A a ecotone_active rs st
      else case update_with_logs A a ecotone_active (rcpt_logs r) st of
             (st, Inl e) \<Rightarrow> (st, Inl e)
           | (st, Inr _) \<Rightarrow> update_with_receipts_loop A a ecotone_active rs st)"

definition update_with_receipts ::
    "abi \<Rightarrow> receipt list \<Rightarrow> address \<Rightarrow> bool \<Rightarrow> system_config \<Rightarrow>
     system_config \<times> (system_config_update_error + bool)" where
  "update_with_receipts A receipts l1_system_config_address ecotone_active config =
     (case update_with_receipts_loop A l1_system_config_address ecotone_active receipts (config, False) of
        ((config, _), Inl e) \<Rightarrow> (config, Inl e)
      | ((config, updated), Inr _) \<Rightarrow> (config, Inr updated))"

text \<open>\<^verbatim>\<open>eip_1559_params\<close>: a \<^verbatim>\<open>B64\<close>, denominator first.\<close>

definition eip_1559_params :: "system_config \<Rightarrow> rollup_config \<Rightarrow> u64 \<Rightarrow> u64 \<Rightarrow> u64 option" where
  "eip_1559_params config cfg parent_timestamp next_timestamp =
     (let is_holocene = is_holocene_active cfg next_timestamp
      in if is_holocene \<and> \<not> is_holocene_active cfg parent_timestamp then Some 0
         else if is_holocene
           then Some (word_of_nat (be_decode
             (be_encode 4 (unat (case sc_eip1559_denominator config of Some d \<Rightarrow> d | None \<Rightarrow> 0)) @
              be_encode 4 (unat (case sc_eip1559_elasticity config of Some e \<Rightarrow> e | None \<Rightarrow> 0)))))
           else None)"

section \<open>Receipts as one sequence of config logs\<close>

text \<open>The specification: the config logs of the successful receipts, in order.\<close>

definition config_logs :: "address \<Rightarrow> receipt list \<Rightarrow> log list" where
  "config_logs a receipts =
     filter (is_config_log a) (concat (map rcpt_logs (filter (\<lambda>r. rcpt_status r \<noteq> Eip658 False) receipts)))"

fun apply_logs :: "abi \<Rightarrow> bool \<Rightarrow> log list \<Rightarrow> system_config \<Rightarrow> system_config \<times> system_config_update_error option" where
  "apply_logs A ecotone_active [] config = (config, None)"
| "apply_logs A ecotone_active (l # ls) config =
     (case build_update A ecotone_active l of
        Inl e \<Rightarrow> (config, Some e)
      | Inr update \<Rightarrow> apply_logs A ecotone_active ls (system_config_update_apply update config))"

lemma apply_logs_append:
  "apply_logs A eco (xs @ ys) config =
     (case apply_logs A eco xs config of
        (c, Some e) \<Rightarrow> (c, Some e)
      | (c, None) \<Rightarrow> apply_logs A eco ys c)"
  by (induction xs arbitrary: config) (auto split: sum.splits)

text \<open>What a run of either loop amounts to: the final config with the error, if any.\<close>

definition outcome :: "(system_config \<times> bool) \<times> (system_config_update_error + unit) \<Rightarrow>
    system_config \<times> system_config_update_error option" where
  "outcome r = (fst (fst r), case snd r of Inl e \<Rightarrow> Some e | Inr _ \<Rightarrow> None)"

lemma update_with_logs_outcome:
  "outcome (update_with_logs A a eco ls (config, upd)) =
     apply_logs A eco (filter (is_config_log a) ls) config"
  by (induction ls arbitrary: config upd)
    (auto simp: outcome_def process_config_update_log_def split: sum.splits)

lemma update_with_logs_updated:
  "snd (update_with_logs A a eco ls (config, upd)) = Inr () \<Longrightarrow>
   snd (fst (update_with_logs A a eco ls (config, upd))) = (upd \<or> filter (is_config_log a) ls \<noteq> [])"
  by (induction ls arbitrary: config upd)
    (auto simp: process_config_update_log_def split: sum.splits)

lemma outcome_cases:
  "outcome r = (c, None) \<longleftrightarrow> (\<exists>upd. r = ((c, upd), Inr ()))"
  "outcome r = (c, Some e) \<longleftrightarrow> (\<exists>upd. r = ((c, upd), Inl e))"
  by (auto simp: outcome_def prod_eq_iff split: sum.splits)

lemma config_logs_Cons:
  "config_logs a (r # rs) =
     (if rcpt_status r = Eip658 False then [] else filter (is_config_log a) (rcpt_logs r)) @ config_logs a rs"
  by (simp add: config_logs_def)

lemma update_with_receipts_loop_eq:
  "case apply_logs A eco (config_logs a rs) config of
     (c, Some e) \<Rightarrow> \<exists>u. update_with_receipts_loop A a eco rs (config, upd) = ((c, u), Inl e)
   | (c, None) \<Rightarrow> update_with_receipts_loop A a eco rs (config, upd) =
       ((c, upd \<or> config_logs a rs \<noteq> []), Inr ())"
proof (induction rs arbitrary: config upd)
  case Nil
  then show ?case by (simp add: config_logs_def)
next
  case (Cons r rs)
  show ?case
  proof (cases "rcpt_status r = Eip658 False")
    case True
    then show ?thesis
      using Cons.IH [of config upd] by (auto simp: config_logs_Cons split: prod.splits option.splits)
  next
    case False
    let ?run = "update_with_logs A a eco (rcpt_logs r) (config, upd)"
    have out: "outcome ?run = apply_logs A eco (filter (is_config_log a) (rcpt_logs r)) config"
      by (rule update_with_logs_outcome)
    obtain c err where "outcome ?run = (c, err)" by fastforce
    then consider (ok) upd' where "?run = ((c, upd'), Inr ())" "err = None"
      | (fail) upd' e where "?run = ((c, upd'), Inl e)" "err = Some e"
      by (cases err) (auto simp: outcome_cases)
    then show ?thesis
    proof cases
      case ok
      then have "upd' = (upd \<or> filter (is_config_log a) (rcpt_logs r) \<noteq> [])"
        using update_with_logs_updated [of A a eco "rcpt_logs r" config upd] by simp
      with ok False out Cons.IH [of c upd'] show ?thesis
        by (auto simp: config_logs_Cons apply_logs_append outcome_def split: prod.splits option.splits)
    next
      case fail
      with False out show ?thesis
        by (auto simp: config_logs_Cons apply_logs_append outcome_def split: prod.splits)
    qed
  qed
qed

section \<open>What an update can install\<close>

definition params_ok :: "system_config \<Rightarrow> bool" where
  "params_ok config \<longleftrightarrow> scalar_ok (sc_scalar config) \<and> sc_da_footprint_gas_scalar config \<noteq> Some 0"

lemmas update_apply_defs = batcher_update_apply_def gas_config_update_apply_def
  gas_limit_update_apply_def eip1559_update_apply_def operator_fee_update_apply_def
  min_base_fee_update_apply_def da_footprint_gas_scalar_update_apply_def

lemma gas_config_update_valid:
  assumes "gas_config_update_try_from A True data = Inr u"
  shows "case gcu_scalar u of None \<Rightarrow> gcu_overhead u = None | Some s \<Rightarrow> scalar_ok s \<and> gcu_overhead u = Some 0"
  using assms by (auto simp: gas_config_update_try_from_def split: if_splits option.splits)

lemma map_sum_Inr: "map_sum f g x = Inr y \<longleftrightarrow> (\<exists>z. x = Inr z \<and> y = g z)"
  by (cases x) auto

lemma build_update_GasConfig:
  "build_update A eco l = Inr (system_config_update.GasConfig u) \<Longrightarrow>
   gas_config_update_try_from A eco (log_data l) = Inr u"
  by (auto simp: build_update_def map_sum_Inr split: sum.splits system_config_update_kind.splits)

lemma apply_params_ok:
  assumes "build_update A True l = Inr u" and "params_ok config"
  shows "params_ok (system_config_update_apply u config)"
proof (cases u)
  case (GasConfig g)
  with assms show ?thesis
    using gas_config_update_valid [OF build_update_GasConfig]
    by (fastforce simp: params_ok_def gas_config_update_apply_def Let_def split: option.splits)
qed (use assms in \<open>simp_all add: params_ok_def update_apply_defs DEFAULT_DA_FOOTPRINT_GAS_SCALAR_def\<close>)

lemma apply_logs_params_ok: "params_ok config \<Longrightarrow> params_ok (fst (apply_logs A True ls config))"
  by (induction ls arbitrary: config) (auto simp: apply_params_ok split: sum.splits)

lemma update_with_receipts_apply:
  "update_with_receipts A receipts a eco config =
     (case apply_logs A eco (config_logs a receipts) config of
        (c, Some e) \<Rightarrow> (c, Inl e)
      | (c, None) \<Rightarrow> (c, Inr (config_logs a receipts \<noteq> [])))"
  using update_with_receipts_loop_eq [where A = A and eco = eco and a = a and rs = receipts and config = config and upd = False]
  by (auto simp: update_with_receipts_def split: prod.splits option.splits)

section \<open>The ABI decoder\<close>

text \<open>
  What the ABI specification says of decoding one 32-byte word: an integer type takes the big-endian
  value if it fits its width and an address the low 160 bits if the rest is zero.
\<close>

definition fits :: "nat \<Rightarrow> bytes \<Rightarrow> bool" where
  "fits w bs \<longleftrightarrow> length bs = 32 \<and> be_decode bs < 2 ^ w"

definition abi_laws :: "abi \<Rightarrow> bool" where
  "abi_laws A \<longleftrightarrow> (\<forall>bs. length bs = 32 \<longrightarrow>
     abi_uint16 A bs = (if fits 16 bs then Some (word_of_nat (be_decode bs)) else None) \<and>
     abi_uint64 A bs = (if fits 64 bs then Some (word_of_nat (be_decode bs)) else None) \<and>
     abi_uint256 A bs = Some (word_of_nat (be_decode bs)) \<and>
     abi_address A bs = (if fits 160 bs then Some (word_of_nat (be_decode bs)) else None))"

definition word_abi :: abi where
  "word_abi = \<lparr>
     abi_uint16 = (\<lambda>bs. if fits 16 bs then Some (word_of_nat (be_decode bs)) else None),
     abi_uint64 = (\<lambda>bs. if fits 64 bs then Some (word_of_nat (be_decode bs)) else None),
     abi_uint256 = (\<lambda>bs. if fits 256 bs then Some (word_of_nat (be_decode bs)) else None),
     abi_address = (\<lambda>bs. if fits 160 bs then Some (word_of_nat (be_decode bs)) else None)\<rparr>"

lemma word_abi_laws: "abi_laws word_abi"
proof -
  have "be_decode bs < 2 ^ 256" if "length bs = 32" for bs
    using be_decode_bound [of bs] that by simp
  then show ?thesis by (simp add: abi_laws_def word_abi_def fits_def)
qed

text \<open>A config log carrying one 32-byte value, as the contract emits it.\<close>

definition value_log :: "address \<Rightarrow> u64 \<Rightarrow> nat \<Rightarrow> log" where
  "value_log a ty v =
     \<lparr>log_address = a, log_topics = [CONFIG_UPDATE_TOPIC, CONFIG_UPDATE_EVENT_VERSION_0, ucast ty],
      log_data = be_encode 32 32 @ be_encode 32 32 @ be_encode 32 v\<rparr>"

lemma be_decode_word32: "be_decode (be_encode 32 v) = v mod 2 ^ 256"
  by (simp add: be_decode_encode)

lemma value_log_parts [simp]:
  "length (log_data (value_log a ty v)) = 96"
  "take 32 (log_data (value_log a ty v)) = be_encode 32 32"
  "take 32 (drop 32 (log_data (value_log a ty v))) = be_encode 32 32"
  "drop 64 (log_data (value_log a ty v)) = be_encode 32 v"
  by (simp_all add: value_log_def)

lemma abi_laws_word32:
  assumes "abi_laws A" and "v < 2 ^ 256"
  shows "abi_uint64 A (be_encode 32 v) = (if v < 2 ^ 64 then Some (word_of_nat v) else None)"
    and "abi_uint256 A (be_encode 32 v) = Some (word_of_nat v)"
  using assms by (simp_all add: abi_laws_def fits_def be_decode_word32)

lemma update_type_value_log: "update_type (value_log a ty v) =
    (case update_kind_of ty of None \<Rightarrow> Inl (LogProcessing (InvalidSystemConfigUpdateType ty)) | Some k \<Rightarrow> Inr k)"
proof -
  have "ucast (ucast ty :: b256) = ty"
    by (rule ucast_up_ucast_id) (simp add: is_up)
  then show ?thesis by (simp add: update_type_def value_log_def Let_def)
qed

lemma value_log_valid [simp]:
  "validate_topic (value_log a ty v) = Inr ()" "validate_version (value_log a ty v) = Inr ()"
  by (simp_all add: validate_topic_def validate_version_def value_log_def)

lemma validate_value_log:
  "abi_laws A \<Longrightarrow> validate_update_data A (log_data (value_log a ty v)) = Inr (be_encode 32 v)"
  by (simp add: validate_update_data_def STANDARD_UPDATE_DATA_LEN_def EXPECTED_POINTER_def
      EXPECTED_DATA_LENGTH_def abi_laws_word32)

lemma build_eip1559:
  assumes "abi_laws A"
  shows "build_update A eco (value_log a 4 (unat (p :: u64))) =
    Inr (system_config_update.Eip1559 \<lparr>eu_denominator = ucast (drop_bit 32 p), eu_elasticity = ucast p\<rparr>)"
proof -
  have p: "unat p < 2 ^ 64" using unsigned_less [of p, where 'a = nat] by simp
  then have "abi_uint64 A (be_encode 32 (unat p)) = Some p"
    using abi_laws_word32(1) [OF assms, of "unat p"] by simp
  with assms show ?thesis
    by (simp add: build_update_def update_type_value_log update_kind_of_def eip1559_update_try_from_def
        validate_value_log)
qed

lemma join_halves: "word_of_nat (be_decode (be_encode 4 (unat (ucast (drop_bit 32 p) :: u32)) @
    be_encode 4 (unat (ucast p :: u32)))) = (p :: u64)"
proof -
  have p: "unat p < 2 ^ 64" using unsigned_less [of p, where 'a = nat] by simp
  have hi: "unat (ucast (drop_bit 32 p) :: u32) = unat p div 2 ^ 32"
  proof -
    have "unat p div 2 ^ 32 < 2 ^ 32" using p by (simp add: less_mult_imp_div_less)
    then show ?thesis
      by (simp add: unsigned_ucast_eq take_bit_eq_mod drop_bit_eq_div unat_div)
  qed
  have lo: "unat (ucast p :: u32) = unat p mod 2 ^ 32"
    by (simp add: unsigned_ucast_eq take_bit_eq_mod)
  have "unat p div 2 ^ 32 mod 256 ^ 4 * 256 ^ 4 + unat p mod 2 ^ 32 mod 256 ^ 4 = unat p"
    using p by (simp add: less_mult_imp_div_less)
  then show ?thesis
    unfolding be_decode_append hi lo by (simp add: be_decode_encode)
qed

section \<open>Properties\<close>

text \<open>
  C5. The receipts of a block act as one sequence: the config logs of its successful receipts, in
  order, each decoded and applied to the config the previous ones left.  The first log that fails
  to decode ends the update with its error, the config keeping what was applied before; without
  a failure the result says whether there was a config log at all.
\<close>

theorem update_with_receipts_refines:
  "update_with_receipts A receipts a eco config =
     (case apply_logs A eco (config_logs a receipts) config of
        (c, Some e) \<Rightarrow> (c, Inl e)
      | (c, None) \<Rightarrow> (c, Inr (config_logs a receipts \<noteq> [])))"
  by (rule update_with_receipts_apply)

text \<open>
  With Ecotone active, whatever the receipts and the decoder, and whether or not the update
  fails half-way: a fee scalar that Ecotone's format admits is never replaced by one that it
  forbids, and the DA footprint gas scalar is never set to zero.
\<close>

lemma update_keeps_params_ok:
  "params_ok config \<Longrightarrow> params_ok (fst (update_with_receipts A receipts a True config))"
  using apply_logs_params_ok [of config A "config_logs a receipts"]
  by (auto simp: update_with_receipts_apply split: prod.splits option.splits)

lemma be_encode_0: "be_encode k 0 = replicate k 0"
  by (induction k) (simp_all add: replicate_append_same)

lemma update_keeps_params_ok_witness:
  "params_ok (fst (update_with_receipts word_abi
     [\<lparr>rcpt_status = Eip658 True, rcpt_logs = [value_log 5 7 0]\<rparr>] 5 True default_system_config))"
proof (rule update_keeps_params_ok)
  show "params_ok default_system_config"
    by (simp add: params_ok_def scalar_ok_def u256_bytes_def default_system_config_def
        check_ecotone_l1_system_config_scalar_def be_encode_0)
qed

text \<open>
  An EIP-1559 update reaches block building unchanged: once a log carrying the 64-bit
  parameter word is applied, every Holocene block but the first gets exactly that word as its
  EIP-1559 parameters.
\<close>

lemma eip1559_roundtrip:
  assumes "abi_laws A" and "is_holocene_active cfg parent_ts" and "is_holocene_active cfg next_ts"
  shows "map_sum id (\<lambda>u. eip_1559_params (system_config_update_apply u config) cfg parent_ts next_ts)
     (build_update A eco (value_log a 4 (unat p))) = Inr (Some p)"
  using assms by (simp add: build_eip1559 eip1559_update_apply_def eip_1559_params_def join_halves)

lemma eip1559_roundtrip_witness:
  "map_sum id (\<lambda>u. eip_1559_params (system_config_update_apply u default_system_config)
      example_config 100 102) (build_update word_abi True (value_log 5 4 (unat (0x000000fa00000006 :: u64)))) =
   Inr (Some 0x000000fa00000006)"
  by (rule eip1559_roundtrip)
    (simp_all add: word_abi_laws cfg_defs reached_def example_config_defs)

end
