(* ===== verification/Pipeline_Types.thy ===== *)
theory Pipeline_Types
  imports Blocks System_Config
begin

text \<open>
  The vocabulary of the derivation pipeline, \<^verbatim>\<open>crates/protocol/derive/src/{errors,types,traits}\<close>:
  errors with their severity, signals, step results, and the interfaces by which each stage calls
  the stage before it.

  A stage method takes the stage by \<^verbatim>\<open>&mut self\<close> and returns \<^verbatim>\<open>PipelineResult\<close>: here it takes the
  state and returns the new state with a \<open>pres\<close>, which has a third case for a panic (an
  \<^verbatim>\<open>expect\<close> that fails).  A Rust trait bound \<^verbatim>\<open>P: SomeProvider\<close> is a record of operations on the
  state type, passed as an argument: \<open>stage\<close> for the methods every stage has, extended by the
  provider records of the individual stages.  The operator \<open>pbind\<close> is Rust's \<^verbatim>\<open>?\<close>.

  The locale \<open>stage_contract\<close> is the contract of origins that the pipeline relies on; every stage
  is shown to keep it when the stage before it does.
\<close>

section \<open>Errors\<close>

datatype deposit_error = UnexpectedTopicsLen nat | InvalidSelector b256 b256
  | IncompleteOpaqueData nat | UnalignedData nat | FromDecode b256 | ToDecode b256
  | InvalidOpaqueDataOffset bytes | InvalidOpaqueDataLength bytes | OpaqueDataOverflow nat nat
  | PaddedOpaqueDataOverflow nat nat | InvalidVersion b256 | UnexpectedOpaqueDataLen nat
  | MintDecode bytes | GasDecode bytes

datatype span_decoding_error = RelativeTimestamp | L1OriginNumber | ParentCheck | L1OriginCheck
  | BlockCount | BlockTxCounts | TxNonces | TypeSignatureLenMismatch | InvalidTransactionType
  | InvalidTransactionData | InvalidTransactionSignature

datatype span_batch_error = TooBigSpanBatchSize | BitfieldTooLong | EmptySpanBatch
  | MissingL1Origin | Decoding span_decoding_error

text \<open>An \<^verbatim>\<open>alloy_rlp::Error\<close> is only carried along; its message stands for it.\<close>

datatype pipeline_encoding_error = EmptyBuffer | DepositError deposit_error
  | AlloyRlpError string | SpanBatchError span_batch_error

datatype builder_error = BlockMismatch block_num_hash block_num_hash
  | BlockMismatchEpochReset block_num_hash block_num_hash b256
  | SystemConfigUpdate
  | BrokenTimeInvariant block_num_hash u64 block_num_hash u64
  | AttributesUnavailable
  | Custom string

datatype pipeline_error = Eof | NotEnoughData | ChannelProviderEmpty | ChannelAlreadyBuilt
  | ChannelNotFound | ChannelReaderEmpty | BatchQueueEmpty | MissingOrigin | MissingL1Data
  | InvalidBatchType | InvalidBatchValidity
  | SystemConfigUpdate system_config_update_error
  | AttributesBuilder builder_error
  | BadEncoding pipeline_encoding_error
  | EndOfSource
  | Provider string
  | UnsupportedSignal

datatype reset_error = BadParentHash b256 b256 | BadTimestamp u64 u64 | L1OriginMismatch u64 u64
  | ReorgDetected b256 b256 | AttributesBuilder builder_error | HoloceneActivation
  | NextL1BlockHashMismatch b256 b256

datatype pipeline_error_kind = Temporary pipeline_error | Critical pipeline_error
  | Reset reset_error

abbreviation temp :: "pipeline_error \<Rightarrow> pipeline_error_kind" where "temp \<equiv> Temporary"

abbreviation crit :: "pipeline_error \<Rightarrow> pipeline_error_kind" where "crit \<equiv> Critical"

section \<open>Signals\<close>

record reset_signal =
  rs_l2_safe_head :: l2_block_info
  rs_l1_origin :: block_info
  rs_system_config :: "system_config option"

record activation_signal =
  as_l2_safe_head :: l2_block_info
  as_l1_origin :: block_info
  as_system_config :: "system_config option"

datatype signal = Reset reset_signal | Activation activation_signal | FlushChannel
  | ProvideBlock block_info

fun with_system_config :: "signal \<Rightarrow> system_config \<Rightarrow> signal" where
  "with_system_config (signal.Reset r) c = signal.Reset (r\<lparr>rs_system_config := Some c\<rparr>)"
| "with_system_config (Activation a) c = Activation (a\<lparr>as_system_config := Some c\<rparr>)"
| "with_system_config FlushChannel c = FlushChannel"
| "with_system_config (ProvideBlock b) c = ProvideBlock b"

datatype step_result = PreparedAttributes | AdvancedOrigin | OriginAdvanceErr pipeline_error_kind
  | StepFailed pipeline_error_kind

text \<open>The origin and the system config that a resetting signal carries.\<close>

fun signal_origin :: "signal \<Rightarrow> block_info option" where
  "signal_origin (signal.Reset r) = Some (rs_l1_origin r)"
| "signal_origin (Activation a) = Some (as_l1_origin a)"
| "signal_origin _ = None"

fun signal_system_config :: "signal \<Rightarrow> system_config option" where
  "signal_system_config (signal.Reset r) = rs_system_config r"
| "signal_system_config (Activation a) = as_system_config a"
| "signal_system_config _ = None"

lemma signal_origin_with_system_config [simp]:
  "signal_origin (with_system_config s c) = signal_origin s"
  by (cases s) simp_all

section \<open>Results\<close>

datatype 'a pres = Ok 'a | Err pipeline_error_kind | Panicked

text \<open>\<open>via\<close> puts the state a called component returns back into the caller's state.\<close>

definition via :: "('p \<Rightarrow> 's) \<Rightarrow> 'p \<times> 'a pres \<Rightarrow> 's \<times> 'a pres" where
  "via put r = (put (fst r), snd r)"

definition pbind :: "'s \<times> 'a pres \<Rightarrow> ('s \<Rightarrow> 'a \<Rightarrow> 's \<times> 'b pres) \<Rightarrow> 's \<times> 'b pres" where
  "pbind r k = (case r of (s, Ok a) \<Rightarrow> k s a | (s, Err e) \<Rightarrow> (s, Err e) | (s, Panicked) \<Rightarrow> (s, Panicked))"

lemma via_simp [simp]: "via put (p, r) = (put p, r)"
  by (simp add: via_def)

lemma via_eq_Ok: "via put r = (s, Ok a) \<longleftrightarrow> (\<exists>p. r = (p, Ok a) \<and> s = put p)"
  by (cases r) auto

lemma pbind_simps [simp]:
  "pbind (s, Ok a) k = k s a" "pbind (s, Err e) k = (s, Err e)" "pbind (s, Panicked) k = (s, Panicked)"
  by (simp_all add: pbind_def)

lemma pbind_eq_Ok: "pbind r k = (t, Ok b) \<longleftrightarrow> (\<exists>s a. r = (s, Ok a) \<and> k s a = (t, Ok b))"
  by (cases r; cases "snd r") auto

lemma pbind_cases:
  obtains (Ok) s a where "r = (s, Ok a)" "pbind r k = k s a"
  | (Err) s e where "r = (s, Err e)" "pbind r k = (s, Err e)"
  | (Panicked) s where "r = (s, Panicked)" "pbind r k = (s, Panicked)"
  by (cases r; cases "snd r") auto

text \<open>\<^verbatim>\<open>ok_or\<close> and a failing \<^verbatim>\<open>expect\<close>.\<close>

definition ok_or :: "'s \<Rightarrow> 'a option \<Rightarrow> pipeline_error_kind \<Rightarrow> 's \<times> 'a pres" where
  "ok_or s v e = (s, case v of Some a \<Rightarrow> Ok a | None \<Rightarrow> Err e)"

lemma ok_or_simps [simp]: "ok_or s (Some a) e = (s, Ok a)" "ok_or s None e = (s, Err e)"
  by (simp_all add: ok_or_def)

section \<open>Stages\<close>

text \<open>\<^verbatim>\<open>OriginProvider\<close>, \<^verbatim>\<open>OriginAdvancer\<close> and \<^verbatim>\<open>SignalReceiver\<close>.\<close>

record 'p stage =
  stg_origin :: "'p \<Rightarrow> block_info option"
  stg_advance_origin :: "'p \<Rightarrow> 'p \<times> unit pres"
  stg_signal :: "'p \<Rightarrow> signal \<Rightarrow> 'p \<times> unit pres"

text \<open>A block and its child, by hash.\<close>

definition linked :: "block_info option \<Rightarrow> block_info option \<Rightarrow> bool" where
  "linked b b' \<longleftrightarrow> (\<exists>x y. b = Some x \<and> b' = Some y \<and> bi_parent_hash y = bi_hash x)"

text \<open>
  What every stage promises of its origin, in states that satisfy its invariant: a stage that has
  an origin keeps having one; a reset or activation that carries a system config succeeds on it
  and moves the origin to the one carried; a flush leaves the origin where it is; advancing, or
  being provided a block, leaves it or moves it to a child block.  Every operation keeps the
  invariant.
\<close>

locale stage_contract =
  fixes S :: "('p, 'z) stage_scheme" and I :: "'p \<Rightarrow> bool"
  assumes reset_ok: "I p \<Longrightarrow> stg_origin S p = Some old \<Longrightarrow> signal_origin s = Some b \<Longrightarrow>
      signal_system_config s = Some c \<Longrightarrow>
      \<exists>p'. stg_signal S p s = (p', Ok ()) \<and> stg_origin S p' = Some b"
    and flush_ok: "I p \<Longrightarrow> stg_origin S p = Some old \<Longrightarrow>
      \<exists>p'. stg_signal S p FlushChannel = (p', Ok ()) \<and> stg_origin S p' = Some old"
    and provide_linked: "I p \<Longrightarrow>
      stg_origin S (fst (stg_signal S p (ProvideBlock x))) = stg_origin S p \<or>
      linked (stg_origin S p) (stg_origin S (fst (stg_signal S p (ProvideBlock x))))"
    and advance_linked: "I p \<Longrightarrow>
      stg_origin S (fst (stg_advance_origin S p)) = stg_origin S p \<or>
      linked (stg_origin S p) (stg_origin S (fst (stg_advance_origin S p)))"
    and advance_safe: "I p \<Longrightarrow> snd (stg_advance_origin S p) \<noteq> Panicked"
    and advance_inv: "I p \<Longrightarrow> I (fst (stg_advance_origin S p))"
    and signal_inv: "I p \<Longrightarrow> I (fst (stg_signal S p s))"

text \<open>
  The stages above the first share one shape: origin and advancing are those of the previous
  stage, and a signal goes to the previous stage first.  The invariant is that of the previous
  stage together with one of the stage's own.
\<close>

lemma stage_contract_lift:
  fixes prev :: "'s \<Rightarrow> 'p"
  assumes S: "stage_contract S I"
    and origin: "\<And>s. stg_origin T s = stg_origin S (prev s)"
    and advance: "\<And>s. prev (fst (stg_advance_origin T s)) = fst (stg_advance_origin S (prev s))"
      "\<And>s. snd (stg_advance_origin T s) = snd (stg_advance_origin S (prev s))"
    and sig: "\<And>s x. prev (fst (stg_signal T s x)) = fst (stg_signal S (prev s) x) \<or>
        x = FlushChannel \<and> prev (fst (stg_signal T s x)) = prev s"
      "\<And>s x. snd (stg_signal S (prev s) x) = Ok () \<Longrightarrow> snd (stg_signal T s x) = Ok ()"
    and own: "\<And>s. own s \<Longrightarrow> own (fst (stg_advance_origin T s))"
      "\<And>s x. own s \<Longrightarrow> own (fst (stg_signal T s x))"
  shows "stage_contract T (\<lambda>s. I (prev s) \<and> own s)"
proof
  fix s b c old and p :: 's
  assume p: "I (prev p) \<and> own p" and "stg_origin T p = Some old"
    and s: "signal_origin s = Some b" "signal_system_config s = Some c"
  then have "stg_origin S (prev p) = Some old" by (simp add: origin)
  from stage_contract.reset_ok [OF S conjunct1 [OF p] this s]
  show "\<exists>p'. stg_signal T p s = (p', Ok ()) \<and> stg_origin T p' = Some b"
    using sig(1) [of p s] sig(2) [of p s] s(1) by (cases "stg_signal T p s") (auto simp: origin)
next
  fix old and p :: 's
  assume p: "I (prev p) \<and> own p" and "stg_origin T p = Some old"
  then have "stg_origin S (prev p) = Some old" by (simp add: origin)
  with stage_contract.flush_ok [OF S conjunct1 [OF p] this] sig(1) [of p FlushChannel] sig(2) [of p FlushChannel]
  show "\<exists>p'. stg_signal T p FlushChannel = (p', Ok ()) \<and> stg_origin T p' = Some old"
    by (cases "stg_signal T p FlushChannel") (auto simp: origin)
next
  fix x and p :: 's
  assume p: "I (prev p) \<and> own p"
  have "prev (fst (stg_signal T p (ProvideBlock x))) = fst (stg_signal S (prev p) (ProvideBlock x))"
    using sig(1) [of p "ProvideBlock x"] by simp
  with p show "stg_origin T (fst (stg_signal T p (ProvideBlock x))) = stg_origin T p \<or>
      linked (stg_origin T p) (stg_origin T (fst (stg_signal T p (ProvideBlock x))))"
    by (simp add: origin stage_contract.provide_linked [OF S])
next
  fix s and p :: 's
  assume "I (prev p) \<and> own p"
  then show "I (prev (fst (stg_signal T p s))) \<and> own (fst (stg_signal T p s))"
    using stage_contract.signal_inv [OF S, of "prev p" s] sig(1) [of p s] own(2) by auto
qed (simp_all add: origin advance own stage_contract.advance_linked [OF S]
    stage_contract.advance_safe [OF S] stage_contract.advance_inv [OF S])

lemma stage_contract_lift_prev:
  fixes prev :: "'s \<Rightarrow> 'p"
  assumes "stage_contract S I"
    and "\<And>s. stg_origin T s = stg_origin S (prev s)"
    and "\<And>s. prev (fst (stg_advance_origin T s)) = fst (stg_advance_origin S (prev s))"
      "\<And>s. snd (stg_advance_origin T s) = snd (stg_advance_origin S (prev s))"
    and "\<And>s x. prev (fst (stg_signal T s x)) = fst (stg_signal S (prev s) x) \<or>
        x = FlushChannel \<and> prev (fst (stg_signal T s x)) = prev s"
      "\<And>s x. snd (stg_signal S (prev s) x) = Ok () \<Longrightarrow> snd (stg_signal T s x) = Ok ()"
  shows "stage_contract T (\<lambda>s. I (prev s))"
  using stage_contract_lift [where own = "\<lambda>_. True", OF assms] by simp

text \<open>
  A pull operation of a stage: it may change the stage but not the origin.  Only
  \<^verbatim>\<open>advance_origin\<close> and signals move the origin.
\<close>

locale stable_pull = stage_contract +
  fixes pull :: "'q \<Rightarrow> 'a \<Rightarrow> 'a \<times> 'r pres"
  assumes pull_origin: "I p \<Longrightarrow> stg_origin S (fst (pull q p)) = stg_origin S p"
    and pull_inv: "I p \<Longrightarrow> I (fst (pull q p))"

text \<open>A pull that, besides, never panics.\<close>

locale safe_pull = stable_pull +
  assumes pull_safe: "I p \<Longrightarrow> snd (pull q p) \<noteq> Panicked"

end
