(* ===== verification/Traversal.thy ===== *)
theory Traversal
  imports Pipeline_Types
begin

text \<open>
  L1 traversal, \<^verbatim>\<open>crates/protocol/derive/src/stages/traversal\<close>: the bottom stage, which holds the
  current L1 origin and keeps the system config up to date.  \<^verbatim>\<open>PollingTraversal\<close> fetches the next
  block itself; \<^verbatim>\<open>IndexedTraversal\<close> is given it by a signal.

  The chain provider is a parameter: a record of operations on a provider state, whose errors are
  already the pipeline errors the code converts them to (\<^verbatim>\<open>map_err(Into::into)\<close>).

  Shown: the origin only ever moves to a child of the current origin (by hash) or to the origin
  of a reset; exactly when advancing succeeds or reports the Holocene activation; both stages
  meet the contract of a stage.
\<close>

section \<open>The chain provider\<close>

record 'f chain_provider =
  cp_block_info_by_number :: "'f \<Rightarrow> u64 \<Rightarrow> 'f \<times> (pipeline_error_kind + block_info)"
  cp_receipts_by_hash :: "'f \<Rightarrow> b256 \<Rightarrow> 'f \<times> (pipeline_error_kind + receipt list)"

definition of_result :: "'f \<times> (pipeline_error_kind + 'a) \<Rightarrow> 'f \<times> 'a pres" where
  "of_result r = (fst r, case snd r of Inl e \<Rightarrow> Err e | Inr a \<Rightarrow> Ok a)"

lemma of_result_Ok: "of_result r = (f, Ok a) \<longleftrightarrow> r = (f, Inr a)"
  by (cases "snd r") (auto simp: of_result_def prod_eq_iff)

lemma of_result_simps [simp]:
  "of_result (p, Inl e) = (p, Err e)" "of_result (p, Inr a) = (p, Ok a)"
  by (simp_all add: of_result_def)

lemma of_result_cases:
  obtains (Err) p e where "r = (p, Inl e)" "of_result r = (p, Err e)"
  | (Ok) p a where "r = (p, Inr a)" "of_result r = (p, Ok a)"
  by (cases r; cases "snd r") auto

section \<open>Polling traversal\<close>

record 'f polling_traversal =
  pt_block :: "block_info option"
  pt_data_source :: 'f
  pt_done :: bool
  pt_system_config :: system_config
  pt_rollup_config :: rollup_config

definition polling_new :: "'f \<Rightarrow> rollup_config \<Rightarrow> 'f polling_traversal" where
  "polling_new data_source cfg =
     \<lparr>pt_block = Some default_block_info, pt_data_source = data_source, pt_done = False,
      pt_system_config = default_system_config, pt_rollup_config = cfg\<rparr>"

definition polling_batcher_addr :: "'f polling_traversal \<Rightarrow> address" where
  "polling_batcher_addr t = sc_batcher_address (pt_system_config t)"

definition polling_next_l1_block :: "'f polling_traversal \<Rightarrow> 'f polling_traversal \<times> block_info option pres" where
  "polling_next_l1_block t =
     (if \<not> pt_done t then (t\<lparr>pt_done := True\<rparr>, Ok (pt_block t)) else (t, Err (temp Eof)))"

definition polling_update_origin :: "'f polling_traversal \<Rightarrow> block_info \<Rightarrow> 'f polling_traversal" where
  "polling_update_origin t block = t\<lparr>pt_done := False, pt_block := Some block\<rparr>"

definition polling_advance_origin ::
    "abi \<Rightarrow> 'f chain_provider \<Rightarrow> 'f polling_traversal \<Rightarrow> 'f polling_traversal \<times> unit pres" where
  "polling_advance_origin A cp t =
     (case pt_block t of
        None \<Rightarrow> (t, Err (temp Eof))
      | Some block \<Rightarrow>
          pbind (via (\<lambda>f. t\<lparr>pt_data_source := f\<rparr>)
            (of_result (cp_block_info_by_number cp (pt_data_source t) (bi_number block + 1)))) (\<lambda>t next_l1_origin.
          if bi_hash block \<noteq> bi_parent_hash next_l1_origin
          then (t, Err (pipeline_error_kind.Reset (ReorgDetected (bi_hash block) (bi_parent_hash next_l1_origin))))
          else
            pbind (via (\<lambda>f. t\<lparr>pt_data_source := f\<rparr>)
              (of_result (cp_receipts_by_hash cp (pt_data_source t) (bi_hash next_l1_origin)))) (\<lambda>t receipts.
            let addr = rc_l1_system_config_address (pt_rollup_config t);
                active = is_ecotone_active (pt_rollup_config t) (bi_timestamp next_l1_origin);
                (config, res) = update_with_receipts A receipts addr active (pt_system_config t);
                t = t\<lparr>pt_system_config := config\<rparr>
            in case res of
                 Inl err \<Rightarrow> (t, Err (crit (pipeline_error.SystemConfigUpdate err)))
               | Inr _ \<Rightarrow>
                   let prev_block_holocene = is_holocene_active (pt_rollup_config t) (bi_timestamp block);
                       next_block_holocene = is_holocene_active (pt_rollup_config t) (bi_timestamp next_l1_origin);
                       t = polling_update_origin t next_l1_origin
                   in if \<not> prev_block_holocene \<and> next_block_holocene
                      then (t, Err (pipeline_error_kind.Reset HoloceneActivation))
                      else (t, Ok ()))))"

definition polling_signal :: "'f polling_traversal \<Rightarrow> signal \<Rightarrow> 'f polling_traversal \<times> unit pres" where
  "polling_signal t sig =
     (case sig of
        signal.Reset r \<Rightarrow>
          (let t = polling_update_origin t (rs_l1_origin r)
           in case rs_system_config r of
                None \<Rightarrow> (t, Panicked)
              | Some c \<Rightarrow> (t\<lparr>pt_system_config := c\<rparr>, Ok ()))
      | Activation a \<Rightarrow>
          (let t = polling_update_origin t (as_l1_origin a)
           in case as_system_config a of
                None \<Rightarrow> (t, Panicked)
              | Some c \<Rightarrow> (t\<lparr>pt_system_config := c\<rparr>, Ok ()))
      | ProvideBlock _ \<Rightarrow> (t, Err (temp UnsupportedSignal))
      | FlushChannel \<Rightarrow> (t, Ok ()))"

text \<open>The interface that the L1 retrieval stage needs, and its implementation by this stage.\<close>

record 'p l1_retrieval_provider = "'p stage" +
  lrp_next_l1_block :: "'p \<Rightarrow> 'p \<times> block_info option pres"
  lrp_batcher_addr :: "'p \<Rightarrow> address"

definition polling_ops :: "abi \<Rightarrow> 'f chain_provider \<Rightarrow> 'f polling_traversal l1_retrieval_provider" where
  "polling_ops A cp =
     \<lparr>stg_origin = pt_block, stg_advance_origin = polling_advance_origin A cp,
      stg_signal = polling_signal, lrp_next_l1_block = polling_next_l1_block,
      lrp_batcher_addr = polling_batcher_addr\<rparr>"

section \<open>Indexed traversal\<close>

record 'f indexed_traversal =
  it_block :: "block_info option"
  it_data_source :: 'f
  it_done :: bool
  it_system_config :: system_config
  it_rollup_config :: rollup_config

definition indexed_new :: "'f \<Rightarrow> rollup_config \<Rightarrow> 'f indexed_traversal" where
  "indexed_new data_source cfg =
     \<lparr>it_block = Some default_block_info, it_data_source = data_source, it_done = False,
      it_system_config = default_system_config, it_rollup_config = cfg\<rparr>"

definition indexed_batcher_addr :: "'f indexed_traversal \<Rightarrow> address" where
  "indexed_batcher_addr t = sc_batcher_address (it_system_config t)"

definition indexed_next_l1_block :: "'f indexed_traversal \<Rightarrow> 'f indexed_traversal \<times> block_info option pres" where
  "indexed_next_l1_block t =
     (if \<not> it_done t then (t\<lparr>it_done := True\<rparr>, Ok (it_block t)) else (t, Err (temp Eof)))"

definition indexed_update_origin :: "'f indexed_traversal \<Rightarrow> block_info \<Rightarrow> 'f indexed_traversal" where
  "indexed_update_origin t block = t\<lparr>it_done := False, it_block := Some block\<rparr>"

definition provide_next_block ::
    "abi \<Rightarrow> 'f chain_provider \<Rightarrow> 'f indexed_traversal \<Rightarrow> block_info \<Rightarrow> 'f indexed_traversal \<times> unit pres" where
  "provide_next_block A cp t block_info =
     (if \<not> it_done t then (t, Ok ())
      else case it_block t of
        None \<Rightarrow> (t, Err (temp MissingOrigin))
      | Some block \<Rightarrow>
          if bi_number block + 1 \<noteq> bi_number block_info then (t, Ok ())
          else if bi_hash block \<noteq> bi_parent_hash block_info
          then (t, Err (pipeline_error_kind.Reset
                 (NextL1BlockHashMismatch (bi_hash block) (bi_parent_hash block_info))))
          else
            pbind (via (\<lambda>f. t\<lparr>it_data_source := f\<rparr>)
              (of_result (cp_receipts_by_hash cp (it_data_source t) (bi_hash block_info)))) (\<lambda>t receipts.
            let addr = rc_l1_system_config_address (it_rollup_config t);
                active = is_ecotone_active (it_rollup_config t) (bi_timestamp block_info);
                (config, res) = update_with_receipts A receipts addr active (it_system_config t);
                t = t\<lparr>it_system_config := config\<rparr>
            in case res of
                 Inl err \<Rightarrow> (t, Err (crit (pipeline_error.SystemConfigUpdate err)))
               | Inr _ \<Rightarrow> (indexed_update_origin t block_info, Ok ())))"

definition indexed_advance_origin :: "'f indexed_traversal \<Rightarrow> 'f indexed_traversal \<times> unit pres" where
  "indexed_advance_origin t = (if \<not> it_done t then (t, Ok ()) else (t, Err (temp Eof)))"

definition indexed_signal ::
    "abi \<Rightarrow> 'f chain_provider \<Rightarrow> 'f indexed_traversal \<Rightarrow> signal \<Rightarrow> 'f indexed_traversal \<times> unit pres" where
  "indexed_signal A cp t sig =
     (case sig of
        signal.Reset r \<Rightarrow>
          (let t = indexed_update_origin t (rs_l1_origin r)
           in case rs_system_config r of
                None \<Rightarrow> (t, Panicked)
              | Some c \<Rightarrow> (t\<lparr>it_system_config := c\<rparr>, Ok ()))
      | Activation a \<Rightarrow>
          (let t = indexed_update_origin t (as_l1_origin a)
           in case as_system_config a of
                None \<Rightarrow> (t, Panicked)
              | Some c \<Rightarrow> (t\<lparr>it_system_config := c\<rparr>, Ok ()))
      | ProvideBlock block_info \<Rightarrow> provide_next_block A cp t block_info
      | FlushChannel \<Rightarrow> (t, Ok ()))"

definition indexed_ops :: "abi \<Rightarrow> 'f chain_provider \<Rightarrow> 'f indexed_traversal l1_retrieval_provider" where
  "indexed_ops A cp =
     \<lparr>stg_origin = it_block, stg_advance_origin = indexed_advance_origin,
      stg_signal = indexed_signal A cp, lrp_next_l1_block = indexed_next_l1_block,
      lrp_batcher_addr = indexed_batcher_addr\<rparr>"

section \<open>Moving the origin\<close>

text \<open>
  Advancing the polling stage either leaves the origin with something other than success, or
  moves it to a child and applies the child's receipts.
\<close>

lemma polling_advance_cases:
  assumes "polling_advance_origin A cp t = (t', r)"
  obtains (stay) "pt_block t' = pt_block t" "r \<noteq> Ok ()" "r \<noteq> Panicked"
  | (moved) b b' f rs where "pt_block t = Some b" "pt_block t' = Some b'" "bi_parent_hash b' = bi_hash b"
      "\<not> pt_done t'" "snd (cp_receipts_by_hash cp f (bi_hash b')) = Inr rs"
      "pt_system_config t' = fst (update_with_receipts A rs (rc_l1_system_config_address (pt_rollup_config t))
         (is_ecotone_active (pt_rollup_config t) (bi_timestamp b')) (pt_system_config t))"
      "r = (if \<not> is_holocene_active (pt_rollup_config t) (bi_timestamp b) \<and>
              is_holocene_active (pt_rollup_config t) (bi_timestamp b')
            then Err (pipeline_error_kind.Reset HoloceneActivation) else Ok ())"
proof (cases "pt_block t")
  case None
  with assms show thesis by (intro stay) (auto simp: polling_advance_origin_def)
next
  case (Some b)
  show thesis
  proof (cases "cp_block_info_by_number cp (pt_data_source t) (bi_number b + 1)" rule: of_result_cases)
    case Err
    with Some assms show thesis by (intro stay) (auto simp: polling_advance_origin_def)
  next
    case (Ok f b')
    let ?receipts = "cp_receipts_by_hash cp f (bi_hash b')"
    show thesis
    proof (cases "bi_hash b = bi_parent_hash b'")
      case False
      with Ok Some assms show thesis by (intro stay) (auto simp: polling_advance_origin_def)
    next
      case linked: True
      show thesis
      proof (cases ?receipts rule: of_result_cases)
        case Err
        with Ok Some linked assms show thesis by (intro stay) (auto simp: polling_advance_origin_def)
      next
        case receipts: (Ok f' rs)
        obtain c res where upd: "update_with_receipts A rs (rc_l1_system_config_address (pt_rollup_config t))
            (is_ecotone_active (pt_rollup_config t) (bi_timestamp b')) (pt_system_config t) = (c, res)"
          by fastforce
        show thesis
        proof (cases res)
          case (Inl e)
          with Ok Some linked receipts upd assms show thesis
            by (intro stay) (auto simp: polling_advance_origin_def Let_def)
        next
          case (Inr u)
          with Ok Some linked receipts upd assms show thesis
            by (intro moved [of b b' f rs])
              (auto simp: polling_advance_origin_def Let_def polling_update_origin_def split: if_splits)
        qed
      qed
    qed
  qed
qed

lemma provide_next_block_origin:
  "it_block (fst (provide_next_block A cp t b)) = it_block t \<or>
   (\<exists>x. it_block t = Some x \<and> it_block (fst (provide_next_block A cp t b)) = Some b \<and>
      bi_number x + 1 = bi_number b \<and> bi_hash x = bi_parent_hash b)"
proof (cases "it_block t")
  case (Some x)
  show ?thesis
  proof (cases "cp_receipts_by_hash cp (it_data_source t) (bi_hash b)" rule: of_result_cases)
    case (Ok f rs)
    then show ?thesis
      using Some by (auto simp: provide_next_block_def Let_def indexed_update_origin_def split: sum.splits prod.splits)
  qed (use Some in \<open>simp add: provide_next_block_def\<close>)
qed (simp add: provide_next_block_def)

section \<open>The contracts\<close>

interpretation polling: safe_pull "polling_ops A cp" "\<lambda>_. True" "\<lambda>_ :: unit. lrp_next_l1_block (polling_ops A cp)"
  for A :: abi and cp :: "'f chain_provider"
proof unfold_locales
  fix t :: "'f polling_traversal"
  obtain t' r where t': "polling_advance_origin A cp t = (t', r)" by fastforce
  then show "stg_origin (polling_ops A cp) (fst (stg_advance_origin (polling_ops A cp) t)) =
        stg_origin (polling_ops A cp) t \<or>
      linked (stg_origin (polling_ops A cp) t)
        (stg_origin (polling_ops A cp) (fst (stg_advance_origin (polling_ops A cp) t)))"
    by (cases rule: polling_advance_cases) (auto simp: polling_ops_def linked_def t')
  from t' show "snd (stg_advance_origin (polling_ops A cp) t) \<noteq> Panicked"
    by (cases rule: polling_advance_cases) (auto simp: polling_ops_def t')
qed (auto simp: polling_ops_def polling_signal_def polling_update_origin_def polling_next_l1_block_def
    Let_def split: signal.splits option.splits)

interpretation indexed: safe_pull "indexed_ops A cp" "\<lambda>_. True" "\<lambda>_ :: unit. lrp_next_l1_block (indexed_ops A cp)"
  for A :: abi and cp :: "'f chain_provider"
proof unfold_locales
  fix t :: "'f indexed_traversal" and b
  show "stg_origin (indexed_ops A cp) (fst (stg_signal (indexed_ops A cp) t (ProvideBlock b))) =
        stg_origin (indexed_ops A cp) t \<or>
      linked (stg_origin (indexed_ops A cp) t)
        (stg_origin (indexed_ops A cp) (fst (stg_signal (indexed_ops A cp) t (ProvideBlock b))))"
    using provide_next_block_origin [of A cp t b]
    by (auto simp: indexed_ops_def indexed_signal_def linked_def)
qed (auto simp: indexed_ops_def indexed_signal_def indexed_update_origin_def indexed_next_l1_block_def
    indexed_advance_origin_def Let_def split: signal.splits option.splits)

section \<open>Properties\<close>

text \<open>
  C8. Advancing the polling traversal never panics.  Either the origin stays and the result is
  an error, or the origin moves to a block whose parent hash is the old origin's hash, not yet
  handed out, with the receipts that the provider returned for that block applied to the system
  config; the result is then success, except that the first Holocene block asks for a reset.
\<close>

theorem polling_advance_moves_to_child:
  "case polling_advance_origin A cp t of (t', r) \<Rightarrow>
     (pt_block t' = pt_block t \<and> (\<exists>e. r = Err e)) \<or>
     (\<exists>b b' f rs. pt_block t = Some b \<and> pt_block t' = Some b' \<and> bi_parent_hash b' = bi_hash b \<and>
        \<not> pt_done t' \<and> snd (cp_receipts_by_hash cp f (bi_hash b')) = Inr rs \<and>
        pt_system_config t' = fst (update_with_receipts A rs (rc_l1_system_config_address (pt_rollup_config t))
          (is_ecotone_active (pt_rollup_config t) (bi_timestamp b')) (pt_system_config t)) \<and>
        r = (if \<not> is_holocene_active (pt_rollup_config t) (bi_timestamp b) \<and>
               is_holocene_active (pt_rollup_config t) (bi_timestamp b')
             then Err (pipeline_error_kind.Reset HoloceneActivation) else Ok ()))"
proof -
  obtain t' r where t': "polling_advance_origin A cp t = (t', r)" by fastforce
  then show ?thesis
  proof (cases rule: polling_advance_cases)
    case stay
    then show ?thesis using t' by (cases r) auto
  next
    case moved
    then show ?thesis using t' by fastforce
  qed
qed

end
