(* ===== verification/Decoding.thy ===== *)
theory Decoding
  imports Prelude
begin

text \<open>
  Decoders.  Rust code that reads from \<^verbatim>\<open>r: &mut &[u8]\<close> takes the bytes and returns the value read
  with the bytes left; the result type has a case for an error and one for a panic (a slice or
  split past the end).  The locale \<open>codec\<close> is the contract between an encoder and a decoder: what
  was encoded is read back, whatever follows it.
\<close>

datatype ('e, 'a) outcome = Good 'a | Bad 'e | Panic

fun obind :: "('e, 'a) outcome \<Rightarrow> ('a \<Rightarrow> ('e, 'b) outcome) \<Rightarrow> ('e, 'b) outcome" where
  "obind (Good x) k = k x"
| "obind (Bad e) k = Bad e"
| "obind Panic k = Panic"

text \<open>\<^verbatim>\<open>map_err\<close> and \<^verbatim>\<open>ok_or\<close>.\<close>

fun map_err :: "('e \<Rightarrow> 'f) \<Rightarrow> ('e, 'a) outcome \<Rightarrow> ('f, 'a) outcome" where
  "map_err f (Good x) = Good x"
| "map_err f (Bad e) = Bad (f e)"
| "map_err f Panic = Panic"

fun good_or :: "'a option \<Rightarrow> 'e \<Rightarrow> ('e, 'a) outcome" where
  "good_or (Some x) e = Good x"
| "good_or None e = Bad e"

lemma obind_eq_Good: "obind m k = Good y \<longleftrightarrow> (\<exists>x. m = Good x \<and> k x = Good y)"
  by (cases m) auto

lemma obind_eq_Panic: "obind m k = Panic \<longleftrightarrow> m = Panic \<or> (\<exists>x. m = Good x \<and> k x = Panic)"
  by (cases m) auto

lemma map_err_eq_Good [simp]: "map_err f m = Good x \<longleftrightarrow> m = Good x"
  by (cases m) auto

lemma map_err_eq_Panic [simp]: "map_err f m = Panic \<longleftrightarrow> m = Panic"
  by (cases m) auto

lemma good_or_eq_Good [simp]: "good_or v e = Good x \<longleftrightarrow> v = Some x"
  by (cases v) auto

lemma good_or_no_Panic [simp]: "good_or v e \<noteq> Panic"
  by (cases v) auto

type_synonym ('e, 'a) decoder = "bytes \<Rightarrow> ('e, 'a \<times> bytes) outcome"

text \<open>A loop that runs a decoder \<open>n\<close> times.\<close>

fun decode_many :: "('e, 'a) decoder \<Rightarrow> nat \<Rightarrow> ('e, 'a list) decoder" where
  "decode_many d 0 r = Good ([], r)"
| "decode_many d (Suc n) r = obind (d r) (\<lambda>(x, r). obind (decode_many d n r) (\<lambda>(xs, r). Good (x # xs, r)))"

lemma decode_many_length: "decode_many d n r = Good (xs, r') \<Longrightarrow> length xs = n"
  by (induction n arbitrary: r xs r') (auto simp: obind_eq_Good)

locale codec =
  fixes enc :: "'a \<Rightarrow> bytes" and dec :: "('e, 'a) decoder" and ok :: "'a \<Rightarrow> bool"
  assumes dec_enc: "ok x \<Longrightarrow> dec (enc x @ rest) = Good (x, rest)"
begin

lemma decode_many_enc:
  "\<forall>x\<in>set xs. ok x \<Longrightarrow> decode_many dec (length xs) (concat (map enc xs) @ rest) = Good (xs, rest)"
  by (induction xs) (auto simp: dec_enc)

lemma enc_inj: "ok x \<Longrightarrow> ok y \<Longrightarrow> enc x = enc y \<Longrightarrow> x = y"
  using dec_enc [of x "[]"] dec_enc [of y "[]"] by auto

end

text \<open>The first \<open>k\<close> bytes as a big-endian word; reading past the end panics.\<close>

definition take_bytes :: "nat \<Rightarrow> ('e, bytes) decoder" where
  "take_bytes k r = (if length r < k then Panic else Good (take k r, drop k r))"

definition take_word :: "nat \<Rightarrow> ('e, 'a::len word) decoder" where
  "take_word k r = obind (take_bytes k r) (\<lambda>(b, r). Good (word_of_nat (be_decode b), r))"

definition put_word :: "nat \<Rightarrow> 'a::len word \<Rightarrow> bytes" where
  "put_word k w = be_encode k (unat w)"

interpretation fixed20: codec "put_word 20" "take_word 20 :: ('e, fixed20) decoder" "\<lambda>_. True"
  by unfold_locales (simp add: put_word_def take_word_def take_bytes_def word_of_be_decode_encode)

interpretation fixed32: codec "put_word 32" "take_word 32 :: ('e, b256) decoder" "\<lambda>_. True"
  by unfold_locales (simp add: put_word_def take_word_def take_bytes_def word_of_be_decode_encode)

lemma take_word_short: "length r < k \<Longrightarrow> take_word k r = Panic"
  by (simp add: take_word_def take_bytes_def)

end
