(* ===== verification/L1_Info.thy ===== *)
theory L1_Info
  imports Rollup_Config Decoding
begin

text \<open>
  The L1 attributes transaction, \<^verbatim>\<open>crates/protocol/protocol/src/info/*.rs\<close>: its four variants with
  their calldata formats, which variant a block gets, and the queries on it.

  Blob fee parameters come from \<^verbatim>\<open>alloy_eips\<close> and the L1 chain configuration; they are the arguments
  \<open>blob_lib\<close> and \<open>l1_chain_config\<close>.

  Shown: the calldata of an attributes transaction built for a block decodes to what was put in.
\<close>

section \<open>Slices\<close>

text \<open>\<^verbatim>\<open>&r[a..b]\<close>, used below only within the length of \<open>r\<close>.\<close>

definition byte_slice :: "nat \<Rightarrow> nat \<Rightarrow> bytes \<Rightarrow> bytes" where
  "byte_slice a b r = take (b - a) (drop a r)"

definition from_be :: "bytes \<Rightarrow> 'a::len word" where
  "from_be b = word_of_nat (be_decode b)"

section \<open>Variants\<close>

record l1_block_info_bedrock =
  ib_number :: u64
  ib_time :: u64
  ib_base_fee :: u64
  ib_block_hash :: b256
  ib_sequence_number :: u64
  ib_batcher_address :: address
  ib_l1_fee_overhead :: "256 word"
  ib_l1_fee_scalar :: "256 word"

record l1_block_info_ecotone =
  ie_number :: u64
  ie_time :: u64
  ie_base_fee :: u64
  ie_block_hash :: b256
  ie_sequence_number :: u64
  ie_batcher_address :: address
  ie_blob_base_fee :: "128 word"
  ie_blob_base_fee_scalar :: u32
  ie_base_fee_scalar :: u32
  ie_empty_scalars :: bool
  ie_l1_fee_overhead :: "256 word"

record l1_block_info_isthmus =
  ii_number :: u64
  ii_time :: u64
  ii_base_fee :: u64
  ii_block_hash :: b256
  ii_sequence_number :: u64
  ii_batcher_address :: address
  ii_blob_base_fee :: "128 word"
  ii_blob_base_fee_scalar :: u32
  ii_base_fee_scalar :: u32
  ii_operator_fee_scalar :: u32
  ii_operator_fee_constant :: u64

record l1_block_info_jovian =
  ij_number :: u64
  ij_time :: u64
  ij_base_fee :: u64
  ij_block_hash :: b256
  ij_sequence_number :: u64
  ij_batcher_address :: address
  ij_blob_base_fee :: "128 word"
  ij_blob_base_fee_scalar :: u32
  ij_base_fee_scalar :: u32
  ij_operator_fee_scalar :: u32
  ij_operator_fee_constant :: u64
  ij_da_footprint_gas_scalar :: u16

record common_l1_block_fields =
  cf_base_fee_scalar :: u32
  cf_blob_base_fee_scalar :: u32
  cf_sequence_number :: u64
  cf_time :: u64
  cf_number :: u64
  cf_base_fee :: u64
  cf_blob_base_fee :: "128 word"
  cf_block_hash :: b256
  cf_batcher_address :: address

datatype l1_block_info_tx = Bedrock l1_block_info_bedrock | Ecotone l1_block_info_ecotone
  | Isthmus l1_block_info_isthmus | Jovian l1_block_info_jovian

datatype block_info_error = L1BlobBaseFeeScalar | BaseFeeScalar | Eip1559Denominator | Eip1559Elasticity
  | OperatorFeeScalar | OperatorFeeConstant

datatype decode_error = MissingSelector | InvalidSelector | InvalidBedrockLength nat nat
  | InvalidEcotoneLength nat nat | InvalidIsthmusLength nat nat | InvalidJovianLength nat nat
  | InvalidInteropLength nat nat

definition BEDROCK_SELECTOR :: bytes where "BEDROCK_SELECTOR = [0x01, 0x5d, 0x8e, 0xb9]"
definition BEDROCK_LEN :: nat where "BEDROCK_LEN = 4 + 32 * 8"
definition ECOTONE_SELECTOR :: bytes where "ECOTONE_SELECTOR = [0x44, 0x0a, 0x5e, 0x20]"
definition ECOTONE_LEN :: nat where "ECOTONE_LEN = 4 + 32 * 5"
definition ISTHMUS_SELECTOR :: bytes where "ISTHMUS_SELECTOR = [0x09, 0x89, 0x99, 0xbe]"
definition ISTHMUS_LEN :: nat where "ISTHMUS_LEN = 4 + 32 * 5 + 4 + 8"
definition JOVIAN_SELECTOR :: bytes where "JOVIAN_SELECTOR = [0x3d, 0xb6, 0xbe, 0x2b]"
definition JOVIAN_LEN :: nat where "JOVIAN_LEN = 4 + 32 * 5 + 4 + 8 + 2"
definition ECOTONE_L1_SCALAR :: u8 where "ECOTONE_L1_SCALAR = 1"
definition JOVIAN_DEFAULT_DA_FOOTPRINT_GAS_SCALAR :: u16 where "JOVIAN_DEFAULT_DA_FOOTPRINT_GAS_SCALAR = 400"

section \<open>Calldata\<close>

definition bedrock_encode_calldata :: "l1_block_info_bedrock \<Rightarrow> bytes" where
  "bedrock_encode_calldata i =
     BEDROCK_SELECTOR @ put_word 32 (ib_number i) @ put_word 32 (ib_time i) @ put_word 32 (ib_base_fee i) @
     put_word 32 (ib_block_hash i) @ put_word 32 (ib_sequence_number i) @ put_word 32 (ib_batcher_address i) @
     put_word 32 (ib_l1_fee_overhead i) @ put_word 32 (ib_l1_fee_scalar i)"

definition bedrock_decode_calldata :: "bytes \<Rightarrow> decode_error + l1_block_info_bedrock" where
  "bedrock_decode_calldata r =
     (if length r \<noteq> BEDROCK_LEN then Inl (InvalidBedrockLength BEDROCK_LEN (length r))
      else Inr
        \<lparr>ib_number = from_be (byte_slice 28 36 r), ib_time = from_be (byte_slice 60 68 r),
         ib_base_fee = from_be (byte_slice 92 100 r), ib_block_hash = from_be (byte_slice 100 132 r),
         ib_sequence_number = from_be (byte_slice 156 164 r), ib_batcher_address = from_be (byte_slice 176 196 r),
         ib_l1_fee_overhead = from_be (byte_slice 196 228 r), ib_l1_fee_scalar = from_be (byte_slice 228 260 r)\<rparr>)"

definition common_encode_into :: "common_l1_block_fields \<Rightarrow> bytes" where
  "common_encode_into c =
     put_word 4 (cf_base_fee_scalar c) @ put_word 4 (cf_blob_base_fee_scalar c) @
     put_word 8 (cf_sequence_number c) @ put_word 8 (cf_time c) @ put_word 8 (cf_number c) @
     put_word 32 (cf_base_fee c) @ put_word 32 (cf_blob_base_fee c) @ put_word 32 (cf_block_hash c) @
     put_word 32 (cf_batcher_address c)"

definition common_decode_from :: "bytes \<Rightarrow> common_l1_block_fields" where
  "common_decode_from r =
     \<lparr>cf_base_fee_scalar = from_be (byte_slice 4 8 r), cf_blob_base_fee_scalar = from_be (byte_slice 8 12 r),
      cf_sequence_number = from_be (byte_slice 12 20 r), cf_time = from_be (byte_slice 20 28 r),
      cf_number = from_be (byte_slice 28 36 r), cf_base_fee = from_be (byte_slice 60 68 r),
      cf_blob_base_fee = from_be (byte_slice 84 100 r), cf_block_hash = from_be (byte_slice 100 132 r),
      cf_batcher_address = from_be (byte_slice 144 164 r)\<rparr>"

definition ecotone_encode_calldata :: "l1_block_info_ecotone \<Rightarrow> bytes" where
  "ecotone_encode_calldata i =
     ECOTONE_SELECTOR @ common_encode_into
       \<lparr>cf_base_fee_scalar = ie_base_fee_scalar i, cf_blob_base_fee_scalar = ie_blob_base_fee_scalar i,
        cf_sequence_number = ie_sequence_number i, cf_time = ie_time i, cf_number = ie_number i,
        cf_base_fee = ie_base_fee i, cf_blob_base_fee = ie_blob_base_fee i, cf_block_hash = ie_block_hash i,
        cf_batcher_address = ie_batcher_address i\<rparr>"

definition ecotone_decode_calldata :: "bytes \<Rightarrow> decode_error + l1_block_info_ecotone" where
  "ecotone_decode_calldata r =
     (if length r \<noteq> ECOTONE_LEN then Inl (InvalidEcotoneLength ECOTONE_LEN (length r))
      else let common = common_decode_from r in Inr
        \<lparr>ie_number = cf_number common, ie_time = cf_time common, ie_base_fee = cf_base_fee common,
         ie_block_hash = cf_block_hash common, ie_sequence_number = cf_sequence_number common,
         ie_batcher_address = cf_batcher_address common, ie_blob_base_fee = cf_blob_base_fee common,
         ie_blob_base_fee_scalar = cf_blob_base_fee_scalar common,
         ie_base_fee_scalar = cf_base_fee_scalar common, ie_empty_scalars = False, ie_l1_fee_overhead = 0\<rparr>)"

definition isthmus_encode_calldata :: "l1_block_info_isthmus \<Rightarrow> bytes" where
  "isthmus_encode_calldata i =
     ISTHMUS_SELECTOR @ common_encode_into
       \<lparr>cf_base_fee_scalar = ii_base_fee_scalar i, cf_blob_base_fee_scalar = ii_blob_base_fee_scalar i,
        cf_sequence_number = ii_sequence_number i, cf_time = ii_time i, cf_number = ii_number i,
        cf_base_fee = ii_base_fee i, cf_blob_base_fee = ii_blob_base_fee i, cf_block_hash = ii_block_hash i,
        cf_batcher_address = ii_batcher_address i\<rparr> @
     put_word 4 (ii_operator_fee_scalar i) @ put_word 8 (ii_operator_fee_constant i)"

definition isthmus_decode_calldata :: "bytes \<Rightarrow> decode_error + l1_block_info_isthmus" where
  "isthmus_decode_calldata r =
     (if length r \<noteq> ISTHMUS_LEN then Inl (InvalidIsthmusLength ISTHMUS_LEN (length r))
      else let common = common_decode_from r in Inr
        \<lparr>ii_number = cf_number common, ii_time = cf_time common, ii_base_fee = cf_base_fee common,
         ii_block_hash = cf_block_hash common, ii_sequence_number = cf_sequence_number common,
         ii_batcher_address = cf_batcher_address common, ii_blob_base_fee = cf_blob_base_fee common,
         ii_blob_base_fee_scalar = cf_blob_base_fee_scalar common,
         ii_base_fee_scalar = cf_base_fee_scalar common,
         ii_operator_fee_scalar = from_be (byte_slice 164 168 r),
         ii_operator_fee_constant = from_be (byte_slice 168 176 r)\<rparr>)"

definition jovian_encode_calldata :: "l1_block_info_jovian \<Rightarrow> bytes" where
  "jovian_encode_calldata i =
     JOVIAN_SELECTOR @ put_word 4 (ij_base_fee_scalar i) @ put_word 4 (ij_blob_base_fee_scalar i) @
     put_word 8 (ij_sequence_number i) @ put_word 8 (ij_time i) @ put_word 8 (ij_number i) @
     put_word 32 (ij_base_fee i) @ put_word 32 (ij_blob_base_fee i) @ put_word 32 (ij_block_hash i) @
     put_word 32 (ij_batcher_address i) @ put_word 4 (ij_operator_fee_scalar i) @
     put_word 8 (ij_operator_fee_constant i) @ put_word 2 (ij_da_footprint_gas_scalar i)"

definition jovian_decode_calldata :: "bytes \<Rightarrow> decode_error + l1_block_info_jovian" where
  "jovian_decode_calldata r =
     (if length r \<noteq> JOVIAN_LEN then Inl (InvalidJovianLength JOVIAN_LEN (length r))
      else let da_footprint_gas_scalar = from_be (byte_slice 176 178 r) in Inr
        \<lparr>ij_number = from_be (byte_slice 28 36 r), ij_time = from_be (byte_slice 20 28 r),
         ij_base_fee = from_be (byte_slice 60 68 r), ij_block_hash = from_be (byte_slice 100 132 r),
         ij_sequence_number = from_be (byte_slice 12 20 r), ij_batcher_address = from_be (byte_slice 144 164 r),
         ij_blob_base_fee = from_be (byte_slice 84 100 r), ij_blob_base_fee_scalar = from_be (byte_slice 8 12 r),
         ij_base_fee_scalar = from_be (byte_slice 4 8 r), ij_operator_fee_scalar = from_be (byte_slice 164 168 r),
         ij_operator_fee_constant = from_be (byte_slice 168 176 r),
         ij_da_footprint_gas_scalar =
           (if da_footprint_gas_scalar = 0 then JOVIAN_DEFAULT_DA_FOOTPRINT_GAS_SCALAR
            else da_footprint_gas_scalar)\<rparr>)"

definition l1_info_decode_calldata :: "bytes \<Rightarrow> decode_error + l1_block_info_tx" where
  "l1_info_decode_calldata r =
     (if length r < 4 then Inl MissingSelector
      else let selector = byte_slice 0 4 r
           in if selector = BEDROCK_SELECTOR then map_sum id Bedrock (bedrock_decode_calldata r)
              else if selector = ECOTONE_SELECTOR then map_sum id Ecotone (ecotone_decode_calldata r)
              else if selector = ISTHMUS_SELECTOR then map_sum id Isthmus (isthmus_decode_calldata r)
              else if selector = JOVIAN_SELECTOR then map_sum id Jovian (jovian_decode_calldata r)
              else Inl InvalidSelector)"

fun l1_info_encode_calldata :: "l1_block_info_tx \<Rightarrow> bytes" where
  "l1_info_encode_calldata (Bedrock i) = bedrock_encode_calldata i"
| "l1_info_encode_calldata (Ecotone i) = ecotone_encode_calldata i"
| "l1_info_encode_calldata (Isthmus i) = isthmus_encode_calldata i"
| "l1_info_encode_calldata (Jovian i) = jovian_encode_calldata i"

section \<open>Which variant a block gets\<close>

text \<open>The header of the L1 origin, its hash given with it.\<close>

record l1_header =
  lh_number :: u64
  lh_timestamp :: u64
  lh_base_fee_per_gas :: "u64 option"
  lh_hash :: b256

record 'bp l1_chain_config =
  lc_active_scheduled_params :: "u64 \<Rightarrow> 'bp option"
  lc_osaka_time :: "u64 option"
  lc_prague_time :: "u64 option"

record 'bp blob_lib =
  bl_osaka :: 'bp
  bl_prague :: 'bp
  bl_cancun :: 'bp
  bl_blob_fee :: "l1_header \<Rightarrow> 'bp \<Rightarrow> 128 word option"

definition blob_fee_config :: "'bp blob_lib \<Rightarrow> rollup_config \<Rightarrow> 'bp l1_chain_config \<Rightarrow> l1_header \<Rightarrow> 'bp" where
  "blob_fee_config L cfg l1_config h =
     (case lc_active_scheduled_params l1_config (lh_timestamp h) of
        Some p \<Rightarrow> p
      | None \<Rightarrow>
          if (case lc_osaka_time l1_config of None \<Rightarrow> False | Some t \<Rightarrow> t \<le> lh_timestamp h) then bl_osaka L
          else if (case lc_prague_time l1_config of None \<Rightarrow> False | Some t \<Rightarrow> t \<le> lh_timestamp h) \<and>
                  (pectra_blob_schedule_time (rc_hardforks cfg) = None \<or>
                   is_pectra_blob_schedule_active cfg (lh_timestamp h)) then bl_prague L
          else bl_cancun L)"

definition unwrap_or :: "'a option \<Rightarrow> 'a \<Rightarrow> 'a" where
  "unwrap_or v d = (case v of None \<Rightarrow> d | Some x \<Rightarrow> x)"

definition l1_info_try_new ::
    "'bp blob_lib \<Rightarrow> rollup_config \<Rightarrow> 'bp l1_chain_config \<Rightarrow> system_config \<Rightarrow> u64 \<Rightarrow> l1_header \<Rightarrow> u64 \<Rightarrow>
     block_info_error + l1_block_info_tx" where
  "l1_info_try_new L cfg l1_config sys sequence_number h l2_block_time =
     (if \<not> is_ecotone_active cfg l2_block_time \<or> is_first_ecotone_block cfg l2_block_time then
        Inr (Bedrock
          \<lparr>ib_number = lh_number h, ib_time = lh_timestamp h, ib_base_fee = unwrap_or (lh_base_fee_per_gas h) 0,
           ib_block_hash = lh_hash h, ib_sequence_number = sequence_number,
           ib_batcher_address = sc_batcher_address sys, ib_l1_fee_overhead = sc_overhead sys,
           ib_l1_fee_scalar = sc_scalar sys\<rparr>)
      else
        let scalar = put_word 32 (sc_scalar sys);
            blob_base_fee_scalar = (if scalar ! 0 = ECOTONE_L1_SCALAR then from_be (byte_slice 24 28 scalar) else 0);
            base_fee_scalar = from_be (byte_slice 28 32 scalar);
            blob_base_fee = unwrap_or (bl_blob_fee L h (blob_fee_config L cfg l1_config h)) 1;
            base_fee = unwrap_or (lh_base_fee_per_gas h) 0
        in if is_jovian_active cfg l2_block_time \<and> \<not> is_first_jovian_block cfg l2_block_time then
             let da = unwrap_or (sc_da_footprint_gas_scalar sys) JOVIAN_DEFAULT_DA_FOOTPRINT_GAS_SCALAR
             in Inr (Jovian
               \<lparr>ij_number = lh_number h, ij_time = lh_timestamp h, ij_base_fee = base_fee, ij_block_hash = lh_hash h,
                ij_sequence_number = sequence_number, ij_batcher_address = sc_batcher_address sys,
                ij_blob_base_fee = blob_base_fee, ij_blob_base_fee_scalar = blob_base_fee_scalar,
                ij_base_fee_scalar = base_fee_scalar,
                ij_operator_fee_scalar = unwrap_or (sc_operator_fee_scalar sys) 0,
                ij_operator_fee_constant = unwrap_or (sc_operator_fee_constant sys) 0,
                ij_da_footprint_gas_scalar = (if da = 0 then JOVIAN_DEFAULT_DA_FOOTPRINT_GAS_SCALAR else da)\<rparr>)
           else if is_isthmus_active cfg l2_block_time \<and> \<not> is_first_isthmus_block cfg l2_block_time then
             Inr (Isthmus
               \<lparr>ii_number = lh_number h, ii_time = lh_timestamp h, ii_base_fee = base_fee, ii_block_hash = lh_hash h,
                ii_sequence_number = sequence_number, ii_batcher_address = sc_batcher_address sys,
                ii_blob_base_fee = blob_base_fee, ii_blob_base_fee_scalar = blob_base_fee_scalar,
                ii_base_fee_scalar = base_fee_scalar,
                ii_operator_fee_scalar = unwrap_or (sc_operator_fee_scalar sys) 0,
                ii_operator_fee_constant = unwrap_or (sc_operator_fee_constant sys) 0\<rparr>)
           else
             Inr (Ecotone
               \<lparr>ie_number = lh_number h, ie_time = lh_timestamp h, ie_base_fee = base_fee, ie_block_hash = lh_hash h,
                ie_sequence_number = sequence_number, ie_batcher_address = sc_batcher_address sys,
                ie_blob_base_fee = blob_base_fee, ie_blob_base_fee_scalar = blob_base_fee_scalar,
                ie_base_fee_scalar = base_fee_scalar, ie_empty_scalars = False, ie_l1_fee_overhead = 0\<rparr>))"

section \<open>Queries\<close>

fun l1_info_empty_scalars :: "l1_block_info_tx \<Rightarrow> bool" where
  "l1_info_empty_scalars (Ecotone i) = ie_empty_scalars i"
| "l1_info_empty_scalars _ = False"

fun l1_info_block_hash :: "l1_block_info_tx \<Rightarrow> b256" where
  "l1_info_block_hash (Bedrock i) = ib_block_hash i"
| "l1_info_block_hash (Ecotone i) = ie_block_hash i"
| "l1_info_block_hash (Isthmus i) = ii_block_hash i"
| "l1_info_block_hash (Jovian i) = ij_block_hash i"

fun l1_info_id :: "l1_block_info_tx \<Rightarrow> block_num_hash" where
  "l1_info_id (Bedrock i) = \<lparr>bnh_number = ib_number i, bnh_hash = ib_block_hash i\<rparr>"
| "l1_info_id (Ecotone i) = \<lparr>bnh_number = ie_number i, bnh_hash = ie_block_hash i\<rparr>"
| "l1_info_id (Isthmus i) = \<lparr>bnh_number = ii_number i, bnh_hash = ii_block_hash i\<rparr>"
| "l1_info_id (Jovian i) = \<lparr>bnh_number = ij_number i, bnh_hash = ij_block_hash i\<rparr>"

fun l1_info_operator_fee_scalar :: "l1_block_info_tx \<Rightarrow> u32" where
  "l1_info_operator_fee_scalar (Jovian i) = ij_operator_fee_scalar i"
| "l1_info_operator_fee_scalar (Isthmus i) = ii_operator_fee_scalar i"
| "l1_info_operator_fee_scalar _ = 0"

fun l1_info_operator_fee_constant :: "l1_block_info_tx \<Rightarrow> u64" where
  "l1_info_operator_fee_constant (Jovian i) = ij_operator_fee_constant i"
| "l1_info_operator_fee_constant (Isthmus i) = ii_operator_fee_constant i"
| "l1_info_operator_fee_constant _ = 0"

fun l1_info_da_footprint :: "l1_block_info_tx \<Rightarrow> u16 option" where
  "l1_info_da_footprint (Jovian i) = Some (ij_da_footprint_gas_scalar i)"
| "l1_info_da_footprint _ = None"

fun l1_info_l1_base_fee :: "l1_block_info_tx \<Rightarrow> 256 word" where
  "l1_info_l1_base_fee (Bedrock i) = ucast (ib_base_fee i)"
| "l1_info_l1_base_fee (Ecotone i) = ucast (ie_base_fee i)"
| "l1_info_l1_base_fee (Isthmus i) = ucast (ii_base_fee i)"
| "l1_info_l1_base_fee (Jovian i) = ucast (ij_base_fee i)"

fun l1_info_l1_fee_scalar :: "l1_block_info_tx \<Rightarrow> 256 word" where
  "l1_info_l1_fee_scalar (Bedrock i) = ib_l1_fee_scalar i"
| "l1_info_l1_fee_scalar (Ecotone i) = ucast (ie_base_fee_scalar i)"
| "l1_info_l1_fee_scalar (Isthmus i) = ucast (ii_base_fee_scalar i)"
| "l1_info_l1_fee_scalar (Jovian i) = ucast (ij_base_fee_scalar i)"

fun l1_info_blob_base_fee :: "l1_block_info_tx \<Rightarrow> 256 word" where
  "l1_info_blob_base_fee (Bedrock i) = 0"
| "l1_info_blob_base_fee (Ecotone i) = ucast (ie_blob_base_fee i)"
| "l1_info_blob_base_fee (Isthmus i) = ucast (ii_blob_base_fee i)"
| "l1_info_blob_base_fee (Jovian i) = ucast (ij_blob_base_fee i)"

fun l1_info_blob_base_fee_scalar :: "l1_block_info_tx \<Rightarrow> 256 word" where
  "l1_info_blob_base_fee_scalar (Bedrock i) = 0"
| "l1_info_blob_base_fee_scalar (Ecotone i) = ucast (ie_blob_base_fee_scalar i)"
| "l1_info_blob_base_fee_scalar (Isthmus i) = ucast (ii_blob_base_fee_scalar i)"
| "l1_info_blob_base_fee_scalar (Jovian i) = ucast (ij_blob_base_fee_scalar i)"

fun l1_info_l1_fee_overhead :: "l1_block_info_tx \<Rightarrow> 256 word" where
  "l1_info_l1_fee_overhead (Bedrock i) = ib_l1_fee_overhead i"
| "l1_info_l1_fee_overhead (Ecotone i) = ie_l1_fee_overhead i"
| "l1_info_l1_fee_overhead _ = 0"

fun l1_info_batcher_address :: "l1_block_info_tx \<Rightarrow> address" where
  "l1_info_batcher_address (Bedrock i) = ib_batcher_address i"
| "l1_info_batcher_address (Ecotone i) = ie_batcher_address i"
| "l1_info_batcher_address (Isthmus i) = ii_batcher_address i"
| "l1_info_batcher_address (Jovian i) = ij_batcher_address i"

fun l1_info_sequence_number :: "l1_block_info_tx \<Rightarrow> u64" where
  "l1_info_sequence_number (Bedrock i) = ib_sequence_number i"
| "l1_info_sequence_number (Ecotone i) = ie_sequence_number i"
| "l1_info_sequence_number (Isthmus i) = ii_sequence_number i"
| "l1_info_sequence_number (Jovian i) = ij_sequence_number i"

section \<open>The deposit transaction\<close>

record tx_deposit =
  dt_source_hash :: b256
  dt_from :: address
  dt_to :: "address option"
  dt_mint :: "128 word"
  dt_value :: "256 word"
  dt_gas_limit :: u64
  dt_is_system_transaction :: bool
  dt_input :: bytes

definition REGOLITH_SYSTEM_TX_GAS :: u64 where "REGOLITH_SYSTEM_TX_GAS = 1000000"

definition L1_INFO_DEPOSITOR_ADDRESS :: address where
  "L1_INFO_DEPOSITOR_ADDRESS = 0xdeaddeaddeaddeaddeaddeaddeaddeaddead0001"

definition L1_BLOCK_INFO_ADDRESS :: address where
  "L1_BLOCK_INFO_ADDRESS = 0x4200000000000000000000000000000000000015"

text \<open>The source hash of the L1 info domain (\<^verbatim>\<open>op_alloy\<close>) is the argument \<open>source_hash\<close>.\<close>

definition try_new_with_deposit_tx ::
    "(b256 \<Rightarrow> u64 \<Rightarrow> b256) \<Rightarrow> 'bp blob_lib \<Rightarrow> rollup_config \<Rightarrow> 'bp l1_chain_config \<Rightarrow> system_config \<Rightarrow> u64 \<Rightarrow>
     l1_header \<Rightarrow> u64 \<Rightarrow> block_info_error + (l1_block_info_tx \<times> tx_deposit)" where
  "try_new_with_deposit_tx source_hash L cfg l1_config sys sequence_number h l2_block_time =
     map_sum id (\<lambda>l1_info.
       let deposit_tx =
             \<lparr>dt_source_hash = source_hash (l1_info_block_hash l1_info) sequence_number,
              dt_from = L1_INFO_DEPOSITOR_ADDRESS, dt_to = Some L1_BLOCK_INFO_ADDRESS, dt_mint = 0, dt_value = 0,
              dt_gas_limit = 150000000, dt_is_system_transaction = True,
              dt_input = l1_info_encode_calldata l1_info\<rparr>
       in (l1_info,
           if is_regolith_active cfg l2_block_time
           then deposit_tx\<lparr>dt_is_system_transaction := False, dt_gas_limit := REGOLITH_SYSTEM_TX_GAS\<rparr>
           else deposit_tx))
     (l1_info_try_new L cfg l1_config sys sequence_number h l2_block_time)"

section \<open>Calldata round trips\<close>

lemma length_put_word [simp]: "length (put_word k w) = k"
  by (simp add: put_word_def)

lemma slice_append:
  "byte_slice a b (xs @ ys) = (if b \<le> length xs then byte_slice a b xs
     else if length xs \<le> a then byte_slice (a - length xs) (b - length xs) ys
     else byte_slice a (length xs) xs @ byte_slice 0 (b - length xs) ys)"
  by (auto simp: byte_slice_def)

lemma slice_all: "length xs = b \<Longrightarrow> byte_slice 0 b xs = xs"
  by (simp add: byte_slice_def)

text \<open>The low bytes of a word written with more bytes than it has.\<close>

lemma from_be_put_word:
  fixes w :: "'a::len word"
  assumes "a + m = k" and "LENGTH('a) \<le> 8 * m"
  shows "from_be (byte_slice a k (put_word k w)) = w"
proof -
  have "byte_slice a k (put_word k w) = be_encode m (unat w)"
    using be_encode_split [of a m "unat w"] by (simp add: byte_slice_def put_word_def flip: assms(1))
  with assms(2) show ?thesis by (simp add: from_be_def word_of_be_decode_encode)
qed

lemma length_selectors [simp]:
  "length BEDROCK_SELECTOR = 4" "length ECOTONE_SELECTOR = 4" "length ISTHMUS_SELECTOR = 4" "length JOVIAN_SELECTOR = 4"
  by (simp_all add: BEDROCK_SELECTOR_def ECOTONE_SELECTOR_def ISTHMUS_SELECTOR_def JOVIAN_SELECTOR_def)

lemmas calldata_slices = slice_append from_be_put_word [where m = 2] from_be_put_word [where m = 4]
  from_be_put_word [where m = 8] from_be_put_word [where m = 16] from_be_put_word [where m = 20]
  from_be_put_word [where m = 32]

lemma bedrock_roundtrip: "bedrock_decode_calldata (bedrock_encode_calldata i) = Inr i"
  by (simp add: bedrock_decode_calldata_def bedrock_encode_calldata_def BEDROCK_LEN_def calldata_slices)

lemma common_roundtrip: "length sel = 4 \<Longrightarrow> common_decode_from (sel @ common_encode_into c @ rest) = c"
  by (simp add: common_decode_from_def common_encode_into_def calldata_slices)

lemma length_common [simp]: "length (common_encode_into c) = 160"
  by (simp add: common_encode_into_def)

lemma ecotone_roundtrip:
  "\<not> ie_empty_scalars i \<Longrightarrow> ie_l1_fee_overhead i = 0 \<Longrightarrow> ecotone_decode_calldata (ecotone_encode_calldata i) = Inr i"
  using common_roundtrip [of ECOTONE_SELECTOR _ "[]"]
  by (simp add: ecotone_decode_calldata_def ecotone_encode_calldata_def ECOTONE_LEN_def)

lemma isthmus_roundtrip: "isthmus_decode_calldata (isthmus_encode_calldata i) = Inr i"
  by (simp add: isthmus_decode_calldata_def isthmus_encode_calldata_def ISTHMUS_LEN_def common_roundtrip
      calldata_slices)

lemma jovian_roundtrip:
  "ij_da_footprint_gas_scalar i \<noteq> 0 \<Longrightarrow> jovian_decode_calldata (jovian_encode_calldata i) = Inr i"
  by (simp add: jovian_decode_calldata_def jovian_encode_calldata_def JOVIAN_LEN_def calldata_slices)

text \<open>The attributes a transaction can carry: what the calldata leaves out has its default.\<close>

fun carried :: "l1_block_info_tx \<Rightarrow> bool" where
  "carried (Ecotone i) \<longleftrightarrow> \<not> ie_empty_scalars i \<and> ie_l1_fee_overhead i = 0"
| "carried (Jovian i) \<longleftrightarrow> ij_da_footprint_gas_scalar i \<noteq> 0"
| "carried _ \<longleftrightarrow> True"

lemma selector_of:
  "byte_slice 0 4 (bedrock_encode_calldata b) = BEDROCK_SELECTOR"
  "byte_slice 0 4 (ecotone_encode_calldata e) = ECOTONE_SELECTOR"
  "byte_slice 0 4 (isthmus_encode_calldata i) = ISTHMUS_SELECTOR"
  "byte_slice 0 4 (jovian_encode_calldata j) = JOVIAN_SELECTOR"
  by (simp_all add: bedrock_encode_calldata_def ecotone_encode_calldata_def isthmus_encode_calldata_def
      jovian_encode_calldata_def slice_append slice_all)

lemma calldata_length:
  "length (bedrock_encode_calldata b) = BEDROCK_LEN" "length (ecotone_encode_calldata e) = ECOTONE_LEN"
  "length (isthmus_encode_calldata i) = ISTHMUS_LEN" "length (jovian_encode_calldata j) = JOVIAN_LEN"
  by (simp_all add: bedrock_encode_calldata_def ecotone_encode_calldata_def isthmus_encode_calldata_def
      jovian_encode_calldata_def BEDROCK_LEN_def ECOTONE_LEN_def ISTHMUS_LEN_def JOVIAN_LEN_def)

lemma selectors_distinct:
  "distinct [BEDROCK_SELECTOR, ECOTONE_SELECTOR, ISTHMUS_SELECTOR, JOVIAN_SELECTOR]"
  by (simp add: BEDROCK_SELECTOR_def ECOTONE_SELECTOR_def ISTHMUS_SELECTOR_def JOVIAN_SELECTOR_def)

lemma l1_info_roundtrip: "carried i \<Longrightarrow> l1_info_decode_calldata (l1_info_encode_calldata i) = Inr i"
  using selectors_distinct
  by (cases i) (auto simp: l1_info_decode_calldata_def selector_of calldata_length BEDROCK_LEN_def ECOTONE_LEN_def
      ISTHMUS_LEN_def JOVIAN_LEN_def bedrock_roundtrip ecotone_roundtrip isthmus_roundtrip jovian_roundtrip)

lemma l1_info_try_new_carried:
  obtains i where "l1_info_try_new L cfg l1_config sys seq h t = Inr i" "carried i"
    "l1_info_id i = \<lparr>bnh_number = lh_number h, bnh_hash = lh_hash h\<rparr>" "l1_info_sequence_number i = seq"
    "l1_info_batcher_address i = sc_batcher_address sys"
  by (rule that [of "case l1_info_try_new L cfg l1_config sys seq h t of Inr i \<Rightarrow> i"])
    (auto simp: l1_info_try_new_def Let_def JOVIAN_DEFAULT_DA_FOOTPRINT_GAS_SCALAR_def unwrap_or_def split: option.splits)

section \<open>Properties\<close>

lemma try_new_with_deposit_tx_carried:
  obtains i tx where "try_new_with_deposit_tx source_hash L cfg l1_config sys seq h t = Inr (i, tx)"
    "l1_info_try_new L cfg l1_config sys seq h t = Inr i" "l1_info_decode_calldata (dt_input tx) = Inr i"
    "l1_info_id i = \<lparr>bnh_number = lh_number h, bnh_hash = lh_hash h\<rparr>" "l1_info_sequence_number i = seq"
    "l1_info_batcher_address i = sc_batcher_address sys"
    "dt_is_system_transaction tx = (\<not> is_regolith_active cfg t)"
proof -
  obtain i where i: "l1_info_try_new L cfg l1_config sys seq h t = Inr i" "carried i"
    "l1_info_id i = \<lparr>bnh_number = lh_number h, bnh_hash = lh_hash h\<rparr>" "l1_info_sequence_number i = seq"
    "l1_info_batcher_address i = sc_batcher_address sys"
    by (rule l1_info_try_new_carried)
  then show thesis
    using l1_info_roundtrip [OF i(2)] that by (simp add: try_new_with_deposit_tx_def Let_def)
qed

text \<open>
  C10. The attributes transaction of a block can always be built, and its calldata decodes to the
  attributes that were put in, whatever the fork: in particular the L1 origin, the sequence
  number and the batcher address of the block can be read back from its first transaction.
\<close>

theorem l1_info_recovered:
  "\<exists>i tx. try_new_with_deposit_tx source_hash L cfg l1_config sys seq h t = Inr (i, tx) \<and>
     l1_info_decode_calldata (dt_input tx) = Inr i \<and>
     l1_info_id i = \<lparr>bnh_number = lh_number h, bnh_hash = lh_hash h\<rparr> \<and> l1_info_sequence_number i = seq \<and>
     l1_info_batcher_address i = sc_batcher_address sys \<and>
     dt_is_system_transaction tx = (\<not> is_regolith_active cfg t)"
  by (rule try_new_with_deposit_tx_carried) blast

end
