(* ===== verification/Deposits.thy ===== *)
theory Deposits
  imports Pipeline_Types L1_Info
begin

text \<open>
  Deposit transactions, \<^verbatim>\<open>crates/protocol/protocol/src/deposits.rs\<close>, and \<^verbatim>\<open>derive_deposits\<close> of
  \<^verbatim>\<open>crates/protocol/derive/src/attributes/stateful.rs\<close>.  The source hash of user deposits and the
  typed encoding of a deposit are library code (\<^verbatim>\<open>op_alloy_consensus\<close>), hence the record
  \<open>deposit_lib\<close>.

  Shown: the deposits that the contract logs in a block come out as the transactions they stand
  for, in order, with the indices of their logs.
\<close>

section \<open>Decoding\<close>

record deposit_lib =
  dl_user_source_hash :: "b256 \<Rightarrow> u64 \<Rightarrow> b256"
  dl_encode_2718 :: "tx_deposit \<Rightarrow> bytes"

definition DEPOSIT_EVENT_ABI_HASH :: b256 where
  "DEPOSIT_EVENT_ABI_HASH = 0xb3813568d9991fc951961fcb4c784893574240a28925604d09fc577c55bb7c32"

definition unmarshal_deposit_version0 :: "tx_deposit \<Rightarrow> address \<Rightarrow> bytes \<Rightarrow> deposit_error + tx_deposit" where
  "unmarshal_deposit_version0 tx addr data =
     (if length data < 32 + 32 + 8 + 1 then Inl (UnexpectedOpaqueDataLen (length data))
      else Inr (tx
        \<lparr>dt_mint := from_be (byte_slice 16 32 data),
         dt_value := from_be (byte_slice 32 64 data),
         dt_gas_limit := from_be (byte_slice 64 72 data),
         dt_to := (if data ! 72 = 0 then Some addr else None),
         dt_input := drop 73 data\<rparr>))"

text \<open>The bytes of a topic before the address.\<close>

definition topic_prefix :: "b256 \<Rightarrow> bytes" where
  "topic_prefix t = take 12 (put_word 32 t)"

definition topic_address :: "b256 \<Rightarrow> address" where
  "topic_address t = from_be (drop 12 (put_word 32 t))"

definition decode_deposit :: "'z deposit_lib_scheme \<Rightarrow> b256 \<Rightarrow> nat \<Rightarrow> log \<Rightarrow> deposit_error + bytes" where
  "decode_deposit L block_hash index l =
     (let topics = log_topics l; data = log_data l in
      if length topics \<noteq> 4 then Inl (UnexpectedTopicsLen (length topics))
      else if topics ! 0 \<noteq> DEPOSIT_EVENT_ABI_HASH then Inl (deposit_error.InvalidSelector DEPOSIT_EVENT_ABI_HASH (topics ! 0))
      else if length data < 64 then Inl (IncompleteOpaqueData (length data))
      else if length data mod 32 \<noteq> 0 then Inl (UnalignedData (length data))
      else if list_ex (\<lambda>b. b \<noteq> 0) (topic_prefix (topics ! 1)) then Inl (FromDecode (topics ! 1))
      else if list_ex (\<lambda>b. b \<noteq> 0) (topic_prefix (topics ! 2)) then Inl (ToDecode (topics ! 2))
      else
        let from_addr = topic_address (topics ! 1); to_addr = topic_address (topics ! 2);
            opaque_content_offset = (from_be (byte_slice 24 32 data) :: u64);
            opaque_content_len = (from_be (byte_slice 56 64 data) :: u64) in
        if opaque_content_offset \<noteq> 32 then Inl (InvalidOpaqueDataOffset (byte_slice 24 32 data))
        else if length data - 64 < unat opaque_content_len
        then Inl (OpaqueDataOverflow (unat opaque_content_len) (length data - 64))
        else (case checked_add opaque_content_len 32 of
                None \<Rightarrow> Inl (OpaqueDataOverflow (unat opaque_content_len) (length data - 64))
              | Some padded_len \<Rightarrow>
                  if unat padded_len \<le> length data - 64
                  then Inl (PaddedOpaqueDataOverflow (length data - 64) (unat opaque_content_len))
                  else
                    let opaque_data = byte_slice 64 (64 + unat opaque_content_len) data;
                        deposit_tx =
                          \<lparr>dt_source_hash = dl_user_source_hash L block_hash (word_of_nat index),
                           dt_from = from_addr, dt_to = None, dt_mint = 0, dt_value = 0, dt_gas_limit = 0,
                           dt_is_system_transaction = False, dt_input = []\<rparr> in
                    if topics ! 3 \<noteq> 0 then Inl (InvalidVersion (topics ! 3))
                    else map_sum id (dl_encode_2718 L) (unmarshal_deposit_version0 deposit_tx to_addr opaque_data)))"

text \<open>The loops of \<^verbatim>\<open>derive_deposits\<close>; \<open>global_index\<close> counts the logs of the receipts before that did not fail.\<close>

fun deposits_of_logs ::
    "'z deposit_lib_scheme \<Rightarrow> b256 \<Rightarrow> address \<Rightarrow> log list \<Rightarrow> nat \<Rightarrow> bytes list \<Rightarrow> pipeline_encoding_error + (nat \<times> bytes list)" where
  "deposits_of_logs L block_hash deposit_contract [] global_index res = Inr (global_index, res)"
| "deposits_of_logs L block_hash deposit_contract (l # ls) global_index res =
     (let curr_index = global_index; global_index = global_index + 1 in
      if log_topics l = [] \<or> log_topics l ! 0 \<noteq> DEPOSIT_EVENT_ABI_HASH
      then deposits_of_logs L block_hash deposit_contract ls global_index res
      else if log_address l \<noteq> deposit_contract
      then deposits_of_logs L block_hash deposit_contract ls global_index res
      else (case decode_deposit L block_hash curr_index l of
              Inl e \<Rightarrow> Inl (DepositError e)
            | Inr decoded \<Rightarrow> deposits_of_logs L block_hash deposit_contract ls global_index (res @ [decoded])))"

fun deposits_of_receipts ::
    "'z deposit_lib_scheme \<Rightarrow> b256 \<Rightarrow> address \<Rightarrow> receipt list \<Rightarrow> nat \<Rightarrow> bytes list \<Rightarrow> pipeline_encoding_error + bytes list" where
  "deposits_of_receipts L block_hash deposit_contract [] global_index res = Inr res"
| "deposits_of_receipts L block_hash deposit_contract (r # rs) global_index res =
     (if rcpt_status r = Eip658 False then deposits_of_receipts L block_hash deposit_contract rs global_index res
      else (case deposits_of_logs L block_hash deposit_contract (rcpt_logs r) global_index res of
              Inl e \<Rightarrow> Inl e
            | Inr (global_index, res) \<Rightarrow> deposits_of_receipts L block_hash deposit_contract rs global_index res))"

definition derive_deposits ::
    "'z deposit_lib_scheme \<Rightarrow> b256 \<Rightarrow> receipt list \<Rightarrow> address \<Rightarrow> pipeline_encoding_error + bytes list" where
  "derive_deposits L block_hash receipts deposit_contract =
     deposits_of_receipts L block_hash deposit_contract receipts 0 []"

section \<open>The deposits of the contract\<close>

text \<open>A deposit as the contract takes it, the log it emits and the transaction that the log stands for.\<close>

record deposit =
  dep_from :: address
  dep_to :: address
  dep_mint :: "128 word"
  dep_value :: "256 word"
  dep_gas :: u64
  dep_creation :: bool
  dep_data :: bytes

definition opaque_data :: "deposit \<Rightarrow> bytes" where
  "opaque_data d = put_word 32 (dep_mint d) @ put_word 32 (dep_value d) @ put_word 8 (dep_gas d) @
     [if dep_creation d then 1 else 0] @ dep_data d"

definition pad32 :: "nat \<Rightarrow> nat" where
  "pad32 n = (32 - n mod 32) mod 32"

definition emitted_log :: "address \<Rightarrow> deposit \<Rightarrow> log" where
  "emitted_log deposit_contract d =
     \<lparr>log_address = deposit_contract,
      log_topics = [DEPOSIT_EVENT_ABI_HASH, ucast (dep_from d), ucast (dep_to d), 0],
      log_data = put_word 32 (32 :: u64) @ put_word 32 (word_of_nat (length (opaque_data d)) :: u64) @
        opaque_data d @ replicate (pad32 (length (opaque_data d))) 0\<rparr>"

definition user_deposit_tx :: "'z deposit_lib_scheme \<Rightarrow> b256 \<Rightarrow> nat \<Rightarrow> deposit \<Rightarrow> tx_deposit" where
  "user_deposit_tx L block_hash index d =
     \<lparr>dt_source_hash = dl_user_source_hash L block_hash (word_of_nat index), dt_from = dep_from d,
      dt_to = (if dep_creation d then None else Some (dep_to d)), dt_mint = dep_mint d, dt_value = dep_value d,
      dt_gas_limit = dep_gas d, dt_is_system_transaction = False, dt_input = dep_data d\<rparr>"

lemma length_opaque_data: "length (opaque_data d) = 73 + length (dep_data d)"
  by (simp add: opaque_data_def)

lemma pad32_less: "pad32 n < 32"
  by (simp add: pad32_def)

lemma pad32_aligned: "(n + pad32 n) mod 32 = 0"
proof (cases "n mod 32 = 0")
  case False
  have "n mod 32 < 32" by simp
  then have "n mod 32 + (32 - n mod 32) = 32" by linarith
  then have "(n + (32 - n mod 32)) mod 32 = 0" by (metis mod_add_left_eq mod_self)
  then show ?thesis by (simp add: pad32_def mod_add_right_eq)
qed (simp add: pad32_def)

lemma be_encode_small: "n < 256 ^ k \<Longrightarrow> be_encode (j + k) n = replicate j 0 @ be_encode k n"
proof (induction k arbitrary: n)
  case 0
  then show ?case by (induction j) (simp_all add: replicate_append_same)
next
  case (Suc k)
  then have "n div 256 < 256 ^ k" by (simp add: less_mult_imp_div_less mult.commute)
  with Suc.IH show ?case by simp
qed

lemma topic_of_address [simp]:
  "topic_prefix (ucast a) = replicate 12 0" "topic_address (ucast a) = a" for a :: address
proof -
  have "unat a < 2 ^ 160" using unsigned_less [of a] by simp
  moreover have "(2 :: nat) ^ 160 = 256 ^ 20" by simp
  ultimately have small: "unat a < 256 ^ 20" by simp
  have "unat (ucast a :: b256) = unat a" by (simp add: unsigned_ucast_eq take_bit_nat_eq_self order.strict_trans [OF \<open>unat a < 2 ^ 160\<close>])
  then have "put_word 32 (ucast a :: b256) = replicate 12 0 @ be_encode 20 (unat a)"
    using be_encode_small [OF small, of 12] by (simp add: put_word_def del: be_encode.simps)
  then show "topic_prefix (ucast a) = replicate 12 0" "topic_address (ucast a) = a"
    by (simp_all add: topic_prefix_def topic_address_def from_be_def word_of_be_decode_encode del: be_encode.simps)
qed

lemma slice_put_word:
  fixes w :: "'a::len word"
  assumes "LENGTH('a) \<le> 8 * m"
  shows "from_be (byte_slice (length pre + j) (length pre + (j + m)) (pre @ put_word (j + m) w @ post)) = w"
proof -
  have "byte_slice (length pre + j) (length pre + (j + m)) (pre @ put_word (j + m) w @ post) = byte_slice j (j + m) (put_word (j + m) w)"
    by (simp add: byte_slice_def)
  with from_be_put_word [of j m "j + m" w] assms show ?thesis by simp
qed

lemma unmarshal_opaque_data:
  "unmarshal_deposit_version0 tx addr (opaque_data d) =
     Inr (tx\<lparr>dt_mint := dep_mint d, dt_value := dep_value d, dt_gas_limit := dep_gas d,
       dt_to := (if dep_creation d then None else Some addr), dt_input := dep_data d\<rparr>)"
proof -
  have "from_be (byte_slice 16 32 (opaque_data d)) = dep_mint d"
    using slice_put_word [of 16 "[]" 16 "dep_mint d"] by (simp add: opaque_data_def)
  moreover have "from_be (byte_slice 32 64 (opaque_data d)) = dep_value d"
    using slice_put_word [of 32 "put_word 32 (dep_mint d)" 0 "dep_value d"] by (simp add: opaque_data_def)
  moreover have "from_be (byte_slice 64 72 (opaque_data d)) = dep_gas d"
    using slice_put_word [of 8 "put_word 32 (dep_mint d) @ put_word 32 (dep_value d)" 0 "dep_gas d"]
    by (simp add: opaque_data_def)
  moreover have "opaque_data d ! 72 = (if dep_creation d then 1 else 0)" "drop 73 (opaque_data d) = dep_data d"
    by (simp_all add: opaque_data_def nth_append)
  ultimately show ?thesis by (simp add: unmarshal_deposit_version0_def length_opaque_data)
qed

lemma decode_deposit_emitted:
  assumes "length (dep_data d) < 2 ^ 63"
  shows "decode_deposit L block_hash index (emitted_log c d) = Inr (dl_encode_2718 L (user_deposit_tx L block_hash index d))"
proof -
  let ?n = "length (opaque_data d)" and ?pad = "replicate (pad32 (length (opaque_data d))) 0"
  let ?w = "word_of_nat ?n :: u64"
  define data where "data = put_word 32 (32 :: u64) @ put_word 32 ?w @ opaque_data d @ ?pad"
  have n: "?n + 32 < 2 ^ 64" using assms by (simp add: length_opaque_data)
  then have w: "unat ?w = ?n" by (simp add: unat_of_nat)
  have len: "length data = 64 + ?n + pad32 ?n" by (simp add: data_def)
  have offset: "from_be (byte_slice 24 32 data) = (32 :: u64)"
    using slice_put_word [of 8 "[]" 24 "32 :: u64"] by (simp add: data_def)
  have size: "from_be (byte_slice 56 64 data) = ?w"
    using slice_put_word [of 8 "put_word 32 (32 :: u64)" 24 ?w] by (simp add: data_def)
  have opaque: "byte_slice 64 (64 + ?n) data = opaque_data d"
    by (simp add: data_def byte_slice_def)
  have aligned: "length data mod 32 = 0" using pad32_aligned [of ?n] unfolding len by presburger
  have padded: "checked_add ?w 32 = Some (?w + 32)" "unat (?w + 32) = ?n + 32"
    using n w by (simp_all add: checked_add_def unat_word_ariths)
  have topics: "log_topics (emitted_log c d) = [DEPOSIT_EVENT_ABI_HASH, ucast (dep_from d), ucast (dep_to d), 0]"
    and log_data: "log_data (emitted_log c d) = data"
    by (simp_all add: emitted_log_def data_def)
  have bounds: "\<not> length data < 64" "\<not> length data - 64 < ?n" "\<not> ?n + 32 \<le> length data - 64"
    using len pad32_less [of ?n] by simp_all
  have "\<not> list_ex (\<lambda>b. b \<noteq> 0) (replicate 12 (0 :: u8))" by (simp add: list_ex_iff)
  then show ?thesis
    unfolding decode_deposit_def topics log_data Let_def
    by (simp add: aligned offset size w padded opaque bounds unmarshal_opaque_data user_deposit_tx_def del: not_less not_le)
qed

section \<open>The logs of a block\<close>

definition is_deposit_log :: "address \<Rightarrow> log \<Rightarrow> bool" where
  "is_deposit_log c l \<longleftrightarrow> log_topics l \<noteq> [] \<and> hd (log_topics l) = DEPOSIT_EVENT_ABI_HASH \<and> log_address l = c"

definition block_logs :: "receipt list \<Rightarrow> log list" where
  "block_logs rs = concat (map rcpt_logs (filter (\<lambda>r. rcpt_status r \<noteq> Eip658 False) rs))"

lemma deposits_of_logs_append:
  "deposits_of_logs L bh c (ls @ ls') i res =
     (case deposits_of_logs L bh c ls i res of Inl e \<Rightarrow> Inl e | Inr (i, res) \<Rightarrow> deposits_of_logs L bh c ls' i res)"
  by (induction ls arbitrary: i res) (auto simp: Let_def split: sum.splits)

lemma deposits_of_receipts_logs:
  "deposits_of_receipts L bh c rs i res = map_sum id snd (deposits_of_logs L bh c (block_logs rs) i res)"
proof (induction rs arbitrary: i res)
  case (Cons r rs)
  then show ?case by (auto simp: block_logs_def deposits_of_logs_append split: sum.splits)
qed (simp add: block_logs_def)

text \<open>A block as a list of deposits and other logs; the deposits with their log indices.\<close>

fun indexed_deposits :: "nat \<Rightarrow> (deposit + log) list \<Rightarrow> (nat \<times> deposit) list" where
  "indexed_deposits i [] = []"
| "indexed_deposits i (Inl d # xs) = (i, d) # indexed_deposits (Suc i) xs"
| "indexed_deposits i (Inr l # xs) = indexed_deposits (Suc i) xs"

lemma deposits_of_logs_block:
  assumes "\<forall>l. Inr l \<in> set xs \<longrightarrow> \<not> is_deposit_log c l" and "\<forall>d. Inl d \<in> set xs \<longrightarrow> length (dep_data d) < 2 ^ 63"
  shows "deposits_of_logs L bh c (map (case_sum (emitted_log c) id) xs) i res =
    Inr (i + length xs, res @ map (\<lambda>(i, d). dl_encode_2718 L (user_deposit_tx L bh i d)) (indexed_deposits i xs))"
  using assms
proof (induction xs arbitrary: i res)
  case (Cons x xs)
  show ?case
  proof (cases x)
    case (Inl d)
    then have "decode_deposit L bh i (emitted_log c d) = Inr (dl_encode_2718 L (user_deposit_tx L bh i d))"
      using Cons.prems(2) by (intro decode_deposit_emitted) auto
    with Cons.IH Cons.prems Inl show ?thesis by (simp add: emitted_log_def)
  next
    case (Inr l)
    then have "\<not> is_deposit_log c l" using Cons.prems(1) by simp
    with Cons.IH Cons.prems Inr show ?thesis by (auto simp: is_deposit_log_def hd_conv_nth)
  qed
qed simp

lemma derive_deposits_block:
  assumes "block_logs rs = map (case_sum (emitted_log c) id) xs"
    and "\<forall>l. Inr l \<in> set xs \<longrightarrow> \<not> is_deposit_log c l"
    and "\<forall>d. Inl d \<in> set xs \<longrightarrow> length (dep_data d) < 2 ^ 63"
  shows "derive_deposits L block_hash rs c =
    Inr (map (\<lambda>(i, d). dl_encode_2718 L (user_deposit_tx L block_hash i d)) (indexed_deposits 0 xs))"
  using deposits_of_logs_block [OF assms(2,3), of L] by (simp add: derive_deposits_def deposits_of_receipts_logs assms(1))

section \<open>Properties\<close>

text \<open>
  C22. The deposits of a block are the transactions that the deposit contract logged, in order: when
  the logs of the receipts that did not fail are those that the contract emits for some deposits
  and logs that are not its deposit events, each deposit comes out as the transaction with its
  sender, recipient, mint, value, gas limit and data, and with the source hash of its log index.
\<close>

theorem derive_deposits_emitted:
  assumes "block_logs rs = map (case_sum (emitted_log c) id) xs"
    and "\<forall>l. Inr l \<in> set xs \<longrightarrow> \<not> is_deposit_log c l"
    and "\<forall>d. Inl d \<in> set xs \<longrightarrow> length (dep_data d) < 2 ^ 63"
  shows "derive_deposits L block_hash rs c =
    Inr (map (\<lambda>(i, d). dl_encode_2718 L (user_deposit_tx L block_hash i d)) (indexed_deposits 0 xs))"
  using assms by (rule derive_deposits_block)

definition example_deposit :: deposit where
  "example_deposit = \<lparr>dep_from = 1, dep_to = 2, dep_mint = 5, dep_value = 3, dep_gas = 21000, dep_creation = False, dep_data = [9]\<rparr>"

definition example_deposit_lib :: deposit_lib where
  "example_deposit_lib = \<lparr>dl_user_source_hash = (\<lambda>h i. h + ucast i), dl_encode_2718 = (\<lambda>tx. 0x7E # dt_input tx)\<rparr>"

theorem derive_deposits_emitted_witness:
  "derive_deposits example_deposit_lib 7
     [\<lparr>rcpt_status = Eip658 False, rcpt_logs = [emitted_log 4 example_deposit]\<rparr>,
      \<lparr>rcpt_status = Eip658 True, rcpt_logs = [\<lparr>log_address = 4, log_topics = [], log_data = []\<rparr>, emitted_log 4 example_deposit]\<rparr>] 4 =
   Inr [0x7E # [9]]"
  using derive_deposits_emitted [of "[\<lparr>rcpt_status = Eip658 False, rcpt_logs = [emitted_log 4 example_deposit]\<rparr>,
      \<lparr>rcpt_status = Eip658 True, rcpt_logs = [\<lparr>log_address = 4, log_topics = [], log_data = []\<rparr>, emitted_log 4 example_deposit]\<rparr>]"
    4 "[Inr \<lparr>log_address = 4, log_topics = [], log_data = []\<rparr>, Inl example_deposit]" example_deposit_lib 7]
  by (simp add: block_logs_def is_deposit_log_def example_deposit_def example_deposit_lib_def user_deposit_tx_def)

end
