(* ===== verification/Upgrades.thy ===== *)
theory Upgrades
  imports Deposits
begin

text \<open>
  The network upgrade transactions, \<^verbatim>\<open>crates/protocol/hardforks/src\<close>, and the addresses of the
  predeploys, \<^verbatim>\<open>crates/protocol/protocol/src/predeploys.rs\<close>.  The source hash of an upgrade
  deposit, contract addresses and \<^verbatim>\<open>keccak256\<close> are library code; the bytecodes are files that
  the crate embeds.  They are the fields of \<open>hardfork_lib\<close>.

  Shown: no upgrade deposit mints or is a system transaction, and under a source hash without
  collisions no two upgrade deposits of any two forks have the same source.
\<close>

record hardfork_lib = deposit_lib +
  hl_source_hash :: "string \<Rightarrow> b256"
  hl_bytecode :: "string \<Rightarrow> bytes"
  hl_create :: "address \<Rightarrow> u64 \<Rightarrow> address"
  hl_keccak256 :: "string \<Rightarrow> bytes"

section \<open>Predeploys\<close>

definition predeploy_LEGACY_MESSAGE_PASSER :: address where
  "predeploy_LEGACY_MESSAGE_PASSER = 0x4200000000000000000000000000000000000000"

definition predeploy_DEPLOYER_WHITELIST :: address where
  "predeploy_DEPLOYER_WHITELIST = 0x4200000000000000000000000000000000000002"

definition predeploy_LEGACY_ERC20_ETH :: address where
  "predeploy_LEGACY_ERC20_ETH = 0xdeaddeaddeaddeaddeaddeaddeaddeaddead0000"

definition predeploy_WETH9 :: address where
  "predeploy_WETH9 = 0x4200000000000000000000000000000000000006"

definition predeploy_L2_CROSS_DOMAIN_MESSENGER :: address where
  "predeploy_L2_CROSS_DOMAIN_MESSENGER = 0x4200000000000000000000000000000000000007"

definition predeploy_L2_STANDARD_BRIDGE :: address where
  "predeploy_L2_STANDARD_BRIDGE = 0x4200000000000000000000000000000000000010"

definition predeploy_SEQUENCER_FEE_VAULT :: address where
  "predeploy_SEQUENCER_FEE_VAULT = 0x4200000000000000000000000000000000000011"

definition predeploy_OP_MINTABLE_ERC20_FACTORY :: address where
  "predeploy_OP_MINTABLE_ERC20_FACTORY = 0x4200000000000000000000000000000000000012"

definition predeploy_L1_BLOCK_NUMBER :: address where
  "predeploy_L1_BLOCK_NUMBER = 0x4200000000000000000000000000000000000013"

definition predeploy_GAS_PRICE_ORACLE :: address where
  "predeploy_GAS_PRICE_ORACLE = 0x420000000000000000000000000000000000000f"

definition predeploy_GOVERNANCE_TOKEN :: address where
  "predeploy_GOVERNANCE_TOKEN = 0x4200000000000000000000000000000000000042"

definition predeploy_L1_BLOCK_INFO :: address where
  "predeploy_L1_BLOCK_INFO = 0x4200000000000000000000000000000000000015"

definition predeploy_L2_TO_L1_MESSAGE_PASSER :: address where
  "predeploy_L2_TO_L1_MESSAGE_PASSER = 0x4200000000000000000000000000000000000016"

definition predeploy_L2_ERC721_BRIDGE :: address where
  "predeploy_L2_ERC721_BRIDGE = 0x4200000000000000000000000000000000000014"

definition predeploy_OP_MINTABLE_ERC721_FACTORY :: address where
  "predeploy_OP_MINTABLE_ERC721_FACTORY = 0x4200000000000000000000000000000000000017"

definition predeploy_PROXY_ADMIN :: address where
  "predeploy_PROXY_ADMIN = 0x4200000000000000000000000000000000000018"

definition predeploy_BASE_FEE_VAULT :: address where
  "predeploy_BASE_FEE_VAULT = 0x4200000000000000000000000000000000000019"

definition predeploy_L1_FEE_VAULT :: address where
  "predeploy_L1_FEE_VAULT = 0x420000000000000000000000000000000000001a"

definition predeploy_SCHEMA_REGISTRY :: address where
  "predeploy_SCHEMA_REGISTRY = 0x4200000000000000000000000000000000000020"

definition predeploy_EAS :: address where
  "predeploy_EAS = 0x4200000000000000000000000000000000000021"

definition predeploy_BEACON_BLOCK_ROOT :: address where
  "predeploy_BEACON_BLOCK_ROOT = 0x000f3df6d732807ef1319fb7b8bb8522d0beac02"

definition predeploy_OPERATOR_FEE_VAULT :: address where
  "predeploy_OPERATOR_FEE_VAULT = 0x420000000000000000000000000000000000001b"

definition predeploy_CROSS_L2_INBOX :: address where
  "predeploy_CROSS_L2_INBOX = 0x4200000000000000000000000000000000000022"

definition predeploy_L2_TO_L2_XDM :: address where
  "predeploy_L2_TO_L2_XDM = 0x4200000000000000000000000000000000000023"

definition predeploys_all :: "address list" where
  "predeploys_all =
     [predeploy_LEGACY_MESSAGE_PASSER,
      predeploy_DEPLOYER_WHITELIST,
      predeploy_LEGACY_ERC20_ETH,
      predeploy_WETH9,
      predeploy_L2_CROSS_DOMAIN_MESSENGER,
      predeploy_L2_STANDARD_BRIDGE,
      predeploy_SEQUENCER_FEE_VAULT,
      predeploy_OP_MINTABLE_ERC20_FACTORY,
      predeploy_L1_BLOCK_NUMBER,
      predeploy_GAS_PRICE_ORACLE,
      predeploy_GOVERNANCE_TOKEN,
      predeploy_L1_BLOCK_INFO,
      predeploy_L2_TO_L1_MESSAGE_PASSER,
      predeploy_L2_ERC721_BRIDGE,
      predeploy_OP_MINTABLE_ERC721_FACTORY,
      predeploy_PROXY_ADMIN,
      predeploy_BASE_FEE_VAULT,
      predeploy_L1_FEE_VAULT,
      predeploy_SCHEMA_REGISTRY,
      predeploy_EAS,
      predeploy_BEACON_BLOCK_ROOT,
      predeploy_OPERATOR_FEE_VAULT,
      predeploy_CROSS_L2_INBOX,
      predeploy_L2_TO_L2_XDM]"

section \<open>Upgrade deposits\<close>

definition UPGRADE_TO_FUNC_BYTES_4 :: bytes where
  "UPGRADE_TO_FUNC_BYTES_4 = [0x36, 0x59, 0xcf, 0xe6]"

definition upgrade_to_calldata :: "address \<Rightarrow> bytes" where
  "upgrade_to_calldata addr = UPGRADE_TO_FUNC_BYTES_4 @ put_word 32 addr"

text \<open>The fields that all upgrade deposits have in common.\<close>

definition upgrade_deposit :: "b256 \<Rightarrow> address \<Rightarrow> address option \<Rightarrow> u64 \<Rightarrow> bytes \<Rightarrow> tx_deposit" where
  "upgrade_deposit source from_addr to_addr gas data =
     \<lparr>dt_source_hash = source, dt_from = from_addr, dt_to = to_addr, dt_mint = 0, dt_value = 0, dt_gas_limit = gas,
      dt_is_system_transaction = False, dt_input = data\<rparr>"

section \<open>Ecotone\<close>

definition ecotone_GAS_PRICE_ORACLE :: address where
  "ecotone_GAS_PRICE_ORACLE = 0xb528d11cc114e026f138fe568744c6d45ce6da7a"

definition ecotone_DEPOSITOR_ACCOUNT :: address where
  "ecotone_DEPOSITOR_ACCOUNT = 0xdeaddeaddeaddeaddeaddeaddeaddeaddead0001"

definition ecotone_ENABLE_ECOTONE_INPUT :: bytes where
  "ecotone_ENABLE_ECOTONE_INPUT = [0x22, 0xb9, 0x0a, 0xb3]"

definition ecotone_L1_BLOCK_DEPLOYER :: address where
  "ecotone_L1_BLOCK_DEPLOYER = 0x4210000000000000000000000000000000000000"

definition ecotone_GAS_PRICE_ORACLE_DEPLOYER :: address where
  "ecotone_GAS_PRICE_ORACLE_DEPLOYER = 0x4210000000000000000000000000000000000001"

definition ecotone_NEW_L1_BLOCK :: address where
  "ecotone_NEW_L1_BLOCK = 0x07dbe8500fc591d1852b76fee44d5a05e13097ff"

definition ecotone_EIP4788_FROM :: address where
  "ecotone_EIP4788_FROM = 0x0b799c86a49deeb90402691f1041aa3af2d3c875"

definition ecotone_L1_BLOCK_DEPLOYER_CODE_HASH :: b256 where
  "ecotone_L1_BLOCK_DEPLOYER_CODE_HASH = 0xc88a313aa75dc4fbf0b6850d9f9ae41e04243b7008cf3eadb29256d4a71c1dfd"

definition ecotone_GAS_PRICE_ORACLE_CODE_HASH :: b256 where
  "ecotone_GAS_PRICE_ORACLE_CODE_HASH = 0x8b71360ea773b4cfaf1ae6d2bd15464a4e1e2e360f786e475f63aeaed8da0ae5"

definition ecotone_deploy_l1_block_source :: "'z hardfork_lib_scheme \<Rightarrow> b256" where
  "ecotone_deploy_l1_block_source H = hl_source_hash H ''Ecotone: L1 Block Deployment''"

definition ecotone_deploy_gas_price_oracle_source :: "'z hardfork_lib_scheme \<Rightarrow> b256" where
  "ecotone_deploy_gas_price_oracle_source H = hl_source_hash H ''Ecotone: Gas Price Oracle Deployment''"

definition ecotone_update_l1_block_source :: "'z hardfork_lib_scheme \<Rightarrow> b256" where
  "ecotone_update_l1_block_source H = hl_source_hash H ''Ecotone: L1 Block Proxy Update''"

definition ecotone_update_gas_price_oracle_source :: "'z hardfork_lib_scheme \<Rightarrow> b256" where
  "ecotone_update_gas_price_oracle_source H = hl_source_hash H ''Ecotone: Gas Price Oracle Proxy Update''"

definition ecotone_beacon_roots_source :: "'z hardfork_lib_scheme \<Rightarrow> b256" where
  "ecotone_beacon_roots_source H = hl_source_hash H ''Ecotone: beacon block roots contract deployment''"

definition ecotone_enable_ecotone_source :: "'z hardfork_lib_scheme \<Rightarrow> b256" where
  "ecotone_enable_ecotone_source H = hl_source_hash H ''Ecotone: Gas Price Oracle Set Ecotone''"

definition ecotone_eip4788_creation_data :: "'z hardfork_lib_scheme \<Rightarrow> bytes" where
  "ecotone_eip4788_creation_data H = hl_bytecode H ''eip4788_ecotone.hex''"

definition ecotone_l1_block_deployment_bytecode :: "'z hardfork_lib_scheme \<Rightarrow> bytes" where
  "ecotone_l1_block_deployment_bytecode H = hl_bytecode H ''l1_block_ecotone.hex''"

definition ecotone_ecotone_gas_price_oracle_deployment_bytecode :: "'z hardfork_lib_scheme \<Rightarrow> bytes" where
  "ecotone_ecotone_gas_price_oracle_deployment_bytecode H = hl_bytecode H ''gpo_ecotone.hex''"

definition ecotone_deposits :: "'z hardfork_lib_scheme \<Rightarrow> tx_deposit list" where
  "ecotone_deposits H =
     [upgrade_deposit (ecotone_deploy_l1_block_source H) ecotone_L1_BLOCK_DEPLOYER (None) 375000 (ecotone_l1_block_deployment_bytecode H),
      upgrade_deposit (ecotone_deploy_gas_price_oracle_source H) ecotone_GAS_PRICE_ORACLE_DEPLOYER (None) 1000000 (ecotone_ecotone_gas_price_oracle_deployment_bytecode H),
      upgrade_deposit (ecotone_update_l1_block_source H) 0 (Some predeploy_L1_BLOCK_INFO) 50000 (upgrade_to_calldata ecotone_NEW_L1_BLOCK),
      upgrade_deposit (ecotone_update_gas_price_oracle_source H) 0 (Some predeploy_GAS_PRICE_ORACLE) 50000 (upgrade_to_calldata ecotone_GAS_PRICE_ORACLE),
      upgrade_deposit (ecotone_enable_ecotone_source H) ecotone_DEPOSITOR_ACCOUNT (Some predeploy_GAS_PRICE_ORACLE) 80000 (ecotone_ENABLE_ECOTONE_INPUT),
      upgrade_deposit (ecotone_beacon_roots_source H) ecotone_EIP4788_FROM (None) 250000 (ecotone_eip4788_creation_data H)]"

definition ecotone_txs :: "'z hardfork_lib_scheme \<Rightarrow> bytes list" where
  "ecotone_txs H = map (dl_encode_2718 H) (ecotone_deposits H)"

section \<open>Fjord\<close>

definition fjord_GAS_PRICE_ORACLE :: address where
  "fjord_GAS_PRICE_ORACLE = 0xb528d11cc114e026f138fe568744c6d45ce6da7a"

definition fjord_L1_INFO_DEPOSITER :: address where
  "fjord_L1_INFO_DEPOSITER = 0xdeaddeaddeaddeaddeaddeaddeaddeaddead0001"

definition fjord_GAS_PRICE_ORACLE_FJORD_DEPLOYER :: address where
  "fjord_GAS_PRICE_ORACLE_FJORD_DEPLOYER = 0x4210000000000000000000000000000000000002"

definition fjord_FJORD_GAS_PRICE_ORACLE :: address where
  "fjord_FJORD_GAS_PRICE_ORACLE = 0xa919894851548179a0750865e7974da599c0fac7"

definition fjord_SET_FJORD_METHOD_SIGNATURE :: bytes where
  "fjord_SET_FJORD_METHOD_SIGNATURE = [0x8e, 0x98, 0xb1, 0x06]"

definition fjord_GAS_PRICE_ORACLE_CODE_HASH :: b256 where
  "fjord_GAS_PRICE_ORACLE_CODE_HASH = 0xa88fa50a2745b15e6794247614b5298483070661adacb8d32d716434ed24c6b2"

definition fjord_deploy_fjord_gas_price_oracle_source :: "'z hardfork_lib_scheme \<Rightarrow> b256" where
  "fjord_deploy_fjord_gas_price_oracle_source H = hl_source_hash H ''Fjord: Gas Price Oracle Deployment''"

definition fjord_update_fjord_gas_price_oracle_source :: "'z hardfork_lib_scheme \<Rightarrow> b256" where
  "fjord_update_fjord_gas_price_oracle_source H = hl_source_hash H ''Fjord: Gas Price Oracle Proxy Update''"

definition fjord_enable_fjord_source :: "'z hardfork_lib_scheme \<Rightarrow> b256" where
  "fjord_enable_fjord_source H = hl_source_hash H ''Fjord: Gas Price Oracle Set Fjord''"

definition fjord_gas_price_oracle_deployment_bytecode :: "'z hardfork_lib_scheme \<Rightarrow> bytes" where
  "fjord_gas_price_oracle_deployment_bytecode H = hl_bytecode H ''gpo_fjord.hex''"

definition fjord_deposits :: "'z hardfork_lib_scheme \<Rightarrow> tx_deposit list" where
  "fjord_deposits H =
     [upgrade_deposit (fjord_deploy_fjord_gas_price_oracle_source H) fjord_GAS_PRICE_ORACLE_FJORD_DEPLOYER (None) 1450000 (fjord_gas_price_oracle_deployment_bytecode H),
      upgrade_deposit (fjord_update_fjord_gas_price_oracle_source H) 0 (Some predeploy_GAS_PRICE_ORACLE) 50000 (upgrade_to_calldata fjord_FJORD_GAS_PRICE_ORACLE),
      upgrade_deposit (fjord_enable_fjord_source H) fjord_L1_INFO_DEPOSITER (Some predeploy_GAS_PRICE_ORACLE) 90000 (fjord_SET_FJORD_METHOD_SIGNATURE)]"

definition fjord_txs :: "'z hardfork_lib_scheme \<Rightarrow> bytes list" where
  "fjord_txs H = map (dl_encode_2718 H) (fjord_deposits H)"

section \<open>Isthmus\<close>

definition isthmus_DEPOSITOR_ACCOUNT :: address where
  "isthmus_DEPOSITOR_ACCOUNT = 0xdeaddeaddeaddeaddeaddeaddeaddeaddead0001"

definition isthmus_ENABLE_ISTHMUS_INPUT :: bytes where
  "isthmus_ENABLE_ISTHMUS_INPUT = [0x29, 0x1b, 0x03, 0x83]"

definition isthmus_EIP2935_FROM :: address where
  "isthmus_EIP2935_FROM = 0x3462413af4609098e1e27a490f554f260213d685"

definition isthmus_L1_BLOCK_DEPLOYER :: address where
  "isthmus_L1_BLOCK_DEPLOYER = 0x4210000000000000000000000000000000000003"

definition isthmus_GAS_PRICE_ORACLE_DEPLOYER :: address where
  "isthmus_GAS_PRICE_ORACLE_DEPLOYER = 0x4210000000000000000000000000000000000004"

definition isthmus_OPERATOR_FEE_VAULT_DEPLOYER :: address where
  "isthmus_OPERATOR_FEE_VAULT_DEPLOYER = 0x4210000000000000000000000000000000000005"

definition isthmus_NEW_L1_BLOCK :: address where
  "isthmus_NEW_L1_BLOCK = 0xff256497d61dcd71a9e9ff43967c13fde1f72d12"

definition isthmus_GAS_PRICE_ORACLE :: address where
  "isthmus_GAS_PRICE_ORACLE = 0x93e57a196454cb919193fa9946f14943cf733845"

definition isthmus_OPERATOR_FEE_VAULT :: address where
  "isthmus_OPERATOR_FEE_VAULT = 0x4fa2be8cd41504037f1838bce3bcc93bc68ff537"

definition isthmus_L1_BLOCK_DEPLOYER_CODE_HASH :: b256 where
  "isthmus_L1_BLOCK_DEPLOYER_CODE_HASH = 0x8e3fe7a416d3e5f3b7be74ddd4e7e58e516fa3f80b67c6d930e3cd7297da4a4b"

definition isthmus_GAS_PRICE_ORACLE_CODE_HASH :: b256 where
  "isthmus_GAS_PRICE_ORACLE_CODE_HASH = 0x4d195a9d7caf9fb6d4beaf80de252c626c853afd5868c4f4f8d19c9d301c2679"

definition isthmus_OPERATOR_FEE_VAULT_CODE_HASH :: b256 where
  "isthmus_OPERATOR_FEE_VAULT_CODE_HASH = 0x57dc55c9c09ca456fa728f253fe7b895d3e6aae0706104935fe87c7721001971"

definition isthmus_enable_isthmus_source :: "'z hardfork_lib_scheme \<Rightarrow> b256" where
  "isthmus_enable_isthmus_source H = hl_source_hash H ''Isthmus: Gas Price Oracle Set Isthmus''"

definition isthmus_block_hash_history_contract_source :: "'z hardfork_lib_scheme \<Rightarrow> b256" where
  "isthmus_block_hash_history_contract_source H = hl_source_hash H ''Isthmus: EIP-2935 Contract Deployment''"

definition isthmus_deploy_gas_price_oracle_source :: "'z hardfork_lib_scheme \<Rightarrow> b256" where
  "isthmus_deploy_gas_price_oracle_source H = hl_source_hash H ''Isthmus: Gas Price Oracle Deployment''"

definition isthmus_deploy_l1_block_source :: "'z hardfork_lib_scheme \<Rightarrow> b256" where
  "isthmus_deploy_l1_block_source H = hl_source_hash H ''Isthmus: L1 Block Deployment''"

definition isthmus_deploy_operator_fee_vault_source :: "'z hardfork_lib_scheme \<Rightarrow> b256" where
  "isthmus_deploy_operator_fee_vault_source H = hl_source_hash H ''Isthmus: Operator Fee Vault Deployment''"

definition isthmus_update_l1_block_source :: "'z hardfork_lib_scheme \<Rightarrow> b256" where
  "isthmus_update_l1_block_source H = hl_source_hash H ''Isthmus: L1 Block Proxy Update''"

definition isthmus_update_gas_price_oracle_source :: "'z hardfork_lib_scheme \<Rightarrow> b256" where
  "isthmus_update_gas_price_oracle_source H = hl_source_hash H ''Isthmus: Gas Price Oracle Proxy Update''"

definition isthmus_update_operator_fee_vault_source :: "'z hardfork_lib_scheme \<Rightarrow> b256" where
  "isthmus_update_operator_fee_vault_source H = hl_source_hash H ''Isthmus: Operator Fee Vault Proxy Update''"

definition isthmus_l1_block_deployment_bytecode :: "'z hardfork_lib_scheme \<Rightarrow> bytes" where
  "isthmus_l1_block_deployment_bytecode H = hl_bytecode H ''l1_block_isthmus.hex''"

definition isthmus_gas_price_oracle_deployment_bytecode :: "'z hardfork_lib_scheme \<Rightarrow> bytes" where
  "isthmus_gas_price_oracle_deployment_bytecode H = hl_bytecode H ''gpo_isthmus.hex''"

definition isthmus_operator_fee_vault_deployment_bytecode :: "'z hardfork_lib_scheme \<Rightarrow> bytes" where
  "isthmus_operator_fee_vault_deployment_bytecode H = hl_bytecode H ''ofv_isthmus.hex''"

definition isthmus_eip2935_creation_data :: "'z hardfork_lib_scheme \<Rightarrow> bytes" where
  "isthmus_eip2935_creation_data H = hl_bytecode H ''eip2935_isthmus.hex''"

definition isthmus_deposits :: "'z hardfork_lib_scheme \<Rightarrow> tx_deposit list" where
  "isthmus_deposits H =
     [upgrade_deposit (isthmus_deploy_l1_block_source H) isthmus_L1_BLOCK_DEPLOYER (None) 425000 (isthmus_l1_block_deployment_bytecode H),
      upgrade_deposit (isthmus_deploy_gas_price_oracle_source H) isthmus_GAS_PRICE_ORACLE_DEPLOYER (None) 1625000 (isthmus_gas_price_oracle_deployment_bytecode H),
      upgrade_deposit (isthmus_deploy_operator_fee_vault_source H) isthmus_OPERATOR_FEE_VAULT_DEPLOYER (None) 500000 (isthmus_operator_fee_vault_deployment_bytecode H),
      upgrade_deposit (isthmus_update_l1_block_source H) 0 (Some predeploy_L1_BLOCK_INFO) 50000 (upgrade_to_calldata isthmus_NEW_L1_BLOCK),
      upgrade_deposit (isthmus_update_gas_price_oracle_source H) 0 (Some predeploy_GAS_PRICE_ORACLE) 50000 (upgrade_to_calldata isthmus_GAS_PRICE_ORACLE),
      upgrade_deposit (isthmus_update_operator_fee_vault_source H) 0 (Some predeploy_OPERATOR_FEE_VAULT) 50000 (upgrade_to_calldata isthmus_OPERATOR_FEE_VAULT),
      upgrade_deposit (isthmus_enable_isthmus_source H) isthmus_DEPOSITOR_ACCOUNT (Some predeploy_GAS_PRICE_ORACLE) 90000 (isthmus_ENABLE_ISTHMUS_INPUT),
      upgrade_deposit (isthmus_block_hash_history_contract_source H) isthmus_EIP2935_FROM (None) 250000 (isthmus_eip2935_creation_data H)]"

definition isthmus_txs :: "'z hardfork_lib_scheme \<Rightarrow> bytes list" where
  "isthmus_txs H = map (dl_encode_2718 H) (isthmus_deposits H)"

section \<open>Jovian\<close>

definition jovian_DEPOSITOR_ACCOUNT :: address where
  "jovian_DEPOSITOR_ACCOUNT = 0xdeaddeaddeaddeaddeaddeaddeaddeaddead0001"

definition jovian_L1_BLOCK_DEPLOYER :: address where
  "jovian_L1_BLOCK_DEPLOYER = 0x4210000000000000000000000000000000000006"

definition jovian_ZERO_ADDRESS :: address where
  "jovian_ZERO_ADDRESS = 0x0000000000000000000000000000000000000000"

definition jovian_GAS_PRICE_ORACLE_DEPLOYER :: address where
  "jovian_GAS_PRICE_ORACLE_DEPLOYER = 0x4210000000000000000000000000000000000007"

definition jovian_deploy_l1_block_source :: "'z hardfork_lib_scheme \<Rightarrow> b256" where
  "jovian_deploy_l1_block_source H = hl_source_hash H ''Jovian: L1 Block Deployment''"

definition jovian_l1_block_proxy_update :: "'z hardfork_lib_scheme \<Rightarrow> b256" where
  "jovian_l1_block_proxy_update H = hl_source_hash H ''Jovian: L1 Block Proxy Update''"

definition jovian_gas_price_oracle :: "'z hardfork_lib_scheme \<Rightarrow> b256" where
  "jovian_gas_price_oracle H = hl_source_hash H ''Jovian: Gas Price Oracle Deployment''"

definition jovian_gas_price_oracle_proxy_update :: "'z hardfork_lib_scheme \<Rightarrow> b256" where
  "jovian_gas_price_oracle_proxy_update H = hl_source_hash H ''Jovian: Gas Price Oracle Proxy Update''"

definition jovian_l1_block_address :: "'z hardfork_lib_scheme \<Rightarrow> address" where
  "jovian_l1_block_address H = hl_create H jovian_L1_BLOCK_DEPLOYER 0"

definition jovian_gas_price_oracle_address :: "'z hardfork_lib_scheme \<Rightarrow> address" where
  "jovian_gas_price_oracle_address H = hl_create H jovian_GAS_PRICE_ORACLE_DEPLOYER 0"

definition jovian_gas_price_oracle_enable_jovian :: "'z hardfork_lib_scheme \<Rightarrow> b256" where
  "jovian_gas_price_oracle_enable_jovian H = hl_source_hash H ''Jovian: Gas Price Oracle Set Jovian''"

definition jovian_l1_block_deployment_bytecode :: "'z hardfork_lib_scheme \<Rightarrow> bytes" where
  "jovian_l1_block_deployment_bytecode H = hl_bytecode H ''jovian-l1-block-deployment.hex''"

definition jovian_gas_price_oracle_deployment_bytecode :: "'z hardfork_lib_scheme \<Rightarrow> bytes" where
  "jovian_gas_price_oracle_deployment_bytecode H = hl_bytecode H ''jovian-gas-price-oracle-deployment.hex''"

definition jovian_gas_price_oracle_enable_jovian_bytecode :: "'z hardfork_lib_scheme \<Rightarrow> bytes" where
  "jovian_gas_price_oracle_enable_jovian_bytecode H = take 4 (hl_keccak256 H ''setJovian()'')"

definition jovian_deposits :: "'z hardfork_lib_scheme \<Rightarrow> tx_deposit list" where
  "jovian_deposits H =
     [upgrade_deposit (jovian_deploy_l1_block_source H) jovian_L1_BLOCK_DEPLOYER (None) 447315 (jovian_l1_block_deployment_bytecode H),
      upgrade_deposit (jovian_l1_block_proxy_update H) jovian_ZERO_ADDRESS (Some predeploy_L1_BLOCK_INFO) 50000 (upgrade_to_calldata (jovian_l1_block_address H)),
      upgrade_deposit (jovian_gas_price_oracle H) jovian_GAS_PRICE_ORACLE_DEPLOYER (None) 1750714 (jovian_gas_price_oracle_deployment_bytecode H),
      upgrade_deposit (jovian_gas_price_oracle_proxy_update H) jovian_ZERO_ADDRESS (Some predeploy_GAS_PRICE_ORACLE) 50000 (upgrade_to_calldata (jovian_gas_price_oracle_address H)),
      upgrade_deposit (jovian_gas_price_oracle_enable_jovian H) jovian_DEPOSITOR_ACCOUNT (Some predeploy_GAS_PRICE_ORACLE) 90000 (jovian_gas_price_oracle_enable_jovian_bytecode H)]"

definition jovian_txs :: "'z hardfork_lib_scheme \<Rightarrow> bytes list" where
  "jovian_txs H = map (dl_encode_2718 H) (jovian_deposits H)"

section \<open>Interop\<close>

definition interop_CROSS_L2_INBOX_DEPLOYER :: address where
  "interop_CROSS_L2_INBOX_DEPLOYER = 0x4220000000000000000000000000000000000000"

definition interop_L2_TO_L2_XDM_DEPLOYER :: address where
  "interop_L2_TO_L2_XDM_DEPLOYER = 0x4220000000000000000000000000000000000001"

definition interop_NEW_CROSS_L2_INBOX_IMPL :: address where
  "interop_NEW_CROSS_L2_INBOX_IMPL = 0x691300f512e48b463c2617b34eef1a9f82ee7dbf"

definition interop_CROSS_L2_INBOX_IMPL_CODE_HASH :: b256 where
  "interop_CROSS_L2_INBOX_IMPL_CODE_HASH = 0x0e7d028dd71bac22d1fb28966043c8d35c3232c78b7fb99fd1db112b5b60d9dd"

definition interop_NEW_L2_TO_L2_XDM_IMPL :: address where
  "interop_NEW_L2_TO_L2_XDM_IMPL = 0x0d0edd0ebd0e94d218670a8de867eb5c4d37cadd"

definition interop_L2_TO_L2_XDM_IMPL_CODE_HASH :: b256 where
  "interop_L2_TO_L2_XDM_IMPL_CODE_HASH = 0x458925c90ec70736600bef3d6529643a0e7a0a848e62626d61314c057b4a71a9"

definition interop_deploy_cross_l2_inbox_source :: "'z hardfork_lib_scheme \<Rightarrow> b256" where
  "interop_deploy_cross_l2_inbox_source H = hl_source_hash H ''Interop: CrossL2Inbox Deployment''"

definition interop_upgrade_cross_l2_inbox_proxy_source :: "'z hardfork_lib_scheme \<Rightarrow> b256" where
  "interop_upgrade_cross_l2_inbox_proxy_source H = hl_source_hash H ''Interop: CrossL2Inbox Proxy Update''"

definition interop_deploy_l2_to_l2_xdm_source :: "'z hardfork_lib_scheme \<Rightarrow> b256" where
  "interop_deploy_l2_to_l2_xdm_source H = hl_source_hash H ''Interop: L2ToL2CrossDomainMessenger Deployment''"

definition interop_upgrade_l2_to_l2_xdm_proxy_source :: "'z hardfork_lib_scheme \<Rightarrow> b256" where
  "interop_upgrade_l2_to_l2_xdm_proxy_source H = hl_source_hash H ''Interop: L2ToL2CrossDomainMessenger Proxy Update''"

definition interop_cross_l2_inbox_deployment_bytecode :: "'z hardfork_lib_scheme \<Rightarrow> bytes" where
  "interop_cross_l2_inbox_deployment_bytecode H = hl_bytecode H ''crossl2inbox_interop.hex''"

definition interop_l2_to_l2_xdm_deployment_bytecode :: "'z hardfork_lib_scheme \<Rightarrow> bytes" where
  "interop_l2_to_l2_xdm_deployment_bytecode H = hl_bytecode H ''l2tol2_xdm_interop.hex''"

definition interop_deposits :: "'z hardfork_lib_scheme \<Rightarrow> tx_deposit list" where
  "interop_deposits H =
     [upgrade_deposit (interop_deploy_cross_l2_inbox_source H) interop_CROSS_L2_INBOX_DEPLOYER (None) 420000 (interop_cross_l2_inbox_deployment_bytecode H),
      upgrade_deposit (interop_upgrade_cross_l2_inbox_proxy_source H) 0 (Some predeploy_CROSS_L2_INBOX) 50000 (upgrade_to_calldata interop_NEW_CROSS_L2_INBOX_IMPL),
      upgrade_deposit (interop_deploy_l2_to_l2_xdm_source H) interop_L2_TO_L2_XDM_DEPLOYER (None) 1100000 (interop_l2_to_l2_xdm_deployment_bytecode H),
      upgrade_deposit (interop_upgrade_l2_to_l2_xdm_proxy_source H) 0 (Some predeploy_L2_TO_L2_XDM) 50000 (upgrade_to_calldata interop_NEW_L2_TO_L2_XDM_IMPL)]"

definition interop_txs :: "'z hardfork_lib_scheme \<Rightarrow> bytes list" where
  "interop_txs H = map (dl_encode_2718 H) (interop_deposits H)"

section \<open>All upgrades\<close>

definition upgrade_deposits :: "'z hardfork_lib_scheme \<Rightarrow> tx_deposit list" where
  "upgrade_deposits H = ecotone_deposits H @ fjord_deposits H @ isthmus_deposits H @ jovian_deposits H @ interop_deposits H"

lemmas upgrade_deposit_defs = ecotone_deposits_def fjord_deposits_def isthmus_deposits_def jovian_deposits_def
  interop_deposits_def

lemmas upgrade_source_defs =
  ecotone_deploy_l1_block_source_def ecotone_deploy_gas_price_oracle_source_def
  ecotone_update_l1_block_source_def ecotone_update_gas_price_oracle_source_def
  ecotone_beacon_roots_source_def ecotone_enable_ecotone_source_def
  fjord_deploy_fjord_gas_price_oracle_source_def fjord_update_fjord_gas_price_oracle_source_def
  fjord_enable_fjord_source_def isthmus_enable_isthmus_source_def
  isthmus_block_hash_history_contract_source_def isthmus_deploy_gas_price_oracle_source_def
  isthmus_deploy_l1_block_source_def isthmus_deploy_operator_fee_vault_source_def
  isthmus_update_l1_block_source_def isthmus_update_gas_price_oracle_source_def
  isthmus_update_operator_fee_vault_source_def jovian_deploy_l1_block_source_def
  jovian_l1_block_proxy_update_def jovian_gas_price_oracle_def jovian_gas_price_oracle_proxy_update_def
  jovian_gas_price_oracle_enable_jovian_def interop_deploy_cross_l2_inbox_source_def
  interop_upgrade_cross_l2_inbox_proxy_source_def interop_deploy_l2_to_l2_xdm_source_def
  interop_upgrade_l2_to_l2_xdm_proxy_source_def

definition upgrade_intents :: "string list" where
  "upgrade_intents =
     [''Ecotone: L1 Block Deployment'',
      ''Ecotone: Gas Price Oracle Deployment'',
      ''Ecotone: L1 Block Proxy Update'',
      ''Ecotone: Gas Price Oracle Proxy Update'',
      ''Ecotone: Gas Price Oracle Set Ecotone'',
      ''Ecotone: beacon block roots contract deployment'',
      ''Fjord: Gas Price Oracle Deployment'',
      ''Fjord: Gas Price Oracle Proxy Update'',
      ''Fjord: Gas Price Oracle Set Fjord'',
      ''Isthmus: L1 Block Deployment'',
      ''Isthmus: Gas Price Oracle Deployment'',
      ''Isthmus: Operator Fee Vault Deployment'',
      ''Isthmus: L1 Block Proxy Update'',
      ''Isthmus: Gas Price Oracle Proxy Update'',
      ''Isthmus: Operator Fee Vault Proxy Update'',
      ''Isthmus: Gas Price Oracle Set Isthmus'',
      ''Isthmus: EIP-2935 Contract Deployment'',
      ''Jovian: L1 Block Deployment'',
      ''Jovian: L1 Block Proxy Update'',
      ''Jovian: Gas Price Oracle Deployment'',
      ''Jovian: Gas Price Oracle Proxy Update'',
      ''Jovian: Gas Price Oracle Set Jovian'',
      ''Interop: CrossL2Inbox Deployment'',
      ''Interop: CrossL2Inbox Proxy Update'',
      ''Interop: L2ToL2CrossDomainMessenger Deployment'',
      ''Interop: L2ToL2CrossDomainMessenger Proxy Update'']"

lemma upgrade_deposit_fields [simp]:
  "dt_source_hash (upgrade_deposit source a t gas d) = source"
  "dt_mint (upgrade_deposit source a t gas d) = 0"
  "dt_value (upgrade_deposit source a t gas d) = 0"
  "dt_is_system_transaction (upgrade_deposit source a t gas d) = False"
  by (simp_all add: upgrade_deposit_def)

lemma upgrade_deposit_sources: "map dt_source_hash (upgrade_deposits H) = map (hl_source_hash H) upgrade_intents"
  by (simp add: upgrade_deposits_def upgrade_deposit_defs upgrade_source_defs upgrade_intents_def)

lemma distinct_upgrade_intents: "distinct upgrade_intents"
  by (simp add: upgrade_intents_def)

lemma upgrade_deposits_plain:
  "tx \<in> set (upgrade_deposits H) \<Longrightarrow> dt_mint tx = 0 \<and> dt_value tx = 0 \<and> \<not> dt_is_system_transaction tx"
  by (auto simp: upgrade_deposits_def upgrade_deposit_defs)

lemma upgrade_deposits_distinct:
  assumes "inj_on (hl_source_hash H) (set upgrade_intents)"
  shows "distinct (upgrade_deposits H)"
proof -
  have "distinct (map dt_source_hash (upgrade_deposits H))"
    using assms distinct_upgrade_intents by (simp add: upgrade_deposit_sources distinct_map)
  then show ?thesis by (simp add: distinct_map)
qed

lemma predeploys_distinct: "distinct predeploys_all"
  by (simp add: predeploys_all_def predeploy_LEGACY_MESSAGE_PASSER_def predeploy_DEPLOYER_WHITELIST_def predeploy_LEGACY_ERC20_ETH_def
    predeploy_WETH9_def predeploy_L2_CROSS_DOMAIN_MESSENGER_def predeploy_L2_STANDARD_BRIDGE_def
    predeploy_SEQUENCER_FEE_VAULT_def predeploy_OP_MINTABLE_ERC20_FACTORY_def predeploy_L1_BLOCK_NUMBER_def
    predeploy_GAS_PRICE_ORACLE_def predeploy_GOVERNANCE_TOKEN_def predeploy_L1_BLOCK_INFO_def
    predeploy_L2_TO_L1_MESSAGE_PASSER_def predeploy_L2_ERC721_BRIDGE_def
    predeploy_OP_MINTABLE_ERC721_FACTORY_def predeploy_PROXY_ADMIN_def predeploy_BASE_FEE_VAULT_def
    predeploy_L1_FEE_VAULT_def predeploy_SCHEMA_REGISTRY_def predeploy_EAS_def predeploy_BEACON_BLOCK_ROOT_def
    predeploy_OPERATOR_FEE_VAULT_def predeploy_CROSS_L2_INBOX_def predeploy_L2_TO_L2_XDM_def)

end
