(* ===== verification/Span_Bits.thy ===== *)
theory Span_Bits
  imports Decoding Pipeline_Types
begin

text \<open>
  The bitlists of span batches, \<^verbatim>\<open>crates/protocol/protocol/src/batch/bits.rs\<close>: a byte vector read as
  a big-endian number, bit \<open>0\<close> the least significant.

  Shown: reading, writing and measuring bits are those of the number the bytes stand for;
  encoding and decoding are inverse on bitlists of the exact byte length.
\<close>

unbundle bit_operations_syntax

section \<open>Operations\<close>

type_synonym span_batch_bits = bytes

definition bits_buffer_len :: "nat \<Rightarrow> nat" where
  "bits_buffer_len bit_length = bit_length div 8 + (if bit_length mod 8 \<noteq> 0 then 1 else 0)"

text \<open>\<^verbatim>\<open>u8::leading_zeros\<close>.\<close>

definition leading_zeros :: "u8 \<Rightarrow> nat" where
  "leading_zeros b = length (takeWhile (\<lambda>i. \<not> bit b i) (rev [0..<8]))"

fun bit_len :: "span_batch_bits \<Rightarrow> nat" where
  "bit_len [] = 0"
| "bit_len (byte # bs) = (if byte \<noteq> 0 then 7 - leading_zeros byte + 1 + length bs * 8 else bit_len bs)"

definition bits_decode :: "nat \<Rightarrow> (span_batch_error, span_batch_bits) decoder" where
  "bits_decode bit_length b =
     (let buffer_len = bits_buffer_len bit_length;
          (bits, b) = (if length b < buffer_len
                       then (b @ replicate (buffer_len - length b) 0, [])
                       else (take buffer_len b, drop buffer_len b))
      in if bit_len bits > bit_length then Bad BitfieldTooLong else Good (bits, b))"

text \<open>A bitlist with more bytes than the buffer makes the slice start wrap around and panics.\<close>

definition bits_encode :: "nat \<Rightarrow> span_batch_bits \<Rightarrow> (span_batch_error, bytes) outcome" where
  "bits_encode bit_length bits =
     (if bit_len bits > bit_length then Bad BitfieldTooLong
      else let buf_len = bits_buffer_len bit_length
           in if buf_len < length bits then Panic
              else Good (replicate (buf_len - length bits) 0 @ bits))"

definition get_bit :: "span_batch_bits \<Rightarrow> nat \<Rightarrow> u8 option" where
  "get_bit bits index =
     (let byte_index = index div 8; bit_index = index mod 8
      in if byte_index < length bits
         then Some (if bits ! (length bits - byte_index - 1) AND push_bit bit_index 1 \<noteq> 0 then 1 else 0)
         else None)"

definition resize_from_right :: "bytes \<Rightarrow> nat \<Rightarrow> bytes" where
  "resize_from_right v new_size =
     (if new_size < length v then drop (length v - new_size) v
      else if length v < new_size then replicate (new_size - length v) 0 @ v
      else v)"

definition bits_set_bit :: "span_batch_bits \<Rightarrow> nat \<Rightarrow> bool \<Rightarrow> span_batch_bits" where
  "bits_set_bit bits index value =
     (let byte_index = index div 8; bit_index = index mod 8;
          bits = (if byte_index \<ge> length bits then resize_from_right bits (byte_index + 1) else bits);
          k = length bits - byte_index - 1;
          byte = bits ! k
      in bits[k := if value then byte OR push_bit bit_index 1 else byte AND NOT (push_bit bit_index 1)])"

section \<open>The number a bitlist stands for\<close>

lemma be_decode_Cons: "be_decode (b # bs) = unat b * 256 ^ length bs + be_decode bs"
  using be_decode_append [of "[b]" bs] be_decode_snoc [of "[]" b] by simp

lemma be_decode_zeros [simp]: "be_decode (replicate n 0 @ bs) = be_decode bs"
  by (induction n) (simp_all add: be_decode_Cons)

lemma bit_shifted_add:
  fixes x y :: nat
  assumes "y < 2 ^ k"
  shows "bit (x * 2 ^ k + y) i = (if i < k then bit y i else bit x (i - k))"
proof (cases "i < k")
  case True
  then have "(2 :: nat) ^ k = 2 ^ i * 2 ^ (k - i)" by (simp flip: power_add)
  then have "(x * 2 ^ k + y) div 2 ^ i = x * 2 ^ (k - i) + y div 2 ^ i"
    by (simp add: mult.left_commute [of x])
  moreover have "even (x * 2 ^ (k - i))" using True by simp
  ultimately show ?thesis using True by (simp add: bit_iff_odd)
next
  case False
  then have "(2 :: nat) ^ i = 2 ^ k * 2 ^ (i - k)" by (simp flip: power_add)
  then have "(x * 2 ^ k + y) div 2 ^ i = x div 2 ^ (i - k)"
    using assms by (simp add: div_mult2_eq)
  then show ?thesis using False by (simp add: bit_iff_odd)
qed

lemma be_decode_bound2: "be_decode bs < 2 ^ (8 * length bs)"
  using be_decode_bound [of bs] by (simp add: power_mult)

lemma bit_be_decode:
  "bit (be_decode bs) i \<longleftrightarrow> i < 8 * length bs \<and> bit (bs ! (length bs - i div 8 - 1)) (i mod 8)"
proof (induction bs)
  case Nil
  then show ?case by simp
next
  case (Cons b bs)
  have d: "be_decode (b # bs) = unat b * 2 ^ (8 * length bs) + be_decode bs"
    by (simp add: be_decode_Cons power_mult)
  show ?case
  proof (cases "i < 8 * length bs")
    case True
    then have "i div 8 < length bs" by auto
    then have "length (b # bs) - i div 8 - 1 = Suc (length bs - i div 8 - 1)" by simp
    with True Cons show ?thesis
      unfolding d bit_shifted_add [OF be_decode_bound2] by simp
  next
    case False
    then have "bit (be_decode (b # bs)) i = bit b (i - 8 * length bs)"
      unfolding d bit_shifted_add [OF be_decode_bound2] by (simp add: bit_unsigned_iff)
    moreover have "i div 8 = length bs" if "i < 8 * Suc (length bs)"
      using that False by (intro div_nat_eqI) simp_all
    moreover from this have "i - 8 * length bs = i mod 8" if "i < 8 * Suc (length bs)"
      using that by (simp flip: minus_mult_div_eq_mod)
    ultimately show ?thesis
      using False bit_imp_le_length [of b "i - 8 * length bs"] by fastforce
  qed
qed

text \<open>Reading a bit.\<close>

lemma get_bit_eq:
  "get_bit bits i = (if i < 8 * length bits then Some (of_bool (bit (be_decode bits) i)) else None)"
proof -
  have "i div 8 < length bits \<longleftrightarrow> i < 8 * length bits" by auto
  then show ?thesis
    by (simp add: get_bit_def Let_def and_exp_eq_0_iff_not_bit bit_be_decode)
qed

text \<open>Writing a bit.\<close>

lemma be_decode_resize: "length v \<le> n \<Longrightarrow> be_decode (resize_from_right v n) = be_decode v"
  by (simp add: resize_from_right_def)

lemma length_resize [simp]: "length (resize_from_right v n) = n"
  by (simp add: resize_from_right_def)

lemma bit_be_decode_update:
  assumes "k < length bs"
  shows "bit (be_decode (bs[k := w])) i =
    (if length bs - i div 8 - 1 = k \<and> i < 8 * length bs then bit w (i mod 8) else bit (be_decode bs) i)"
  using assms by (auto simp: bit_be_decode nth_list_update)

lemma bits_set_bit_length: "length (bits_set_bit bits i v) = max (length bits) (i div 8 + 1)"
  by (auto simp: bits_set_bit_def Let_def)

lemma bits_set_bit_value:
  "be_decode (bits_set_bit bits i v) =
     (if v then set_bit i (be_decode bits) else unset_bit i (be_decode bits))"
proof -
  define bs where "bs = (if i div 8 \<ge> length bits then resize_from_right bits (i div 8 + 1) else bits)"
  have len: "i div 8 < length bs" and val: "be_decode bs = be_decode bits"
    by (auto simp: bs_def be_decode_resize)
  let ?k = "length bs - i div 8 - 1"
  have k: "?k < length bs" using len by linarith
  have eq: "bits_set_bit bits i v = bs[?k := if v then bs ! ?k OR push_bit (i mod 8) 1
      else bs ! ?k AND NOT (push_bit (i mod 8) 1)]"
    by (simp add: bits_set_bit_def Let_def bs_def)
  have same: "length bs - j div 8 - 1 = ?k \<and> j < 8 * length bs \<longleftrightarrow> j div 8 = i div 8" for j
    using len by auto
  have ij: "j = i" if "j div 8 = i div 8" "j mod 8 = i mod 8" for j :: nat
    using that by (metis div_mult_mod_eq)
  have old: "bit (be_decode bs) j = bit (bs ! ?k) (j mod 8)" if "j div 8 = i div 8" for j
    using that len by (auto simp: bit_be_decode)
  show ?thesis
  proof (rule bit_eqI)
    fix j
    show "bit (be_decode (bits_set_bit bits i v)) j =
        bit (if v then set_bit i (be_decode bits) else unset_bit i (be_decode bits)) j"
      unfolding eq bit_be_decode_update [OF k] same
      using old [of j] ij [of j] by (auto simp: val bit_simps)
  qed
qed

text \<open>Measuring.\<close>

lemma takeWhile_down:
  assumes "i < n" "P i"
  shows "let k = n - 1 - length (takeWhile (\<lambda>i. \<not> P i) (rev [0..<n])) in P k \<and> (\<forall>j<n. k < j \<longrightarrow> \<not> P j)"
  using assms
proof (induction n)
  case (Suc n)
  show ?case
  proof (cases "P n")
    case False
    then have "i < n" using Suc.prems by (metis less_antisym)
    with Suc.IH Suc.prems(2) False show ?thesis by (auto simp: Let_def less_Suc_eq)
  qed simp
qed simp

lemma leading_zeros_msb:
  assumes "b \<noteq> 0"
  shows "bit b (7 - leading_zeros b) \<and> (\<forall>j>7 - leading_zeros b. \<not> bit b j)"
proof -
  obtain i where i: "bit b i" using assms by (auto simp: bit_eq_iff)
  then have "i < 8" using bit_imp_le_length [of b i] by simp
  from takeWhile_down [of i 8 "bit b", OF this i]
  have "bit b (7 - leading_zeros b) \<and> (\<forall>j<8. 7 - leading_zeros b < j \<longrightarrow> \<not> bit b j)"
    unfolding leading_zeros_def Let_def by simp
  moreover have "j < 8" if "bit b j" for j using bit_imp_le_length [OF that] by simp
  ultimately show ?thesis by blast
qed

lemma byte_bounds:
  assumes "b \<noteq> 0"
  shows "2 ^ (7 - leading_zeros b) \<le> unat b" "unat b < 2 ^ (7 - leading_zeros b + 1)"
proof -
  let ?m = "7 - leading_zeros b"
  have bits: "bit (unat b) ?m" "\<And>j. j > ?m \<Longrightarrow> \<not> bit (unat b) j"
    using leading_zeros_msb [OF assms] by (auto simp: bit_unsigned_iff)
  show "2 ^ ?m \<le> unat b"
  proof (rule ccontr)
    assume "\<not> 2 ^ ?m \<le> unat b"
    then have "unat b div 2 ^ ?m = 0" by simp
    with bits(1) show False by (simp add: bit_iff_odd)
  qed
  have "take_bit (?m + 1) (unat b) = unat b"
    using bits(2) by (intro bit_eqI) (metis bit_take_bit_iff less_Suc_eq_le not_le Suc_eq_plus1)
  then show "unat b < 2 ^ (?m + 1)"
    by (metis take_bit_nat_less_exp)
qed

lemma bit_len_le: "bit_len bs \<le> n \<longleftrightarrow> be_decode bs < 2 ^ n"
proof (induction bs)
  case Nil
  then show ?case by simp
next
  case (Cons b bs)
  show ?case
  proof (cases "b = 0")
    case True
    with Cons show ?thesis by (simp add: be_decode_Cons)
  next
    case False
    let ?m = "7 - leading_zeros b" and ?l = "8 * length bs"
    have v: "be_decode (b # bs) = unat b * 2 ^ ?l + be_decode bs"
      by (simp add: be_decode_Cons power_mult)
    have "unat b * 2 ^ ?l + be_decode bs < (unat b + 1) * 2 ^ ?l"
      using be_decode_bound2 [of bs] by simp
    also have "\<dots> \<le> 2 ^ (?m + 1) * 2 ^ ?l"
      using byte_bounds(2) [OF False] by (intro mult_right_mono) simp_all
    finally have hi: "be_decode (b # bs) < 2 ^ (?m + 1 + ?l)"
      unfolding v by (simp add: power_add)
    have "2 ^ (?m + ?l) = 2 ^ ?m * (2 :: nat) ^ ?l" by (simp add: power_add)
    also have "\<dots> \<le> unat b * 2 ^ ?l"
      using byte_bounds(1) [OF False] by (rule mult_right_mono) simp
    finally have lo: "2 ^ (?m + ?l) \<le> be_decode (b # bs)" unfolding v by simp
    have "be_decode (b # bs) < 2 ^ n \<longleftrightarrow> ?m + 1 + ?l \<le> n"
    proof
      assume "be_decode (b # bs) < 2 ^ n"
      with lo have "(2 :: nat) ^ (?m + ?l) < 2 ^ n" by (rule order_le_less_trans)
      then show "?m + 1 + ?l \<le> n" by simp
    next
      assume "?m + 1 + ?l \<le> n"
      then have "(2 :: nat) ^ (?m + 1 + ?l) \<le> 2 ^ n" by (rule power_increasing) simp
      with hi show "be_decode (b # bs) < 2 ^ n" by linarith
    qed
    with False show ?thesis by (simp add: mult.commute)
  qed
qed

section \<open>Encoding and decoding\<close>

text \<open>The bitlists an encoder of \<open>n\<close> bits takes and a decoder of \<open>n\<close> bits returns.\<close>

definition bits_ok :: "nat \<Rightarrow> span_batch_bits \<Rightarrow> bool" where
  "bits_ok n bits \<longleftrightarrow> length bits = bits_buffer_len n \<and> be_decode bits < 2 ^ n"

definition bits_pad :: "nat \<Rightarrow> span_batch_bits \<Rightarrow> span_batch_bits" where
  "bits_pad n bits = replicate (bits_buffer_len n - length bits) 0 @ bits"

lemma bits_encode_ok:
  "length bits \<le> bits_buffer_len n \<Longrightarrow> be_decode bits < 2 ^ n \<Longrightarrow> bits_encode n bits = Good (bits_pad n bits)"
  using bit_len_le [of bits n] by (simp add: bits_encode_def Let_def bits_pad_def)

lemma bits_pad_ok:
  "length bits \<le> bits_buffer_len n \<Longrightarrow> be_decode bits < 2 ^ n \<Longrightarrow> bits_ok n (bits_pad n bits)"
  by (simp add: bits_ok_def bits_pad_def)

interpretation bits: codec "\<lambda>b. b" "bits_decode n" "bits_ok n" for n
  by unfold_locales (simp add: bits_decode_def bits_ok_def Let_def not_less bit_len_le)

lemma bits_decode_no_Panic: "bits_decode n r \<noteq> Panic"
  by (simp add: bits_decode_def Let_def split: prod.splits)

lemma bits_decode_Good: "bits_decode n r = Good (bits, r') \<Longrightarrow> bits_ok n bits"
  by (auto simp: bits_decode_def bits_ok_def Let_def not_less bit_len_le split: if_splits)

lemma bits_buffer_len_bits: "i < n \<Longrightarrow> i < 8 * bits_buffer_len n"
  by (auto simp: bits_buffer_len_def)

lemma get_bit_ok: "bits_ok n bits \<Longrightarrow> i < n \<Longrightarrow> get_bit bits i = Some (of_bool (bit (be_decode bits) i))"
  using bits_buffer_len_bits [of i n] by (simp add: get_bit_eq bits_ok_def)

lemma get_bit_pad: "length bits \<le> bits_buffer_len n \<Longrightarrow> i < n \<Longrightarrow>
    get_bit (bits_pad n bits) i = Some (of_bool (bit (be_decode bits) i))"
  using bits_buffer_len_bits [of i n] by (simp add: get_bit_eq bits_pad_def)

end
