(* ===== verification/Span_Transactions.thy ===== *)
theory Span_Transactions
  imports Span_Bits
begin

text \<open>
  The transactions of a span batch in column form, \<^verbatim>\<open>batch/transactions.rs\<close>, with the typed
  transaction data of \<^verbatim>\<open>batch/tx_data/*.rs\<close> and \<^verbatim>\<open>read_tx_data\<close> of \<^verbatim>\<open>utils.rs\<close>
  (\<^verbatim>\<open>crates/protocol/protocol/src\<close>).

  The record \<open>wire\<close> holds the functions of third-party crates the code calls: the varint codec of
  \<^verbatim>\<open>unsigned_varint\<close>, RLP headers and derived RLP codecs of \<^verbatim>\<open>alloy_rlp\<close>, transaction types and
  envelopes of \<^verbatim>\<open>alloy_consensus\<close>.  What is relied on is stated per transaction in \<open>codes_tx\<close>.

  Shown: transactions added to the columns, encoded and decoded come back as they were.
\<close>

section \<open>Transactions of \<^verbatim>\<open>alloy_consensus\<close>\<close>

type_synonym u128 = "128 word"
type_synonym u256 = "256 word"
type_synonym access_list = "(address \<times> b256 list) list"
type_synonym signed_authorization = "u256 \<times> address \<times> u64 \<times> bool \<times> u256 \<times> u256"

datatype tx_type = Legacy | Eip2930 | Eip1559 | Eip4844 | Eip7702

datatype tx_kind = Create | Call address

record tx_signature =
  sig_r :: u256
  sig_s :: u256
  sig_v :: bool

record tx_legacy =
  tl_chain_id :: "u64 option"
  tl_nonce :: u64
  tl_gas_price :: u128
  tl_gas_limit :: u64
  tl_to :: tx_kind
  tl_value :: u256
  tl_input :: bytes

record tx_eip2930 =
  ta_chain_id :: u64
  ta_nonce :: u64
  ta_gas_price :: u128
  ta_gas_limit :: u64
  ta_to :: tx_kind
  ta_value :: u256
  ta_input :: bytes
  ta_access_list :: access_list

record tx_eip1559 =
  tf_chain_id :: u64
  tf_nonce :: u64
  tf_max_fee_per_gas :: u128
  tf_max_priority_fee_per_gas :: u128
  tf_gas_limit :: u64
  tf_to :: tx_kind
  tf_value :: u256
  tf_input :: bytes
  tf_access_list :: access_list

record tx_eip7702 =
  ts_chain_id :: u64
  ts_nonce :: u64
  ts_max_fee_per_gas :: u128
  ts_max_priority_fee_per_gas :: u128
  ts_gas_limit :: u64
  ts_to :: address
  ts_value :: u256
  ts_input :: bytes
  ts_access_list :: access_list
  ts_authorization_list :: "signed_authorization list"

text \<open>Blob transactions are not allowed in batches; nothing of them is looked at.\<close>

datatype tx_envelope =
    Legacy tx_legacy tx_signature
  | Eip2930 tx_eip2930 tx_signature
  | Eip1559 tx_eip1559 tx_signature
  | Eip4844 bytes
  | Eip7702 tx_eip7702 tx_signature

fun envelope_type :: "tx_envelope \<Rightarrow> tx_type" where
  "envelope_type (tx_envelope.Legacy _ _) = tx_type.Legacy"
| "envelope_type (tx_envelope.Eip2930 _ _) = tx_type.Eip2930"
| "envelope_type (tx_envelope.Eip1559 _ _) = tx_type.Eip1559"
| "envelope_type (tx_envelope.Eip4844 _) = tx_type.Eip4844"
| "envelope_type (tx_envelope.Eip7702 _ _) = tx_type.Eip7702"

section \<open>Transaction data\<close>

record span_legacy_data =
  sl_value :: u256
  sl_gas_price :: u256
  sl_data :: bytes

record span_eip2930_data =
  sa_value :: u256
  sa_gas_price :: u256
  sa_data :: bytes
  sa_access_list :: access_list

record span_eip1559_data =
  sf_value :: u256
  sf_max_priority_fee_per_gas :: u256
  sf_max_fee_per_gas :: u256
  sf_data :: bytes
  sf_access_list :: access_list

record span_eip7702_data =
  ss_value :: u256
  ss_max_priority_fee_per_gas :: u256
  ss_max_fee_per_gas :: u256
  ss_data :: bytes
  ss_access_list :: access_list
  ss_authorization_list :: "signed_authorization list"

datatype span_tx_data =
    Legacy span_legacy_data
  | Eip2930 span_eip2930_data
  | Eip1559 span_eip1559_data
  | Eip7702 span_eip7702_data

record wire =
  w_varint_encode :: "u64 \<Rightarrow> bytes"
  w_varint_decode :: "bytes \<Rightarrow> (u64 \<times> bytes) option"
  w_header :: "bytes \<Rightarrow> (bool \<times> nat \<times> nat) option"
  w_tx_type :: "u8 \<Rightarrow> tx_type option"
  w_type_byte :: "tx_type \<Rightarrow> u8"
  w_legacy_encode :: "span_legacy_data \<Rightarrow> bytes"
  w_legacy_decode :: "bytes \<Rightarrow> (span_legacy_data \<times> bytes) option"
  w_eip2930_encode :: "span_eip2930_data \<Rightarrow> bytes"
  w_eip2930_decode :: "bytes \<Rightarrow> (span_eip2930_data \<times> bytes) option"
  w_eip1559_encode :: "span_eip1559_data \<Rightarrow> bytes"
  w_eip1559_decode :: "bytes \<Rightarrow> (span_eip1559_data \<times> bytes) option"
  w_eip7702_encode :: "span_eip7702_data \<Rightarrow> bytes"
  w_eip7702_decode :: "bytes \<Rightarrow> (span_eip7702_data \<times> bytes) option"
  w_envelope_decode :: "bytes \<Rightarrow> tx_envelope option"
  w_encode_2718 :: "tx_envelope \<Rightarrow> bytes"
  w_is_replay_protected :: "tx_envelope \<Rightarrow> bool"

fun span_tx_type :: "span_tx_data \<Rightarrow> tx_type" where
  "span_tx_type (span_tx_data.Legacy _) = tx_type.Legacy"
| "span_tx_type (span_tx_data.Eip2930 _) = tx_type.Eip2930"
| "span_tx_type (span_tx_data.Eip1559 _) = tx_type.Eip1559"
| "span_tx_type (span_tx_data.Eip7702 _) = tx_type.Eip7702"

fun span_tx_encode :: "wire \<Rightarrow> span_tx_data \<Rightarrow> bytes" where
  "span_tx_encode W (span_tx_data.Legacy d) = w_legacy_encode W d"
| "span_tx_encode W (span_tx_data.Eip2930 d) = w_type_byte W tx_type.Eip2930 # w_eip2930_encode W d"
| "span_tx_encode W (span_tx_data.Eip1559 d) = w_type_byte W tx_type.Eip1559 # w_eip1559_encode W d"
| "span_tx_encode W (span_tx_data.Eip7702 d) = w_type_byte W tx_type.Eip7702 # w_eip7702_encode W d"

text \<open>The RLP error of a failed decoding is not looked at by the callers.\<close>

definition decode_typed :: "wire \<Rightarrow> bytes \<Rightarrow> span_tx_data option" where
  "decode_typed W b =
     (if length b \<le> 1 then None
      else case w_tx_type W (hd b) of
             Some tx_type.Eip2930 \<Rightarrow> map_option (\<lambda>(d, _). span_tx_data.Eip2930 d) (w_eip2930_decode W (tl b))
           | Some tx_type.Eip1559 \<Rightarrow> map_option (\<lambda>(d, _). span_tx_data.Eip1559 d) (w_eip1559_decode W (tl b))
           | Some tx_type.Eip7702 \<Rightarrow> map_option (\<lambda>(d, _). span_tx_data.Eip7702 d) (w_eip7702_decode W (tl b))
           | _ \<Rightarrow> None)"

definition span_tx_decode :: "wire \<Rightarrow> bytes \<Rightarrow> span_tx_data option" where
  "span_tx_decode W r =
     (if r \<noteq> [] \<and> hd r > 0x7F then map_option (\<lambda>(d, _). span_tx_data.Legacy d) (w_legacy_decode W r)
      else decode_typed W r)"

fun span_tx_try_from :: "tx_envelope \<Rightarrow> (span_batch_error, span_tx_data) outcome" where
  "span_tx_try_from (tx_envelope.Legacy s _) = Good (span_tx_data.Legacy
     \<lparr>sl_value = tl_value s, sl_gas_price = ucast (tl_gas_price s), sl_data = tl_input s\<rparr>)"
| "span_tx_try_from (tx_envelope.Eip2930 s _) = Good (span_tx_data.Eip2930
     \<lparr>sa_value = ta_value s, sa_gas_price = ucast (ta_gas_price s), sa_data = ta_input s,
      sa_access_list = ta_access_list s\<rparr>)"
| "span_tx_try_from (tx_envelope.Eip1559 s _) = Good (span_tx_data.Eip1559
     \<lparr>sf_value = tf_value s, sf_max_priority_fee_per_gas = ucast (tf_max_priority_fee_per_gas s),
      sf_max_fee_per_gas = ucast (tf_max_fee_per_gas s), sf_data = tf_input s,
      sf_access_list = tf_access_list s\<rparr>)"
| "span_tx_try_from (tx_envelope.Eip7702 s _) = Good (span_tx_data.Eip7702
     \<lparr>ss_value = ts_value s, ss_max_priority_fee_per_gas = ucast (ts_max_priority_fee_per_gas s),
      ss_max_fee_per_gas = ucast (ts_max_fee_per_gas s), ss_data = ts_input s,
      ss_access_list = ts_access_list s, ss_authorization_list = ts_authorization_list s\<rparr>)"
| "span_tx_try_from (tx_envelope.Eip4844 _) = Bad (Decoding InvalidTransactionType)"

text \<open>The last 16 of the 32 big-endian bytes of a price, as a \<^verbatim>\<open>u128\<close>.\<close>

definition low_u128 :: "u256 \<Rightarrow> u128" where
  "low_u128 w = word_of_nat (be_decode (drop 16 (be_encode 32 (unat w))))"

definition kind_of :: "address option \<Rightarrow> tx_kind" where
  "kind_of to = (case to of None \<Rightarrow> Create | Some a \<Rightarrow> Call a)"

definition legacy_to_signed_tx ::
    "span_legacy_data \<Rightarrow> u64 \<Rightarrow> u64 \<Rightarrow> address option \<Rightarrow> u64 \<Rightarrow> bool \<Rightarrow> tx_legacy" where
  "legacy_to_signed_tx d nonce gas to chain_id is_protected =
     \<lparr>tl_chain_id = (if is_protected then Some chain_id else None), tl_nonce = nonce,
      tl_gas_price = low_u128 (sl_gas_price d), tl_gas_limit = gas, tl_to = kind_of to,
      tl_value = sl_value d, tl_input = sl_data d\<rparr>"

definition eip2930_to_signed_tx ::
    "span_eip2930_data \<Rightarrow> u64 \<Rightarrow> u64 \<Rightarrow> address option \<Rightarrow> u64 \<Rightarrow> tx_eip2930" where
  "eip2930_to_signed_tx d nonce gas to chain_id =
     \<lparr>ta_chain_id = chain_id, ta_nonce = nonce, ta_gas_price = low_u128 (sa_gas_price d),
      ta_gas_limit = gas, ta_to = kind_of to, ta_value = sa_value d, ta_input = sa_data d,
      ta_access_list = sa_access_list d\<rparr>"

definition eip1559_to_signed_tx ::
    "span_eip1559_data \<Rightarrow> u64 \<Rightarrow> u64 \<Rightarrow> address option \<Rightarrow> u64 \<Rightarrow> tx_eip1559" where
  "eip1559_to_signed_tx d nonce gas to chain_id =
     \<lparr>tf_chain_id = chain_id, tf_nonce = nonce, tf_max_fee_per_gas = low_u128 (sf_max_fee_per_gas d),
      tf_max_priority_fee_per_gas = low_u128 (sf_max_priority_fee_per_gas d), tf_gas_limit = gas,
      tf_to = kind_of to, tf_value = sf_value d, tf_input = sf_data d, tf_access_list = sf_access_list d\<rparr>"

definition eip7702_to_signed_tx ::
    "span_eip7702_data \<Rightarrow> u64 \<Rightarrow> u64 \<Rightarrow> address \<Rightarrow> u64 \<Rightarrow> tx_eip7702" where
  "eip7702_to_signed_tx d nonce gas to chain_id =
     \<lparr>ts_chain_id = chain_id, ts_nonce = nonce, ts_max_fee_per_gas = low_u128 (ss_max_fee_per_gas d),
      ts_max_priority_fee_per_gas = low_u128 (ss_max_priority_fee_per_gas d), ts_gas_limit = gas,
      ts_to = to, ts_value = ss_value d, ts_input = ss_data d, ts_access_list = ss_access_list d,
      ts_authorization_list = ss_authorization_list d\<rparr>"

fun to_signed_tx ::
    "span_tx_data \<Rightarrow> u64 \<Rightarrow> u64 \<Rightarrow> address option \<Rightarrow> u64 \<Rightarrow> tx_signature \<Rightarrow> bool \<Rightarrow>
     (span_batch_error, tx_envelope) outcome" where
  "to_signed_tx (span_tx_data.Legacy d) nonce gas to chain_id s is_protected =
     Good (tx_envelope.Legacy (legacy_to_signed_tx d nonce gas to chain_id is_protected) s)"
| "to_signed_tx (span_tx_data.Eip2930 d) nonce gas to chain_id s is_protected =
     Good (tx_envelope.Eip2930 (eip2930_to_signed_tx d nonce gas to chain_id) s)"
| "to_signed_tx (span_tx_data.Eip1559 d) nonce gas to chain_id s is_protected =
     Good (tx_envelope.Eip1559 (eip1559_to_signed_tx d nonce gas to chain_id) s)"
| "to_signed_tx (span_tx_data.Eip7702 d) nonce gas to chain_id s is_protected =
     (case to of
        None \<Rightarrow> Bad (Decoding InvalidTransactionData)
      | Some addr \<Rightarrow> Good (tx_envelope.Eip7702 (eip7702_to_signed_tx d nonce gas addr chain_id) s))"

definition read_tx_data :: "wire \<Rightarrow> (span_batch_error, bytes \<times> tx_type) decoder" where
  "read_tx_data W r =
     (case r of
        [] \<Rightarrow> Bad (Decoding InvalidTransactionData)
      | first_byte # r' \<Rightarrow>
          let (tx_type, tx_data, r) = (if first_byte \<le> 0x7F then (first_byte, [first_byte], r') else (0, [], r))
          in case w_header W r of
               None \<Rightarrow> Bad (Decoding InvalidTransactionData)
             | Some (is_list, payload_length, header_length) \<Rightarrow>
                 if \<not> is_list then Bad (Decoding InvalidTransactionData)
                 else obind (take_bytes (payload_length + header_length) r) (\<lambda>(payload, r).
                   case w_tx_type W tx_type of
                     None \<Rightarrow> Bad (Decoding InvalidTransactionType)
                   | Some ty \<Rightarrow> Good ((tx_data @ payload, ty), r)))"

section \<open>The columns\<close>

definition MAX_SPAN_BATCH_ELEMENTS :: u64 where "MAX_SPAN_BATCH_ELEMENTS = 10000000"

record span_batch_transactions =
  st_total_block_tx_count :: u64
  st_contract_creation_bits :: span_batch_bits
  st_tx_sigs :: "tx_signature list"
  st_tx_nonces :: "u64 list"
  st_tx_gases :: "u64 list"
  st_tx_tos :: "address list"
  st_tx_data :: "bytes list"
  st_protected_bits :: span_batch_bits
  st_tx_types :: "tx_type list"
  st_legacy_tx_count :: u64

definition default_span_batch_transactions :: span_batch_transactions where
  "default_span_batch_transactions =
     \<lparr>st_total_block_tx_count = 0, st_contract_creation_bits = [], st_tx_sigs = [], st_tx_nonces = [],
      st_tx_gases = [], st_tx_tos = [], st_tx_data = [], st_protected_bits = [], st_tx_types = [],
      st_legacy_tx_count = 0\<rparr>"

subsection \<open>Encoding\<close>

definition encode_contract_creation_bits :: "span_batch_transactions \<Rightarrow> (span_batch_error, bytes) outcome" where
  "encode_contract_creation_bits t = bits_encode (unat (st_total_block_tx_count t)) (st_contract_creation_bits t)"

definition encode_protected_bits :: "span_batch_transactions \<Rightarrow> (span_batch_error, bytes) outcome" where
  "encode_protected_bits t = bits_encode (unat (st_legacy_tx_count t)) (st_protected_bits t)"

text \<open>The loop \<^verbatim>\<open>for (i, sig) in self.tx_sigs.iter().enumerate() { y_parity_bits.set_bit(i, sig.v()) }\<close>.\<close>

fun parity_bits :: "nat \<Rightarrow> tx_signature list \<Rightarrow> span_batch_bits \<Rightarrow> span_batch_bits" where
  "parity_bits i [] bits = bits"
| "parity_bits i (s # sigs) bits = parity_bits (Suc i) sigs (bits_set_bit bits i (sig_v s))"

definition encode_tx_sigs :: "span_batch_transactions \<Rightarrow> (span_batch_error, bytes) outcome" where
  "encode_tx_sigs t =
     obind (bits_encode (unat (st_total_block_tx_count t)) (parity_bits 0 (st_tx_sigs t) [])) (\<lambda>y_parity_bits.
       Good (y_parity_bits @ concat (map (\<lambda>s. put_word 32 (sig_r s) @ put_word 32 (sig_s s)) (st_tx_sigs t))))"

definition encode_tx_nonces :: "wire \<Rightarrow> span_batch_transactions \<Rightarrow> bytes" where
  "encode_tx_nonces W t = concat (map (w_varint_encode W) (st_tx_nonces t))"

definition encode_tx_gases :: "wire \<Rightarrow> span_batch_transactions \<Rightarrow> bytes" where
  "encode_tx_gases W t = concat (map (w_varint_encode W) (st_tx_gases t))"

definition encode_tx_tos :: "span_batch_transactions \<Rightarrow> bytes" where
  "encode_tx_tos t = concat (map (put_word 20) (st_tx_tos t))"

definition encode_tx_data :: "span_batch_transactions \<Rightarrow> bytes" where
  "encode_tx_data t = concat (st_tx_data t)"

definition span_txs_encode :: "wire \<Rightarrow> span_batch_transactions \<Rightarrow> (span_batch_error, bytes) outcome" where
  "span_txs_encode W t =
     obind (encode_contract_creation_bits t) (\<lambda>creation.
     obind (encode_tx_sigs t) (\<lambda>sigs.
     obind (encode_protected_bits t) (\<lambda>protected.
       Good (creation @ sigs @ encode_tx_tos t @ encode_tx_data t @ encode_tx_nonces W t @
         encode_tx_gases W t @ protected))))"

subsection \<open>Decoding\<close>

definition varint_decode :: "wire \<Rightarrow> span_batch_error \<Rightarrow> (span_batch_error, u64) decoder" where
  "varint_decode W e r = good_or (w_varint_decode W r) e"

definition decode_contract_creation_bits ::
    "span_batch_transactions \<Rightarrow> (span_batch_error, span_batch_transactions) decoder" where
  "decode_contract_creation_bits t r =
     (if st_total_block_tx_count t > MAX_SPAN_BATCH_ELEMENTS then Bad TooBigSpanBatchSize
      else obind (bits_decode (unat (st_total_block_tx_count t)) r) (\<lambda>(bits, r).
        Good (t\<lparr>st_contract_creation_bits := bits\<rparr>, r)))"

definition decode_protected_bits ::
    "span_batch_transactions \<Rightarrow> (span_batch_error, span_batch_transactions) decoder" where
  "decode_protected_bits t r =
     (if st_legacy_tx_count t > MAX_SPAN_BATCH_ELEMENTS then Bad TooBigSpanBatchSize
      else obind (bits_decode (unat (st_legacy_tx_count t)) r) (\<lambda>(bits, r).
        Good (t\<lparr>st_protected_bits := bits\<rparr>, r)))"

text \<open>The loop over the signatures; \<open>i\<close> counts up to \<open>i + n\<close>.\<close>

fun decode_sigs_loop :: "span_batch_bits \<Rightarrow> nat \<Rightarrow> nat \<Rightarrow> (span_batch_error, tx_signature list) decoder" where
  "decode_sigs_loop y_parity_bits i 0 r = Good ([], r)"
| "decode_sigs_loop y_parity_bits i (Suc n) r =
     (case get_bit y_parity_bits i of
        None \<Rightarrow> Panic
      | Some y_parity \<Rightarrow>
          obind (take_word 32 r) (\<lambda>(r_val, r).
          obind (take_word 32 r) (\<lambda>(s_val, r).
          obind (decode_sigs_loop y_parity_bits (Suc i) n r) (\<lambda>(sigs, r).
            Good (\<lparr>sig_r = r_val, sig_s = s_val, sig_v = (y_parity = 1)\<rparr> # sigs, r)))))"

definition decode_tx_sigs :: "span_batch_transactions \<Rightarrow> (span_batch_error, span_batch_transactions) decoder" where
  "decode_tx_sigs t r =
     obind (bits_decode (unat (st_total_block_tx_count t)) r) (\<lambda>(y_parity_bits, r).
     obind (decode_sigs_loop y_parity_bits 0 (unat (st_total_block_tx_count t)) r) (\<lambda>(sigs, r).
       Good (t\<lparr>st_tx_sigs := sigs\<rparr>, r)))"

definition decode_tx_nonces ::
    "wire \<Rightarrow> span_batch_transactions \<Rightarrow> (span_batch_error, span_batch_transactions) decoder" where
  "decode_tx_nonces W t r =
     obind (decode_many (varint_decode W (Decoding TxNonces)) (unat (st_total_block_tx_count t)) r) (\<lambda>(nonces, r).
       Good (t\<lparr>st_tx_nonces := nonces\<rparr>, r))"

definition decode_tx_gases ::
    "wire \<Rightarrow> span_batch_transactions \<Rightarrow> (span_batch_error, span_batch_transactions) decoder" where
  "decode_tx_gases W t r =
     obind (decode_many (varint_decode W (Decoding TxNonces)) (unat (st_total_block_tx_count t)) r) (\<lambda>(gases, r).
       Good (t\<lparr>st_tx_gases := gases\<rparr>, r))"

definition count_ones :: "u8 \<Rightarrow> nat" where
  "count_ones b = length (filter (bit b) [0..<8])"

definition contract_creation_count :: "span_batch_transactions \<Rightarrow> u64" where
  "contract_creation_count t = sum_list (map (\<lambda>b. word_of_nat (count_ones b)) (st_contract_creation_bits t))"

definition decode_tx_tos :: "span_batch_transactions \<Rightarrow> (span_batch_error, span_batch_transactions) decoder" where
  "decode_tx_tos t r =
     obind (decode_many (take_word 20) (unat (st_total_block_tx_count t - contract_creation_count t)) r) (\<lambda>(tos, r).
       Good (t\<lparr>st_tx_tos := tos\<rparr>, r))"

definition decode_tx_data ::
    "wire \<Rightarrow> span_batch_transactions \<Rightarrow> (span_batch_error, span_batch_transactions) decoder" where
  "decode_tx_data W t r =
     obind (decode_many (read_tx_data W) (unat (st_total_block_tx_count t)) r) (\<lambda>(items, r).
       Good (t\<lparr>st_tx_data := map fst items, st_tx_types := map snd items,
         st_legacy_tx_count := st_legacy_tx_count t +
           word_of_nat (length (filter (\<lambda>ty. ty = tx_type.Legacy) (map snd items)))\<rparr>, r))"

definition span_txs_decode ::
    "wire \<Rightarrow> span_batch_transactions \<Rightarrow> (span_batch_error, span_batch_transactions) decoder" where
  "span_txs_decode W t r =
     obind (decode_contract_creation_bits t r) (\<lambda>(t, r).
     obind (decode_tx_sigs t r) (\<lambda>(t, r).
     obind (decode_tx_tos t r) (\<lambda>(t, r).
     obind (decode_tx_data W t r) (\<lambda>(t, r).
     obind (decode_tx_nonces W t r) (\<lambda>(t, r).
     obind (decode_tx_gases W t r) (\<lambda>(t, r).
       decode_protected_bits t r))))))"

subsection \<open>Reading the transactions back\<close>

abbreviation invalid_tx_data :: span_batch_error where
  "invalid_tx_data \<equiv> Decoding InvalidTransactionData"

text \<open>
  The loop of \<^verbatim>\<open>full_txs\<close>: \<open>idx\<close> is the index of the transaction, \<open>n\<close> the number of transactions left.
\<close>

fun full_txs_loop ::
    "wire \<Rightarrow> span_batch_transactions \<Rightarrow> u64 \<Rightarrow> nat \<Rightarrow> nat \<Rightarrow> nat \<Rightarrow> nat \<Rightarrow> (span_batch_error, bytes list) outcome" where
  "full_txs_loop W t chain_id 0 idx to_idx protected_bit_idx = Good []"
| "full_txs_loop W t chain_id (Suc n) idx to_idx protected_bit_idx =
     (if length (st_tx_data t) \<le> idx then Panic
      else
        obind (good_or (span_tx_decode W (st_tx_data t ! idx)) invalid_tx_data) (\<lambda>tx.
        obind (good_or (if idx < length (st_tx_nonces t) then Some (st_tx_nonces t ! idx) else None) invalid_tx_data) (\<lambda>nonce.
        obind (good_or (if idx < length (st_tx_gases t) then Some (st_tx_gases t ! idx) else None) invalid_tx_data) (\<lambda>gas.
        obind (good_or (get_bit (st_contract_creation_bits t) idx) invalid_tx_data) (\<lambda>b.
        obind (if b = 0
               then if length (st_tx_tos t) \<le> to_idx then Bad invalid_tx_data
                    else Good (Some (st_tx_tos t ! to_idx), to_idx + 1)
               else Good (None, to_idx)) (\<lambda>(to, to_idx).
        obind (good_or (if idx < length (st_tx_sigs t) then Some (st_tx_sigs t ! idx) else None) invalid_tx_data) (\<lambda>s.
        let (is_protected, protected_bit_idx) =
              (if span_tx_type tx = tx_type.Legacy
               then ((case get_bit (st_protected_bits t) protected_bit_idx of None \<Rightarrow> 0 | Some b \<Rightarrow> b) = 1,
                     protected_bit_idx + 1)
               else (True, protected_bit_idx))
        in obind (to_signed_tx tx nonce gas to chain_id s is_protected) (\<lambda>tx_envelope.
           obind (full_txs_loop W t chain_id n (Suc idx) to_idx protected_bit_idx) (\<lambda>txs.
             Good (w_encode_2718 W tx_envelope # txs))))))))))"

definition full_txs :: "wire \<Rightarrow> span_batch_transactions \<Rightarrow> u64 \<Rightarrow> (span_batch_error, bytes list) outcome" where
  "full_txs W t chain_id = full_txs_loop W t chain_id (unat (st_total_block_tx_count t)) 0 0 0"

subsection \<open>Adding transactions\<close>

fun envelope_fields :: "tx_envelope \<Rightarrow> (tx_signature \<times> address option \<times> u64 \<times> u64 \<times> u64 option) option" where
  "envelope_fields (tx_envelope.Legacy tx s) =
     Some (s, (case tl_to tx of Create \<Rightarrow> None | Call a \<Rightarrow> Some a), tl_nonce tx, tl_gas_limit tx, tl_chain_id tx)"
| "envelope_fields (tx_envelope.Eip2930 tx s) =
     Some (s, (case ta_to tx of Create \<Rightarrow> None | Call a \<Rightarrow> Some a), ta_nonce tx, ta_gas_limit tx, Some (ta_chain_id tx))"
| "envelope_fields (tx_envelope.Eip1559 tx s) =
     Some (s, (case tf_to tx of Create \<Rightarrow> None | Call a \<Rightarrow> Some a), tf_nonce tx, tf_gas_limit tx, Some (tf_chain_id tx))"
| "envelope_fields (tx_envelope.Eip7702 tx s) =
     Some (s, Some (ts_to tx), ts_nonce tx, ts_gas_limit tx, Some (ts_chain_id tx))"
| "envelope_fields (tx_envelope.Eip4844 _) = None"

text \<open>One round of the loop of \<^verbatim>\<open>add_txs\<close>, with the state it leaves when it fails.\<close>

definition add_tx ::
    "wire \<Rightarrow> u64 \<Rightarrow> nat \<Rightarrow> bytes \<Rightarrow> span_batch_transactions \<Rightarrow>
     span_batch_transactions \<times> (span_batch_error, unit) outcome" where
  "add_tx W chain_id index raw t =
     (case w_envelope_decode W raw of
        None \<Rightarrow> (t, Bad invalid_tx_data)
      | Some tx_enveloped \<Rightarrow>
          (case span_tx_try_from tx_enveloped of
             Bad e \<Rightarrow> (t, Bad e)
           | Panic \<Rightarrow> (t, Panic)
           | Good span_batch_tx \<Rightarrow>
               let t = (if envelope_type tx_enveloped = tx_type.Legacy
                        then t\<lparr>st_protected_bits := bits_set_bit (st_protected_bits t) (unat (st_legacy_tx_count t))
                                 (w_is_replay_protected W tx_enveloped),
                               st_legacy_tx_count := st_legacy_tx_count t + 1\<rparr>
                        else t)
               in case envelope_fields tx_enveloped of
                    None \<Rightarrow> (t, Bad invalid_tx_data)
                  | Some (signature, to, nonce, gas, tx_chain_id) \<Rightarrow>
                      if w_is_replay_protected W tx_enveloped \<and> tx_chain_id \<noteq> Some chain_id
                      then (t, Bad invalid_tx_data)
                      else
                        let t = (case to of Some a \<Rightarrow> t\<lparr>st_tx_tos := st_tx_tos t @ [a]\<rparr> | None \<Rightarrow> t)
                        in (t\<lparr>st_tx_sigs := st_tx_sigs t @ [signature],
                              st_contract_creation_bits :=
                                bits_set_bit (st_contract_creation_bits t) index (to = None),
                              st_tx_nonces := st_tx_nonces t @ [nonce],
                              st_tx_data := st_tx_data t @ [span_tx_encode W span_batch_tx],
                              st_tx_gases := st_tx_gases t @ [gas],
                              st_tx_types := st_tx_types t @ [envelope_type tx_enveloped]\<rparr>, Good ())))"

fun add_txs_loop ::
    "wire \<Rightarrow> u64 \<Rightarrow> nat \<Rightarrow> bytes list \<Rightarrow> span_batch_transactions \<Rightarrow>
     span_batch_transactions \<times> (span_batch_error, unit) outcome" where
  "add_txs_loop W chain_id index [] t = (t, Good ())"
| "add_txs_loop W chain_id index (raw # raws) t =
     (case add_tx W chain_id index raw t of
        (t, Good _) \<Rightarrow> add_txs_loop W chain_id (Suc index) raws t
      | (t, Bad e) \<Rightarrow> (t, Bad e)
      | (t, Panic) \<Rightarrow> (t, Panic))"

definition add_txs ::
    "wire \<Rightarrow> bytes list \<Rightarrow> u64 \<Rightarrow> span_batch_transactions \<Rightarrow>
     span_batch_transactions \<times> (span_batch_error, unit) outcome" where
  "add_txs W txs chain_id t =
     (case add_txs_loop W chain_id (unat (st_total_block_tx_count t)) txs t of
        (t, Good _) \<Rightarrow> (t\<lparr>st_total_block_tx_count := st_total_block_tx_count t + word_of_nat (length txs)\<rparr>, Good ())
      | (t, Bad e) \<Rightarrow> (t, Bad e)
      | (t, Panic) \<Rightarrow> (t, Panic))"

section \<open>Bitlists of flags\<close>

text \<open>A bitlist that holds the given flags, as \<^verbatim>\<open>set_bit\<close> builds it.\<close>

definition flags :: "span_batch_bits \<Rightarrow> bool list \<Rightarrow> bool" where
  "flags bits bs \<longleftrightarrow> length bits = bits_buffer_len (length bs) \<and>
     (\<forall>i. bit (be_decode bits) i \<longleftrightarrow> i < length bs \<and> bs ! i)"

lemma flags_Nil [simp]: "flags [] []"
  by (simp add: flags_def bits_buffer_len_def)

lemma bits_buffer_len_Suc: "bits_buffer_len (Suc n) = max (bits_buffer_len n) (n div 8 + 1)"
proof -
  have "Suc n div 8 = (if Suc n mod 8 = 0 then n div 8 + 1 else n div 8)"
    by (simp add: div_Suc)
  moreover have "Suc n mod 8 = 0 \<longrightarrow> n mod 8 \<noteq> 0" by presburger
  ultimately show ?thesis by (auto simp: bits_buffer_len_def)
qed

lemma flags_snoc: "flags bits bs \<Longrightarrow> flags (bits_set_bit bits (length bs) v) (bs @ [v])"
proof -
  assume "flags bits bs"
  then have bits: "length bits = bits_buffer_len (length bs)"
      "\<And>i. bit (be_decode bits) i = (i < length bs \<and> bs ! i)"
    by (auto simp: flags_def)
  have "bit (if v then set_bit (length bs) (be_decode bits) else unset_bit (length bs) (be_decode bits)) i =
      (i < Suc (length bs) \<and> (bs @ [v]) ! i)" for i
    by (cases v; cases "i = length bs") (simp_all add: bit_simps bits nth_append less_Suc_eq)
  with bits(1) show ?thesis
    by (simp add: flags_def bits_set_bit_length bits_set_bit_value bits_buffer_len_Suc)
qed

lemma flags_value: "flags bits bs \<Longrightarrow> be_decode bits < 2 ^ length bs"
proof -
  assume "flags bits bs"
  then have "take_bit (length bs) (be_decode bits) = be_decode bits"
    by (intro bit_eqI) (auto simp: flags_def bit_take_bit_iff)
  then show ?thesis by (metis take_bit_nat_less_exp)
qed

lemma flags_encode: "flags bits bs \<Longrightarrow> bits_encode (length bs) bits = Good bits"
  using flags_value [of bits bs] by (subst bits_encode_ok) (simp_all add: flags_def bits_pad_def)

lemma flags_decode: "flags bits bs \<Longrightarrow> bits_decode (length bs) (bits @ rest) = Good (bits, rest)"
  using flags_value [of bits bs] by (intro bits.dec_enc) (simp add: flags_def bits_ok_def)

lemma flags_get_bit: "flags bits bs \<Longrightarrow> i < length bs \<Longrightarrow> get_bit bits i = Some (of_bool (bs ! i))"
  using flags_value [of bits bs] get_bit_ok [of "length bs" bits i] by (simp add: flags_def bits_ok_def)

lemma parity_bits_flags:
  "flags bits bs \<Longrightarrow> flags (parity_bits (length bs) sigs bits) (bs @ map sig_v sigs)"
proof (induction sigs arbitrary: bits bs)
  case (Cons s sigs)
  from Cons.IH [OF flags_snoc [OF Cons.prems, of "sig_v s"]] show ?case by simp
qed simp

text \<open>The number of bits set.\<close>

lemma count_ones_be_decode:
  "(\<Sum>b\<leftarrow>bs. count_ones b) = length (filter (bit (be_decode bs)) [0..<8 * length bs])"
proof (induction bs rule: rev_induct)
  case (snoc b bs)
  have b: "unat b < 2 ^ 8" using unsigned_less [of b, where 'a = nat] by simp
  have bits: "bit (be_decode (bs @ [b])) i = (if i < 8 then bit b i else bit (be_decode bs) (i - 8))" for i
    using bit_shifted_add [OF b, of "be_decode bs" i] by (simp add: bit_unsigned_iff)
  have split: "[0..<8 * length (bs @ [b])] = [0..<8] @ map (\<lambda>i. i + 8) [0..<8 * length bs]"
    using upt_add_eq_append [of 0 8 "8 * length bs"] by (simp add: map_add_upt add.commute del: upt_Suc)
  have "filter (bit (be_decode (bs @ [b]))) [0..<8] = filter (bit b) [0..<8]"
    by (rule filter_cong) (simp_all add: bits del: be_decode_snoc)
  moreover have "filter (bit (be_decode (bs @ [b]))) (map (\<lambda>i. i + 8) [0..<8 * length bs]) =
      map (\<lambda>i. i + 8) (filter (bit (be_decode bs)) [0..<8 * length bs])"
    unfolding filter_map by (rule arg_cong [where f = "map _"], rule filter_cong) (simp_all add: bits del: be_decode_snoc)
  ultimately show ?case
    unfolding split filter_append using snoc by (simp add: count_ones_def del: be_decode_snoc)
qed simp

lemma length_filter_nth: "length (filter (\<lambda>i. i < length bs \<and> bs ! i) [0..<m]) = length (filter (\<lambda>b. b) bs)"
  if "length bs \<le> m" for bs m
proof -
  have "filter (\<lambda>i. i < length bs \<and> bs ! i) [0..<m] = filter (\<lambda>i. bs ! i) [0..<length bs]"
    using that upt_add_eq_append [of 0 "length bs" "m - length bs"]
    by (auto simp: filter_empty_conv intro!: filter_cong)
  also have "length \<dots> = length (filter (\<lambda>b. b) (map (\<lambda>i. bs ! i) [0..<length bs]))"
    by (simp add: filter_map comp_def)
  finally show ?thesis by (simp add: map_nth)
qed

lemma flags_count: "flags bits bs \<Longrightarrow> (\<Sum>b\<leftarrow>bits. count_ones b) = length (filter (\<lambda>b. b) bs)"
proof -
  assume f: "flags bits bs"
  then have "length bs \<le> 8 * length bits"
    using bits_buffer_len_bits [of "length bs - 1" "length bs"] by (cases bs) (auto simp: flags_def)
  moreover have "bit (be_decode bits) = (\<lambda>i. i < length bs \<and> bs ! i)"
    using f by (simp add: flags_def fun_eq_iff)
  ultimately show ?thesis
    using length_filter_nth [of bs "8 * length bits"] by (simp add: count_ones_be_decode)
qed

section \<open>Columns of a list of transactions\<close>

text \<open>The entries of a transaction in the columns; meaningless for blob transactions.\<close>

definition e_sig :: "tx_envelope \<Rightarrow> tx_signature" where
  "e_sig e = fst (the (envelope_fields e))"

definition e_to :: "tx_envelope \<Rightarrow> address option" where
  "e_to e = fst (snd (the (envelope_fields e)))"

definition e_nonce :: "tx_envelope \<Rightarrow> u64" where
  "e_nonce e = fst (snd (snd (the (envelope_fields e))))"

definition e_gas :: "tx_envelope \<Rightarrow> u64" where
  "e_gas e = fst (snd (snd (snd (the (envelope_fields e)))))"

definition e_chain_id :: "tx_envelope \<Rightarrow> u64 option" where
  "e_chain_id e = snd (snd (snd (snd (the (envelope_fields e)))))"

abbreviation e_legacy :: "tx_envelope \<Rightarrow> bool" where
  "e_legacy e \<equiv> envelope_type e = tx_type.Legacy"

definition e_data :: "tx_envelope \<Rightarrow> span_tx_data" where
  "e_data e = (case span_tx_try_from e of Good d \<Rightarrow> d)"

text \<open>The transactions a span batch of the chain can carry: no blobs, no other chain's.\<close>

definition fits_chain :: "u64 \<Rightarrow> tx_envelope \<Rightarrow> bool" where
  "fits_chain chain_id e \<longleftrightarrow> envelope_type e \<noteq> tx_type.Eip4844 \<and>
     (e_chain_id e = Some chain_id \<or> e_legacy e \<and> e_chain_id e = None)"

text \<open>
  What the library functions are relied on to do for a transaction: the envelope is decoded from
  its EIP-2718 encoding; it is replay protected if it names a chain; its transaction data is
  decoded from its RLP encoding, which is a list with a header that tells its length, not
  starting with a byte of the range of transaction types.
\<close>

fun rlp_codes :: "wire \<Rightarrow> span_tx_data \<Rightarrow> bool" where
  "rlp_codes W (span_tx_data.Legacy d) \<longleftrightarrow> w_legacy_decode W (w_legacy_encode W d) = Some (d, [])"
| "rlp_codes W (span_tx_data.Eip2930 d) \<longleftrightarrow> w_eip2930_decode W (w_eip2930_encode W d) = Some (d, [])"
| "rlp_codes W (span_tx_data.Eip1559 d) \<longleftrightarrow> w_eip1559_decode W (w_eip1559_encode W d) = Some (d, [])"
| "rlp_codes W (span_tx_data.Eip7702 d) \<longleftrightarrow> w_eip7702_decode W (w_eip7702_encode W d) = Some (d, [])"

fun rlp_part :: "wire \<Rightarrow> span_tx_data \<Rightarrow> bytes" where
  "rlp_part W (span_tx_data.Legacy d) = w_legacy_encode W d"
| "rlp_part W (span_tx_data.Eip2930 d) = w_eip2930_encode W d"
| "rlp_part W (span_tx_data.Eip1559 d) = w_eip1559_encode W d"
| "rlp_part W (span_tx_data.Eip7702 d) = w_eip7702_encode W d"

definition codes_tx :: "wire \<Rightarrow> tx_envelope \<Rightarrow> bool" where
  "codes_tx W e \<longleftrightarrow>
     w_envelope_decode W (w_encode_2718 W e) = Some e \<and>
     w_is_replay_protected W e = (e_chain_id e \<noteq> None) \<and>
     rlp_codes W (e_data e) \<and>
     (\<exists>b bs. rlp_part W (e_data e) = b # bs \<and> 0x7F < b) \<and>
     (\<forall>rest. \<exists>p h. w_header W (rlp_part W (e_data e) @ rest) = Some (True, p, h) \<and>
        p + h = length (rlp_part W (e_data e)))"

definition wire_ok :: "wire \<Rightarrow> bool" where
  "wire_ok W \<longleftrightarrow> (\<forall>n rest. w_varint_decode W (w_varint_encode W n @ rest) = Some (n, rest)) \<and>
     w_tx_type W 0 = Some tx_type.Legacy \<and>
     (\<forall>ty. w_tx_type W (w_type_byte W ty) = Some ty \<and> w_type_byte W ty \<le> 0x7F)"

lemma span_tx_try_from_data: "envelope_type e \<noteq> tx_type.Eip4844 \<Longrightarrow> span_tx_try_from e = Good (e_data e)"
  by (cases e) (simp_all add: e_data_def)

lemma envelope_fields_eq: "envelope_type e \<noteq> tx_type.Eip4844 \<Longrightarrow>
    envelope_fields e = Some (e_sig e, e_to e, e_nonce e, e_gas e, e_chain_id e)"
  by (cases e) (simp_all add: e_sig_def e_to_def e_nonce_def e_gas_def e_chain_id_def)

lemma span_tx_type_data: "envelope_type e \<noteq> tx_type.Eip4844 \<Longrightarrow> span_tx_type (e_data e) = envelope_type e"
  by (cases e) (simp_all add: e_data_def)

lemma span_tx_encode_eq: "span_tx_encode W d =
    (if span_tx_type d = tx_type.Legacy then rlp_part W d else w_type_byte W (span_tx_type d) # rlp_part W d)"
  by (cases d) simp_all

lemma span_tx_decode_encode:
  assumes "wire_ok W" and "codes_tx W e"
  shows "span_tx_decode W (span_tx_encode W (e_data e)) = Some (e_data e)"
proof -
  obtain b bs where r: "rlp_part W (e_data e) = b # bs" "0x7F < b" "rlp_codes W (e_data e)"
    using assms(2) by (auto simp: codes_tx_def)
  have ty: "w_tx_type W (w_type_byte W ty) = Some ty" "\<not> 0x7F < w_type_byte W ty" for ty
    using assms(1) by (auto simp: wire_ok_def not_less)
  from r ty show ?thesis
    by (cases "e_data e") (simp_all add: span_tx_decode_def decode_typed_def)
qed

lemma read_tx_data_encode:
  assumes "wire_ok W" and "codes_tx W e"
  shows "read_tx_data W (span_tx_encode W (e_data e) @ rest) =
    Good ((span_tx_encode W (e_data e), span_tx_type (e_data e)), rest)"
proof -
  let ?d = "e_data e"
  obtain b bs where r: "rlp_part W ?d = b # bs" "0x7F < b"
    using assms(2) by (auto simp: codes_tx_def)
  obtain p h where header: "w_header W (rlp_part W ?d @ rest) = Some (True, p, h)" "p + h = length (rlp_part W ?d)"
    using assms(2) unfolding codes_tx_def by blast
  have taken: "take_bytes (p + h) (rlp_part W ?d @ rest) = (Good (rlp_part W ?d, rest) :: (span_batch_error, _) outcome)"
    by (simp add: take_bytes_def header(2))
  have ty: "w_tx_type W (w_type_byte W ty) = Some ty" "w_type_byte W ty \<le> 0x7F" "w_tx_type W 0 = Some tx_type.Legacy" for ty
    using assms(1) by (auto simp: wire_ok_def)
  show ?thesis
  proof (cases "span_tx_type ?d = tx_type.Legacy")
    case True
    moreover have "\<not> b \<le> 0x7F" using r(2) by (simp add: not_le)
    ultimately show ?thesis using r header taken ty(3)
      by (simp add: span_tx_encode_eq read_tx_data_def Let_def)
  next
    case False
    with r header taken ty(1,2) [of "span_tx_type ?d"] show ?thesis
      by (simp add: span_tx_encode_eq read_tx_data_def Let_def)
  qed
qed

text \<open>Prices go through 256 bits and back.\<close>

lemma low_u128_ucast: "low_u128 (ucast p) = p"
proof -
  have "be_encode 32 n = be_encode 16 (n div 256 ^ 16) @ be_encode 16 n" for n
    using be_encode_split [of 16 16 n] by simp
  then have "drop 16 (be_encode 32 n) = be_encode 16 n" for n by simp
  moreover have "unat p < 2 ^ 256" by (rule less_le_trans [OF unsigned_less]) simp
  then have "unat (ucast p :: u256) = unat p"
    by (simp add: unsigned_ucast_eq take_bit_nat_eq_self)
  ultimately show ?thesis
    by (simp add: low_u128_def word_of_be_decode_encode)
qed

lemma to_signed_tx_back:
  assumes "fits_chain chain_id e"
  shows "to_signed_tx (e_data e) (e_nonce e) (e_gas e) (e_to e) chain_id (e_sig e)
    (if e_legacy e then e_chain_id e \<noteq> None else True) = Good e"
  using assms
  by (cases e) (auto simp: fits_chain_def e_data_def e_nonce_def e_gas_def e_to_def e_sig_def e_chain_id_def
      legacy_to_signed_tx_def eip2930_to_signed_tx_def eip1559_to_signed_tx_def eip7702_to_signed_tx_def
      low_u128_ucast kind_of_def split: tx_kind.splits)

text \<open>Column form of a list of transactions; the total is only updated at the end of \<^verbatim>\<open>add_txs\<close>.\<close>

definition columns :: "wire \<Rightarrow> span_batch_transactions \<Rightarrow> tx_envelope list \<Rightarrow> bool" where
  "columns W t es \<longleftrightarrow>
     st_tx_sigs t = map e_sig es \<and> st_tx_nonces t = map e_nonce es \<and> st_tx_gases t = map e_gas es \<and>
     st_tx_tos t = List.map_filter e_to es \<and> st_tx_data t = map (\<lambda>e. span_tx_encode W (e_data e)) es \<and>
     st_tx_types t = map envelope_type es \<and>
     st_legacy_tx_count t = word_of_nat (length (filter e_legacy es)) \<and>
     flags (st_contract_creation_bits t) (map (\<lambda>e. e_to e = None) es) \<and>
     flags (st_protected_bits t) (map (\<lambda>e. e_chain_id e \<noteq> None) (filter e_legacy es))"

lemma columns_default: "columns W default_span_batch_transactions []"
  by (simp add: columns_def default_span_batch_transactions_def List.map_filter_def)

lemma add_tx_columns:
  assumes t: "columns W t es" and es: "length es < 2 ^ 64"
    and e: "fits_chain chain_id e" "codes_tx W e"
  obtains t' where "add_tx W chain_id (length es) (w_encode_2718 W e) t = (t', Good ())"
    "columns W t' (es @ [e])" "st_total_block_tx_count t' = st_total_block_tx_count t"
proof -
  have ty: "envelope_type e \<noteq> tx_type.Eip4844" using e(1) by (simp add: fits_chain_def)
  have w: "w_envelope_decode W (w_encode_2718 W e) = Some e" "w_is_replay_protected W e = (e_chain_id e \<noteq> None)"
    using e(2) by (auto simp: codes_tx_def)
  have chain: "\<not> (e_chain_id e \<noteq> None \<and> e_chain_id e \<noteq> Some chain_id)"
    using e(1) by (auto simp: fits_chain_def)
  have n: "unat (st_legacy_tx_count t) = length (filter e_legacy es)"
  proof -
    have "length (filter e_legacy es) < 2 ^ 64"
      using es length_filter_le [of e_legacy es] by linarith
    with t show ?thesis by (simp add: columns_def unsigned_of_nat take_bit_nat_eq_self)
  qed
  note flag = flags_snoc [of "st_contract_creation_bits t" "map (\<lambda>e. e_to e = None) es" "e_to e = None"]
    flags_snoc [of "st_protected_bits t" "map (\<lambda>e. e_chain_id e \<noteq> None) (filter e_legacy es)" "e_chain_id e \<noteq> None"]
  let ?r = "add_tx W chain_id (length es) (w_encode_2718 W e) t"
  have "snd ?r = Good () \<and> columns W (fst ?r) (es @ [e]) \<and>
      st_total_block_tx_count (fst ?r) = st_total_block_tx_count t"
    using t ty w chain n flag
    by (cases "e_to e") (auto simp: add_tx_def span_tx_try_from_data envelope_fields_eq columns_def
        List.map_filter_def Let_def)
  then show thesis by (intro that [of "fst ?r"]) (auto simp: prod_eq_iff)
qed

lemma add_txs_loop_columns:
  assumes "columns W t es" and "length es + length new < 2 ^ 64"
    and "\<forall>e\<in>set new. fits_chain chain_id e \<and> codes_tx W e"
  obtains t' where "add_txs_loop W chain_id (length es) (map (w_encode_2718 W) new) t = (t', Good ())"
    "columns W t' (es @ new)" "st_total_block_tx_count t' = st_total_block_tx_count t"
  using assms
proof (induction new arbitrary: t es thesis)
  case (Cons e new)
  obtain t1 where t1: "add_tx W chain_id (length es) (w_encode_2718 W e) t = (t1, Good ())"
    "columns W t1 (es @ [e])" "st_total_block_tx_count t1 = st_total_block_tx_count t"
    using Cons.prems by (auto intro: add_tx_columns [of W t es chain_id e])
  obtain t2 where "add_txs_loop W chain_id (length (es @ [e])) (map (w_encode_2718 W) new) t1 = (t2, Good ())"
    "columns W t2 ((es @ [e]) @ new)" "st_total_block_tx_count t2 = st_total_block_tx_count t1"
    using Cons.prems by (auto intro: Cons.IH [OF _ t1(2)])
  with t1 show ?case by (intro Cons.prems(1) [of t2]) simp_all
qed simp

lemma add_txs_columns:
  assumes "columns W t es" and "st_total_block_tx_count t = word_of_nat (length es)"
    and "length es + length new < 2 ^ 64" and "\<forall>e\<in>set new. fits_chain chain_id e \<and> codes_tx W e"
  obtains t' where "add_txs W (map (w_encode_2718 W) new) chain_id t = (t', Good ())"
    "columns W t' (es @ new)" "st_total_block_tx_count t' = word_of_nat (length (es @ new))"
proof -
  have n: "unat (st_total_block_tx_count t) = length es"
    using assms(2,3) by (simp add: unsigned_of_nat take_bit_nat_eq_self)
  obtain t' where "add_txs_loop W chain_id (length es) (map (w_encode_2718 W) new) t = (t', Good ())"
    "columns W t' (es @ new)" "st_total_block_tx_count t' = st_total_block_tx_count t"
    using assms(1,3,4) by (rule add_txs_loop_columns)
  with assms(2) show thesis
    by (intro that [of "t'\<lparr>st_total_block_tx_count := st_total_block_tx_count t' + word_of_nat (length new)\<rparr>"])
      (simp_all add: add_txs_def n [unfolded assms(2)] columns_def)
qed

text \<open>Reading the transactions back from the columns.\<close>

lemma map_filter_length_snoc: "length (List.map_filter e_to (pre @ [e])) =
    length (List.map_filter e_to pre) + (if e_to e = None then 0 else 1)"
  by (simp add: List.map_filter_def)

lemma map_filter_nth:
  "e_to e = Some a \<Longrightarrow> List.map_filter e_to (pre @ e # post) ! length (List.map_filter e_to pre) = a \<and>
    length (List.map_filter e_to pre) < length (List.map_filter e_to (pre @ e # post))"
  by (simp add: List.map_filter_def nth_append)

lemma full_txs_loop_columns:
  assumes "columns W t (pre @ post)" and "wire_ok W"
    and "\<forall>e\<in>set post. fits_chain chain_id e \<and> codes_tx W e"
  shows "full_txs_loop W t chain_id (length post) (length pre) (length (List.map_filter e_to pre))
    (length (filter e_legacy pre)) = Good (map (w_encode_2718 W) post)"
  using assms
proof (induction post arbitrary: pre)
  case (Cons e post)
  then have e: "fits_chain chain_id e" "codes_tx W e" by simp_all
  then have ty: "envelope_type e \<noteq> tx_type.Eip4844" by (simp add: fits_chain_def)
  note c = Cons.prems(1) [unfolded columns_def]
  have creation: "get_bit (st_contract_creation_bits t) (length pre) = Some (of_bool (e_to e = None))"
    using c flags_get_bit [of "st_contract_creation_bits t" "map (\<lambda>e. e_to e = None) (pre @ e # post)" "length pre"]
    by (simp add: nth_append)
  have prot: "get_bit (st_protected_bits t) (length (filter e_legacy pre)) = Some (of_bool (e_chain_id e \<noteq> None))"
    if "e_legacy e"
    using c that flags_get_bit [of "st_protected_bits t"
        "map (\<lambda>e. e_chain_id e \<noteq> None) (filter e_legacy (pre @ e # post))" "length (filter e_legacy pre)"]
    by (simp add: nth_append)
  have rest: "full_txs_loop W t chain_id (length post) (Suc (length pre)) (length (List.map_filter e_to (pre @ [e])))
      (length (filter e_legacy (pre @ [e]))) = Good (map (w_encode_2718 W) post)"
    using Cons.IH [of "pre @ [e]"] Cons.prems by simp
  have again: "to_signed_tx (e_data e) (e_nonce e) (e_gas e) (e_to e) chain_id (e_sig e)
      (if e_legacy e then e_chain_id e \<noteq> None else True) = Good e"
    using e(1) by (rule to_signed_tx_back)
  have dec: "span_tx_decode W (span_tx_encode W (e_data e)) = Some (e_data e)"
    using Cons.prems(2) e(2) by (rule span_tx_decode_encode)
  show ?case
    using c creation prot rest again dec map_filter_nth [of e _ pre post] span_tx_type_data [OF ty]
    by (cases "e_to e"; cases "e_legacy e") (auto simp: nth_append map_filter_length_snoc)
qed simp

section \<open>Encoding and decoding the columns\<close>

lemma decode_sigs_loop_enc:
  assumes "flags bits (map sig_v (pre @ sigs))"
  shows "decode_sigs_loop bits (length pre) (length sigs)
    (concat (map (\<lambda>s. put_word 32 (sig_r s) @ put_word 32 (sig_s s)) sigs) @ rest) = Good (sigs, rest)"
  using assms
proof (induction sigs arbitrary: pre)
  case (Cons s sigs)
  have "get_bit bits (length pre) = Some (of_bool (sig_v s))"
    using flags_get_bit [OF Cons.prems, of "length pre"] by (simp add: nth_append)
  moreover have "decode_sigs_loop bits (Suc (length pre)) (length sigs)
      (concat (map (\<lambda>s. put_word 32 (sig_r s) @ put_word 32 (sig_s s)) sigs) @ rest) = Good (sigs, rest)"
    using Cons.IH [of "pre @ [s]"] Cons.prems by simp
  ultimately show ?case by (simp add: fixed32.dec_enc)
qed simp

lemma varint_codec: "wire_ok W \<Longrightarrow> codec (w_varint_encode W) (varint_decode W e) (\<lambda>_. True)"
  by unfold_locales (simp add: varint_decode_def wire_ok_def)

lemma read_tx_data_many:
  assumes "wire_ok W" and "\<forall>e\<in>set es. codes_tx W e \<and> envelope_type e \<noteq> tx_type.Eip4844"
  shows "decode_many (read_tx_data W) (length es) (concat (map (\<lambda>e. span_tx_encode W (e_data e)) es) @ rest) =
    Good (map (\<lambda>e. (span_tx_encode W (e_data e), envelope_type e)) es, rest)"
  using assms(2) by (induction es) (simp_all add: read_tx_data_encode [OF assms(1)] span_tx_type_data)

lemma word_of_nat_sum_list: "(\<Sum>x\<leftarrow>xs. word_of_nat (f x)) = word_of_nat (\<Sum>x\<leftarrow>xs. f x)"
  by (induction xs) simp_all

lemma contract_creation_count_columns:
  assumes "flags (st_contract_creation_bits t) (map (\<lambda>e. e_to e = None) es)"
  shows "word_of_nat (length es) - contract_creation_count t = word_of_nat (length (List.map_filter e_to es))"
proof -
  have "contract_creation_count t = word_of_nat (\<Sum>b\<leftarrow>st_contract_creation_bits t. count_ones b)"
    unfolding contract_creation_count_def by (rule word_of_nat_sum_list)
  also have "\<dots> = word_of_nat (length (filter (\<lambda>e. e_to e = None) es))"
    using flags_count [OF assms] by (simp add: filter_map comp_def)
  finally have count: "contract_creation_count t = word_of_nat (length (filter (\<lambda>e. e_to e = None) es))" .
  have "length es = length (filter (\<lambda>e. e_to e = None) es) + length (List.map_filter e_to es)"
    using sum_length_filter_compl [of "\<lambda>e. e_to e = None" es] by (simp add: List.map_filter_def)
  then have "word_of_nat (length es) = contract_creation_count t + word_of_nat (length (List.map_filter e_to es))"
    by (simp only: count of_nat_add)
  then show ?thesis by simp
qed

lemma u64_of_nat: "n < 2 ^ 64 \<Longrightarrow> unat (word_of_nat n :: u64) = n"
  by (simp add: unsigned_of_nat take_bit_nat_eq_self)

lemma span_txs_decode_encode:
  assumes cols: "columns W t es" and total_count: "st_total_block_tx_count t = word_of_nat (length es)"
    and small: "length es \<le> 10000000" and W: "wire_ok W" and es: "\<forall>e\<in>set es. fits_chain cid e \<and> codes_tx W e"
  obtains bs where "span_txs_encode W t = Good bs"
    "\<And>rest. span_txs_decode W (default_span_batch_transactions\<lparr>st_total_block_tx_count := word_of_nat (length es)\<rparr>)
       (bs @ rest) = Good (t, rest)"
proof -
  let ?n = "length es" and ?l = "length (filter e_legacy es)" and ?tos = "List.map_filter e_to es"
  note c = cols [unfolded columns_def]
  have leg: "?l \<le> 10000000" by (rule order_trans [OF length_filter_le small])
  have tos: "length ?tos \<le> 10000000"
    unfolding List.map_filter_def length_map by (rule order_trans [OF length_filter_le small])
  have n: "unat (word_of_nat ?n :: u64) = ?n" using small by (intro u64_of_nat) simp
  have l: "unat (word_of_nat ?l :: u64) = ?l" using leg by (intro u64_of_nat) simp
  have to: "unat (word_of_nat (length ?tos) :: u64) = length ?tos" using tos by (intro u64_of_nat) simp
  have le: "\<not> (word_of_nat ?n :: u64) > MAX_SPAN_BATCH_ELEMENTS" "\<not> (word_of_nat ?l :: u64) > MAX_SPAN_BATCH_ELEMENTS"
    using small leg n l by (simp_all add: MAX_SPAN_BATCH_ELEMENTS_def not_less word_le_nat_alt)
  have creation: "flags (st_contract_creation_bits t) (map (\<lambda>e. e_to e = None) es)"
    and prot: "flags (st_protected_bits t) (map (\<lambda>e. e_chain_id e \<noteq> None) (filter e_legacy es))"
    using c by simp_all
  have parity: "flags (parity_bits 0 (map e_sig es) []) (map sig_v (map e_sig es))"
    using parity_bits_flags [OF flags_Nil, of "map e_sig es"] by simp
  have count: "word_of_nat ?n - (\<Sum>b\<leftarrow>st_contract_creation_bits t. word_of_nat (count_ones b)) =
      (word_of_nat (length ?tos) :: u64)"
    using contract_creation_count_columns [OF creation] by (simp add: contract_creation_count_def)
  define B where "B = parity_bits 0 (map e_sig es) []"
  define S where "S = concat (map (\<lambda>s. put_word 32 (sig_r s) @ put_word 32 (sig_s s)) (map e_sig es))"
  define A where "A = concat (map (put_word 20) ?tos)"
  define D where "D = concat (map (\<lambda>e. span_tx_encode W (e_data e)) es)"
  define N where "N = concat (map (w_varint_encode W) (map e_nonce es))"
  define G where "G = concat (map (w_varint_encode W) (map e_gas es))"
  have enc: "span_txs_encode W t = Good (st_contract_creation_bits t @ (B @ S) @ A @ D @ N @ G @ st_protected_bits t)"
    using c flags_encode [OF creation] flags_encode [OF prot] flags_encode [OF parity] total_count n l
    by (simp add: span_txs_encode_def encode_contract_creation_bits_def encode_tx_sigs_def encode_protected_bits_def
        encode_tx_tos_def encode_tx_data_def encode_tx_nonces_def encode_tx_gases_def
        B_def S_def A_def D_def N_def G_def)
  have bits: "bits_decode ?n (st_contract_creation_bits t @ r) = Good (st_contract_creation_bits t, r)"
    "bits_decode ?n (B @ r) = Good (B, r)" "bits_decode ?l (st_protected_bits t @ r) = Good (st_protected_bits t, r)" for r
    using flags_decode [OF creation, of r] flags_decode [OF parity, of r] flags_decode [OF prot, of r]
    by (simp_all add: B_def)
  have sigs: "decode_sigs_loop B 0 ?n (S @ r) = Good (map e_sig es, r)" for r
    using decode_sigs_loop_enc [of B "[]" "map e_sig es" r] parity by (simp add: B_def S_def)
  have addr: "decode_many (take_word 20) (length ?tos) (A @ r) = Good (?tos, r)" for r
    unfolding A_def by (rule fixed20.decode_many_enc) simp
  have data: "decode_many (read_tx_data W) ?n (D @ r) =
      Good (map (\<lambda>e. (span_tx_encode W (e_data e), envelope_type e)) es, r)" for r
    unfolding D_def using W es by (intro read_tx_data_many) (auto simp: fits_chain_def)
  have ints: "decode_many (varint_decode W (Decoding TxNonces)) ?n (N @ r) = Good (map e_nonce es, r)"
    "decode_many (varint_decode W (Decoding TxNonces)) ?n (G @ r) = Good (map e_gas es, r)" for r
    using codec.decode_many_enc [OF varint_codec [OF W, of "Decoding TxNonces"], of "map e_nonce es" r]
      codec.decode_many_enc [OF varint_codec [OF W, of "Decoding TxNonces"], of "map e_gas es" r]
    by (simp_all add: N_def G_def)
  have eta: "\<lparr>st_total_block_tx_count = word_of_nat ?n, st_contract_creation_bits = st_contract_creation_bits t,
      st_tx_sigs = map e_sig es, st_tx_nonces = map e_nonce es, st_tx_gases = map e_gas es, st_tx_tos = ?tos,
      st_tx_data = map (\<lambda>e. span_tx_encode W (e_data e)) es, st_protected_bits = st_protected_bits t,
      st_tx_types = map envelope_type es, st_legacy_tx_count = word_of_nat ?l\<rparr> = t"
    using c total_count by (cases t) simp
  show thesis
  proof (rule that [OF enc])
    fix rest
    show "span_txs_decode W (default_span_batch_transactions\<lparr>st_total_block_tx_count := word_of_nat ?n\<rparr>)
        ((st_contract_creation_bits t @ (B @ S) @ A @ D @ N @ G @ st_protected_bits t) @ rest) = Good (t, rest)"
      using le
      by (simp add: span_txs_decode_def decode_contract_creation_bits_def decode_tx_sigs_def decode_tx_tos_def
          decode_tx_data_def decode_tx_nonces_def decode_tx_gases_def decode_protected_bits_def
          default_span_batch_transactions_def contract_creation_count_def n l to bits sigs addr data ints count
          comp_def filter_map eta)
  qed
qed

end
