(* ===== verification/Single_Batches.thy ===== *)
theory Single_Batches
  imports Blocks
begin

text \<open>
  Single batches, \<^verbatim>\<open>crates/protocol/protocol/src/batch/{single,validity}.rs\<close>: one L2 block as the
  batcher posts it, and the check whether it may follow the safe head.

  Shown: the check accepts exactly the batches of the batch rules, stated over natural numbers
  and without an order of checks; and a verdict other than \<open>Undecided\<close> does not change when more
  L1 blocks become known.
\<close>

section \<open>Model\<close>

datatype batch_validity = Drop | Accept | Undecided | Future | Past

definition is_accept :: "batch_validity \<Rightarrow> bool" where "is_accept v = (v = Accept)"

definition is_drop :: "batch_validity \<Rightarrow> bool" where "is_drop v = (v = Drop)"

definition is_outdated :: "batch_validity \<Rightarrow> bool" where "is_outdated v = (v = Past)"

definition is_future :: "batch_validity \<Rightarrow> bool" where "is_future v = (v = Future)"

text \<open>The type bytes of \<^verbatim>\<open>op_alloy_consensus::OpTxType\<close>.\<close>

definition DEPOSIT_TX_TYPE :: u8 where "DEPOSIT_TX_TYPE = 0x7E"

definition EIP7702_TX_TYPE :: u8 where "EIP7702_TX_TYPE = 0x04"

record single_batch =
  sb_parent_hash :: b256
  sb_epoch_num :: u64
  sb_epoch_hash :: b256
  sb_timestamp :: u64
  sb_transactions :: "bytes list"

definition has_invalid_transactions :: "single_batch \<Rightarrow> bool" where
  "has_invalid_transactions b =
     list_ex (\<lambda>tx. tx = [] \<or> tx ! 0 = DEPOSIT_TX_TYPE) (sb_transactions b)"

definition single_epoch :: "single_batch \<Rightarrow> block_num_hash" where
  "single_epoch b = \<lparr>bnh_number = sb_epoch_num b, bnh_hash = sb_epoch_hash b\<rparr>"

definition check_batch_timestamp ::
    "single_batch \<Rightarrow> rollup_config \<Rightarrow> l2_block_info \<Rightarrow> block_info \<Rightarrow> batch_validity" where
  "check_batch_timestamp b cfg l2_safe_head inclusion_block =
     (let next_timestamp = bi_timestamp (l2_info l2_safe_head) + rc_block_time cfg in
      if next_timestamp < sb_timestamp b then
        if is_holocene_active cfg (bi_timestamp inclusion_block) then Drop else Future
      else if sb_timestamp b < next_timestamp then
        if is_holocene_active cfg (bi_timestamp inclusion_block) then Past else Drop
      else Accept)"

text \<open>The loop over the transactions, which is the same for single and span batches.\<close>

fun check_transactions :: "rollup_config \<Rightarrow> u64 \<Rightarrow> bytes list \<Rightarrow> batch_validity" where
  "check_transactions cfg timestamp [] = Accept"
| "check_transactions cfg timestamp (tx # txs) =
     (if tx = [] then Drop
      else if hd tx = DEPOSIT_TX_TYPE then Drop
      else if \<not> is_isthmus_active cfg timestamp \<and> hd tx = EIP7702_TX_TYPE then Drop
      else check_transactions cfg timestamp txs)"

text \<open>The checks against the origin that the batch names.\<close>

definition check_against_origin ::
    "single_batch \<Rightarrow> rollup_config \<Rightarrow> block_info list \<Rightarrow> block_info \<Rightarrow> batch_validity" where
  "check_against_origin b cfg l1_blocks batch_origin =
     (let epoch = l1_blocks ! 0 in
      if sb_epoch_hash b \<noteq> bi_hash batch_origin then Drop
      else if sb_timestamp b < bi_timestamp batch_origin then Drop
      else case checked_add (bi_timestamp batch_origin) (max_sequencer_drift cfg (bi_timestamp batch_origin)) of
        None \<Rightarrow> Drop
      | Some max_time \<Rightarrow>
          let no_txs = (sb_transactions b = []) in
          if max_time < sb_timestamp b \<and> \<not> no_txs then Drop
          else if max_time < sb_timestamp b \<and> no_txs \<and> bi_number epoch = bi_number batch_origin \<and> length l1_blocks < 2
          then Undecided
          else if max_time < sb_timestamp b \<and> no_txs \<and> bi_number epoch = bi_number batch_origin \<and>
            bi_timestamp (l1_blocks ! 1) \<le> sb_timestamp b then Drop
          else if (is_first_jovian_block cfg (sb_timestamp b) \<or> is_first_interop_block cfg (sb_timestamp b)) \<and>
            \<not> no_txs then Drop
          else check_transactions cfg (sb_timestamp b) (sb_transactions b))"

definition single_check_batch ::
    "single_batch \<Rightarrow> rollup_config \<Rightarrow> block_info list \<Rightarrow> l2_block_info \<Rightarrow> block_info \<Rightarrow> batch_validity" where
  "single_check_batch b cfg l1_blocks l2_safe_head inclusion_block =
     (if l1_blocks = [] then Undecided
      else let epoch = l1_blocks ! 0;
               timestamp_check = check_batch_timestamp b cfg l2_safe_head inclusion_block in
        if \<not> is_accept timestamp_check then timestamp_check
        else if sb_parent_hash b \<noteq> bi_hash (l2_info l2_safe_head) then Drop
        else if sb_epoch_num b + rc_seq_window_size cfg < bi_number inclusion_block then Drop
        else if sb_epoch_num b < bi_number epoch then Drop
        else if sb_epoch_num b = bi_number epoch then check_against_origin b cfg l1_blocks epoch
        else if sb_epoch_num b = bi_number epoch + 1 then
          if length l1_blocks < 2 then Undecided
          else check_against_origin b cfg l1_blocks (l1_blocks ! 1)
        else Drop)"

section \<open>The rules\<close>

definition tx_allowed :: "rollup_config \<Rightarrow> u64 \<Rightarrow> bytes \<Rightarrow> bool" where
  "tx_allowed cfg timestamp tx \<longleftrightarrow> tx \<noteq> [] \<and> hd tx \<noteq> DEPOSIT_TX_TYPE \<and>
     (hd tx = EIP7702_TX_TYPE \<longrightarrow> is_isthmus_active cfg timestamp)"

text \<open>
  The drift rule for a block at time \<open>t\<close> with origin \<open>l1 ! i\<close>: past the drift only an empty block is
  allowed, and if it stays on the current origin only when the next origin is later than the block.
\<close>

definition drift_allows :: "rollup_config \<Rightarrow> block_info list \<Rightarrow> nat \<Rightarrow> u64 \<Rightarrow> bool \<Rightarrow> bool" where
  "drift_allows cfg l1 i t no_txs \<longleftrightarrow>
     unat t \<le> unat (bi_timestamp (l1 ! i)) + unat (max_sequencer_drift cfg (bi_timestamp (l1 ! i))) \<or>
     no_txs \<and> (i = 0 \<longrightarrow> 2 \<le> length l1 \<and> t < bi_timestamp (l1 ! 1))"

definition single_admissible ::
    "rollup_config \<Rightarrow> block_info list \<Rightarrow> l2_block_info \<Rightarrow> block_info \<Rightarrow> single_batch \<Rightarrow> bool" where
  "single_admissible cfg l1 safe incl b \<longleftrightarrow>
     unat (sb_timestamp b) = unat (bi_timestamp (l2_info safe)) + unat (rc_block_time cfg) \<and>
     sb_parent_hash b = bi_hash (l2_info safe) \<and>
     unat (bi_number incl) \<le> unat (sb_epoch_num b) + unat (rc_seq_window_size cfg) \<and>
     (\<exists>i < min 2 (length l1).
        unat (sb_epoch_num b) = unat (bi_number (l1 ! 0)) + i \<and> sb_epoch_hash b = bi_hash (l1 ! i) \<and>
        bi_timestamp (l1 ! i) \<le> sb_timestamp b \<and>
        drift_allows cfg l1 i (sb_timestamp b) (sb_transactions b = [])) \<and>
     (is_first_jovian_block cfg (sb_timestamp b) \<or> is_first_interop_block cfg (sb_timestamp b) \<longrightarrow>
        sb_transactions b = []) \<and>
     list_all (tx_allowed cfg (sb_timestamp b)) (sb_transactions b)"

lemma check_transactions_accept:
  "check_transactions cfg t txs = (if list_all (tx_allowed cfg t) txs then Accept else Drop)"
  by (induction txs) (auto simp: tx_allowed_def)

lemma unat_plus_64:
  fixes a b :: u64
  assumes "unat a + unat b < 2 ^ 64"
  shows "unat (a + b) = unat a + unat b"
  using assms by (simp add: unat_word_ariths)

lemma check_against_origin_steps:
  assumes "checked_add (bi_timestamp origin) (max_sequencer_drift cfg (bi_timestamp origin)) = Some m"
  shows "check_against_origin b cfg l1 origin = Accept \<longleftrightarrow>
    sb_epoch_hash b = bi_hash origin \<and> \<not> sb_timestamp b < bi_timestamp origin \<and>
    (m < sb_timestamp b \<longrightarrow> sb_transactions b = [] \<and>
      (bi_number (l1 ! 0) = bi_number origin \<longrightarrow> \<not> length l1 < 2 \<and> \<not> bi_timestamp (l1 ! 1) \<le> sb_timestamp b)) \<and>
    (is_first_jovian_block cfg (sb_timestamp b) \<or> is_first_interop_block cfg (sb_timestamp b) \<longrightarrow> sb_transactions b = []) \<and>
    list_all (tx_allowed cfg (sb_timestamp b)) (sb_transactions b)"
  by (cases "sb_transactions b = []"; cases "m < sb_timestamp b"; cases "bi_number (l1 ! 0) = bi_number origin")
    (simp_all add: check_against_origin_def Let_def assms check_transactions_accept del: not_less not_le)

lemma check_against_origin_accept:
  assumes "i < length l1" and "i < 2" and "i = 1 \<Longrightarrow> bi_number (l1 ! 1) \<noteq> bi_number (l1 ! 0)"
    and "unat (bi_timestamp (l1 ! i)) + unat (max_sequencer_drift cfg (bi_timestamp (l1 ! i))) < 2 ^ 64"
  shows "check_against_origin b cfg l1 (l1 ! i) = Accept \<longleftrightarrow>
    sb_epoch_hash b = bi_hash (l1 ! i) \<and> bi_timestamp (l1 ! i) \<le> sb_timestamp b \<and>
    drift_allows cfg l1 i (sb_timestamp b) (sb_transactions b = []) \<and>
    (is_first_jovian_block cfg (sb_timestamp b) \<or> is_first_interop_block cfg (sb_timestamp b) \<longrightarrow> sb_transactions b = []) \<and>
    list_all (tx_allowed cfg (sb_timestamp b)) (sb_transactions b)"
proof -
  let ?max = "bi_timestamp (l1 ! i) + max_sequencer_drift cfg (bi_timestamp (l1 ! i))"
  have late: "?max < sb_timestamp b \<longleftrightarrow>
    \<not> unat (sb_timestamp b) \<le> unat (bi_timestamp (l1 ! i)) + unat (max_sequencer_drift cfg (bi_timestamp (l1 ! i)))"
    unfolding word_less_nat_alt unat_plus_64 [OF assms(4)] by linarith
  have some: "checked_add (bi_timestamp (l1 ! i)) (max_sequencer_drift cfg (bi_timestamp (l1 ! i))) = Some ?max"
    using assms(4) by (simp add: checked_add_def)
  have same: "bi_number (l1 ! 0) = bi_number (l1 ! i) \<longleftrightarrow> i = 0"
    using assms(2,3) by (cases i) auto
  show ?thesis
    unfolding check_against_origin_steps [OF some] not_less not_le unfolding late same drift_allows_def by blast
qed

lemma epoch_offset:
  fixes e n :: u64
  assumes "unat n + 1 < 2 ^ 64"
  shows "e = n + 1 \<longleftrightarrow> unat e = unat n + 1" and "e = n \<longleftrightarrow> unat e = unat n + 0" and "n + 1 \<noteq> n"
proof -
  have "unat (n + 1) = unat n + 1" using unat_plus_64 [of n 1] assms by simp
  then show "e = n + 1 \<longleftrightarrow> unat e = unat n + 1" "e = n \<longleftrightarrow> unat e = unat n + 0" "n + 1 \<noteq> n"
    by (metis word_unat_eq_iff, simp add: word_unat_eq_iff, metis n_not_Suc_n Suc_eq_plus1)
qed

text \<open>The sums of the check do not wrap around.\<close>

definition single_in_range :: "rollup_config \<Rightarrow> block_info list \<Rightarrow> l2_block_info \<Rightarrow> single_batch \<Rightarrow> bool" where
  "single_in_range cfg l1 safe b \<longleftrightarrow>
     unat (bi_timestamp (l2_info safe)) + unat (rc_block_time cfg) < 2 ^ 64 \<and>
     unat (sb_epoch_num b) + unat (rc_seq_window_size cfg) < 2 ^ 64 \<and>
     unat (bi_number (hd l1)) + 1 < 2 ^ 64 \<and>
     list_all (\<lambda>a. unat (bi_timestamp a) + unat (max_sequencer_drift cfg (bi_timestamp a)) < 2 ^ 64) l1"

lemma check_batch_timestamp_accept:
  assumes "unat (bi_timestamp (l2_info safe)) + unat (rc_block_time cfg) < 2 ^ 64"
  shows "check_batch_timestamp b cfg safe incl = Accept \<longleftrightarrow>
    unat (sb_timestamp b) = unat (bi_timestamp (l2_info safe)) + unat (rc_block_time cfg)"
  unfolding check_batch_timestamp_def Let_def word_less_nat_alt unat_plus_64 [OF assms] by auto

lemma single_check_batch_steps:
  "single_check_batch b cfg l1 safe incl = Accept \<longleftrightarrow>
     l1 \<noteq> [] \<and> check_batch_timestamp b cfg safe incl = Accept \<and> sb_parent_hash b = bi_hash (l2_info safe) \<and>
     \<not> sb_epoch_num b + rc_seq_window_size cfg < bi_number incl \<and> \<not> sb_epoch_num b < bi_number (l1 ! 0) \<and>
     (sb_epoch_num b = bi_number (l1 ! 0) \<and> check_against_origin b cfg l1 (l1 ! 0) = Accept \<or>
      sb_epoch_num b \<noteq> bi_number (l1 ! 0) \<and> sb_epoch_num b = bi_number (l1 ! 0) + 1 \<and> \<not> length l1 < 2 \<and>
        check_against_origin b cfg l1 (l1 ! 1) = Accept)"
  by (simp add: single_check_batch_def Let_def is_accept_def)

lemma single_check_batch_iff:
  assumes "l1 \<noteq> []" and "single_in_range cfg l1 safe b"
    and "2 \<le> length l1 \<Longrightarrow> bi_number (l1 ! 1) = bi_number (l1 ! 0) + 1"
  shows "single_check_batch b cfg l1 safe incl = Accept \<longleftrightarrow> single_admissible cfg l1 safe incl b"
proof -
  have sums: "unat (bi_timestamp (l2_info safe)) + unat (rc_block_time cfg) < 2 ^ 64"
    "unat (sb_epoch_num b) + unat (rc_seq_window_size cfg) < 2 ^ 64" "unat (bi_number (l1 ! 0)) + 1 < 2 ^ 64"
    using assms(1,2) by (simp_all add: single_in_range_def hd_conv_nth)
  have drift: "unat (bi_timestamp (l1 ! i)) + unat (max_sequencer_drift cfg (bi_timestamp (l1 ! i))) < 2 ^ 64" if "i < length l1" for i
    using assms(2) that by (auto simp: single_in_range_def list_all_length)
  note offset = epoch_offset [OF sums(3)]
  have window: "sb_epoch_num b + rc_seq_window_size cfg < bi_number incl \<longleftrightarrow>
    \<not> unat (bi_number incl) \<le> unat (sb_epoch_num b) + unat (rc_seq_window_size cfg)"
    unfolding word_less_nat_alt unat_plus_64 [OF sums(2)] by linarith
  have first: "check_against_origin b cfg l1 (l1 ! 0) = Accept \<longleftrightarrow> sb_epoch_hash b = bi_hash (l1 ! 0) \<and>
    bi_timestamp (l1 ! 0) \<le> sb_timestamp b \<and> drift_allows cfg l1 0 (sb_timestamp b) (sb_transactions b = []) \<and>
    (is_first_jovian_block cfg (sb_timestamp b) \<or> is_first_interop_block cfg (sb_timestamp b) \<longrightarrow> sb_transactions b = []) \<and>
    list_all (tx_allowed cfg (sb_timestamp b)) (sb_transactions b)"
    using check_against_origin_accept [of 0 l1] drift [of 0] assms(1) by simp
  have second: "check_against_origin b cfg l1 (l1 ! 1) = Accept \<longleftrightarrow> sb_epoch_hash b = bi_hash (l1 ! 1) \<and>
    bi_timestamp (l1 ! 1) \<le> sb_timestamp b \<and> drift_allows cfg l1 1 (sb_timestamp b) (sb_transactions b = []) \<and>
    (is_first_jovian_block cfg (sb_timestamp b) \<or> is_first_interop_block cfg (sb_timestamp b) \<longrightarrow> sb_transactions b = []) \<and>
    list_all (tx_allowed cfg (sb_timestamp b)) (sb_transactions b)" if "2 \<le> length l1"
    using check_against_origin_accept [of 1 l1] drift [of 1] assms(3) offset(3) that by simp
  have origins: "(\<exists>i < min 2 (length l1). P i) \<longleftrightarrow> P 0 \<or> 2 \<le> length l1 \<and> P 1" for P
    using assms(1) by (auto simp: less_Suc_eq numeral_2_eq_2 Suc_le_eq)
  have split: "\<not> sb_epoch_num b < bi_number (l1 ! 0) \<and> (sb_epoch_num b = bi_number (l1 ! 0) \<and> A \<or>
      sb_epoch_num b \<noteq> bi_number (l1 ! 0) \<and> sb_epoch_num b = bi_number (l1 ! 0) + 1 \<and> L \<and> B) \<longleftrightarrow>
    unat (sb_epoch_num b) = unat (bi_number (l1 ! 0)) + 0 \<and> A \<or> L \<and> unat (sb_epoch_num b) = unat (bi_number (l1 ! 0)) + 1 \<and> B"
    for A B L
    unfolding offset(1,2) word_less_nat_alt by auto
  have final: "(l1 \<noteq> [] \<and> ts \<and> P \<and> W \<and> (e0 \<and> A \<or> L \<and> e1 \<and> B)) =
      (ts \<and> P \<and> W \<and> (e0 \<and> E0 \<or> L \<and> e1 \<and> E1) \<and> J \<and> T)"
    if "l1 \<noteq> []" "A \<longleftrightarrow> E0 \<and> J \<and> T" "L \<Longrightarrow> B \<longleftrightarrow> E1 \<and> J \<and> T" for ts P W e0 A L e1 B E0 E1 J T :: bool
    using that by blast
  show ?thesis
    unfolding single_check_batch_steps split
    unfolding single_admissible_def origins window check_batch_timestamp_accept [OF sums(1)]
      not_less not_not
    by (rule final [OF assms(1)]) (simp_all only: conj_assoc first second)
qed

section \<open>Properties\<close>

text \<open>
  C12. A single batch is accepted exactly when it is admissible by the batch rules: it is the next
  block in time on top of the safe head, included within the sequencing window, its origin is the
  current or the next known L1 block and not later than the block, the sequencer drift is kept,
  upgrade blocks are empty, and it has no empty, deposit or too early EIP-7702 transaction.
\<close>

theorem single_check_batch_accepts:
  assumes "l1 \<noteq> []" and "single_in_range cfg l1 safe b"
    and "2 \<le> length l1 \<Longrightarrow> bi_number (l1 ! 1) = bi_number (l1 ! 0) + 1"
  shows "single_check_batch b cfg l1 safe incl = Accept \<longleftrightarrow> single_admissible cfg l1 safe incl b"
  using assms by (rule single_check_batch_iff)

definition example_origins :: "block_info list" where
  "example_origins = [\<lparr>bi_hash = 21, bi_number = 7, bi_parent_hash = 20, bi_timestamp = 50\<rparr>,
     \<lparr>bi_hash = 22, bi_number = 8, bi_parent_hash = 21, bi_timestamp = 62\<rparr>]"

definition example_head :: l2_block_info where
  "example_head = \<lparr>l2_info = \<lparr>bi_hash = 31, bi_number = 30, bi_parent_hash = 30, bi_timestamp = 62\<rparr>,
     l2_l1_origin = \<lparr>bnh_number = 7, bnh_hash = 21\<rparr>, l2_seq_num = 6\<rparr>"

definition example_single_batch :: single_batch where
  "example_single_batch = \<lparr>sb_parent_hash = 31, sb_epoch_num = 8, sb_epoch_hash = 22, sb_timestamp = 64,
     sb_transactions = [[0x02, 1, 2]]\<rparr>"

lemmas example_batch_defs = example_origins_def example_head_def example_single_batch_def

lemma example_single_accepted:
  "single_check_batch example_single_batch example_config example_origins example_head (example_origins ! 1) = Accept"
  by (simp add: single_check_batch_def check_batch_timestamp_def check_against_origin_def checked_add_def Let_def
      is_accept_def example_batch_defs example_config_defs max_sequencer_drift_def FJORD_MAX_SEQUENCER_DRIFT_def
      cfg_defs reached_def is_first_jovian_block_def is_first_interop_block_def is_first_block_def
      DEPOSIT_TX_TYPE_def EIP7702_TX_TYPE_def)

theorem single_check_batch_accepts_witness:
  "single_check_batch example_single_batch example_config example_origins example_head (example_origins ! 1) = Accept \<and>
   single_admissible example_config example_origins example_head (example_origins ! 1) example_single_batch"
proof -
  have "single_in_range example_config example_origins example_head example_single_batch"
    by (simp add: single_in_range_def example_batch_defs example_config_defs max_sequencer_drift_def
        FJORD_MAX_SEQUENCER_DRIFT_def cfg_defs reached_def)
  then have "single_check_batch example_single_batch example_config example_origins example_head (example_origins ! 1) = Accept \<longleftrightarrow>
    single_admissible example_config example_origins example_head (example_origins ! 1) example_single_batch"
    by (intro single_check_batch_accepts) (simp_all add: example_batch_defs)
  with example_single_accepted show ?thesis by simp
qed

text \<open>
  The eager check agrees with the check that waits: a verdict on a single batch that is not
  \<open>Undecided\<close> stays the same when more L1 blocks become known, and with two known L1 blocks every
  batch is decided.
\<close>

lemma single_check_batch_stable:
  "(single_check_batch b cfg l1 safe incl \<noteq> Undecided \<longrightarrow>
     single_check_batch b cfg (l1 @ later) safe incl = single_check_batch b cfg l1 safe incl) \<and>
   (2 \<le> length l1 \<longrightarrow> single_check_batch b cfg l1 safe incl \<noteq> Undecided)"
proof -
  have two: "check_against_origin b cfg l1 origin \<noteq> Undecided" if "2 \<le> length l1" for l1 origin
    using that by (simp add: check_against_origin_def Let_def check_transactions_accept split: option.split)
  have stamp: "check_batch_timestamp b cfg safe incl \<noteq> Undecided"
    by (simp add: check_batch_timestamp_def Let_def)
  have decided: "single_check_batch b cfg l1 safe incl \<noteq> Undecided" if "2 \<le> length l1"
  proof -
    have "l1 \<noteq> []" using that by auto
    with two [OF that] stamp that show ?thesis
      by (simp add: single_check_batch_def Let_def)
  qed
  have more: "check_against_origin b cfg (l1 @ later) origin = check_against_origin b cfg l1 origin"
    if "check_against_origin b cfg l1 origin \<noteq> Undecided" "l1 \<noteq> []" for origin
  proof (cases "2 \<le> length l1")
    case True
    then have "(l1 @ later) ! 0 = l1 ! 0" "(l1 @ later) ! 1 = l1 ! 1" by (auto simp: nth_append)
    with True show ?thesis by (simp add: check_against_origin_def Let_def split: option.split)
  next
    case False
    with that show ?thesis
      by (cases "sb_transactions b = []") (auto simp: check_against_origin_def Let_def nth_append check_transactions_accept
          split: option.splits if_splits)
  qed
  show ?thesis
  proof (intro conjI impI)
    assume known: "single_check_batch b cfg l1 safe incl \<noteq> Undecided"
    then have "l1 \<noteq> []" by (auto simp: single_check_batch_def)
    with known more show "single_check_batch b cfg (l1 @ later) safe incl = single_check_batch b cfg l1 safe incl"
      by (auto simp: single_check_batch_def Let_def nth_append split: if_splits)
  qed (rule decided)
qed

lemma single_check_batch_stable_witness:
  "single_check_batch (example_single_batch\<lparr>sb_timestamp := 60\<rparr>) example_config (example_origins @ [default_block_info])
     example_head (example_origins ! 1) = Past \<and>
   single_check_batch example_single_batch example_config [example_origins ! 0] example_head (example_origins ! 1) = Undecided"
proof -
  have "single_check_batch (example_single_batch\<lparr>sb_timestamp := 60\<rparr>) example_config example_origins
     example_head (example_origins ! 1) = Past"
    by (simp add: single_check_batch_def check_batch_timestamp_def Let_def
        is_accept_def example_batch_defs example_config_defs cfg_defs reached_def)
  moreover have "single_check_batch example_single_batch example_config [example_origins ! 0] example_head (example_origins ! 1) = Undecided"
    by (simp add: single_check_batch_def check_batch_timestamp_def Let_def
        is_accept_def example_batch_defs example_config_defs cfg_defs reached_def)
  ultimately show ?thesis
    using single_check_batch_stable [of "example_single_batch\<lparr>sb_timestamp := 60\<rparr>" example_config example_origins example_head
        "example_origins ! 1" "[default_block_info]"] by simp
qed

end
