(* ===== verification/Span_Batches.thy ===== *)
theory Span_Batches
  imports Span_Transactions Single_Batches
begin

text \<open>
  Span batches, \<^verbatim>\<open>crates/protocol/protocol/src/batch/{span,element,prefix,payload,raw}.rs\<close>: building
  one from single batches, its wire format, and reading the single batches back.

  Shown: a span batch built from consecutive blocks is encoded, decoded and derived to the same
  blocks; the single batches handed out are those of the origins with the epoch numbers of the
  elements.
\<close>

section \<open>Model\<close>

record span_batch_element =
  el_epoch_num :: u64
  el_timestamp :: u64
  el_transactions :: "bytes list"

definition element_from :: "single_batch \<Rightarrow> span_batch_element" where
  "element_from b = \<lparr>el_epoch_num = sb_epoch_num b, el_timestamp = sb_timestamp b,
     el_transactions = sb_transactions b\<rparr>"

record span_batch =
  sp_parent_check :: fixed20
  sp_l1_origin_check :: fixed20
  sp_genesis_timestamp :: u64
  sp_chain_id :: u64
  sp_batches :: "span_batch_element list"
  sp_origin_bits :: span_batch_bits
  sp_block_tx_counts :: "u64 list"
  sp_txs :: span_batch_transactions

definition default_span_batch :: span_batch where
  "default_span_batch = \<lparr>sp_parent_check = 0, sp_l1_origin_check = 0, sp_genesis_timestamp = 0, sp_chain_id = 0,
     sp_batches = [], sp_origin_bits = [], sp_block_tx_counts = [], sp_txs = default_span_batch_transactions\<rparr>"

record span_batch_prefix =
  px_rel_timestamp :: u64
  px_l1_origin_num :: u64
  px_parent_check :: fixed20
  px_l1_origin_check :: fixed20

record span_batch_payload =
  py_block_count :: u64
  py_origin_bits :: span_batch_bits
  py_block_tx_counts :: "u64 list"
  py_txs :: span_batch_transactions

record raw_span_batch =
  rw_prefix :: span_batch_prefix
  rw_payload :: span_batch_payload

subsection \<open>Queries\<close>

text \<open>\<^verbatim>\<open>hash[..20]\<close>: the first 20 of 32 bytes.\<close>

definition hash20 :: "b256 \<Rightarrow> fixed20" where
  "hash20 h = ucast (drop_bit 96 h)"

text \<open>On an empty batch these three panic.\<close>

definition starting_timestamp :: "span_batch \<Rightarrow> u64" where
  "starting_timestamp s = el_timestamp (sp_batches s ! 0)"

definition final_timestamp :: "span_batch \<Rightarrow> u64" where
  "final_timestamp s = el_timestamp (sp_batches s ! (length (sp_batches s) - 1))"

definition starting_epoch_num :: "span_batch \<Rightarrow> u64" where
  "starting_epoch_num s = el_epoch_num (sp_batches s ! 0)"

definition check_origin_hash :: "span_batch \<Rightarrow> b256 \<Rightarrow> bool" where
  "check_origin_hash s h = (sp_l1_origin_check s = hash20 h)"

definition check_parent_hash :: "span_batch \<Rightarrow> b256 \<Rightarrow> bool" where
  "check_parent_hash s h = (sp_parent_check s = hash20 h)"

definition peek :: "span_batch \<Rightarrow> nat \<Rightarrow> span_batch_element" where
  "peek s n = sp_batches s ! (length (sp_batches s) - 1 - n)"

subsection \<open>Building\<close>

definition append_singular_batch ::
    "wire \<Rightarrow> single_batch \<Rightarrow> u64 \<Rightarrow> span_batch \<Rightarrow> span_batch \<times> (span_batch_error, unit) outcome" where
  "append_singular_batch W singular_batch seq_num s =
     (if sp_batches s \<noteq> [] \<and> sb_timestamp singular_batch < el_timestamp (peek s 0) then (s, Panic)
      else
        let s = s\<lparr>sp_batches := sp_batches s @ [element_from singular_batch],
                  sp_l1_origin_check := hash20 (sb_epoch_hash singular_batch)\<rparr>;
            (s, epoch_bit) =
              (if length (sp_batches s) = 1
               then (s\<lparr>sp_parent_check := hash20 (sb_parent_hash singular_batch)\<rparr>, seq_num = 0)
               else (s, el_epoch_num (peek s 1) < el_epoch_num (peek s 0)));
            s = s\<lparr>sp_origin_bits := bits_set_bit (sp_origin_bits s) (length (sp_batches s) - 1) epoch_bit\<rparr>;
            new_txs = el_transactions (peek s 0);
            s = s\<lparr>sp_block_tx_counts := sp_block_tx_counts s @ [word_of_nat (length new_txs)]\<rparr>;
            (txs, res) = add_txs W new_txs (sp_chain_id s) (sp_txs s)
        in (s\<lparr>sp_txs := txs\<rparr>, res))"

definition to_raw_span_batch :: "span_batch \<Rightarrow> (span_batch_error, raw_span_batch) outcome" where
  "to_raw_span_batch s =
     (if sp_batches s = [] then Bad EmptySpanBatch
      else Good
        \<lparr>rw_prefix = \<lparr>px_rel_timestamp = el_timestamp (hd (sp_batches s)) - sp_genesis_timestamp s,
           px_l1_origin_num = el_epoch_num (last (sp_batches s)),
           px_parent_check = sp_parent_check s, px_l1_origin_check = sp_l1_origin_check s\<rparr>,
         rw_payload = \<lparr>py_block_count = word_of_nat (length (sp_batches s)), py_origin_bits = sp_origin_bits s,
           py_block_tx_counts = sp_block_tx_counts s, py_txs = sp_txs s\<rparr>\<rparr>)"

subsection \<open>Wire format\<close>

definition encode_prefix :: "wire \<Rightarrow> span_batch_prefix \<Rightarrow> bytes" where
  "encode_prefix W p = w_varint_encode W (px_rel_timestamp p) @ w_varint_encode W (px_l1_origin_num p) @
     put_word 20 (px_parent_check p) @ put_word 20 (px_l1_origin_check p)"

definition decode_prefix :: "wire \<Rightarrow> (span_batch_error, span_batch_prefix) decoder" where
  "decode_prefix W r =
     obind (varint_decode W (Decoding RelativeTimestamp) r) (\<lambda>(rel_timestamp, r).
     obind (varint_decode W (Decoding L1OriginNumber) r) (\<lambda>(l1_origin_num, r).
     obind (take_word 20 r) (\<lambda>(parent_check, r).
     obind (take_word 20 r) (\<lambda>(l1_origin_check, r).
       Good (\<lparr>px_rel_timestamp = rel_timestamp, px_l1_origin_num = l1_origin_num,
         px_parent_check = parent_check, px_l1_origin_check = l1_origin_check\<rparr>, r)))))"

definition encode_payload :: "wire \<Rightarrow> span_batch_payload \<Rightarrow> (span_batch_error, bytes) outcome" where
  "encode_payload W p =
     obind (bits_encode (unat (py_block_count p)) (py_origin_bits p)) (\<lambda>origin_bits.
     obind (span_txs_encode W (py_txs p)) (\<lambda>txs.
       Good (w_varint_encode W (py_block_count p) @ origin_bits @
         concat (map (w_varint_encode W) (py_block_tx_counts p)) @ txs)))"

definition decode_block_count :: "wire \<Rightarrow> (span_batch_error, u64) decoder" where
  "decode_block_count W r =
     obind (varint_decode W (Decoding BlockCount) r) (\<lambda>(block_count, r).
       if MAX_SPAN_BATCH_ELEMENTS < block_count then Bad TooBigSpanBatchSize
       else if block_count = 0 then Bad EmptySpanBatch
       else Good (block_count, r))"

definition decode_origin_bits :: "u64 \<Rightarrow> (span_batch_error, span_batch_bits) decoder" where
  "decode_origin_bits block_count r =
     (if MAX_SPAN_BATCH_ELEMENTS < block_count then Bad TooBigSpanBatchSize
      else bits_decode (unat block_count) r)"

definition decode_block_tx_count :: "wire \<Rightarrow> (span_batch_error, u64) decoder" where
  "decode_block_tx_count W r =
     obind (varint_decode W (Decoding BlockTxCounts) r) (\<lambda>(block_tx_count, r).
       if MAX_SPAN_BATCH_ELEMENTS < block_tx_count then Bad TooBigSpanBatchSize
       else Good (block_tx_count, r))"

fun total_tx_count :: "u64 \<Rightarrow> u64 list \<Rightarrow> u64 option" where
  "total_tx_count acc [] = Some acc"
| "total_tx_count acc (c # cs) = Option.bind (checked_add acc c) (\<lambda>acc. total_tx_count acc cs)"

definition decode_txs :: "wire \<Rightarrow> u64 list \<Rightarrow> (span_batch_error, span_batch_transactions) decoder" where
  "decode_txs W block_tx_counts r =
     (if block_tx_counts = [] then Bad EmptySpanBatch
      else obind (good_or (total_tx_count 0 block_tx_counts) TooBigSpanBatchSize) (\<lambda>total_block_tx_count.
        if MAX_SPAN_BATCH_ELEMENTS < total_block_tx_count then Bad TooBigSpanBatchSize
        else span_txs_decode W (default_span_batch_transactions\<lparr>st_total_block_tx_count := total_block_tx_count\<rparr>) r))"

definition decode_payload :: "wire \<Rightarrow> (span_batch_error, span_batch_payload) decoder" where
  "decode_payload W r =
     obind (decode_block_count W r) (\<lambda>(block_count, r).
     obind (decode_origin_bits block_count r) (\<lambda>(origin_bits, r).
     obind (decode_many (decode_block_tx_count W) (unat block_count) r) (\<lambda>(block_tx_counts, r).
     obind (decode_txs W block_tx_counts r) (\<lambda>(txs, r).
       Good (\<lparr>py_block_count = block_count, py_origin_bits = origin_bits,
         py_block_tx_counts = block_tx_counts, py_txs = txs\<rparr>, r)))))"

definition raw_encode :: "wire \<Rightarrow> raw_span_batch \<Rightarrow> (span_batch_error, bytes) outcome" where
  "raw_encode W b = obind (encode_payload W (rw_payload b)) (\<lambda>p. Good (encode_prefix W (rw_prefix b) @ p))"

definition raw_decode :: "wire \<Rightarrow> (span_batch_error, raw_span_batch) decoder" where
  "raw_decode W r = obind (decode_prefix W r) (\<lambda>(prefix, r). obind (decode_payload W r) (\<lambda>(payload, r).
     Good (\<lparr>rw_prefix = prefix, rw_payload = payload\<rparr>, r)))"

subsection \<open>Deriving the blocks\<close>

text \<open>The origin numbers, from the last block to the first; \<open>acc\<close> holds those of the later blocks.\<close>

fun block_origin_nums :: "span_batch_bits \<Rightarrow> nat \<Rightarrow> u64 \<Rightarrow> u64 list \<Rightarrow> (span_batch_error, u64 list) outcome" where
  "block_origin_nums bits 0 l1_origin_number acc = Good acc"
| "block_origin_nums bits (Suc i) l1_origin_number acc =
     obind (good_or (get_bit bits i) (Decoding L1OriginCheck)) (\<lambda>b.
       block_origin_nums bits i (if b = 1 \<and> 0 < i then l1_origin_number - 1 else l1_origin_number)
         (l1_origin_number # acc))"

text \<open>The elements from index \<open>i\<close> on, given their origin numbers and the transactions left.\<close>

fun derive_elements ::
    "u64 \<Rightarrow> u64 \<Rightarrow> nat \<Rightarrow> u64 list \<Rightarrow> u64 list \<Rightarrow> bytes list \<Rightarrow> (span_batch_error, span_batch_element list) outcome" where
  "derive_elements start block_time i [] counts txs = Good []"
| "derive_elements start block_time i (n # nums) [] txs = Panic"
| "derive_elements start block_time i (n # nums) (c # counts) txs =
     (if length txs < unat c then Panic
      else obind (derive_elements start block_time (Suc i) nums counts (drop (unat c) txs)) (\<lambda>es.
        Good (\<lparr>el_epoch_num = n, el_timestamp = start + block_time * word_of_nat i,
          el_transactions = take (unat c) txs\<rparr> # es)))"

definition raw_derive :: "wire \<Rightarrow> raw_span_batch \<Rightarrow> u64 \<Rightarrow> u64 \<Rightarrow> u64 \<Rightarrow> (span_batch_error, span_batch) outcome" where
  "raw_derive W b block_time genesis_time chain_id =
     (if py_block_count (rw_payload b) = 0 then Bad EmptySpanBatch
      else
        obind (block_origin_nums (py_origin_bits (rw_payload b)) (unat (py_block_count (rw_payload b)))
          (px_l1_origin_num (rw_prefix b)) []) (\<lambda>nums.
        obind (full_txs W (py_txs (rw_payload b)) chain_id) (\<lambda>enveloped_txs.
        obind (derive_elements (genesis_time + px_rel_timestamp (rw_prefix b)) block_time 0 nums
          (py_block_tx_counts (rw_payload b)) enveloped_txs) (\<lambda>batches.
          Good (default_span_batch\<lparr>sp_parent_check := px_parent_check (rw_prefix b),
            sp_l1_origin_check := px_l1_origin_check (rw_prefix b), sp_batches := batches\<rparr>)))))"

subsection \<open>Single batches of a span batch\<close>

fun position_of :: "u64 \<Rightarrow> block_info list \<Rightarrow> (nat \<times> block_info) option" where
  "position_of n [] = None"
| "position_of n (b # bs) =
     (if bi_number b = n then Some (0, b) else map_option (\<lambda>(i, b). (Suc i, b)) (position_of n bs))"

text \<open>The index found counts from \<^verbatim>\<open>origin_index\<close> on, and becomes the new \<^verbatim>\<open>origin_index\<close> as it is.\<close>

fun singular_loop ::
    "block_info list \<Rightarrow> u64 \<Rightarrow> nat \<Rightarrow> span_batch_element list \<Rightarrow> (span_batch_error, single_batch list) outcome" where
  "singular_loop l1_origins safe_timestamp origin_index [] = Good []"
| "singular_loop l1_origins safe_timestamp origin_index (e # es) =
     (if el_timestamp e \<le> safe_timestamp then singular_loop l1_origins safe_timestamp origin_index es
      else if length l1_origins < origin_index then Panic
      else case position_of (el_epoch_num e) (drop origin_index l1_origins) of
        None \<Rightarrow> Bad MissingL1Origin
      | Some (i, origin) \<Rightarrow>
          obind (singular_loop l1_origins safe_timestamp i es) (\<lambda>bs.
            Good (\<lparr>sb_parent_hash = 0, sb_epoch_num = el_epoch_num e, sb_epoch_hash = bi_hash origin,
              sb_timestamp = el_timestamp e, sb_transactions = el_transactions e\<rparr> # bs)))"

definition get_singular_batches ::
    "span_batch \<Rightarrow> block_info list \<Rightarrow> l2_block_info \<Rightarrow> (span_batch_error, single_batch list) outcome" where
  "get_singular_batches s l1_origins l2_safe_head =
     singular_loop l1_origins (bi_timestamp (l2_info l2_safe_head)) 0 (sp_batches s)"

section \<open>Building and deriving\<close>

text \<open>A block for a span batch: its single batch, its sequence number and its transactions.\<close>

record span_block =
  bk_batch :: single_batch
  bk_seq_num :: u64
  bk_txs :: "tx_envelope list"

fun append_blocks :: "wire \<Rightarrow> span_block list \<Rightarrow> span_batch \<Rightarrow> span_batch \<times> (span_batch_error, unit) outcome" where
  "append_blocks W [] s = (s, Good ())"
| "append_blocks W (b # bs) s =
     (case append_singular_batch W (bk_batch b) (bk_seq_num b) s of
        (s, Good _) \<Rightarrow> append_blocks W bs s
      | (s, Bad e) \<Rightarrow> (s, Bad e)
      | (s, Panic) \<Rightarrow> (s, Panic))"

definition block_ok :: "wire \<Rightarrow> u64 \<Rightarrow> span_block \<Rightarrow> bool" where
  "block_ok W chain_id b \<longleftrightarrow> sb_transactions (bk_batch b) = map (w_encode_2718 W) (bk_txs b) \<and>
     (\<forall>e\<in>set (bk_txs b). fits_chain chain_id e \<and> codes_tx W e)"

abbreviation bk_epoch :: "span_block \<Rightarrow> u64" where
  "bk_epoch b \<equiv> sb_epoch_num (bk_batch b)"

text \<open>The origin bits of a list of blocks: whether the epoch is a new one.\<close>

definition origin_flags :: "span_block list \<Rightarrow> bool list" where
  "origin_flags bs = map (\<lambda>i. if i = 0 then bk_seq_num (bs ! 0) = 0 else bk_epoch (bs ! (i - 1)) < bk_epoch (bs ! i)) [0..<length bs]"

definition span_built :: "wire \<Rightarrow> u64 \<Rightarrow> u64 \<Rightarrow> span_block list \<Rightarrow> span_batch \<Rightarrow> bool" where
  "span_built W genesis_time chain_id bs s \<longleftrightarrow>
     sp_genesis_timestamp s = genesis_time \<and> sp_chain_id s = chain_id \<and>
     sp_batches s = map (\<lambda>b. element_from (bk_batch b)) bs \<and>
     (bs \<noteq> [] \<longrightarrow> sp_parent_check s = hash20 (sb_parent_hash (bk_batch (hd bs))) \<and>
        sp_l1_origin_check s = hash20 (sb_epoch_hash (bk_batch (last bs)))) \<and>
     flags (sp_origin_bits s) (origin_flags bs) \<and>
     sp_block_tx_counts s = map (\<lambda>b. word_of_nat (length (bk_txs b))) bs \<and>
     columns W (sp_txs s) (concat (map bk_txs bs)) \<and>
     st_total_block_tx_count (sp_txs s) = word_of_nat (length (concat (map bk_txs bs)))"

lemma origin_flags_snoc:
  "origin_flags (bs @ [b]) = origin_flags bs @ [if bs = [] then bk_seq_num b = 0 else bk_epoch (last bs) < bk_epoch b]"
  by (cases bs rule: rev_cases) (auto simp: origin_flags_def nth_append)

lemma span_built_default:
  "span_built W g c [] (default_span_batch\<lparr>sp_genesis_timestamp := g, sp_chain_id := c\<rparr>)"
proof -
  have "st_total_block_tx_count default_span_batch_transactions = 0"
    by (simp add: default_span_batch_transactions_def)
  then show ?thesis
    by (simp add: span_built_def default_span_batch_def origin_flags_def columns_default)
qed

lemma length_origin_flags [simp]: "length (origin_flags bs) = length bs"
  by (simp add: origin_flags_def)

lemma append_singular_batch_built:
  assumes s: "span_built W g c bs s" and b: "block_ok W c b"
    and order: "bs \<noteq> [] \<Longrightarrow> sb_timestamp (bk_batch (last bs)) \<le> sb_timestamp (bk_batch b)"
    and size: "length (concat (map bk_txs (bs @ [b]))) < 2 ^ 64"
  obtains s' where "append_singular_batch W (bk_batch b) (bk_seq_num b) s = (s', Good ())" "span_built W g c (bs @ [b]) s'"
proof -
  note built = s [unfolded span_built_def]
  obtain txs where txs: "add_txs W (sb_transactions (bk_batch b)) c (sp_txs s) = (txs, Good ())"
    "columns W txs (concat (map bk_txs bs) @ bk_txs b)"
    "st_total_block_tx_count txs = word_of_nat (length (concat (map bk_txs bs) @ bk_txs b))"
    using built b size add_txs_columns [of W "sp_txs s" "concat (map bk_txs bs)" "bk_txs b" c]
    by (auto simp: block_ok_def)
  have count: "word_of_nat (length (sb_transactions (bk_batch b))) = (word_of_nat (length (bk_txs b)) :: u64)"
    using b by (simp add: block_ok_def)
  have snoc: "flags (bits_set_bit (sp_origin_bits s) (length bs)
      (if bs = [] then bk_seq_num b = 0 else bk_epoch (last bs) < bk_epoch b)) (origin_flags (bs @ [b]))"
    using flags_snoc [of "sp_origin_bits s" "origin_flags bs"] built by (simp only: origin_flags_snoc length_origin_flags)
  let ?r = "append_singular_batch W (bk_batch b) (bk_seq_num b) s"
  have "snd ?r = Good () \<and> span_built W g c (bs @ [b]) (fst ?r)"
  proof (cases "bs = []")
    case True
    with built txs count snoc show ?thesis
      by (simp add: append_singular_batch_def peek_def span_built_def element_from_def Let_def)
  next
    case False
    then have "map (\<lambda>b. element_from (bk_batch b)) bs ! (length bs - Suc 0) = element_from (bk_batch (last bs))"
      by (simp add: last_conv_nth)
    with False built txs count snoc order show ?thesis
      by (simp add: append_singular_batch_def peek_def span_built_def element_from_def Let_def nth_append)
  qed
  then show thesis by (intro that [of "fst ?r"]) (auto simp: prod_eq_iff)
qed

lemma append_blocks_built:
  assumes "span_built W g c pre s" and "\<forall>b\<in>set bs. block_ok W c b"
    and "sorted (map (\<lambda>b. sb_timestamp (bk_batch b)) (pre @ bs))"
    and "length (concat (map bk_txs (pre @ bs))) < 2 ^ 64"
  obtains s' where "append_blocks W bs s = (s', Good ())" "span_built W g c (pre @ bs) s'"
  using assms
proof (induction bs arbitrary: pre s thesis)
  case (Cons b bs)
  have "sb_timestamp (bk_batch (last pre)) \<le> sb_timestamp (bk_batch b)" if "pre \<noteq> []"
    using Cons.prems(4) that by (auto simp: sorted_append)
  moreover have "length (concat (map bk_txs (pre @ [b]))) < 2 ^ 64"
    using Cons.prems(5) by simp
  ultimately obtain s1 where s1: "append_singular_batch W (bk_batch b) (bk_seq_num b) s = (s1, Good ())"
    "span_built W g c (pre @ [b]) s1"
    using Cons.prems(2,3) append_singular_batch_built [of W g c pre s b] by auto
  obtain s2 where "append_blocks W bs s1 = (s2, Good ())" "span_built W g c ((pre @ [b]) @ bs) s2"
    using Cons.IH [OF _ s1(2)] Cons.prems by auto
  with s1 show ?case by (intro Cons.prems(1) [of s2]) simp_all
qed simp

text \<open>Consecutive blocks: the epoch stays or moves on by one.\<close>

definition epochs_follow :: "span_block list \<Rightarrow> bool" where
  "epochs_follow bs \<longleftrightarrow> (\<forall>i. Suc i < length bs \<longrightarrow>
     unat (bk_epoch (bs ! Suc i)) = unat (bk_epoch (bs ! i)) \<or>
     unat (bk_epoch (bs ! Suc i)) = unat (bk_epoch (bs ! i)) + 1)"

lemma block_origin_nums_Suc:
  assumes "get_bit bits (Suc k) = Some (of_bool b)"
  shows "block_origin_nums bits (Suc (Suc k)) n acc = block_origin_nums bits (Suc k) (if b then n - 1 else n) (n # acc)"
  using block_origin_nums.simps(2) [of bits "Suc k" n acc] assms by (simp del: block_origin_nums.simps)

lemma block_origin_nums_built:
  assumes "flags bits (origin_flags bs)" and "epochs_follow bs"
  shows "k < length bs \<Longrightarrow> block_origin_nums bits (Suc k) (bk_epoch (bs ! k)) acc = Good (map bk_epoch (take (Suc k) bs) @ acc)"
proof (induction k arbitrary: acc)
  case 0
  with flags_get_bit [OF assms(1), of 0] show ?case by (cases bs) auto
next
  case (Suc k)
  let ?e = "bk_epoch (bs ! Suc k)" and ?e' = "bk_epoch (bs ! k)"
  have step: "unat ?e = unat ?e' \<or> unat ?e = unat ?e' + 1" using assms(2) Suc.prems by (simp add: epochs_follow_def)
  have bit: "get_bit bits (Suc k) = Some (of_bool (?e' < ?e))"
    using flags_get_bit [OF assms(1), of "Suc k"] Suc.prems by (simp add: origin_flags_def)
  have prev: "(if ?e' < ?e then ?e - 1 else ?e) = ?e'"
  proof (cases "?e' < ?e")
    case True
    then have "unat ?e = unat ?e' + 1" using step by (auto simp: word_less_nat_alt)
    then have "word_of_nat (unat ?e) = (word_of_nat (unat ?e' + 1) :: u64)" by (rule arg_cong)
    then have "?e = ?e' + 1" by simp
    with True show ?thesis by simp
  next
    case False
    with step have "unat ?e = unat ?e'" by (auto simp: word_less_nat_alt)
    with False show ?thesis by (simp add: word_unat_eq_iff)
  qed
  have "block_origin_nums bits (Suc (Suc k)) ?e acc = block_origin_nums bits (Suc k) ?e' (?e # acc)"
    unfolding block_origin_nums_Suc [OF bit] prev ..
  with Suc show ?case by (simp add: take_Suc_conv_app_nth del: block_origin_nums.simps)
qed

lemma derive_elements_built:
  assumes "\<forall>j < length bs. sb_timestamp (bk_batch (bs ! j)) = start + block_time * word_of_nat (i + j)"
    and "\<forall>b\<in>set bs. length (sb_transactions (bk_batch b)) = length (bk_txs b) \<and> length (bk_txs b) < 2 ^ 64"
  shows "derive_elements start block_time i (map bk_epoch bs) (map (\<lambda>b. word_of_nat (length (bk_txs b))) bs)
    (concat (map (\<lambda>b. sb_transactions (bk_batch b)) bs)) = Good (map (\<lambda>b. element_from (bk_batch b)) bs)"
  using assms
proof (induction bs arbitrary: i)
  case (Cons b bs)
  have "\<forall>j < length bs. sb_timestamp (bk_batch (bs ! j)) = start + block_time * word_of_nat (Suc i + j)"
    using Cons.prems(1) by fastforce
  from Cons.IH [OF this] Cons.prems(2) have "derive_elements start block_time (Suc i) (map bk_epoch bs)
    (map (\<lambda>b. word_of_nat (length (bk_txs b))) bs) (concat (map (\<lambda>b. sb_transactions (bk_batch b)) bs)) =
    Good (map (\<lambda>b. element_from (bk_batch b)) bs)"
    by simp
  moreover have "sb_timestamp (bk_batch b) = start + block_time * word_of_nat i"
    using Cons.prems(1) by fastforce
  moreover have "unat (word_of_nat (length (bk_txs b)) :: u64) = length (sb_transactions (bk_batch b))"
    using Cons.prems(2) by (simp add: u64_of_nat)
  ultimately show ?case by (simp add: element_from_def)
qed simp

lemma total_tx_count_sum:
  "unat acc + sum_list ns < 2 ^ 64 \<Longrightarrow> total_tx_count acc (map word_of_nat ns) = Some (acc + word_of_nat (sum_list ns))"
proof (induction ns arbitrary: acc)
  case (Cons n ns)
  then have n: "unat (word_of_nat n :: u64) = n" by (intro u64_of_nat) simp
  with Cons.prems have "unat acc + unat (word_of_nat n :: u64) < 2 ^ 64" by simp
  moreover from this n have "unat (acc + word_of_nat n) = unat acc + n" by (simp add: unat_plus_64)
  ultimately show ?case using Cons.IH [of "acc + word_of_nat n"] Cons.prems by (simp add: checked_add_def add.assoc)
qed simp

lemma decode_prefix_encode:
  assumes "wire_ok W"
  shows "decode_prefix W (encode_prefix W p @ rest) = Good (p, rest)"
  using assms by (simp add: decode_prefix_def encode_prefix_def codec.dec_enc [OF varint_codec] fixed20.dec_enc)

lemma small_u64: "n \<le> 10000000 \<Longrightarrow> unat (word_of_nat n :: u64) = n \<and> \<not> MAX_SPAN_BATCH_ELEMENTS < word_of_nat n"
  using u64_of_nat [of n] by (simp add: MAX_SPAN_BATCH_ELEMENTS_def not_less word_le_nat_alt)

lemma block_tx_count_codec:
  assumes "wire_ok W"
  shows "codec (w_varint_encode W) (decode_block_tx_count W) (\<lambda>n. \<not> MAX_SPAN_BATCH_ELEMENTS < n)"
  by unfold_locales (simp add: decode_block_tx_count_def codec.dec_enc [OF varint_codec [OF assms]])

lemma decode_payload_encode:
  assumes bits: "flags (py_origin_bits p) fs" and count: "py_block_count p = word_of_nat (length fs)"
    and size: "fs \<noteq> []" "length fs \<le> 10000000" "length es \<le> 10000000"
    and counts: "py_block_tx_counts p = map word_of_nat ns" "length ns = length fs" "sum_list ns = length es"
    and txs: "columns W (py_txs p) es" "st_total_block_tx_count (py_txs p) = word_of_nat (length es)"
    and W: "wire_ok W" and es: "\<forall>e\<in>set es. fits_chain cid e \<and> codes_tx W e"
  obtains bytes where "encode_payload W p = Good bytes" "\<And>rest. decode_payload W (bytes @ rest) = Good (p, rest)"
proof -
  obtain tx_bytes where tx: "span_txs_encode W (py_txs p) = Good tx_bytes"
    "\<And>rest. span_txs_decode W (default_span_batch_transactions\<lparr>st_total_block_tx_count := word_of_nat (length es)\<rparr>)
       (tx_bytes @ rest) = Good (py_txs p, rest)"
    using span_txs_decode_encode [OF txs size(3) W es] by metis
  note n = small_u64 [OF size(2)]
  have le: "m \<le> length es" if "m \<in> set ns" for m
    using member_le_sum_list [OF that] counts(3) by simp
  have many: "decode_many (decode_block_tx_count W) (length fs) (concat (map (w_varint_encode W) (py_block_tx_counts p)) @ rest) =
      Good (py_block_tx_counts p, rest)" for rest
    using codec.decode_many_enc [OF block_tx_count_codec [OF W], of "py_block_tx_counts p" rest] counts(1,2) le size(3)
      small_u64 [OF order_trans [OF le size(3)]] by auto
  have total: "total_tx_count 0 (py_block_tx_counts p) = Some (word_of_nat (length es))"
    using total_tx_count_sum [of 0 ns] counts size(3) by simp
  have ne: "py_block_tx_counts p \<noteq> []" "word_of_nat (length fs) \<noteq> (0 :: u64)"
    using size(1) counts(1,2) n by (auto simp: word_unat_eq_iff)
  let ?bytes = "w_varint_encode W (word_of_nat (length fs)) @ py_origin_bits p @
    concat (map (w_varint_encode W) (py_block_tx_counts p)) @ tx_bytes"
  show thesis
  proof (rule that [of ?bytes])
    show "encode_payload W p = Good ?bytes"
      using n by (simp add: encode_payload_def count flags_encode [OF bits] tx(1))
    show "decode_payload W (?bytes @ rest) = Good (p, rest)" for rest
      using n ne small_u64 [OF size(3)]
      by (simp add: decode_payload_def decode_block_count_def decode_origin_bits_def decode_txs_def
          codec.dec_enc [OF varint_codec [OF W]] flags_decode [OF bits] many total tx(2) flip: count)
  qed
qed

lemma full_txs_built:
  assumes "columns W t (concat (map bk_txs bs))" and "st_total_block_tx_count t = word_of_nat (length (concat (map bk_txs bs)))"
    and "length (concat (map bk_txs bs)) \<le> 10000000" and "wire_ok W" and "\<forall>b\<in>set bs. block_ok W c b"
  shows "full_txs W t c = Good (concat (map (\<lambda>b. sb_transactions (bk_batch b)) bs))"
proof -
  have all: "\<forall>e\<in>set (concat (map bk_txs bs)). fits_chain c e \<and> codes_tx W e"
    using assms(5) by (auto simp: block_ok_def)
  have "map (w_encode_2718 W) (concat (map bk_txs bs)) = concat (map (\<lambda>b. sb_transactions (bk_batch b)) bs)"
    using assms(5) by (induction bs) (simp_all add: block_ok_def)
  moreover have "unat (st_total_block_tx_count t) = length (concat (map bk_txs bs))"
    using small_u64 [OF assms(3)] assms(2) by simp
  ultimately show ?thesis
    using full_txs_loop_columns [of W t "[]" "concat (map bk_txs bs)" c] assms(1,4) all
    by (simp add: full_txs_def List.map_filter_def)
qed

text \<open>The blocks are \<open>block_time\<close> apart, without running over 64 bits.\<close>

definition evenly_spaced :: "u64 \<Rightarrow> span_block list \<Rightarrow> bool" where
  "evenly_spaced block_time bs \<longleftrightarrow> (\<forall>j < length bs.
     unat (sb_timestamp (bk_batch (bs ! j))) = unat (sb_timestamp (bk_batch (hd bs))) + j * unat block_time)"

lemma evenly_spaced_sorted: "evenly_spaced block_time bs \<Longrightarrow> sorted (map (\<lambda>b. sb_timestamp (bk_batch b)) bs)"
  by (auto simp: sorted_iff_nth_mono evenly_spaced_def word_le_nat_alt)

lemma evenly_spaced_word:
  assumes "evenly_spaced block_time bs" and "j < length bs"
  shows "sb_timestamp (bk_batch (bs ! j)) = sb_timestamp (bk_batch (hd bs)) + block_time * word_of_nat j"
proof -
  have "word_of_nat (unat (sb_timestamp (bk_batch (bs ! j)))) =
      (word_of_nat (unat (sb_timestamp (bk_batch (hd bs))) + j * unat block_time) :: u64)"
    using assms by (simp add: evenly_spaced_def)
  then show ?thesis by (simp add: mult.commute)
qed

lemma raw_derive_built:
  assumes s: "span_built W g c bs s" and raw: "to_raw_span_batch s = Good raw" and W: "wire_ok W" and bs: "bs \<noteq> []"
    and small: "length bs \<le> 10000000" "length (concat (map bk_txs bs)) \<le> 10000000"
    and ok: "\<forall>b\<in>set bs. block_ok W c b" "epochs_follow bs" "evenly_spaced block_time bs"
  shows "raw_derive W raw block_time g c = Good (default_span_batch
    \<lparr>sp_parent_check := hash20 (sb_parent_hash (bk_batch (hd bs))),
     sp_l1_origin_check := hash20 (sb_epoch_hash (bk_batch (last bs))),
     sp_batches := map (\<lambda>b. element_from (bk_batch b)) bs\<rparr>)"
proof -
  note built = s [unfolded span_built_def]
  let ?start = "sb_timestamp (bk_batch (hd bs))" and ?counts = "map (\<lambda>b. word_of_nat (length (bk_txs b))) bs"
  have raw_eq: "raw = \<lparr>rw_prefix = \<lparr>px_rel_timestamp = ?start - g, px_l1_origin_num = bk_epoch (last bs),
      px_parent_check = hash20 (sb_parent_hash (bk_batch (hd bs))), px_l1_origin_check = hash20 (sb_epoch_hash (bk_batch (last bs)))\<rparr>,
    rw_payload = \<lparr>py_block_count = word_of_nat (length bs), py_origin_bits = sp_origin_bits s,
      py_block_tx_counts = ?counts, py_txs = sp_txs s\<rparr>\<rparr>"
    using raw built bs by (simp add: to_raw_span_batch_def hd_map last_map element_from_def)
  have n: "unat (word_of_nat (length bs) :: u64) = length bs" using small_u64 [OF small(1)] by simp
  then have pos: "word_of_nat (length bs) \<noteq> (0 :: u64)" using bs by (auto simp: word_unat_eq_iff)
  have nums: "block_origin_nums (sp_origin_bits s) (length bs) (bk_epoch (last bs)) [] = Good (map bk_epoch bs)"
    using block_origin_nums_built [of "sp_origin_bits s" bs "length bs - 1" "[]"] built ok(2) bs by (simp add: last_conv_nth)
  have txs: "full_txs W (sp_txs s) c = Good (concat (map (\<lambda>b. sb_transactions (bk_batch b)) bs))"
    using full_txs_built [OF _ _ small(2) W ok(1)] built by simp
  have "length (bk_txs b) \<le> length (concat (map bk_txs bs))" if "b \<in> set bs" for b
    using that by (simp add: length_concat comp_def member_le_sum_list)
  then have lens: "length (sb_transactions (bk_batch b)) = length (bk_txs b) \<and> length (bk_txs b) < 2 ^ 64" if "b \<in> set bs" for b
    using that small(2) ok(1) by (fastforce simp: block_ok_def)
  have elements: "derive_elements ?start block_time 0 (map bk_epoch bs) ?counts
      (concat (map (\<lambda>b. sb_transactions (bk_batch b)) bs)) = Good (map (\<lambda>b. element_from (bk_batch b)) bs)"
    using evenly_spaced_word [OF ok(3)] lens by (intro derive_elements_built) auto
  show ?thesis
    by (simp add: raw_derive_def raw_eq n pos nums txs elements)
qed

section \<open>Single batches\<close>

text \<open>The single batch of an element, with the hash of the origin that has its epoch number.\<close>

definition single_of :: "block_info list \<Rightarrow> span_batch_element \<Rightarrow> single_batch option" where
  "single_of l1 e = map_option (\<lambda>origin. \<lparr>sb_parent_hash = 0, sb_epoch_num = el_epoch_num e, sb_epoch_hash = bi_hash origin,
     sb_timestamp = el_timestamp e, sb_transactions = el_transactions e\<rparr>) (find (\<lambda>b. bi_number b = el_epoch_num e) l1)"

fun all_or_none :: "'a option list \<Rightarrow> 'a list option" where
  "all_or_none [] = Some []"
| "all_or_none (x # xs) = Option.bind x (\<lambda>x. map_option ((#) x) (all_or_none xs))"

lemma position_of_find: "position_of n bs = (case find (\<lambda>b. bi_number b = n) bs of None \<Rightarrow> None
    | Some b \<Rightarrow> Some (length (takeWhile (\<lambda>b. bi_number b \<noteq> n) bs), b))"
  by (induction bs) (auto split: option.splits)

lemma find_takeWhile:
  "find P xs = Some x \<Longrightarrow> length (takeWhile (\<lambda>y. \<not> P y) xs) < length xs \<and> xs ! length (takeWhile (\<lambda>y. \<not> P y) xs) = x \<and> P x"
  by (induction xs) (auto split: if_splits)

lemma in_set_take_nth: "x \<in> set (take n xs) \<Longrightarrow> \<exists>m < n. m < length xs \<and> x = xs ! m"
  by (auto simp: in_set_conv_nth)

lemma find_drop:
  "\<forall>b\<in>set (take k bs). \<not> P b \<Longrightarrow> find P (drop k bs) = find P bs"
  by (induction bs arbitrary: k) (auto simp: drop_Cons' take_Cons')

lemma take_length_takeWhile_drop:
  "b \<in> set (take (length (takeWhile P (drop k bs))) bs) \<Longrightarrow> b \<in> set (take k bs) \<or> P b"
proof -
  assume "b \<in> set (take (length (takeWhile P (drop k bs))) bs)"
  moreover have "take (length (takeWhile P (drop k bs)) + k) bs = take k bs @ takeWhile P (drop k bs)"
    by (simp add: add.commute take_add takeWhile_eq_take [symmetric])
  ultimately have "b \<in> set (take k bs @ takeWhile P (drop k bs))"
    by (metis le_add1 set_take_subset_set_take subset_code(1))
  then show ?thesis by (auto dest: set_takeWhileD)
qed

lemma singular_loop_eq:
  assumes "sorted (map el_epoch_num es)" and "k \<le> length l1"
    and "\<forall>e\<in>set es. \<forall>b\<in>set (take k l1). bi_number b < el_epoch_num e"
    and "sorted (map bi_number l1)"
  shows "singular_loop l1 t k es = good_or (all_or_none (map (single_of l1) (filter (\<lambda>e. t < el_timestamp e) es))) MissingL1Origin"
  using assms(1-3)
proof (induction es arbitrary: k)
  case (Cons e es)
  show ?case
  proof (cases "el_timestamp e \<le> t")
    case True
    with Cons show ?thesis by (simp add: leD)
  next
    case new: False
    then have later: "t < el_timestamp e" by simp
    let ?k = "length (takeWhile (\<lambda>b. bi_number b \<noteq> el_epoch_num e) (drop k l1))"
    have same: "find (\<lambda>b. bi_number b = el_epoch_num e) (drop k l1) = find (\<lambda>b. bi_number b = el_epoch_num e) l1"
      using Cons.prems(3) by (intro find_drop) auto
    show ?thesis
    proof (cases "find (\<lambda>b. bi_number b = el_epoch_num e) l1")
      case None
      with new later Cons.prems(2) same show ?thesis by (simp add: position_of_find single_of_def)
    next
      case (Some origin)
      have "bi_number b < el_epoch_num e" if mem: "b \<in> set (take ?k l1)" for b
      proof -
        obtain m where m: "m < ?k" "m < length l1" "b = l1 ! m" using in_set_take_nth [OF mem] by blast
        have below: "?k + k < length l1 \<and> bi_number (l1 ! (?k + k)) = el_epoch_num e"
          using find_takeWhile [of "\<lambda>b. bi_number b = el_epoch_num e" "drop k l1" origin] Some same Cons.prems(2)
          by (simp add: add.commute less_diff_conv)
        then have "bi_number b \<le> el_epoch_num e"
          using sorted_nth_mono [OF assms(4), of m "?k + k"] m by simp
        moreover have "b \<in> set (take k l1) \<or> bi_number b \<noteq> el_epoch_num e"
          using mem by (rule take_length_takeWhile_drop)
        ultimately show ?thesis using Cons.prems(3) by fastforce
      qed
      moreover have "\<forall>e'\<in>set es. el_epoch_num e \<le> el_epoch_num e'" using Cons.prems(1) by simp
      ultimately have "\<forall>e'\<in>set es. \<forall>b\<in>set (take ?k l1). bi_number b < el_epoch_num e'"
        by (meson order_less_le_trans)
      moreover have "?k \<le> length l1" by (rule order_trans [OF length_takeWhile_le]) simp
      ultimately have "singular_loop l1 t ?k es = good_or (all_or_none (map (single_of l1) (filter (\<lambda>e. t < el_timestamp e) es))) MissingL1Origin"
        using Cons.IH Cons.prems(1) by simp
      with new later Some Cons.prems(2) same show ?thesis
        by (cases "all_or_none (map (single_of l1) (filter (\<lambda>e. t < el_timestamp e) es))")
          (simp_all add: position_of_find single_of_def [of l1 e])
    qed
  qed
qed simp

section \<open>Properties\<close>

text \<open>
  C13. Consecutive L2 blocks put into a span batch come back: appending the blocks succeeds, the
  raw span batch is encoded, the encoding is decoded to the same raw batch whatever follows it,
  and deriving it gives for every block the epoch number, the timestamp and the transactions it
  had, with the checks of the first block's parent and the last block's origin.
\<close>

theorem span_batch_roundtrip:
  assumes "wire_ok W" and "bs \<noteq> []" and "length bs \<le> 10000000" and "length (concat (map bk_txs bs)) \<le> 10000000"
    and "\<forall>b\<in>set bs. block_ok W c b" and "epochs_follow bs" and "evenly_spaced block_time bs"
  shows "\<exists>s raw bytes.
    append_blocks W bs (default_span_batch\<lparr>sp_genesis_timestamp := g, sp_chain_id := c\<rparr>) = (s, Good ()) \<and>
    to_raw_span_batch s = Good raw \<and> raw_encode W raw = Good bytes \<and>
    (\<forall>rest. raw_decode W (bytes @ rest) = Good (raw, rest)) \<and>
    raw_derive W raw block_time g c = Good (default_span_batch
      \<lparr>sp_parent_check := hash20 (sb_parent_hash (bk_batch (hd bs))),
       sp_l1_origin_check := hash20 (sb_epoch_hash (bk_batch (last bs))),
       sp_batches := map (\<lambda>b. element_from (bk_batch b)) bs\<rparr>)"
proof -
  obtain s where s: "append_blocks W bs (default_span_batch\<lparr>sp_genesis_timestamp := g, sp_chain_id := c\<rparr>) = (s, Good ())"
    "span_built W g c bs s"
    using append_blocks_built [OF span_built_default assms(5), of g] assms(4) evenly_spaced_sorted [OF assms(7)] by auto
  note built = s(2) [unfolded span_built_def]
  obtain raw where raw: "to_raw_span_batch s = Good raw" "rw_payload raw = \<lparr>py_block_count = word_of_nat (length bs),
      py_origin_bits = sp_origin_bits s, py_block_tx_counts = sp_block_tx_counts s, py_txs = sp_txs s\<rparr>"
    using built assms(2) by (simp add: to_raw_span_batch_def)
  have "\<forall>e\<in>set (concat (map bk_txs bs)). fits_chain c e \<and> codes_tx W e"
    using assms(5) by (auto simp: block_ok_def)
  then obtain payload where payload: "encode_payload W (rw_payload raw) = Good payload"
    "decode_payload W (payload @ rest) = Good (rw_payload raw, rest)" for rest
    using decode_payload_encode [of "rw_payload raw" "origin_flags bs" "concat (map bk_txs bs)" "map (length \<circ> bk_txs) bs" W c]
      built assms(1-4) raw(2) by (auto simp: length_concat comp_def origin_flags_def [of bs])
  show ?thesis
    using s(1) raw(1) payload raw_derive_built [OF s(2) raw(1) assms] decode_prefix_encode [OF assms(1)]
    by (auto simp: raw_encode_def raw_decode_def)
qed

definition example_tx :: tx_legacy where
  "example_tx = \<lparr>tl_chain_id = Some 10, tl_nonce = 3, tl_gas_price = 100, tl_gas_limit = 21000, tl_to = Call 99,
     tl_value = 5, tl_input = []\<rparr>"

definition example_envelope :: tx_envelope where
  "example_envelope = tx_envelope.Legacy example_tx \<lparr>sig_r = 11, sig_s = 12, sig_v = True\<rparr>"

definition example_tx_types :: "(u8 \<times> tx_type) list" where
  "example_tx_types = [(0, tx_type.Legacy), (1, tx_type.Eip2930), (2, tx_type.Eip1559), (3, tx_type.Eip4844), (4, tx_type.Eip7702)]"

text \<open>A concrete wire with one transaction, \<^verbatim>\<open>[0xC1, 0x80]\<close>, whose data is \<^verbatim>\<open>[0xC0]\<close>.\<close>

definition example_wire :: wire where
  "example_wire = \<lparr>w_varint_encode = put_word 8,
     w_varint_decode = (\<lambda>r. case take_word 8 r :: (unit, u64 \<times> bytes) outcome of Good x \<Rightarrow> Some x | _ \<Rightarrow> None),
     w_header = (\<lambda>_. Some (True, 0, 1)), w_tx_type = map_of example_tx_types,
     w_type_byte = (\<lambda>ty. case ty of tx_type.Legacy \<Rightarrow> 0 | tx_type.Eip2930 \<Rightarrow> 1 | tx_type.Eip1559 \<Rightarrow> 2
       | tx_type.Eip4844 \<Rightarrow> 3 | tx_type.Eip7702 \<Rightarrow> 4),
     w_legacy_encode = (\<lambda>_. [0xC0]), w_legacy_decode = (\<lambda>_. Some (\<lparr>sl_value = 5, sl_gas_price = 100, sl_data = []\<rparr>, [])),
     w_eip2930_encode = (\<lambda>_. []), w_eip2930_decode = (\<lambda>_. None), w_eip1559_encode = (\<lambda>_. []), w_eip1559_decode = (\<lambda>_. None),
     w_eip7702_encode = (\<lambda>_. []), w_eip7702_decode = (\<lambda>_. None), w_envelope_decode = (\<lambda>_. Some example_envelope),
     w_encode_2718 = (\<lambda>_. [0xC1, 0x80]), w_is_replay_protected = (\<lambda>_. True)\<rparr>"

lemma example_wire_ok: "wire_ok example_wire"
proof -
  have "take_word 8 (put_word 8 n @ rest) = (Good (n, rest) :: (unit, u64 \<times> bytes) outcome)" for n rest
    by (simp add: put_word_def take_word_def take_bytes_def word_of_be_decode_encode)
  moreover have "map_of example_tx_types (w_type_byte example_wire ty) = Some ty \<and> w_type_byte example_wire ty \<le> 0x7F" for ty
    by (cases ty) (simp_all add: example_wire_def example_tx_types_def)
  ultimately show ?thesis by (simp add: wire_ok_def example_wire_def example_tx_types_def)
qed

lemma example_codes_tx: "codes_tx example_wire example_envelope \<and> fits_chain 10 example_envelope"
  by (simp add: codes_tx_def fits_chain_def example_wire_def example_envelope_def example_tx_def e_chain_id_def e_data_def)

definition example_blocks :: "span_block list" where
  "example_blocks = [\<lparr>bk_batch = example_single_batch\<lparr>sb_transactions := [[0xC1, 0x80]]\<rparr>, bk_seq_num = 0, bk_txs = [example_envelope]\<rparr>,
     \<lparr>bk_batch = example_single_batch\<lparr>sb_epoch_num := 9, sb_timestamp := 66, sb_transactions := []\<rparr>, bk_seq_num = 0, bk_txs = []\<rparr>]"

theorem span_batch_roundtrip_witness:
  "\<exists>s raw bytes.
    append_blocks example_wire example_blocks (default_span_batch\<lparr>sp_genesis_timestamp := 4, sp_chain_id := 10\<rparr>) = (s, Good ()) \<and>
    to_raw_span_batch s = Good raw \<and> raw_encode example_wire raw = Good bytes \<and>
    (\<forall>rest. raw_decode example_wire (bytes @ rest) = Good (raw, rest)) \<and>
    raw_derive example_wire raw 2 4 10 = Good (default_span_batch
      \<lparr>sp_parent_check := hash20 31, sp_l1_origin_check := hash20 22,
       sp_batches := [\<lparr>el_epoch_num = 8, el_timestamp = 64, el_transactions = [[0xC1, 0x80]]\<rparr>,
         \<lparr>el_epoch_num = 9, el_timestamp = 66, el_transactions = []\<rparr>]\<rparr>)"
proof -
  have "\<forall>b\<in>set example_blocks. block_ok example_wire 10 b"
    using example_codes_tx by (simp add: block_ok_def example_blocks_def) (simp add: example_wire_def)
  moreover have "epochs_follow example_blocks" "evenly_spaced 2 example_blocks"
    by (auto simp: epochs_follow_def evenly_spaced_def example_blocks_def example_single_batch_def less_Suc_eq)
  ultimately show ?thesis
    using span_batch_roundtrip [of example_wire example_blocks 10 2 4, OF example_wire_ok]
    by (simp add: example_blocks_def example_single_batch_def element_from_def)
qed

text \<open>
  When the epoch numbers of the elements and the numbers of the L1 origins do not decrease,
  the single batches of a span batch are the elements after the safe head, each with the hash of
  the origin of its epoch number, and the only failure is an epoch that is not among the origins.
\<close>

lemma get_singular_batches_origins:
  assumes "sorted (map el_epoch_num (sp_batches s))" and "sorted (map bi_number l1)"
  shows "get_singular_batches s l1 head = good_or (all_or_none (map (single_of l1)
    (filter (\<lambda>e. bi_timestamp (l2_info head) < el_timestamp e) (sp_batches s)))) MissingL1Origin"
  unfolding get_singular_batches_def using assms by (intro singular_loop_eq) auto

lemma get_singular_batches_origins_witness:
  "get_singular_batches (default_span_batch\<lparr>sp_batches := [\<lparr>el_epoch_num = 7, el_timestamp = 62, el_transactions = []\<rparr>,
      \<lparr>el_epoch_num = 7, el_timestamp = 64, el_transactions = [[2]]\<rparr>, \<lparr>el_epoch_num = 8, el_timestamp = 66, el_transactions = []\<rparr>]\<rparr>)
    example_origins example_head =
   Good [\<lparr>sb_parent_hash = 0, sb_epoch_num = 7, sb_epoch_hash = 21, sb_timestamp = 64, sb_transactions = [[2]]\<rparr>,
     \<lparr>sb_parent_hash = 0, sb_epoch_num = 8, sb_epoch_hash = 22, sb_timestamp = 66, sb_transactions = []\<rparr>]"
  by (subst get_singular_batches_origins) (simp_all add: example_batch_defs single_of_def)

end
