(* ===== verification/L2_Blocks.thy ===== *)
theory L2_Blocks
  imports Blocks L1_Info
begin

text \<open>
  What is read off an L2 block: \<^verbatim>\<open>L2BlockInfo::from_block_and_genesis\<close> of \<^verbatim>\<open>block.rs\<close> and
  \<^verbatim>\<open>to_system_config\<close> of \<^verbatim>\<open>utils.rs\<close> (\<^verbatim>\<open>crates/protocol/protocol/src\<close>).

  A block is given by the parts of its header that are looked at and its transactions; a
  transaction is a deposit with its input or another one with its type, each with its EIP-2718
  encoding.  The decoders of the header's extra data are those of \<^verbatim>\<open>op_alloy_consensus\<close>, the
  argument \<open>extra_data\<close>.

  Shown: the system config read off a block leads to the same L1 attributes as the config the
  block was built with.
\<close>

section \<open>Blocks\<close>

datatype op_tx = Deposit bytes bytes | Other u8 bytes

fun encode_2718 :: "op_tx \<Rightarrow> bytes" where
  "encode_2718 (Deposit _ e) = e"
| "encode_2718 (Other _ e) = e"

fun is_deposit :: "op_tx \<Rightarrow> bool" where
  "is_deposit (Deposit _ _) = True"
| "is_deposit (Other _ _) = False"

record op_block =
  ob_number :: u64
  ob_hash :: b256
  ob_parent_hash :: b256
  ob_timestamp :: u64
  ob_gas_limit :: u64
  ob_extra_data :: bytes
  ob_transactions :: "op_tx list"

text \<open>Errors of the libraries are only passed on; their messages stand for them.\<close>

datatype from_block_error = InvalidGenesisHash | MissingL1InfoDeposit b256 | UnexpectedTxType u8
  | TxEnvelopeDecodeError string | FirstTxNonDeposit u8 | BlockInfoDecodeError decode_error | OpPayload string

definition block_info_from :: "op_block \<Rightarrow> block_info" where
  "block_info_from block = \<lparr>bi_hash = ob_hash block, bi_number = ob_number block,
     bi_parent_hash = ob_parent_hash block, bi_timestamp = ob_timestamp block\<rparr>"

definition from_block_and_genesis :: "op_block \<Rightarrow> chain_genesis \<Rightarrow> from_block_error + l2_block_info" where
  "from_block_and_genesis block genesis =
     (let block_info = block_info_from block in
      if bi_number block_info = bnh_number (cg_l2 genesis) then
        if bi_hash block_info \<noteq> bnh_hash (cg_l2 genesis) then Inl InvalidGenesisHash
        else Inr \<lparr>l2_info = block_info, l2_l1_origin = cg_l1 genesis, l2_seq_num = 0\<rparr>
      else case ob_transactions block of
             [] \<Rightarrow> Inl (MissingL1InfoDeposit (bi_hash block_info))
           | Other ty _ # _ \<Rightarrow> Inl (FirstTxNonDeposit ty)
           | Deposit input _ # _ \<Rightarrow>
               (case l1_info_decode_calldata input of
                  Inl e \<Rightarrow> Inl (BlockInfoDecodeError e)
                | Inr l1_info \<Rightarrow> Inr \<lparr>l2_info = block_info, l2_l1_origin = l1_info_id l1_info,
                    l2_seq_num = l1_info_sequence_number l1_info\<rparr>))"

text \<open>
  Execution payloads are those of \<^verbatim>\<open>op_alloy_rpc_types_engine\<close>: their version, and the conversion
  to a block with or without a sidecar, which carries the parent beacon block root, the blob
  hashes and, from version 4, the hash of the requests.
\<close>

datatype payload_version = V1 | V2 | V3 | V4

datatype sidecar = Sidecar_V3 b256 "b256 list" | Sidecar_V4 b256 "b256 list" b256

record 'p payload_lib =
  pl_version :: "'p \<Rightarrow> payload_version"
  pl_try_into_block :: "'p \<Rightarrow> string + op_block"
  pl_try_into_block_with_sidecar :: "'p \<Rightarrow> sidecar \<Rightarrow> string + op_block"
  pl_empty_requests_hash :: b256

definition from_payload_and_genesis ::
    "'p payload_lib \<Rightarrow> 'p \<Rightarrow> b256 option \<Rightarrow> chain_genesis \<Rightarrow> from_block_error + l2_block_info" where
  "from_payload_and_genesis P payload parent_beacon_block_root genesis =
     (let block = (case pl_version P payload of
          V4 \<Rightarrow> pl_try_into_block_with_sidecar P payload
            (Sidecar_V4 (unwrap_or parent_beacon_block_root 0) [] (pl_empty_requests_hash P))
        | V3 \<Rightarrow> pl_try_into_block_with_sidecar P payload (Sidecar_V3 (unwrap_or parent_beacon_block_root 0) [])
        | _ \<Rightarrow> pl_try_into_block P payload)
      in case block of Inl e \<Rightarrow> Inl (OpPayload e) | Inr block \<Rightarrow> from_block_and_genesis block genesis)"

section \<open>The system config of a block\<close>

record extra_data =
  xd_decode_jovian :: "bytes \<Rightarrow> string + (u32 \<times> u32 \<times> u64)"
  xd_decode_holocene :: "bytes \<Rightarrow> string + (u32 \<times> u32)"

datatype op_block_conversion_error = InvalidGenesisHash b256 b256 | InvalidTxType u8
  | L1InfoError decode_error | MissingSystemConfigGenesis | EmptyTransactions b256 | Eip1559DecodeError string

text \<open>\<^verbatim>\<open>buf[0] = 0x01\<close>, the blob scalar in bytes 24 to 27 and the base scalar in bytes 28 to 31.\<close>

definition v1_scalar :: "u32 \<Rightarrow> u32 \<Rightarrow> 256 word" where
  "v1_scalar blob_base_fee_scalar base_fee_scalar =
     from_be (1 # replicate 23 0 @ put_word 4 blob_base_fee_scalar @ put_word 4 base_fee_scalar)"

fun info_fee_scalar :: "l1_block_info_tx \<Rightarrow> 256 word" where
  "info_fee_scalar (Bedrock i) = ib_l1_fee_scalar i"
| "info_fee_scalar (Ecotone i) = v1_scalar (ie_blob_base_fee_scalar i) (ie_base_fee_scalar i)"
| "info_fee_scalar (Isthmus i) = v1_scalar (ii_blob_base_fee_scalar i) (ii_base_fee_scalar i)"
| "info_fee_scalar (Jovian i) = v1_scalar (ij_blob_base_fee_scalar i) (ij_base_fee_scalar i)"

definition with_extra_data ::
    "extra_data \<Rightarrow> op_block \<Rightarrow> rollup_config \<Rightarrow> system_config \<Rightarrow> op_block_conversion_error + system_config" where
  "with_extra_data X block cfg c =
     (if is_jovian_active cfg (ob_timestamp block) then
        (case xd_decode_jovian X (ob_extra_data block) of
           Inl e \<Rightarrow> Inl (Eip1559DecodeError e)
         | Inr (elasticity, denominator, min_base_fee) \<Rightarrow>
             Inr (c\<lparr>sc_eip1559_denominator := Some denominator, sc_eip1559_elasticity := Some elasticity,
               sc_min_base_fee := Some min_base_fee\<rparr>))
      else if is_holocene_active cfg (ob_timestamp block) then
        (case xd_decode_holocene X (ob_extra_data block) of
           Inl e \<Rightarrow> Inl (Eip1559DecodeError e)
         | Inr (elasticity, denominator) \<Rightarrow>
             Inr (c\<lparr>sc_eip1559_denominator := Some denominator, sc_eip1559_elasticity := Some elasticity\<rparr>))
      else Inr c)"

definition to_system_config ::
    "extra_data \<Rightarrow> op_block \<Rightarrow> rollup_config \<Rightarrow> op_block_conversion_error + system_config" where
  "to_system_config X block cfg =
     (if ob_number block = bnh_number (cg_l2 (rc_genesis cfg)) then
        if ob_hash block \<noteq> bnh_hash (cg_l2 (rc_genesis cfg))
        then Inl (InvalidGenesisHash (bnh_hash (cg_l2 (rc_genesis cfg))) (ob_hash block))
        else (case cg_system_config (rc_genesis cfg) of
                None \<Rightarrow> Inl MissingSystemConfigGenesis
              | Some c \<Rightarrow> Inr c)
      else case ob_transactions block of
             [] \<Rightarrow> Inl (EmptyTransactions (ob_hash block))
           | Other ty _ # _ \<Rightarrow> Inl (InvalidTxType ty)
           | Deposit input _ # _ \<Rightarrow>
               (case l1_info_decode_calldata input of
                  Inl e \<Rightarrow> Inl (L1InfoError e)
                | Inr l1_info \<Rightarrow>
                    map_sum id (\<lambda>c.
                      let c = (if is_isthmus_active cfg (ob_timestamp block)
                               then c\<lparr>sc_operator_fee_scalar := Some (l1_info_operator_fee_scalar l1_info),
                                      sc_operator_fee_constant := Some (l1_info_operator_fee_constant l1_info)\<rparr>
                               else c)
                      in case l1_info_da_footprint l1_info of
                           Some da_footprint \<Rightarrow> c\<lparr>sc_da_footprint_gas_scalar := Some da_footprint\<rparr>
                         | None \<Rightarrow> c)
                    (with_extra_data X block cfg
                      (default_system_config
                        \<lparr>sc_batcher_address := l1_info_batcher_address l1_info,
                         sc_overhead := l1_info_l1_fee_overhead l1_info,
                         sc_scalar := info_fee_scalar l1_info,
                         sc_gas_limit := ob_gas_limit block\<rparr>))))"

section \<open>The config and the attributes\<close>

lemma put_from_be: "length b = 32 \<Longrightarrow> put_word 32 (from_be b :: 256 word) = b"
  unfolding put_word_def from_be_def by (rule be_encode_word_of_be_decode) simp_all

lemma v1_scalar_parts:
  "put_word 32 (v1_scalar a b) ! 0 = 1"
  "from_be (byte_slice 24 28 (put_word 32 (v1_scalar a b))) = a"
  "from_be (byte_slice 28 32 (put_word 32 (v1_scalar a b))) = b"
proof -
  have bytes: "put_word 32 (v1_scalar a b) = (1 # replicate 23 0) @ put_word 4 a @ put_word 4 b"
    by (simp add: v1_scalar_def put_from_be)
  show "put_word 32 (v1_scalar a b) ! 0 = 1" by (simp add: bytes)
  show "from_be (byte_slice 24 28 (put_word 32 (v1_scalar a b))) = a"
    "from_be (byte_slice 28 32 (put_word 32 (v1_scalar a b))) = b"
    unfolding bytes by (simp_all only: calldata_slices length_append length_put_word) (simp_all add: calldata_slices)
qed

text \<open>
  The attributes of a config \<open>c\<close> are those of \<open>sys\<close> when \<open>c\<close> was read off the attributes of \<open>sys\<close>.
\<close>

definition read_off :: "rollup_config \<Rightarrow> u64 \<Rightarrow> l1_block_info_tx \<Rightarrow> system_config \<Rightarrow> bool" where
  "read_off cfg t i c \<longleftrightarrow>
     sc_batcher_address c = l1_info_batcher_address i \<and> sc_overhead c = l1_info_l1_fee_overhead i \<and>
     sc_scalar c = info_fee_scalar i \<and>
     (is_isthmus_active cfg t \<longrightarrow> sc_operator_fee_scalar c = Some (l1_info_operator_fee_scalar i) \<and>
        sc_operator_fee_constant c = Some (l1_info_operator_fee_constant i)) \<and>
     (l1_info_da_footprint i \<noteq> None \<longrightarrow> sc_da_footprint_gas_scalar c = l1_info_da_footprint i)"

lemma to_system_config_read_off:
  assumes "ob_number block \<noteq> bnh_number (cg_l2 (rc_genesis cfg))"
    and "ob_transactions block = Deposit input e # txs" and "l1_info_decode_calldata input = Inr i"
    and "is_jovian_active cfg (ob_timestamp block) \<Longrightarrow> xd_decode_jovian X (ob_extra_data block) = Inr (el, den, fee)"
    and "is_holocene_active cfg (ob_timestamp block) \<Longrightarrow> \<not> is_jovian_active cfg (ob_timestamp block) \<Longrightarrow>
      xd_decode_holocene X (ob_extra_data block) = Inr (el, den)"
  shows "\<exists>c. to_system_config X block cfg = Inr c \<and> read_off cfg (ob_timestamp block) i c \<and>
    sc_gas_limit c = ob_gas_limit block \<and>
    (is_holocene_active cfg (ob_timestamp block) \<longrightarrow>
      sc_eip1559_elasticity c = Some el \<and> sc_eip1559_denominator c = Some den) \<and>
    (is_jovian_active cfg (ob_timestamp block) \<longrightarrow> sc_min_base_fee c = Some fee)"
  using assms by (auto simp: to_system_config_def with_extra_data_def read_off_def Let_def split: option.split)

definition sys_blob_scalar :: "system_config \<Rightarrow> u32" where
  "sys_blob_scalar sys = (if put_word 32 (sc_scalar sys) ! 0 = ECOTONE_L1_SCALAR
     then from_be (byte_slice 24 28 (put_word 32 (sc_scalar sys))) else 0)"

definition sys_base_scalar :: "system_config \<Rightarrow> u32" where
  "sys_base_scalar sys = from_be (byte_slice 28 32 (put_word 32 (sc_scalar sys)))"

definition sys_da_scalar :: "system_config \<Rightarrow> u16" where
  "sys_da_scalar sys = (let da = unwrap_or (sc_da_footprint_gas_scalar sys) JOVIAN_DEFAULT_DA_FOOTPRINT_GAS_SCALAR
     in if da = 0 then JOVIAN_DEFAULT_DA_FOOTPRINT_GAS_SCALAR else da)"

lemmas sys_scalar_folds = sys_blob_scalar_def [symmetric] sys_base_scalar_def [symmetric]
  sys_da_scalar_def [unfolded Let_def, symmetric]

lemma read_off_scalars:
  "sc_scalar c = v1_scalar a b \<Longrightarrow> sys_blob_scalar c = a \<and> sys_base_scalar c = b"
  by (simp add: sys_blob_scalar_def sys_base_scalar_def v1_scalar_parts ECOTONE_L1_SCALAR_def)

lemma sys_da_scalar_again:
  "sc_da_footprint_gas_scalar c = Some (sys_da_scalar sys) \<Longrightarrow> sys_da_scalar c = sys_da_scalar sys"
  by (simp add: sys_da_scalar_def unwrap_or_def JOVIAN_DEFAULT_DA_FOOTPRINT_GAS_SCALAR_def Let_def)

lemma read_off_try_new:
  assumes i: "l1_info_try_new L cfg l1_config sys seq h t = Inr i" and c: "read_off cfg t i c"
  shows "l1_info_try_new L cfg l1_config c seq' h' t = l1_info_try_new L cfg l1_config sys seq' h' t"
proof (cases "\<not> is_ecotone_active cfg t \<or> is_first_ecotone_block cfg t")
  case True
  with i have "i = Bedrock
    \<lparr>ib_number = lh_number h, ib_time = lh_timestamp h, ib_base_fee = unwrap_or (lh_base_fee_per_gas h) 0,
     ib_block_hash = lh_hash h, ib_sequence_number = seq, ib_batcher_address = sc_batcher_address sys,
     ib_l1_fee_overhead = sc_overhead sys, ib_l1_fee_scalar = sc_scalar sys\<rparr>"
    by (simp add: l1_info_try_new_def)
  with c have "sc_batcher_address c = sc_batcher_address sys" "sc_overhead c = sc_overhead sys" "sc_scalar c = sc_scalar sys"
    by (simp_all add: read_off_def)
  with True show ?thesis by (simp add: l1_info_try_new_def)
next
  case False
  have op: "unwrap_or (Some (unwrap_or v d)) d = unwrap_or v d" for v :: "'b option" and d
    by (simp add: unwrap_or_def)
  note try_new = l1_info_try_new_def if_not_P [OF False] Let_def sys_scalar_folds
  consider (jovian) "is_jovian_active cfg t \<and> \<not> is_first_jovian_block cfg t" "is_isthmus_active cfg t"
    | (isthmus) "\<not> (is_jovian_active cfg t \<and> \<not> is_first_jovian_block cfg t)"
        "is_isthmus_active cfg t \<and> \<not> is_first_isthmus_block cfg t"
    | (ecotone) "\<not> (is_jovian_active cfg t \<and> \<not> is_first_jovian_block cfg t)"
        "\<not> (is_isthmus_active cfg t \<and> \<not> is_first_isthmus_block cfg t)"
    unfolding is_isthmus_active_def by blast
  then show ?thesis
  proof cases
    case jovian
    note new = try_new if_P [OF jovian(1)]
    from i obtain f where "i = Jovian f" "ij_batcher_address f = sc_batcher_address sys"
      "ij_blob_base_fee_scalar f = sys_blob_scalar sys" "ij_base_fee_scalar f = sys_base_scalar sys"
      "ij_operator_fee_scalar f = unwrap_or (sc_operator_fee_scalar sys) 0"
      "ij_operator_fee_constant f = unwrap_or (sc_operator_fee_constant sys) 0"
      "ij_da_footprint_gas_scalar f = sys_da_scalar sys"
      unfolding new by auto
    with c jovian(2) read_off_scalars [of c] sys_da_scalar_again [of c sys] show ?thesis
      unfolding new by (simp add: read_off_def op)
  next
    case isthmus
    note new = try_new if_not_P [OF isthmus(1)] if_P [OF isthmus(2)]
    from i obtain f where "i = Isthmus f" "ii_batcher_address f = sc_batcher_address sys"
      "ii_blob_base_fee_scalar f = sys_blob_scalar sys" "ii_base_fee_scalar f = sys_base_scalar sys"
      "ii_operator_fee_scalar f = unwrap_or (sc_operator_fee_scalar sys) 0"
      "ii_operator_fee_constant f = unwrap_or (sc_operator_fee_constant sys) 0"
      unfolding new by auto
    with c isthmus(2) read_off_scalars [of c] show ?thesis
      unfolding new by (simp add: read_off_def op)
  next
    case ecotone
    note new = try_new if_not_P [OF ecotone(1)] if_not_P [OF ecotone(2)]
    from i obtain f where "i = Ecotone f" "ie_batcher_address f = sc_batcher_address sys"
      "ie_blob_base_fee_scalar f = sys_blob_scalar sys" "ie_base_fee_scalar f = sys_base_scalar sys"
      unfolding new by auto
    with c read_off_scalars [of c] show ?thesis
      unfolding new by (simp add: read_off_def)
  qed
qed

text \<open>
  C11. A block built on the attributes of a system config, past genesis, can be read back: its L1
  origin and sequence number are those it was built with, and the config read off it carries the
  gas limit of the block and the EIP-1559 parameters of its extra data, and leads to the same
  attributes as the config it was built with, for any L1 origin.
\<close>

theorem system_config_recovered:
  assumes "try_new_with_deposit_tx source_hash L cfg l1_config sys seq h (ob_timestamp block) = Inr (i, tx)"
    and "ob_number block \<noteq> bnh_number (cg_l2 (rc_genesis cfg))"
    and "ob_transactions block = Deposit (dt_input tx) e # txs"
    and "is_jovian_active cfg (ob_timestamp block) \<Longrightarrow> xd_decode_jovian X (ob_extra_data block) = Inr (el, den, fee)"
    and "is_holocene_active cfg (ob_timestamp block) \<Longrightarrow> \<not> is_jovian_active cfg (ob_timestamp block) \<Longrightarrow>
      xd_decode_holocene X (ob_extra_data block) = Inr (el, den)"
  shows "\<exists>c. to_system_config X block cfg = Inr c \<and> sc_gas_limit c = ob_gas_limit block \<and>
    (is_holocene_active cfg (ob_timestamp block) \<longrightarrow>
      sc_eip1559_elasticity c = Some el \<and> sc_eip1559_denominator c = Some den) \<and>
    (is_jovian_active cfg (ob_timestamp block) \<longrightarrow> sc_min_base_fee c = Some fee) \<and>
    (\<forall>seq' h'. l1_info_try_new L cfg l1_config c seq' h' (ob_timestamp block) =
       l1_info_try_new L cfg l1_config sys seq' h' (ob_timestamp block)) \<and>
    from_block_and_genesis block (rc_genesis cfg) = Inr \<lparr>l2_info = block_info_from block,
      l2_l1_origin = \<lparr>bnh_number = lh_number h, bnh_hash = lh_hash h\<rparr>, l2_seq_num = seq\<rparr>"
proof -
  obtain i' tx' where "try_new_with_deposit_tx source_hash L cfg l1_config sys seq h (ob_timestamp block) = Inr (i', tx')"
    "l1_info_try_new L cfg l1_config sys seq h (ob_timestamp block) = Inr i'" "l1_info_decode_calldata (dt_input tx') = Inr i'"
    "l1_info_id i' = \<lparr>bnh_number = lh_number h, bnh_hash = lh_hash h\<rparr>" "l1_info_sequence_number i' = seq"
    by (rule try_new_with_deposit_tx_carried)
  with assms(1) have info: "l1_info_try_new L cfg l1_config sys seq h (ob_timestamp block) = Inr i"
    "l1_info_decode_calldata (dt_input tx) = Inr i"
    "l1_info_id i = \<lparr>bnh_number = lh_number h, bnh_hash = lh_hash h\<rparr>" "l1_info_sequence_number i = seq"
    by auto
  have "from_block_and_genesis block (rc_genesis cfg) = Inr \<lparr>l2_info = block_info_from block,
      l2_l1_origin = \<lparr>bnh_number = lh_number h, bnh_hash = lh_hash h\<rparr>, l2_seq_num = seq\<rparr>"
    using assms(2,3) info(2-4) by (simp add: from_block_and_genesis_def block_info_from_def)
  with to_system_config_read_off [OF assms(2,3) info(2) assms(4,5)] read_off_try_new [OF info(1)]
  show ?thesis by blast
qed

definition example_block :: "bytes \<Rightarrow> op_block" where
  "example_block input = \<lparr>ob_number = 31, ob_hash = 5, ob_parent_hash = 4, ob_timestamp = 61, ob_gas_limit = 30000000,
     ob_extra_data = [], ob_transactions = [Deposit input []]\<rparr>"

definition example_extra_data :: extra_data where
  "example_extra_data = \<lparr>xd_decode_jovian = (\<lambda>_. Inl []), xd_decode_holocene = (\<lambda>_. Inr (6, 250))\<rparr>"

theorem system_config_recovered_witness:
  "\<exists>i tx c. try_new_with_deposit_tx (\<lambda>_ _. 0) \<lparr>bl_osaka = (), bl_prague = (), bl_cancun = (), bl_blob_fee = \<lambda>_ _. None\<rparr>
     example_config \<lparr>lc_active_scheduled_params = \<lambda>_. None, lc_osaka_time = None, lc_prague_time = None\<rparr>
     default_system_config 3 \<lparr>lh_number = 9, lh_timestamp = 50, lh_base_fee_per_gas = Some 7, lh_hash = 11\<rparr> 61 = Inr (i, tx) \<and>
   to_system_config example_extra_data (example_block (dt_input tx)) example_config = Inr c \<and>
   sc_gas_limit c = 30000000 \<and> sc_eip1559_elasticity c = Some 6 \<and>
   from_block_and_genesis (example_block (dt_input tx)) (rc_genesis example_config) =
     Inr \<lparr>l2_info = block_info_from (example_block (dt_input tx)),
      l2_l1_origin = \<lparr>bnh_number = 9, bnh_hash = 11\<rparr>, l2_seq_num = 3\<rparr>"
  (is "\<exists>i tx c. try_new_with_deposit_tx ?s ?L _ ?l ?sys _ ?h _ = _ \<and> _")
proof -
  obtain i tx where tx: "try_new_with_deposit_tx ?s ?L example_config ?l ?sys 3 ?h 61 = Inr (i, tx)"
    by (rule try_new_with_deposit_tx_carried)
  have active: "is_holocene_active example_config 61" "\<not> is_jovian_active example_config 61"
    "ob_number (example_block (dt_input tx)) \<noteq> bnh_number (cg_l2 (rc_genesis example_config))"
    by (simp_all add: cfg_defs reached_def example_config_defs example_block_def)
  show ?thesis
    using system_config_recovered [of ?s ?L example_config ?l ?sys 3 ?h "example_block (dt_input tx)" i tx "[]" "[]"
        example_extra_data 6 250 0] tx active
    by (auto simp: example_block_def example_extra_data_def)
qed

end
