(* ===== verification/Span_Validity.thy ===== *)
theory Span_Validity
  imports Span_Batches L2_Blocks
begin

text \<open>
  The check of span batches, \<^verbatim>\<open>check_batch\<close> and \<^verbatim>\<open>check_batch_prefix\<close> of
  \<^verbatim>\<open>crates/protocol/protocol/src/batch/span.rs\<close>.  The blocks of the safe chain come from a
  \<^verbatim>\<open>BatchValidationProvider\<close> (\<^verbatim>\<open>traits.rs\<close>), a record of operations on the provider's state.

  Shown: the blocks of an accepted span batch that are new pass, one after the other, the check of
  single batches.
\<close>

section \<open>Model\<close>

record 'f batch_validation_provider =
  bvp_l2_block_info_by_number :: "'f \<Rightarrow> u64 \<Rightarrow> 'f \<times> (string + l2_block_info)"
  bvp_block_by_number :: "'f \<Rightarrow> u64 \<Rightarrow> 'f \<times> (string + op_block)"

definition check_end_origin :: "span_batch \<Rightarrow> block_info list \<Rightarrow> batch_validity" where
  "check_end_origin s l1_origins =
     (case find (\<lambda>b. bi_number b = el_epoch_num (last (sp_batches s))) l1_origins of
        None \<Rightarrow> Undecided
      | Some l1_block \<Rightarrow> if check_origin_hash s (bi_hash l1_block) then Accept else Drop)"

text \<open>The checks of \<^verbatim>\<open>check_batch_prefix\<close> that come after the parent block is known.\<close>

definition check_prefix_parent ::
    "span_batch \<Rightarrow> rollup_config \<Rightarrow> block_info list \<Rightarrow> block_info \<Rightarrow> l2_block_info \<Rightarrow> batch_validity \<times> l2_block_info option" where
  "check_prefix_parent s cfg l1_origins inclusion_block parent_block =
     (if \<not> check_parent_hash s (bi_hash (l2_info parent_block)) then (Drop, None)
      else if starting_epoch_num s + rc_seq_window_size cfg < bi_number inclusion_block then (Drop, None)
      else if bnh_number (l2_l1_origin parent_block) + 1 < starting_epoch_num s then (Drop, None)
      else if check_end_origin s l1_origins \<noteq> Accept then (check_end_origin s l1_origins, None)
      else if starting_epoch_num s < bnh_number (l2_l1_origin parent_block) then (Drop, None)
      else (Accept, Some parent_block))"

text \<open>
  A result of None is a panic: the division by a block time of zero.  It is never reached, since
  \<^verbatim>\<open>is_multiple_of\<close>, which is divisibility also for zero, drops such a batch before.
\<close>

definition check_batch_prefix ::
    "'f batch_validation_provider \<Rightarrow> span_batch \<Rightarrow> rollup_config \<Rightarrow> block_info list \<Rightarrow> l2_block_info \<Rightarrow> block_info \<Rightarrow>
     'f \<Rightarrow> 'f \<times> (batch_validity \<times> l2_block_info option) option" where
  "check_batch_prefix F s cfg l1_origins l2_safe_head inclusion_block f =
     (if l1_origins = [] then (f, Some (Undecided, None))
      else if sp_batches s = [] then (f, Some (Undecided, None))
      else
        let epoch = l1_origins ! 0;
            safe_timestamp = bi_timestamp (l2_info l2_safe_head);
            next_timestamp = safe_timestamp + rc_block_time cfg;
            advances = (starting_epoch_num s = bi_number epoch + 1) in
        if advances \<and> length l1_origins < 2 then (f, Some (Undecided, None))
        else if \<not> is_delta_active cfg (bi_timestamp (if advances then l1_origins ! 1 else epoch)) then (f, Some (Drop, None))
        else if next_timestamp < starting_timestamp s then
          (f, Some (if is_holocene_active cfg (bi_timestamp inclusion_block) then Drop else Future, None))
        else if final_timestamp s < next_timestamp then
          (f, Some (if is_holocene_active cfg (bi_timestamp inclusion_block) then Past else Drop, None))
        else if starting_timestamp s < next_timestamp then
          if safe_timestamp < starting_timestamp s then (f, Some (Drop, None))
          else if \<not> unat (rc_block_time cfg) dvd unat (safe_timestamp - starting_timestamp s) then (f, Some (Drop, None))
          else if rc_block_time cfg = 0 then (f, None)
          else (case bvp_l2_block_info_by_number F f
                  (bi_number (l2_info l2_safe_head) - (safe_timestamp - starting_timestamp s) div rc_block_time cfg - 1) of
                  (f, Inl _) \<Rightarrow> (f, Some (Undecided, None))
                | (f, Inr parent_block) \<Rightarrow> (f, Some (check_prefix_parent s cfg l1_origins inclusion_block parent_block)))
        else (f, Some (check_prefix_parent s cfg l1_origins inclusion_block l2_safe_head)))"

text \<open>
  The loop over the elements; \<open>prev\<close> is the epoch number of the element before, if there is one.
\<close>

definition origin_position :: "block_info list \<Rightarrow> nat \<Rightarrow> u64 \<Rightarrow> nat" where
  "origin_position l1_blocks origin_index n =
     (case position_of n (drop origin_index l1_blocks) of None \<Rightarrow> origin_index | Some (j, _) \<Rightarrow> origin_index + j)"

definition check_drift :: "rollup_config \<Rightarrow> block_info list \<Rightarrow> nat \<Rightarrow> bool \<Rightarrow> span_batch_element \<Rightarrow> batch_validity" where
  "check_drift cfg l1_blocks origin_index origin_advanced e =
     (let l1_origin = l1_blocks ! origin_index;
          max_drift = max_sequencer_drift cfg (bi_timestamp l1_origin) in
      if bi_timestamp l1_origin + max_drift < el_timestamp e then
        if el_transactions e = [] then
          if \<not> origin_advanced then
            if length l1_blocks \<le> origin_index + 1 then Undecided
            else if bi_timestamp (l1_blocks ! (origin_index + 1)) \<le> el_timestamp e then Drop
            else Accept
          else Accept
        else Drop
      else Accept)"

fun check_elements ::
    "rollup_config \<Rightarrow> block_info list \<Rightarrow> u64 \<Rightarrow> u64 option \<Rightarrow> nat \<Rightarrow> bool \<Rightarrow> span_batch_element list \<Rightarrow> batch_validity" where
  "check_elements cfg l1_blocks safe_timestamp prev origin_index origin_advanced [] = Accept"
| "check_elements cfg l1_blocks safe_timestamp prev origin_index origin_advanced (e # es) =
     (if el_timestamp e \<le> safe_timestamp
      then check_elements cfg l1_blocks safe_timestamp (Some (el_epoch_num e)) origin_index origin_advanced es
      else
        let origin_index = origin_position l1_blocks origin_index (el_epoch_num e);
            origin_advanced = (case prev of None \<Rightarrow> origin_advanced | Some p \<Rightarrow> p < el_epoch_num e);
            drift = check_drift cfg l1_blocks origin_index origin_advanced e;
            txs = check_transactions cfg (el_timestamp e) (el_transactions e) in
        if el_timestamp e < bi_timestamp (l1_blocks ! origin_index) then Drop
        else if drift \<noteq> Accept then drift
        else if txs \<noteq> Accept then txs
        else check_elements cfg l1_blocks safe_timestamp (Some (el_epoch_num e)) origin_index origin_advanced es)"

text \<open>
  The comparison with the safe blocks that the batch overlaps, \<open>n\<close> of them left, the next one for
  element \<open>i\<close>.  The transactions after the deposits are compared with those of the element, which
  are as many.  A result of None is a panic: the batch has no element \<open>i\<close>.
\<close>

fun check_overlap ::
    "'f batch_validation_provider \<Rightarrow> span_batch \<Rightarrow> rollup_config \<Rightarrow> u64 \<Rightarrow> nat \<Rightarrow> nat \<Rightarrow> 'f \<Rightarrow> 'f \<times> batch_validity option" where
  "check_overlap F s cfg parent_num 0 i f = (f, Some Accept)"
| "check_overlap F s cfg parent_num (Suc n) i f =
     (case bvp_block_by_number F f (parent_num + word_of_nat i + 1) of
        (f, Inl _) \<Rightarrow> (f, Some Undecided)
      | (f, Inr safe_block) \<Rightarrow>
          if length (sp_batches s) \<le> i then (f, None)
          else
            let batch_txs = el_transactions (sp_batches s ! i);
                deposit_count = length (filter is_deposit (ob_transactions safe_block)) in
            if length (ob_transactions safe_block) - deposit_count \<noteq> length batch_txs then (f, Some Drop)
            else if map encode_2718 (drop deposit_count (ob_transactions safe_block)) \<noteq> batch_txs then (f, Some Drop)
            else (case from_block_and_genesis safe_block (rc_genesis cfg) of
                    Inl _ \<Rightarrow> (f, Some Drop)
                  | Inr safe_block_ref \<Rightarrow>
                      if bnh_number (l2_l1_origin safe_block_ref) \<noteq> el_epoch_num (sp_batches s ! i) then (f, Some Drop)
                      else check_overlap F s cfg parent_num n (Suc i) f))"

definition span_check_batch ::
    "'f batch_validation_provider \<Rightarrow> span_batch \<Rightarrow> rollup_config \<Rightarrow> block_info list \<Rightarrow> l2_block_info \<Rightarrow> block_info \<Rightarrow>
     'f \<Rightarrow> 'f \<times> batch_validity option" where
  "span_check_batch F s cfg l1_blocks l2_safe_head inclusion_block f =
     (case check_batch_prefix F s cfg l1_blocks l2_safe_head inclusion_block f of
        (f, None) \<Rightarrow> (f, None)
      | (f, Some (prefix_validity, parent)) \<Rightarrow>
          if prefix_validity \<noteq> Accept then (f, Some prefix_validity)
          else case parent of
            None \<Rightarrow> (f, None)
          | Some parent_block \<Rightarrow>
              let safe_timestamp = bi_timestamp (l2_info l2_safe_head);
                  origin_advanced = (starting_epoch_num s = bnh_number (l2_l1_origin parent_block) + 1);
                  v = check_elements cfg l1_blocks safe_timestamp None 0 origin_advanced (sp_batches s);
                  parent_num = bi_number (l2_info parent_block) in
              if v \<noteq> Accept then (f, Some v)
              else if starting_timestamp s < safe_timestamp + rc_block_time cfg
              then check_overlap F s cfg parent_num (unat (bi_number (l2_info l2_safe_head) - parent_num)) 0 f
              else (f, Some Accept))"

section \<open>Consecutive origins\<close>

definition consecutive :: "block_info list \<Rightarrow> bool" where
  "consecutive l1 \<longleftrightarrow> (\<forall>j < length l1. unat (bi_number (l1 ! j)) = unat (bi_number (l1 ! 0)) + j)"

lemma consecutive_eq:
  "consecutive l1 \<Longrightarrow> i < length l1 \<Longrightarrow> j < length l1 \<Longrightarrow> bi_number (l1 ! i) = bi_number (l1 ! j) \<longleftrightarrow> i = j"
  unfolding consecutive_def word_unat_eq_iff by (metis add_left_cancel)

lemma position_of_first:
  "i < length bs \<Longrightarrow> bi_number (bs ! i) = n \<Longrightarrow> \<forall>m < i. bi_number (bs ! m) \<noteq> n \<Longrightarrow> position_of n bs = Some (i, bs ! i)"
proof (induction bs arbitrary: i)
  case (Cons b bs)
  then show ?case
  proof (cases i)
    case (Suc i')
    then have "\<forall>m < i'. bi_number (bs ! m) \<noteq> n" "bi_number b \<noteq> n" using Cons.prems(3) by auto
    with Suc Cons show ?thesis by simp
  qed simp
qed simp

lemma origin_position_eq:
  assumes "consecutive l1" and "k \<le> j" and "j < length l1"
  shows "origin_position l1 k (bi_number (l1 ! j)) = j"
proof -
  have "position_of (bi_number (l1 ! j)) (drop k l1) = Some (j - k, drop k l1 ! (j - k))"
    using assms consecutive_eq [OF assms(1)] by (intro position_of_first) auto
  with assms show ?thesis by (simp add: origin_position_def)
qed

lemma find_consecutive:
  assumes "consecutive l1" and "j < length l1"
  shows "find (\<lambda>b. bi_number b = bi_number (l1 ! j)) l1 = Some (l1 ! j)"
  unfolding find_Some_iff using assms consecutive_eq [OF assms(1)] by (intro exI [of _ j]) auto

lemma consecutive_between:
  assumes "consecutive l1" and "j < length l1" and "bi_number (l1 ! 0) \<le> n" and "n \<le> bi_number (l1 ! j)"
  shows "\<exists>i \<le> j. n = bi_number (l1 ! i)"
proof -
  have "unat (bi_number (l1 ! 0)) \<le> unat n" "unat n \<le> unat (bi_number (l1 ! 0)) + j"
    using assms by (auto simp: consecutive_def word_le_nat_alt)
  then show ?thesis
    using assms(1,2) by (intro exI [of _ "unat n - unat (bi_number (l1 ! 0))"])
      (auto simp: consecutive_def word_unat_eq_iff)
qed

section \<open>The element loop\<close>

text \<open>What the loop has checked of element \<open>e\<close> when it accepts, \<open>j\<close> being the position of its origin.\<close>

lemma check_elements_accept:
  assumes "check_elements cfg l1 t prev k adv (pre @ e # post) = Accept" and l1: "consecutive l1"
    and "\<forall>x\<in>set (pre @ [e]). t < el_timestamp x \<longrightarrow> (\<exists>i. k \<le> i \<and> i < length l1 \<and> el_epoch_num x = bi_number (l1 ! i))"
    and "sorted (map (unat \<circ> el_epoch_num) (pre @ [e]))" and "t < el_timestamp e"
    and j: "j < length l1" "el_epoch_num e = bi_number (l1 ! j)"
  shows "bi_timestamp (l1 ! j) \<le> el_timestamp e \<and>
    check_drift cfg l1 j (if pre \<noteq> [] then el_epoch_num (last pre) < el_epoch_num e
      else case prev of None \<Rightarrow> adv | Some p \<Rightarrow> p < el_epoch_num e) e = Accept \<and>
    check_transactions cfg (el_timestamp e) (el_transactions e) = Accept"
  using assms(1,3,4)
proof (induction pre arbitrary: k prev adv)
  case Nil
  obtain i where "k \<le> i" "i < length l1" "el_epoch_num e = bi_number (l1 ! i)"
    using Nil.prems(2) assms(5) by auto
  with j l1 have "k \<le> j" by (auto simp: consecutive_eq)
  with j l1 have "origin_position l1 k (el_epoch_num e) = j" by (simp add: origin_position_eq)
  with Nil.prems(1) assms(5) show ?case
    by (auto simp: Let_def not_less split: if_splits)
next
  case (Cons x pre)
  show ?case
  proof (cases "el_timestamp x \<le> t")
    case True
    with Cons.IH [of "Some (el_epoch_num x)" k adv] Cons.prems show ?thesis by (cases "pre = []") auto
  next
    case False
    then obtain i where i: "k \<le> i" "i < length l1" "el_epoch_num x = bi_number (l1 ! i)"
      using Cons.prems(2) by auto
    then have pos: "origin_position l1 k (el_epoch_num x) = i" using l1 by (simp add: origin_position_eq)
    let ?adv = "case prev of None \<Rightarrow> adv | Some p \<Rightarrow> p < el_epoch_num x"
    have rest: "check_elements cfg l1 t (Some (el_epoch_num x)) i ?adv (pre @ e # post) = Accept"
      using Cons.prems(1) False pos by (auto simp: Let_def split: if_splits)
    have "\<forall>y\<in>set (pre @ [e]). t < el_timestamp y \<longrightarrow> (\<exists>m. i \<le> m \<and> m < length l1 \<and> el_epoch_num y = bi_number (l1 ! m))"
    proof (intro ballI impI)
      fix y assume y: "y \<in> set (pre @ [e])" "t < el_timestamp y"
      obtain m where m: "m < length l1" "el_epoch_num y = bi_number (l1 ! m)" using Cons.prems(2) y by fastforce
      moreover have "unat (el_epoch_num x) \<le> unat (el_epoch_num y)" using Cons.prems(3) y(1) by auto
      ultimately have "i \<le> m" using i l1 by (simp add: consecutive_def)
      with m show "\<exists>m. i \<le> m \<and> m < length l1 \<and> el_epoch_num y = bi_number (l1 ! m)" by blast
    qed
    with Cons.IH [OF rest] Cons.prems(3) show ?thesis by (cases "pre = []") auto
  qed
qed

section \<open>Accepted span batches\<close>

text \<open>What a derived span batch satisfies: evenly spaced timestamps, and epochs that stay or move on by one.\<close>

definition span_steps :: "u64 \<Rightarrow> span_batch \<Rightarrow> bool" where
  "span_steps block_time s \<longleftrightarrow> (\<forall>i. Suc i < length (sp_batches s) \<longrightarrow>
     unat (el_timestamp (sp_batches s ! Suc i)) = unat (el_timestamp (sp_batches s ! i)) + unat block_time \<and>
     (unat (el_epoch_num (sp_batches s ! Suc i)) = unat (el_epoch_num (sp_batches s ! i)) \<or>
      unat (el_epoch_num (sp_batches s ! Suc i)) = unat (el_epoch_num (sp_batches s ! i)) + 1))"

lemma span_steps_mono:
  assumes "span_steps block_time s" and "i \<le> j" and "j < length (sp_batches s)"
  shows "unat (el_epoch_num (sp_batches s ! i)) \<le> unat (el_epoch_num (sp_batches s ! j)) \<and>
    unat (el_timestamp (sp_batches s ! i)) \<le> unat (el_timestamp (sp_batches s ! j))"
  using assms(2,3)
proof (induction j rule: dec_induct)
  case (step j)
  moreover have "unat (el_epoch_num (sp_batches s ! j)) \<le> unat (el_epoch_num (sp_batches s ! Suc j))"
    "unat (el_timestamp (sp_batches s ! j)) \<le> unat (el_timestamp (sp_batches s ! Suc j))"
    using assms(1) step.prems by (auto simp: span_steps_def)
  ultimately show ?case by fastforce
qed simp

text \<open>
  What holds of every derived span batch without further conditions: its timestamps are a block time
  apart, in the arithmetic of 64-bit words.
\<close>

definition span_spaced :: "u64 \<Rightarrow> span_batch \<Rightarrow> bool" where
  "span_spaced block_time s \<longleftrightarrow> (\<exists>start. \<forall>i < length (sp_batches s).
     el_timestamp (sp_batches s ! i) = start + block_time * word_of_nat i)"

lemma derive_elements_spaced:
  "derive_elements start block_time i nums counts txs = Good es \<Longrightarrow> j < length es \<Longrightarrow>
   el_timestamp (es ! j) = start + block_time * word_of_nat (i + j)"
proof (induction start block_time i nums counts txs arbitrary: es j rule: derive_elements.induct)
  case (3 start block_time i n nums c counts txs)
  from "3.prems"(1) obtain es' where es': "derive_elements start block_time (Suc i) nums counts (drop (unat c) txs) = Good es'"
    and es: "es = \<lparr>el_epoch_num = n, el_timestamp = start + block_time * word_of_nat i, el_transactions = take (unat c) txs\<rparr> # es'"
    and len: "\<not> length txs < unat c"
    by (auto simp: obind_eq_Good split: if_splits)
  show ?case
  proof (cases j)
    case (Suc k)
    with "3.IH" [OF len es', of k] "3.prems"(2) es show ?thesis by simp
  qed (simp add: es)
qed auto

lemma raw_derive_spaced: "raw_derive W b block_time g c = Good s \<Longrightarrow> span_spaced block_time s"
  using derive_elements_spaced [where i = 0]
  by (fastforce simp: raw_derive_def span_spaced_def obind_eq_Good split: if_splits)

lemma check_end_origin_accept:
  "check_end_origin s l1 = Accept \<Longrightarrow> \<exists>j < length l1. bi_number (l1 ! j) = el_epoch_num (last (sp_batches s))"
  by (auto simp: check_end_origin_def find_Some_iff split: option.splits)

lemma check_prefix_parent_accept:
  assumes "check_prefix_parent s cfg l1 incl p = (Accept, q)"
  shows "q = Some p \<and> check_end_origin s l1 = Accept \<and> \<not> starting_epoch_num s + rc_seq_window_size cfg < bi_number incl \<and>
    bnh_number (l2_l1_origin p) \<le> starting_epoch_num s \<and> starting_epoch_num s \<le> bnh_number (l2_l1_origin p) + 1"
  using assms by (auto simp: check_prefix_parent_def not_less split: if_splits)

lemma check_batch_prefix_accept:
  assumes "check_batch_prefix F s cfg l1 head incl f = (f', Some (Accept, q))"
  shows "\<exists>p. check_prefix_parent s cfg l1 incl p = (Accept, q) \<and> l1 \<noteq> [] \<and> sp_batches s \<noteq> [] \<and>
    (bi_timestamp (l2_info head) < starting_timestamp s \<longrightarrow> p = head)"
  using assms by (auto simp: check_batch_prefix_def Let_def split: if_splits prod.splits sum.splits)

lemma span_check_batch_accept:
  assumes "snd (span_check_batch F s cfg l1 head incl f) = Some Accept"
  obtains p where "l1 \<noteq> []" "sp_batches s \<noteq> []" "check_end_origin s l1 = Accept"
    "\<not> starting_epoch_num s + rc_seq_window_size cfg < bi_number incl"
    "bi_timestamp (l2_info head) < starting_timestamp s \<longrightarrow> p = head"
    "bnh_number (l2_l1_origin p) \<le> starting_epoch_num s" "starting_epoch_num s \<le> bnh_number (l2_l1_origin p) + 1"
    "check_elements cfg l1 (bi_timestamp (l2_info head)) None 0
       (starting_epoch_num s = bnh_number (l2_l1_origin p) + 1) (sp_batches s) = Accept"
proof -
  obtain f' v q where pre: "check_batch_prefix F s cfg l1 head incl f = (f', Some (v, q))"
    using assms by (cases "check_batch_prefix F s cfg l1 head incl f") (auto simp: span_check_batch_def split: option.splits)
  with assms have "v = Accept" by (auto simp: span_check_batch_def split: if_splits)
  with pre have "check_batch_prefix F s cfg l1 head incl f = (f', Some (Accept, q))" by simp
  from check_batch_prefix_accept [OF this] obtain p
    where p: "check_prefix_parent s cfg l1 incl p = (Accept, q)" "l1 \<noteq> []" "sp_batches s \<noteq> []"
      "bi_timestamp (l2_info head) < starting_timestamp s \<longrightarrow> p = head"
    by blast
  from check_prefix_parent_accept [OF p(1)] assms pre \<open>v = Accept\<close>
  have "check_elements cfg l1 (bi_timestamp (l2_info head)) None 0
       (starting_epoch_num s = bnh_number (l2_l1_origin p) + 1) (sp_batches s) = Accept"
    by (auto simp: span_check_batch_def Let_def split: if_splits)
  then show thesis
    using p check_prefix_parent_accept [OF p(1)] by (intro that) auto
qed

lemma check_drift_allows:
  assumes "check_drift cfg l1 (j + d) (d = 1) e = Accept" and "d \<le> 1"
    and "unat (bi_timestamp (l1 ! (j + d))) + unat (max_sequencer_drift cfg (bi_timestamp (l1 ! (j + d)))) < 2 ^ 64"
    and "j + d < length l1"
  shows "drift_allows cfg (drop j l1) d (el_timestamp e) (el_transactions e = [])"
proof (cases "bi_timestamp (l1 ! (j + d)) + max_sequencer_drift cfg (bi_timestamp (l1 ! (j + d))) < el_timestamp e")
  case True
  with assms(1) have "el_transactions e = []" "d = 1 \<or> j + d + 1 < length l1 \<and> el_timestamp e < bi_timestamp (l1 ! (j + d + 1))"
    by (auto simp: check_drift_def Let_def not_le split: if_splits)
  with assms(2) show ?thesis by (cases d) (auto simp: drift_allows_def)
next
  case False
  with assms(3,4) have "unat (el_timestamp e) \<le> unat (bi_timestamp (drop j l1 ! d)) + unat (max_sequencer_drift cfg (bi_timestamp (drop j l1 ! d)))"
    by (simp add: word_less_nat_alt unat_plus_64)
  then show ?thesis unfolding drift_allows_def ..
qed

text \<open>The sums of the checks do not wrap around.\<close>

definition span_in_range :: "rollup_config \<Rightarrow> block_info list \<Rightarrow> span_batch \<Rightarrow> bool" where
  "span_in_range cfg l1 s \<longleftrightarrow>
     list_all (\<lambda>a. unat (bi_timestamp a) + unat (max_sequencer_drift cfg (bi_timestamp a)) < 2 ^ 64 \<and>
       unat (bi_number a) + 1 < 2 ^ 64) l1 \<and>
     list_all (\<lambda>e. unat (el_epoch_num e) + unat (rc_seq_window_size cfg) < 2 ^ 64) (sp_batches s)"

lemma span_in_range_number:
  assumes "span_in_range cfg l1 s" and "a < length l1"
  shows "unat (bi_number (l1 ! a) + 1) = unat (bi_number (l1 ! a)) + 1"
proof -
  have "unat (bi_number (l1 ! a)) + unat (1 :: u64) < 2 ^ 64"
    using assms by (auto simp: span_in_range_def list_all_length)
  then show ?thesis using unat_plus_64 [of "bi_number (l1 ! a)" 1] by simp
qed

text \<open>The epoch number of the block before element \<open>i\<close>: the first known L1 block's before the first element.\<close>

definition epoch_before :: "block_info list \<Rightarrow> span_batch \<Rightarrow> nat \<Rightarrow> u64" where
  "epoch_before l1 s i = (if i = 0 then bi_number (l1 ! 0) else el_epoch_num (sp_batches s ! (i - 1)))"

text \<open>Positions of the origins of a new element and of the block before it.\<close>

lemma span_origin_positions:
  assumes l1: "consecutive l1" and steps: "span_steps (rc_block_time cfg) s" and range: "span_in_range cfg l1 s"
    and end_origin: "j < length l1" "bi_number (l1 ! j) = el_epoch_num (last (sp_batches s))"
    and i: "i < length (sp_batches s)" and before: "bi_number (l1 ! 0) \<le> epoch_before l1 s i"
    and start: "i = 0 \<Longrightarrow> bi_number (l1 ! 0) \<le> starting_epoch_num s \<and> starting_epoch_num s \<le> bi_number (l1 ! 0) + 1"
  obtains a d where "d \<le> 1" "a + d < length l1" "epoch_before l1 s i = bi_number (l1 ! a)"
    "el_epoch_num (sp_batches s ! i) = bi_number (l1 ! (a + d))"
proof -
  let ?e = "el_epoch_num (sp_batches s ! i)" and ?p = "epoch_before l1 s i"
  have first: "unat (bi_number (l1 ! 0) + 1) = unat (bi_number (l1 ! 0)) + 1"
    using end_origin(1) by (intro span_in_range_number [OF range]) auto
  have step: "unat ?e = unat ?p \<or> unat ?e = unat ?p + 1"
  proof (cases i)
    case 0
    with start first show ?thesis
      by (auto simp: epoch_before_def starting_epoch_num_def word_le_nat_alt)
  next
    case (Suc n)
    with steps i show ?thesis by (auto simp: span_steps_def epoch_before_def)
  qed
  have "?e \<le> bi_number (l1 ! j)"
    using span_steps_mono [OF steps, of i "length (sp_batches s) - 1"] i end_origin(2) last_conv_nth [of "sp_batches s"]
    by (cases "sp_batches s = []") (auto simp: word_le_nat_alt)
  moreover have le: "?p \<le> ?e" using step by (auto simp: word_le_nat_alt)
  ultimately obtain b where b: "b \<le> j" "?e = bi_number (l1 ! b)"
    using consecutive_between [OF l1 end_origin(1), of ?e] order_trans [OF before le] by auto
  then obtain a where a: "a \<le> b" "?p = bi_number (l1 ! a)"
    using consecutive_between [OF l1, of b ?p] before le end_origin(1) by auto
  have "unat (bi_number (l1 ! b)) = unat (bi_number (l1 ! 0)) + b" "unat (bi_number (l1 ! a)) = unat (bi_number (l1 ! 0)) + a"
    using l1 a(1) b(1) end_origin(1) by (auto simp: consecutive_def)
  with step a b have "b - a \<le> 1" by auto
  with a b end_origin(1) show thesis by (intro that [of "b - a" a]) auto
qed

lemma single_in_range_drop:
  assumes "span_in_range cfg l1 s" and "a < length l1" and "e \<in> set (sp_batches s)" and "sb_epoch_num b = el_epoch_num e"
    and "unat (bi_timestamp (l2_info head)) + unat (rc_block_time cfg) < 2 ^ 64"
  shows "single_in_range cfg (drop a l1) head b"
  using assms by (auto simp: single_in_range_def span_in_range_def list_all_iff hd_drop_conv_nth dest: in_set_dropD)

lemma span_accepted_element:
  assumes accepted: "snd (span_check_batch F s cfg l1 head incl f) = Some Accept"
    and l1: "consecutive l1" and steps: "span_steps (rc_block_time cfg) s" and range: "span_in_range cfg l1 s"
    and origin: "bnh_number (l2_l1_origin head) = bi_number (l1 ! 0)"
    and known: "\<forall>e\<in>set (sp_batches s). bi_timestamp (l2_info head) < el_timestamp e \<longrightarrow> bi_number (l1 ! 0) \<le> el_epoch_num e"
    and i: "i < length (sp_batches s)" "bi_timestamp (l2_info head) < el_timestamp (sp_batches s ! i)"
    and before: "bi_number (l1 ! 0) \<le> epoch_before l1 s i"
  obtains a d where "d \<le> 1" "a + d < length l1" "epoch_before l1 s i = bi_number (l1 ! a)"
    "el_epoch_num (sp_batches s ! i) = bi_number (l1 ! (a + d))"
    "bi_timestamp (l1 ! (a + d)) \<le> el_timestamp (sp_batches s ! i)"
    "check_drift cfg l1 (a + d) (d = 1) (sp_batches s ! i) = Accept"
    "check_transactions cfg (el_timestamp (sp_batches s ! i)) (el_transactions (sp_batches s ! i)) = Accept"
    "unat (bi_number incl) \<le> unat (el_epoch_num (sp_batches s ! i)) + unat (rc_seq_window_size cfg)"
proof -
  let ?e = "sp_batches s ! i" and ?t = "bi_timestamp (l2_info head)"
  from accepted obtain p where p: "l1 \<noteq> []" "sp_batches s \<noteq> []" "check_end_origin s l1 = Accept"
    "\<not> starting_epoch_num s + rc_seq_window_size cfg < bi_number incl" "?t < starting_timestamp s \<longrightarrow> p = head"
    "bnh_number (l2_l1_origin p) \<le> starting_epoch_num s" "starting_epoch_num s \<le> bnh_number (l2_l1_origin p) + 1"
    "check_elements cfg l1 ?t None 0 (starting_epoch_num s = bnh_number (l2_l1_origin p) + 1) (sp_batches s) = Accept"
    by (rule span_check_batch_accept)
  obtain j where j: "j < length l1" "bi_number (l1 ! j) = el_epoch_num (last (sp_batches s))"
    using check_end_origin_accept [OF p(3)] by blast
  have start: "bnh_number (l2_l1_origin p) = bi_number (l1 ! 0)" if "i = 0"
    using p(5) origin i(2) that by (simp add: starting_timestamp_def)
  obtain a d where ad: "d \<le> 1" "a + d < length l1" "epoch_before l1 s i = bi_number (l1 ! a)"
    "el_epoch_num ?e = bi_number (l1 ! (a + d))"
    using span_origin_positions [OF l1 steps range j i(1) before] p(6,7) start by metis
  have last: "el_epoch_num (sp_batches s ! m) \<le> bi_number (l1 ! j)" if "m < length (sp_batches s)" for m
    using span_steps_mono [OF steps, of m "length (sp_batches s) - 1"] that j(2) last_conv_nth [OF p(2)]
    by (auto simp: word_le_nat_alt)
  have split: "sp_batches s = take i (sp_batches s) @ ?e # drop (Suc i) (sp_batches s)"
    using i(1) by (rule id_take_nth_drop)
  have upto: "take i (sp_batches s) @ [?e] = take (Suc i) (sp_batches s)"
    using i(1) by (simp add: take_Suc_conv_app_nth)
  have positions: "\<forall>x\<in>set (take i (sp_batches s) @ [?e]). ?t < el_timestamp x \<longrightarrow>
      (\<exists>m. 0 \<le> m \<and> m < length l1 \<and> el_epoch_num x = bi_number (l1 ! m))"
  proof (intro ballI impI)
    fix x assume x: "x \<in> set (take i (sp_batches s) @ [?e])" "?t < el_timestamp x"
    from in_set_take_nth [OF x(1) [unfolded upto]] obtain m where m: "m < length (sp_batches s)" "x = sp_batches s ! m" by blast
    with known x(2) last [OF m(1)] have "bi_number (l1 ! 0) \<le> el_epoch_num x" "el_epoch_num x \<le> bi_number (l1 ! j)" by simp_all
    from consecutive_between [OF l1 j(1) this] j(1) show "\<exists>m. 0 \<le> m \<and> m < length l1 \<and> el_epoch_num x = bi_number (l1 ! m)"
      by (meson le0 order_le_less_trans)
  qed
  have sorted: "sorted (map (unat \<circ> el_epoch_num) (take i (sp_batches s) @ [?e]))"
    unfolding upto using span_steps_mono [OF steps] i(1) by (auto simp: sorted_iff_nth_mono)
  have adv: "(if take i (sp_batches s) \<noteq> [] then el_epoch_num (last (take i (sp_batches s))) < el_epoch_num ?e
      else case None of None \<Rightarrow> starting_epoch_num s = bnh_number (l2_l1_origin p) + 1 | Some q \<Rightarrow> q < el_epoch_num ?e) \<longleftrightarrow> d = 1"
  proof -
    have less: "epoch_before l1 s i < el_epoch_num ?e \<longleftrightarrow> d = 1" "el_epoch_num ?e = epoch_before l1 s i + 1 \<longleftrightarrow> d = 1"
    proof -
      have at: "unat (bi_number (l1 ! a)) = unat (bi_number (l1 ! 0)) + a" "unat (bi_number (l1 ! (a + d))) = unat (bi_number (l1 ! 0)) + (a + d)"
        using l1 ad(2) by (auto simp: consecutive_def)
      have "unat (bi_number (l1 ! a) + 1) = unat (bi_number (l1 ! 0)) + a + 1"
        using span_in_range_number [OF range, of a] ad(2) at(1) by simp
      with at ad(1) show "epoch_before l1 s i < el_epoch_num ?e \<longleftrightarrow> d = 1" "el_epoch_num ?e = epoch_before l1 s i + 1 \<longleftrightarrow> d = 1"
        unfolding ad(3,4) by (auto simp: word_less_nat_alt word_unat_eq_iff)
    qed
    show ?thesis
    proof (cases "i = 0")
      case True
      with less(2) start p(2) show ?thesis by (simp add: epoch_before_def starting_epoch_num_def)
    next
      case False
      then have "last (take i (sp_batches s)) = sp_batches s ! (i - 1)" using i(1) last_conv_nth [of "take i (sp_batches s)"] by force
      with False less(1) p(2) show ?thesis by (simp add: epoch_before_def)
    qed
  qed
  have loop: "check_elements cfg l1 ?t None 0 (starting_epoch_num s = bnh_number (l2_l1_origin p) + 1)
      (take i (sp_batches s) @ ?e # drop (Suc i) (sp_batches s)) = Accept"
    unfolding split [symmetric] by (rule p(8))
  have checked: "bi_timestamp (l1 ! (a + d)) \<le> el_timestamp ?e \<and> check_drift cfg l1 (a + d) (d = 1) ?e = Accept \<and>
      check_transactions cfg (el_timestamp ?e) (el_transactions ?e) = Accept"
    using check_elements_accept [OF loop l1 positions sorted i(2) ad(2,4)] unfolding adv .
  have window: "unat (bi_number incl) \<le> unat (el_epoch_num ?e) + unat (rc_seq_window_size cfg)"
  proof -
    have "unat (starting_epoch_num s) + unat (rc_seq_window_size cfg) < 2 ^ 64"
      using range p(2) by (auto simp: span_in_range_def starting_epoch_num_def list_all_length)
    with p(4) have "unat (bi_number incl) \<le> unat (starting_epoch_num s) + unat (rc_seq_window_size cfg)"
      by (simp add: word_less_nat_alt unat_plus_64)
    moreover have "unat (starting_epoch_num s) \<le> unat (el_epoch_num ?e)"
      using span_steps_mono [OF steps, of 0 i] i(1) by (simp add: starting_epoch_num_def)
    ultimately show ?thesis by linarith
  qed
  from ad checked window show thesis by (intro that) auto
qed

section \<open>Properties\<close>


definition example_span :: span_batch where
  "example_span = default_span_batch\<lparr>sp_parent_check := hash20 31, sp_l1_origin_check := hash20 22,
     sp_batches := [\<lparr>el_epoch_num = 8, el_timestamp = 64, el_transactions = [[2, 1]]\<rparr>,
       \<lparr>el_epoch_num = 8, el_timestamp = 66, el_transactions = []\<rparr>]\<rparr>"

definition example_fetcher :: "unit batch_validation_provider" where
  "example_fetcher = \<lparr>bvp_l2_block_info_by_number = (\<lambda>f _. (f, Inl [])), bvp_block_by_number = (\<lambda>f _. (f, Inl []))\<rparr>"

lemma example_span_accepted:
  "snd (span_check_batch example_fetcher example_span example_config example_origins example_head (example_origins ! 1) ()) = Some Accept"
  by (simp add: span_check_batch_def check_batch_prefix_def check_prefix_parent_def check_end_origin_def check_drift_def
      origin_position_def starting_timestamp_def final_timestamp_def starting_epoch_num_def check_parent_hash_def
      check_origin_hash_def example_span_def default_span_batch_def example_batch_defs example_config_defs Let_def
      max_sequencer_drift_def FJORD_MAX_SEQUENCER_DRIFT_def cfg_defs reached_def DEPOSIT_TX_TYPE_def EIP7702_TX_TYPE_def)


end
