(* ===== verification/Attributes.thy ===== *)
theory Attributes
  imports Traversal Upgrades Span_Validity
begin

text \<open>
  Payload attributes: \<^verbatim>\<open>OpAttributesWithParent\<close> of \<^verbatim>\<open>crates/protocol/protocol/src/attributes.rs\<close> and the
  stateful builder, \<^verbatim>\<open>crates/protocol/derive/src/attributes/stateful.rs\<close>, which prepares the
  attributes of the next L2 block from the parent, the epoch, the system config and, in the first
  block of an epoch, the receipts of the L1 origin.

  The L1 and the L2 provider are records of operations on their states, as before.  What else the
  builder calls is library code, the record \<open>builder_lib\<close>: the ABI decoder of config updates, the
  source hash of the L1 info domain and the blob fees.

  Shown: the shape of the attributes, and that a block built from them has the epoch as its L1
  origin and the right sequence number.
\<close>

section \<open>Attributes\<close>

record withdrawal =
  wd_index :: u64
  wd_validator_index :: u64
  wd_address :: address
  wd_amount :: u64

record payload_attributes =
  pa_timestamp :: u64
  pa_prev_randao :: b256
  pa_suggested_fee_recipient :: address
  pa_withdrawals :: "withdrawal list option"
  pa_parent_beacon_block_root :: "b256 option"

record op_payload_attributes =
  opa_payload_attributes :: payload_attributes
  opa_transactions :: "bytes list option"
  opa_no_tx_pool :: "bool option"
  opa_gas_limit :: "u64 option"
  opa_eip_1559_params :: "u64 option"
  opa_min_base_fee :: "u64 option"

record op_attributes_with_parent =
  oap_inner :: op_payload_attributes
  oap_parent :: l2_block_info
  oap_derived_from :: "block_info option"
  oap_is_last_in_span :: bool

definition attributes_block_number :: "op_attributes_with_parent \<Rightarrow> u64" where
  "attributes_block_number a = saturating_add (bi_number (l2_info (oap_parent a))) 1"

text \<open>
  \<^verbatim>\<open>is_deposits_only\<close> iterates over the \<^verbatim>\<open>Option\<close>, not over the transactions; indexing an empty first
  transaction panics, the outer \<open>None\<close>.
\<close>

definition is_deposits_only :: "op_attributes_with_parent \<Rightarrow> bool option" where
  "is_deposits_only a =
     (case opa_transactions (oap_inner a) of
        None \<Rightarrow> Some True
      | Some [] \<Rightarrow> Some False
      | Some ([] # _) \<Rightarrow> None
      | Some ((b # _) # _) \<Rightarrow> Some (b = DEPOSIT_TX_TYPE))"

definition as_deposits_only :: "op_attributes_with_parent \<Rightarrow> op_attributes_with_parent" where
  "as_deposits_only a =
     a\<lparr>oap_inner := (oap_inner a)
         \<lparr>opa_transactions := map_option (map (\<lambda>_. [DEPOSIT_TX_TYPE])) (opa_transactions (oap_inner a))\<rparr>\<rparr>"

section \<open>Providers\<close>

record l1_block_header = l1_header +
  lh_parent_hash :: b256
  lh_mix_hash :: b256
  lh_parent_beacon_block_root :: "b256 option"

record 'f header_provider = "'f chain_provider" +
  cp_header_by_hash :: "'f \<Rightarrow> b256 \<Rightarrow> 'f \<times> (pipeline_error_kind + l1_block_header)"

record 'g l2_chain_provider = "'g batch_validation_provider" +
  l2p_system_config_by_number :: "'g \<Rightarrow> u64 \<Rightarrow> rollup_config \<Rightarrow> 'g \<times> (pipeline_error_kind + system_config)"

record 'bp builder_lib = hardfork_lib +
  bd_abi :: abi
  bd_l1_info_source_hash :: "b256 \<Rightarrow> u64 \<Rightarrow> b256"
  bd_blob :: "'bp blob_lib"

section \<open>The stateful builder\<close>

record ('f, 'g, 'bp) attributes_builder =
  ab_rollup_cfg :: rollup_config
  ab_l1_cfg :: "'bp l1_chain_config"
  ab_config_fetcher :: 'g
  ab_receipts_fetcher :: 'f

definition attributes_builder_new ::
    "rollup_config \<Rightarrow> 'bp l1_chain_config \<Rightarrow> 'g \<Rightarrow> 'f \<Rightarrow> ('f, 'g, 'bp) attributes_builder" where
  "attributes_builder_new rcfg l1_cfg sys_cfg_fetcher receipts =
     \<lparr>ab_rollup_cfg = rcfg, ab_l1_cfg = l1_cfg, ab_config_fetcher = sys_cfg_fetcher, ab_receipts_fetcher = receipts\<rparr>"

definition fetch_header ::
    "'f header_provider \<Rightarrow> b256 \<Rightarrow> ('f, 'g, 'bp) attributes_builder \<Rightarrow>
     ('f, 'g, 'bp) attributes_builder \<times> l1_block_header pres" where
  "fetch_header F h b =
     via (\<lambda>f. b\<lparr>ab_receipts_fetcher := f\<rparr>) (of_result (cp_header_by_hash F (ab_receipts_fetcher b) h))"

definition fetch_receipts ::
    "'f header_provider \<Rightarrow> b256 \<Rightarrow> ('f, 'g, 'bp) attributes_builder \<Rightarrow>
     ('f, 'g, 'bp) attributes_builder \<times> receipt list pres" where
  "fetch_receipts F h b =
     via (\<lambda>f. b\<lparr>ab_receipts_fetcher := f\<rparr>) (of_result (cp_receipts_by_hash F (ab_receipts_fetcher b) h))"

definition fetch_system_config ::
    "'g l2_chain_provider \<Rightarrow> u64 \<Rightarrow> ('f, 'g, 'bp) attributes_builder \<Rightarrow>
     ('f, 'g, 'bp) attributes_builder \<times> system_config pres" where
  "fetch_system_config G n b =
     via (\<lambda>g. b\<lparr>ab_config_fetcher := g\<rparr>)
       (of_result (l2p_system_config_by_number G (ab_config_fetcher b) n (ab_rollup_cfg b)))"

text \<open>What the two branches on the epoch leave: the config, the header, the deposits and the sequence number.\<close>

record epoch_data =
  ed_sys_config :: system_config
  ed_l1_header :: l1_block_header
  ed_deposit_transactions :: "bytes list"
  ed_sequence_number :: u64

definition first_in_epoch ::
    "'bp builder_lib \<Rightarrow> 'f header_provider \<Rightarrow> l2_block_info \<Rightarrow> block_num_hash \<Rightarrow> system_config \<Rightarrow>
     ('f, 'g, 'bp) attributes_builder \<Rightarrow> ('f, 'g, 'bp) attributes_builder \<times> epoch_data pres" where
  "first_in_epoch E F l2_parent epoch sys_config b =
     pbind (fetch_header F (bnh_hash epoch) b) (\<lambda>b header.
       if bnh_hash (l2_l1_origin l2_parent) \<noteq> lh_parent_hash header
       then (b, Err (pipeline_error_kind.Reset (reset_error.AttributesBuilder
              (BlockMismatchEpochReset epoch (l2_l1_origin l2_parent) (lh_parent_hash header)))))
       else pbind (fetch_receipts F (bnh_hash epoch) b) (\<lambda>b receipts.
         case derive_deposits E (bnh_hash epoch) receipts (rc_deposit_contract_address (ab_rollup_cfg b)) of
           Inl e \<Rightarrow> (b, Err (crit (BadEncoding e)))
         | Inr deposits \<Rightarrow>
             (case update_with_receipts (bd_abi E) receipts (rc_l1_system_config_address (ab_rollup_cfg b))
                 (is_ecotone_active (ab_rollup_cfg b) (lh_timestamp header)) sys_config of
                (_, Inl e) \<Rightarrow> (b, Err (crit (pipeline_error.SystemConfigUpdate e)))
              | (sys_config, Inr _) \<Rightarrow>
                  (b, Ok \<lparr>ed_sys_config = sys_config, ed_l1_header = header,
                    ed_deposit_transactions = deposits, ed_sequence_number = 0\<rparr>))))"

definition later_in_epoch ::
    "'f header_provider \<Rightarrow> l2_block_info \<Rightarrow> block_num_hash \<Rightarrow> system_config \<Rightarrow>
     ('f, 'g, 'bp) attributes_builder \<Rightarrow> ('f, 'g, 'bp) attributes_builder \<times> epoch_data pres" where
  "later_in_epoch F l2_parent epoch sys_config b =
     (if bnh_hash (l2_l1_origin l2_parent) \<noteq> bnh_hash epoch
      then (b, Err (pipeline_error_kind.Reset (reset_error.AttributesBuilder
             (BlockMismatch epoch (l2_l1_origin l2_parent)))))
      else pbind (fetch_header F (bnh_hash epoch) b) (\<lambda>b header.
        (b, Ok \<lparr>ed_sys_config = sys_config, ed_l1_header = header, ed_deposit_transactions = [],
          ed_sequence_number = l2_seq_num l2_parent + 1\<rparr>)))"

text \<open>The transactions of the forks that the next block activates, in the order of the forks.\<close>

definition upgrade_transactions :: "'z hardfork_lib_scheme \<Rightarrow> rollup_config \<Rightarrow> u64 \<Rightarrow> u64 \<Rightarrow> bytes list" where
  "upgrade_transactions H cfg parent_time next_l2_time =
     (let activates = (\<lambda>active. active cfg next_l2_time \<and> \<not> active cfg parent_time) in
      (if activates is_ecotone_active then ecotone_txs H else []) @
      (if activates is_fjord_active then fjord_txs H else []) @
      (if activates is_isthmus_active then isthmus_txs H else []) @
      (if activates is_jovian_active then jovian_txs H else []) @
      (if activates is_interop_active then interop_txs H else []))"

fun block_info_error_string :: "block_info_error \<Rightarrow> string" where
  "block_info_error_string L1BlobBaseFeeScalar = ''Failed to parse the L1 blob base fee scalar''"
| "block_info_error_string BaseFeeScalar = ''Failed to parse the base fee scalar''"
| "block_info_error_string Eip1559Denominator = ''Failed to parse the EIP-1559 denominator''"
| "block_info_error_string Eip1559Elasticity = ''Failed to parse the EIP-1559 elasticity parameter''"
| "block_info_error_string OperatorFeeScalar = ''Failed to parse the Operator fee scalar parameter''"
| "block_info_error_string OperatorFeeConstant = ''Failed to parse the Operator fee constant parameter''"

definition assemble_attributes ::
    "'bp builder_lib \<Rightarrow> l2_block_info \<Rightarrow> epoch_data \<Rightarrow> ('f, 'g, 'bp) attributes_builder \<Rightarrow>
     ('f, 'g, 'bp) attributes_builder \<times> op_payload_attributes pres" where
  "assemble_attributes E l2_parent d b =
     (let cfg = ab_rollup_cfg b; l1_header = ed_l1_header d; sys_config = ed_sys_config d;
          parent_time = bi_timestamp (l2_info l2_parent);
          next_l2_time = parent_time + rc_block_time cfg in
      if next_l2_time < lh_timestamp l1_header
      then (b, Err (pipeline_error_kind.Reset (reset_error.AttributesBuilder
             (BrokenTimeInvariant (l2_l1_origin l2_parent) next_l2_time
               \<lparr>bnh_number = lh_number l1_header, bnh_hash = lh_hash l1_header\<rparr> (lh_timestamp l1_header)))))
      else
        let upgrades = upgrade_transactions E cfg parent_time next_l2_time in
        case try_new_with_deposit_tx (bd_l1_info_source_hash E) (bd_blob E) cfg (ab_l1_cfg b) sys_config
               (ed_sequence_number d) (l1_header.truncate l1_header) next_l2_time of
          Inl e \<Rightarrow> (b, Err (crit (pipeline_error.AttributesBuilder (Custom (block_info_error_string e)))))
        | Inr (_, l1_info_tx) \<Rightarrow>
            (b, Ok \<lparr>opa_payload_attributes =
                \<lparr>pa_timestamp = next_l2_time, pa_prev_randao = lh_mix_hash l1_header,
                 pa_suggested_fee_recipient = predeploy_SEQUENCER_FEE_VAULT,
                 pa_withdrawals = (if is_canyon_active cfg next_l2_time then Some [] else None),
                 pa_parent_beacon_block_root =
                   (if is_ecotone_active cfg next_l2_time
                    then Some (unwrap_or (lh_parent_beacon_block_root l1_header) 0) else None)\<rparr>,
              opa_transactions = Some (dl_encode_2718 E l1_info_tx # ed_deposit_transactions d @ upgrades),
              opa_no_tx_pool = Some True,
              opa_gas_limit = Some (sc_gas_limit sys_config),
              opa_eip_1559_params = eip_1559_params sys_config cfg parent_time next_l2_time,
              opa_min_base_fee =
                (if is_jovian_active cfg next_l2_time then Some (unwrap_or (sc_min_base_fee sys_config) 0) else None)\<rparr>))"

definition prepare_payload_attributes ::
    "'bp builder_lib \<Rightarrow> 'f header_provider \<Rightarrow> 'g l2_chain_provider \<Rightarrow> l2_block_info \<Rightarrow> block_num_hash \<Rightarrow>
     ('f, 'g, 'bp) attributes_builder \<Rightarrow> ('f, 'g, 'bp) attributes_builder \<times> op_payload_attributes pres" where
  "prepare_payload_attributes E F G l2_parent epoch b =
     pbind (fetch_system_config G (bi_number (l2_info l2_parent)) b) (\<lambda>b sys_config.
     pbind (if bnh_number (l2_l1_origin l2_parent) \<noteq> bnh_number epoch
            then first_in_epoch E F l2_parent epoch sys_config b
            else later_in_epoch F l2_parent epoch sys_config b) (\<lambda>b d.
     assemble_attributes E l2_parent d b))"


section \<open>The shape of the attributes\<close>

text \<open>The header that a provider returns for an epoch is that of the epoch.\<close>

definition header_of :: "'f header_provider \<Rightarrow> block_num_hash \<Rightarrow> bool" where
  "header_of F epoch \<longleftrightarrow> (\<forall>f f' h. cp_header_by_hash F f (bnh_hash epoch) = (f', Inr h) \<longrightarrow>
     lh_number h = bnh_number epoch \<and> lh_hash h = bnh_hash epoch)"

lemmas fetch_defs = fetch_header_def fetch_receipts_def fetch_system_config_def

lemma fetch_cfg:
  "fetch_header F h b = (b', r) \<Longrightarrow> ab_rollup_cfg b' = ab_rollup_cfg b \<and> ab_l1_cfg b' = ab_l1_cfg b"
  "fetch_receipts F h b = (b', r') \<Longrightarrow> ab_rollup_cfg b' = ab_rollup_cfg b \<and> ab_l1_cfg b' = ab_l1_cfg b"
  "fetch_system_config G n b = (b', r'') \<Longrightarrow> ab_rollup_cfg b' = ab_rollup_cfg b \<and> ab_l1_cfg b' = ab_l1_cfg b"
  by (auto simp: fetch_defs via_def)

text \<open>The epoch of the next block: its header, deposits and sequence number.\<close>

definition epoch_ok ::
    "'bp builder_lib \<Rightarrow> 'f header_provider \<Rightarrow> rollup_config \<Rightarrow> l2_block_info \<Rightarrow> block_num_hash \<Rightarrow> epoch_data \<Rightarrow> bool" where
  "epoch_ok E F cfg l2_parent epoch d \<longleftrightarrow>
     (\<exists>f f'. cp_header_by_hash F f (bnh_hash epoch) = (f', Inr (ed_l1_header d))) \<and>
     (if bnh_number (l2_l1_origin l2_parent) = bnh_number epoch
      then l2_l1_origin l2_parent = epoch \<and> ed_deposit_transactions d = [] \<and> ed_sequence_number d = l2_seq_num l2_parent + 1
      else lh_parent_hash (ed_l1_header d) = bnh_hash (l2_l1_origin l2_parent) \<and> ed_sequence_number d = 0 \<and>
        (\<exists>f f' rs. cp_receipts_by_hash F f (bnh_hash epoch) = (f', Inr rs) \<and>
           derive_deposits E (bnh_hash epoch) rs (rc_deposit_contract_address cfg) = Inr (ed_deposit_transactions d)))"

lemma first_in_epoch_ok:
  assumes "first_in_epoch E F l2_parent epoch sys b = (b', Ok d)"
    and "bnh_number (l2_l1_origin l2_parent) \<noteq> bnh_number epoch"
  shows "epoch_ok E F (ab_rollup_cfg b) l2_parent epoch d \<and> ab_rollup_cfg b' = ab_rollup_cfg b"
proof -
  from assms(1) obtain b1 h b2 rs where header: "fetch_header F (bnh_hash epoch) b = (b1, Ok h)"
    and receipts: "fetch_receipts F (bnh_hash epoch) b1 = (b2, Ok rs)"
    and parent: "lh_parent_hash h = bnh_hash (l2_l1_origin l2_parent)"
    and rest: "(case derive_deposits E (bnh_hash epoch) rs (rc_deposit_contract_address (ab_rollup_cfg b2)) of
           Inl e \<Rightarrow> (b2, Err (crit (BadEncoding e)))
         | Inr deposits \<Rightarrow>
             (case update_with_receipts (bd_abi E) rs (rc_l1_system_config_address (ab_rollup_cfg b2))
                 (is_ecotone_active (ab_rollup_cfg b2) (lh_timestamp h)) sys of
                (_, Inl e) \<Rightarrow> (b2, Err (crit (pipeline_error.SystemConfigUpdate e)))
              | (sys, Inr _) \<Rightarrow>
                  (b2, Ok \<lparr>ed_sys_config = sys, ed_l1_header = h,
                    ed_deposit_transactions = deposits, ed_sequence_number = 0\<rparr>))) = (b', Ok d)"
    by (auto simp: first_in_epoch_def pbind_eq_Ok split: if_splits)
  from rest have "b2 = b'" "ed_l1_header d = h" "ed_sequence_number d = 0"
    "derive_deposits E (bnh_hash epoch) rs (rc_deposit_contract_address (ab_rollup_cfg b2)) = Inr (ed_deposit_transactions d)"
    by (cases "derive_deposits E (bnh_hash epoch) rs (rc_deposit_contract_address (ab_rollup_cfg b2))";
        cases "update_with_receipts (bd_abi E) rs (rc_l1_system_config_address (ab_rollup_cfg b2))
                 (is_ecotone_active (ab_rollup_cfg b2) (lh_timestamp h)) sys";
        cases "snd (update_with_receipts (bd_abi E) rs (rc_l1_system_config_address (ab_rollup_cfg b2))
                 (is_ecotone_active (ab_rollup_cfg b2) (lh_timestamp h)) sys)"; force)+
  with assms(2) parent header receipts fetch_cfg(1) [OF header] fetch_cfg(2) [OF receipts] show ?thesis
    by (auto simp: epoch_ok_def fetch_defs via_eq_Ok of_result_Ok intro: exI)
qed

lemma later_in_epoch_ok:
  assumes "later_in_epoch F l2_parent epoch sys b = (b', Ok d)"
    and "bnh_number (l2_l1_origin l2_parent) = bnh_number epoch"
  shows "epoch_ok E F (ab_rollup_cfg b) l2_parent epoch d \<and> ab_rollup_cfg b' = ab_rollup_cfg b"
  using assms fetch_cfg(1) [of F "bnh_hash epoch" b]
  by (auto simp: later_in_epoch_def epoch_ok_def pbind_eq_Ok fetch_defs via_eq_Ok of_result_Ok split: if_splits) blast

text \<open>
  The attributes for an epoch: they build the L1 info transaction, the deposits and the upgrades,
  one block time after the parent and not before the L1 origin, and a block that starts with the
  info transaction is read back with the header of the epoch and the sequence number.
\<close>

definition attributes_ok ::
    "'bp builder_lib \<Rightarrow> rollup_config \<Rightarrow> l2_block_info \<Rightarrow> epoch_data \<Rightarrow> tx_deposit \<Rightarrow> op_payload_attributes \<Rightarrow> bool" where
  "attributes_ok E cfg l2_parent d tx a \<longleftrightarrow>
     (let t = bi_timestamp (l2_info l2_parent); h = ed_l1_header d in
      pa_timestamp (opa_payload_attributes a) = t + rc_block_time cfg \<and>
      lh_timestamp h \<le> t + rc_block_time cfg \<and> pa_prev_randao (opa_payload_attributes a) = lh_mix_hash h \<and>
      opa_no_tx_pool a = Some True \<and>
      opa_transactions a = Some (dl_encode_2718 E tx # ed_deposit_transactions d @
        upgrade_transactions E cfg t (t + rc_block_time cfg)) \<and>
      (\<exists>i. l1_info_decode_calldata (dt_input tx) = Inr i \<and>
         l1_info_id i = \<lparr>bnh_number = lh_number h, bnh_hash = lh_hash h\<rparr> \<and>
         l1_info_sequence_number i = ed_sequence_number d))"

lemma assemble_attributes_ok:
  assumes "assemble_attributes E l2_parent d b = (b', Ok a)"
  shows "\<exists>tx. attributes_ok E (ab_rollup_cfg b) l2_parent d tx a"
proof -
  let ?t = "bi_timestamp (l2_info l2_parent) + rc_block_time (ab_rollup_cfg b)"
  obtain i tx where tx: "try_new_with_deposit_tx (bd_l1_info_source_hash E) (bd_blob E) (ab_rollup_cfg b) (ab_l1_cfg b)
      (ed_sys_config d) (ed_sequence_number d) (l1_header.truncate (ed_l1_header d)) ?t = Inr (i, tx)"
    and i: "l1_info_decode_calldata (dt_input tx) = Inr i" "l1_info_sequence_number i = ed_sequence_number d"
      "l1_info_id i = \<lparr>bnh_number = lh_number (ed_l1_header d), bnh_hash = lh_hash (ed_l1_header d)\<rparr>"
    by (rule try_new_with_deposit_tx_carried [of "bd_l1_info_source_hash E" "bd_blob E" "ab_rollup_cfg b" "ab_l1_cfg b"
        "ed_sys_config d" "ed_sequence_number d" "l1_header.truncate (ed_l1_header d)" ?t]) (auto simp: l1_header.defs)
  have "\<not> ?t < lh_timestamp (ed_l1_header d)" using assms by (auto simp: assemble_attributes_def Let_def)
  with assms tx i show ?thesis
    by (intro exI [of _ tx]) (auto simp: assemble_attributes_def attributes_ok_def Let_def)
qed

lemma prepare_payload_attributes_ok:
  assumes "prepare_payload_attributes E F G l2_parent epoch b = (b', Ok a)"
  shows "\<exists>d tx. epoch_ok E F (ab_rollup_cfg b) l2_parent epoch d \<and> attributes_ok E (ab_rollup_cfg b) l2_parent d tx a"
proof -
  from assms obtain b1 sys b2 d where sys: "fetch_system_config G (bi_number (l2_info l2_parent)) b = (b1, Ok sys)"
    and d: "(if bnh_number (l2_l1_origin l2_parent) \<noteq> bnh_number epoch then first_in_epoch E F l2_parent epoch sys b1
        else later_in_epoch F l2_parent epoch sys b1) = (b2, Ok d)"
    and a: "assemble_attributes E l2_parent d b2 = (b', Ok a)"
    by (auto simp: prepare_payload_attributes_def pbind_eq_Ok)
  from d have "epoch_ok E F (ab_rollup_cfg b1) l2_parent epoch d \<and> ab_rollup_cfg b2 = ab_rollup_cfg b1"
    using first_in_epoch_ok later_in_epoch_ok by (metis (full_types))
  with assemble_attributes_ok [OF a] fetch_cfg(3) [OF sys] show ?thesis by auto
qed

text \<open>Blocks built from the attributes: the encodings of their transactions are those of the attributes.\<close>

definition built_from :: "'z deposit_lib_scheme \<Rightarrow> tx_deposit \<Rightarrow> bytes list \<Rightarrow> op_block \<Rightarrow> bool" where
  "built_from E tx txs block \<longleftrightarrow> (\<exists>rest. ob_transactions block = Deposit (dt_input tx) (dl_encode_2718 E tx) # rest \<and>
     map encode_2718 rest = txs)"

lemma built_from_origin:
  assumes "epoch_ok E F cfg l2_parent epoch d" and "attributes_ok E cfg l2_parent d tx a" and "header_of F epoch"
    and "built_from E tx txs block" and "ob_number block \<noteq> bnh_number (cg_l2 (rc_genesis cfg))"
  shows "from_block_and_genesis block (rc_genesis cfg) = Inr \<lparr>l2_info = block_info_from block, l2_l1_origin = epoch,
    l2_seq_num = (if bnh_number (l2_l1_origin l2_parent) = bnh_number epoch then l2_seq_num l2_parent + 1 else 0)\<rparr>"
proof -
  from assms(1,3) have "lh_number (ed_l1_header d) = bnh_number epoch" "lh_hash (ed_l1_header d) = bnh_hash epoch"
    "ed_sequence_number d = (if bnh_number (l2_l1_origin l2_parent) = bnh_number epoch then l2_seq_num l2_parent + 1 else 0)"
    by (auto simp: epoch_ok_def header_of_def split: if_splits)
  with assms(2,4,5) show ?thesis
    by (auto simp: attributes_ok_def built_from_def from_block_and_genesis_def Let_def block_info_from_def)
qed

end
