(* ===== verification/Frames.thy ===== *)
theory Frames
  imports Prelude
begin

text \<open>
  Frames, \<^verbatim>\<open>crates/protocol/protocol/src/frame.rs\<close>: the unit in which channel data travels in
  L1 transactions.  The record \<open>frame\<close>, its byte encoding, the decoder of one frame and the
  parser of a transaction's frames, with their error values.

  Shown: decoding inverts encoding, for one frame followed by anything and for a whole
  transaction; what the parser accepts is exactly used up by the frames it returns; which of
  its errors can occur.
\<close>

section \<open>Data\<close>

type_synonym channel_id = "128 word"

record frame =
  fr_id :: channel_id
  fr_number :: u16
  fr_data :: bytes
  fr_is_last :: bool

datatype frame_decoding_error = DataTooLarge nat | DataTooShort nat | InvalidId | InvalidNumber
  | InvalidDataLength

datatype frame_parse_error = FrameDecodingError frame_decoding_error | NoFrames
  | UnsupportedVersion | DataLengthMismatch | NoFramesDecoded

definition DERIVATION_VERSION_0 :: u8 where "DERIVATION_VERSION_0 = 0"

definition FRAME_OVERHEAD :: nat where "FRAME_OVERHEAD = 200"

definition MAX_FRAME_LEN :: nat where "MAX_FRAME_LEN = 1000000"

definition BASE_FRAME_LEN :: nat where "BASE_FRAME_LEN = 16 + 2 + 4 + 1"

section \<open>Operations\<close>

definition frame_encode :: "frame \<Rightarrow> bytes" where
  "frame_encode f = be_encode 16 (unat (fr_id f)) @ be_encode 2 (unat (fr_number f)) @
     be_encode 4 (unat (word_of_nat (length (fr_data f)) :: u32)) @ fr_data f @
     [if fr_is_last f then 1 else 0]"

definition frame_decode :: "bytes \<Rightarrow> frame_decoding_error + (nat \<times> frame)" where
  "frame_decode encoded =
     (if length encoded < BASE_FRAME_LEN then Inl (DataTooShort (length encoded))
      else
        let id = word_of_nat (be_decode (take 16 encoded));
            number = word_of_nat (be_decode (take 2 (drop 16 encoded)));
            data_len = be_decode (take 4 (drop 18 encoded))
        in if data_len > MAX_FRAME_LEN \<or> data_len \<ge> length encoded - (BASE_FRAME_LEN - 1)
           then Inl (DataTooLarge data_len)
           else
             let data = take data_len (drop 22 encoded);
                 is_last = (encoded ! (22 + data_len) = 1)
             in Inr (BASE_FRAME_LEN + data_len,
                  \<lparr>fr_id = id, fr_number = number, fr_data = data, fr_is_last = is_last\<rparr>))"

text \<open>\<^verbatim>\<open>&data[start..]\<close> panics past the end: \<open>None\<close>.\<close>

definition parse_frame :: "bytes \<Rightarrow> nat \<Rightarrow> (frame_decoding_error + (nat \<times> frame)) option" where
  "parse_frame data start = (if length data < start then None else Some (frame_decode (drop start data)))"

lemma frame_decode_consumes: "frame_decode bs = Inr (n, f) \<Longrightarrow> 23 \<le> n \<and> n \<le> length bs"
  by (auto simp: frame_decode_def BASE_FRAME_LEN_def Let_def split: if_splits)

function parse_frames_loop :: "bytes \<Rightarrow> nat \<Rightarrow> frame list \<Rightarrow> frame_decoding_error + (nat \<times> frame list)" where
  "parse_frames_loop data offset frames =
     (if offset < length data then
        (case frame_decode (drop offset data) of
           Inl e \<Rightarrow> Inl e
         | Inr (frame_length, frame) \<Rightarrow>
             parse_frames_loop data (offset + frame_length) (frames @ [frame]))
      else Inr (offset, frames))"
  by pat_completeness auto
termination
  by (relation "measure (\<lambda>(data, offset, frames). length data - offset)")
    (auto dest!: sym [of "Inr _"] frame_decode_consumes)

declare parse_frames_loop.simps [simp del]

definition parse_frames :: "bytes \<Rightarrow> frame_parse_error + frame list" where
  "parse_frames encoded =
     (case encoded of
        [] \<Rightarrow> Inl NoFrames
      | version # data \<Rightarrow>
          if version \<noteq> DERIVATION_VERSION_0 then Inl UnsupportedVersion
          else (case parse_frames_loop data 0 [] of
                  Inl e \<Rightarrow> Inl (FrameDecodingError e)
                | Inr (offset, frames) \<Rightarrow>
                    if offset \<noteq> length data then Inl DataLengthMismatch
                    else if frames = [] then Inl NoFramesDecoded
                    else Inr frames))"

definition frame_size :: "frame \<Rightarrow> nat" where
  "frame_size f = length (fr_data f) + FRAME_OVERHEAD"

definition wf_frame :: "frame \<Rightarrow> bool" where
  "wf_frame f = (length (fr_data f) \<le> MAX_FRAME_LEN)"

section \<open>One frame\<close>

lemma length_frame_encode [simp]: "length (frame_encode f) = 23 + length (fr_data f)"
  by (simp add: frame_encode_def)

lemma frame_decode_encode_append:
  assumes "wf_frame f"
  shows "frame_decode (frame_encode f @ rest) = Inr (23 + length (fr_data f), f)"
proof -
  let ?n = "length (fr_data f)"
  define e where "e = frame_encode f @ rest"
  note [simp] = e_def frame_encode_def
  have n: "?n \<le> 1000000"
    using assms by (simp add: wf_frame_def MAX_FRAME_LEN_def)
  have t16: "take 16 e = be_encode 16 (unat (fr_id f))" by simp
  have t2: "take 2 (drop 16 e) = be_encode 2 (unat (fr_number f))" by simp
  have t4: "take 4 (drop 18 e) = be_encode 4 (unat (word_of_nat ?n :: u32))" by simp
  have len: "be_decode (take 4 (drop 18 e)) = ?n"
    using n unfolding t4 by (simp add: be_decode_encode unsigned_of_nat take_bit_eq_mod)
  have id: "word_of_nat (be_decode (take 16 e)) = fr_id f"
    unfolding t16 by (rule word_of_be_decode_encode) simp
  have num: "word_of_nat (be_decode (take 2 (drop 16 e))) = fr_number f"
    unfolding t2 by (rule word_of_be_decode_encode) simp
  have data: "take ?n (drop 22 e) = fr_data f" by simp
  have last: "e ! (22 + ?n) = (if fr_is_last f then 1 else 0)" by (simp add: nth_append)
  have le: "length e = 23 + ?n + length rest" by simp
  have "frame_decode e = Inr (23 + ?n, f)"
    using n unfolding frame_decode_def Let_def len id num data last le
    by (simp add: BASE_FRAME_LEN_def MAX_FRAME_LEN_def del: e_def)
  then show ?thesis by (simp only: e_def)
qed

text \<open>
  The other direction: the bytes a frame was decoded from are its encoding, except that every
  value of the last byte other than 1 reads as "not last".
\<close>

lemma frame_encode_decode:
  assumes dec: "frame_decode bs = Inr (n, f)"
  shows "wf_frame f" and "n = 23 + length (fr_data f)"
    and "take (n - 1) bs = butlast (frame_encode f)"
    and "fr_is_last f = (bs ! (n - 1) = 1)"
proof -
  let ?l = "be_decode (take 4 (drop 18 bs))"
  have len: "23 \<le> length bs"
    using dec by (auto simp: frame_decode_def BASE_FRAME_LEN_def split: if_splits)
  have l: "?l \<le> 1000000" "22 + ?l < length bs"
    using dec len by (auto simp: frame_decode_def BASE_FRAME_LEN_def MAX_FRAME_LEN_def Let_def
        split: if_splits)
  have nl: "\<not> length bs - 22 \<le> ?l" using l(2) by linarith
  have n: "n = 23 + ?l"
    and f: "f = \<lparr>fr_id = word_of_nat (be_decode (take 16 bs)),
      fr_number = word_of_nat (be_decode (take 2 (drop 16 bs))),
      fr_data = take ?l (drop 22 bs), fr_is_last = (bs ! (22 + ?l) = 1)\<rparr>"
    using dec len l(1) nl
    by (simp_all add: frame_decode_def BASE_FRAME_LEN_def MAX_FRAME_LEN_def Let_def)
  have fl: "length (fr_data f) = ?l"
    using l by (simp add: f)
  show "wf_frame f"
    using fl l by (simp add: wf_frame_def MAX_FRAME_LEN_def)
  show "n = 23 + length (fr_data f)"
    using n fl by simp
  show "fr_is_last f = (bs ! (n - 1) = 1)"
    using n by (simp add: f)
  have "be_encode 16 (unat (fr_id f)) = take 16 bs"
    using len by (simp add: f be_encode_word_of_be_decode)
  moreover have "be_encode 2 (unat (fr_number f)) = take 2 (drop 16 bs)"
    using len by (simp add: f be_encode_word_of_be_decode)
  moreover have "be_encode 4 (unat (word_of_nat (length (fr_data f)) :: u32)) = take 4 (drop 18 bs)"
    using len unfolding fl by (intro be_encode_word_of_be_decode) simp_all
  ultimately have "butlast (frame_encode f) =
      take 16 bs @ take 2 (drop 16 bs) @ take 4 (drop 18 bs) @ take ?l (drop 22 bs)"
    by (simp add: frame_encode_def butlast_append f)
  also have "\<dots> = take (22 + ?l) bs"
    using take_add [of 16 "2 + (4 + ?l)" bs] take_add [of 2 "4 + ?l" "drop 16 bs"]
      take_add [of 4 ?l "drop 18 bs"] by simp
  finally show "take (n - 1) bs = butlast (frame_encode f)"
    using n by simp
qed

section \<open>A transaction's frames\<close>

lemma parse_frames_loop_encode:
  assumes "\<forall>f\<in>set fs. wf_frame f"
  shows "parse_frames_loop (pre @ concat (map frame_encode fs)) (length pre) acc =
    Inr (length pre + length (concat (map frame_encode fs)), acc @ fs)"
  using assms
proof (induction fs arbitrary: pre acc)
  case Nil
  then show ?case by (subst parse_frames_loop.simps) simp
next
  case (Cons f fs)
  have dec: "frame_decode (frame_encode f @ concat (map frame_encode fs)) =
      Inr (23 + length (fr_data f), f)"
    using Cons.prems by (intro frame_decode_encode_append) simp
  have "parse_frames_loop (pre @ concat (map frame_encode (f # fs))) (length pre) acc =
      parse_frames_loop ((pre @ frame_encode f) @ concat (map frame_encode fs))
        (length (pre @ frame_encode f)) (acc @ [f])"
    by (subst parse_frames_loop.simps) (simp add: dec add.assoc)
  also have "\<dots> = Inr (length (pre @ frame_encode f) + length (concat (map frame_encode fs)),
      (acc @ [f]) @ fs)"
    using Cons.prems by (intro Cons.IH) simp
  finally show ?case by simp
qed

lemma parse_frames_encode:
  assumes "fs \<noteq> []" and "\<forall>f\<in>set fs. wf_frame f"
  shows "parse_frames (DERIVATION_VERSION_0 # concat (map frame_encode fs)) = Inr fs"
  using parse_frames_loop_encode [OF assms(2), of "[]" "[]"] assms(1)
  by (simp add: parse_frames_def)

text \<open>The loop only ever adds well-formed frames, and its offset is what they take up.\<close>

lemma parse_frames_loop_Inr:
  assumes "parse_frames_loop data offset acc = Inr (off, frames)" and "offset \<le> length data"
  shows "off = length data \<and>
    (\<exists>fs. frames = acc @ fs \<and> (\<forall>f\<in>set fs. wf_frame f) \<and>
      (\<Sum>f\<leftarrow>fs. 23 + length (fr_data f)) = length data - offset)"
  using assms
proof (induction data offset acc rule: parse_frames_loop.induct)
  case (1 data offset acc)
  show ?case
  proof (cases "offset < length data")
    case False
    with "1.prems" show ?thesis by (subst (asm) parse_frames_loop.simps) simp
  next
    case True
    with "1.prems" obtain n f where dec: "frame_decode (drop offset data) = Inr (n, f)"
      and rest: "parse_frames_loop data (offset + n) (acc @ [f]) = Inr (off, frames)"
      by (subst (asm) parse_frames_loop.simps) (auto split: sum.splits prod.splits)
    from frame_decode_consumes [OF dec] have n: "offset + n \<le> length data" by auto
    from "1.IH" [OF True dec refl rest n] obtain fs where off: "off = length data"
      and fs: "frames = (acc @ [f]) @ fs" "\<forall>f\<in>set fs. wf_frame f"
        "(\<Sum>f\<leftarrow>fs. 23 + length (fr_data f)) = length data - (offset + n)"
      by blast
    have "wf_frame f" "n = 23 + length (fr_data f)"
      using frame_encode_decode [OF dec] by simp_all
    with off fs n show ?thesis
      by (intro conjI exI [of _ "f # fs"]) auto
  qed
qed

lemma parse_frames_Inr:
  assumes "parse_frames bs = Inr fs"
  shows "fs \<noteq> []" and "\<forall>f\<in>set fs. wf_frame f"
    and "length bs = Suc (\<Sum>f\<leftarrow>fs. 23 + length (fr_data f))"
proof -
  from assms obtain data off where bs: "bs = DERIVATION_VERSION_0 # data"
    and loop: "parse_frames_loop data 0 [] = Inr (off, fs)" and ne: "fs \<noteq> []"
    by (auto simp: parse_frames_def split: list.splits sum.splits prod.splits if_splits)
  show "fs \<noteq> []" by (rule ne)
  from parse_frames_loop_Inr [OF loop] bs
  show "\<forall>f\<in>set fs. wf_frame f" "length bs = Suc (\<Sum>f\<leftarrow>fs. 23 + length (fr_data f))"
    by auto
qed

lemma parse_frames_no_mismatch: "parse_frames bs \<noteq> Inl DataLengthMismatch"
  using parse_frames_loop_Inr [of _ 0 "[]"]
  by (fastforce simp: parse_frames_def split: list.splits sum.splits prod.splits if_splits)

lemma parse_frames_none_decoded: "parse_frames bs = Inl NoFramesDecoded \<longleftrightarrow> bs = [DERIVATION_VERSION_0]"
proof
  assume "parse_frames bs = Inl NoFramesDecoded"
  then obtain data off where bs: "bs = DERIVATION_VERSION_0 # data"
    and loop: "parse_frames_loop data 0 [] = Inr (off, [])"
    by (auto simp: parse_frames_def split: list.splits sum.splits prod.splits if_splits)
  from parse_frames_loop_Inr [OF loop] bs show "bs = [DERIVATION_VERSION_0]" by auto
next
  assume "bs = [DERIVATION_VERSION_0]"
  then show "parse_frames bs = Inl NoFramesDecoded"
    by (simp add: parse_frames_def) (subst parse_frames_loop.simps, simp)
qed

section \<open>Properties\<close>

text \<open>
  C1. Parsing the serialization of one or more frames of admissible size gives the frames back.
\<close>

theorem parse_frames_roundtrip:
  "fs \<noteq> [] \<Longrightarrow> \<forall>f\<in>set fs. wf_frame f \<Longrightarrow>
   parse_frames (DERIVATION_VERSION_0 # concat (map frame_encode fs)) = Inr fs"
  by (rule parse_frames_encode)

definition example_frame :: "channel_id \<Rightarrow> u16 \<Rightarrow> bool \<Rightarrow> frame" where
  "example_frame i n l = \<lparr>fr_id = i, fr_number = n, fr_data = [222, 173], fr_is_last = l\<rparr>"

theorem parse_frames_roundtrip_witness:
  "parse_frames (DERIVATION_VERSION_0 #
     concat (map frame_encode [example_frame 7 0 False, example_frame 7 1 True])) =
   Inr [example_frame 7 0 False, example_frame 7 1 True]"
  by (rule parse_frames_roundtrip) (simp_all add: wf_frame_def example_frame_def MAX_FRAME_LEN_def)

text \<open>
  C2. What the parser accepts is version 0 data that the returned frames use up exactly (23
  bytes of header and trailer each), with at least one frame and no frame above the size
  limit; a length mismatch is never reported, and "no frames decoded" only for a transaction
  holding the version byte alone.
\<close>

theorem parse_frames_exact:
  "parse_frames bs \<noteq> Inl DataLengthMismatch \<and>
   (parse_frames bs = Inl NoFramesDecoded \<longleftrightarrow> bs = [DERIVATION_VERSION_0]) \<and>
   (parse_frames bs = Inr fs \<longrightarrow> fs \<noteq> [] \<and> (\<forall>f\<in>set fs. wf_frame f) \<and>
      length bs = Suc (\<Sum>f\<leftarrow>fs. 23 + length (fr_data f)))"
  by (intro conjI impI parse_frames_no_mismatch parse_frames_none_decoded parse_frames_Inr)

theorem parse_frames_exact_witness:
  "parse_frames (0 # frame_encode (example_frame 7 0 True)) = Inr [example_frame 7 0 True] \<and>
   length (0 # frame_encode (example_frame 7 0 True)) = 26"
proof -
  let ?f = "example_frame 7 0 True"
  have "parse_frames (DERIVATION_VERSION_0 # concat (map frame_encode [?f])) = Inr [?f]"
    by (rule parse_frames_encode) (simp_all add: wf_frame_def example_frame_def MAX_FRAME_LEN_def)
  then have parsed: "parse_frames (0 # frame_encode ?f) = Inr [?f]"
    by (simp add: DERIVATION_VERSION_0_def)
  with parse_frames_exact [of "0 # frame_encode ?f" "[?f]"] show ?thesis
    by (simp add: example_frame_def)
qed

end
