(* ===== verification/Channels.thy ===== *)
theory Channels
  imports Blocks Frames "HOL-Library.AList"
begin

text \<open>
  Channels, \<^verbatim>\<open>crates/protocol/protocol/src/channel.rs\<close>: frames of one channel id are collected, in
  any order, until the channel is complete.  The hash map of frames is an association list with
  distinct keys; \<open>estimated_size\<close> is the 64-bit \<^verbatim>\<open>usize\<close> the code subtracts from.

  Shown: the invariant of a channel under \<^verbatim>\<open>add_frame\<close>; a ready channel yields the data of its
  frames in frame order; a channel is assembled whatever the order in which its frames arrive
  and however often they are repeated; what pruning does to the size estimate.
\<close>

section \<open>Data and operations\<close>

definition CHANNEL_ID_LENGTH :: nat where "CHANNEL_ID_LENGTH = 16"

datatype channel_error = FrameIdMismatch | ChannelClosed | FrameNumberExists nat
  | FrameBeyondEndFrame nat

record channel =
  ch_id :: channel_id
  ch_open_block :: block_info
  ch_estimated_size :: usize
  ch_closed :: bool
  ch_highest_frame_number :: u16
  ch_last_frame_number :: u16
  ch_inputs :: "(u16 \<times> frame) list"
  ch_highest_l1_inclusion_block :: block_info

definition channel_new :: "channel_id \<Rightarrow> block_info \<Rightarrow> channel" where
  "channel_new cid open_block =
     \<lparr>ch_id = cid, ch_open_block = open_block, ch_estimated_size = 0, ch_closed = False,
      ch_highest_frame_number = 0, ch_last_frame_number = 0, ch_inputs = [],
      ch_highest_l1_inclusion_block = default_block_info\<rparr>"

definition channel_len :: "channel \<Rightarrow> nat" where
  "channel_len c = length (ch_inputs c)"

definition channel_is_empty :: "channel \<Rightarrow> bool" where
  "channel_is_empty c = (ch_inputs c = [])"

text \<open>
  The pruning step of a closing frame: \<^verbatim>\<open>retain\<close> visits every entry, and its closure subtracts
  the size of each entry it visits, kept or not.
\<close>

definition prune_inputs :: "channel \<Rightarrow> channel" where
  "prune_inputs c =
     c\<lparr>ch_estimated_size := foldl (\<lambda>s (_, f). s - word_of_nat (frame_size f))
         (ch_estimated_size c) (ch_inputs c),
       ch_inputs := filter (\<lambda>(id, _). id < ch_last_frame_number c) (ch_inputs c),
       ch_highest_frame_number := ch_last_frame_number c\<rparr>"

definition close_with :: "frame \<Rightarrow> channel \<Rightarrow> channel" where
  "close_with frame c =
     (let c = c\<lparr>ch_last_frame_number := fr_number frame, ch_closed := True\<rparr>
      in if ch_last_frame_number c < ch_highest_frame_number c then prune_inputs c else c)"

definition buffer_frame :: "frame \<Rightarrow> block_info \<Rightarrow> channel \<Rightarrow> channel" where
  "buffer_frame frame l1_inclusion_block c =
     (let c = (if fr_number frame > ch_highest_frame_number c
               then c\<lparr>ch_highest_frame_number := fr_number frame\<rparr> else c);
          c = (if bi_number (ch_highest_l1_inclusion_block c) < bi_number l1_inclusion_block
               then c\<lparr>ch_highest_l1_inclusion_block := l1_inclusion_block\<rparr> else c)
      in c\<lparr>ch_estimated_size := ch_estimated_size c + word_of_nat (frame_size frame),
           ch_inputs := AList.update (fr_number frame) frame (ch_inputs c)\<rparr>)"

definition add_frame :: "channel \<Rightarrow> frame \<Rightarrow> block_info \<Rightarrow> channel \<times> (channel_error + unit)" where
  "add_frame c frame l1_inclusion_block =
     (if fr_id frame \<noteq> ch_id c then (c, Inl FrameIdMismatch)
      else if fr_is_last frame \<and> ch_closed c then (c, Inl ChannelClosed)
      else if map_of (ch_inputs c) (fr_number frame) \<noteq> None
        then (c, Inl (FrameNumberExists (unat (fr_number frame))))
      else if ch_closed c \<and> fr_number frame \<ge> ch_last_frame_number c
        then (c, Inl (FrameBeyondEndFrame (unat (fr_number frame))))
      else (buffer_frame frame l1_inclusion_block
              (if fr_is_last frame then close_with frame c else c), Inr ()))"

definition open_block_number :: "channel \<Rightarrow> u64" where
  "open_block_number c = bi_number (ch_open_block c)"

definition channel_size :: "channel \<Rightarrow> usize" where
  "channel_size c = ch_estimated_size c"

text \<open>\<^verbatim>\<open>0..=last\<close> over \<^verbatim>\<open>u16\<close>.\<close>

definition frame_range :: "u16 \<Rightarrow> u16 list" where
  "frame_range n = map word_of_nat [0..<Suc (unat n)]"

definition is_ready :: "channel \<Rightarrow> bool" where
  "is_ready c =
     (if \<not> ch_closed c then False
      else if channel_len c \<noteq> unat (ch_last_frame_number c + 1) then False
      else list_all (\<lambda>i. map_of (ch_inputs c) i \<noteq> None) (frame_range (ch_last_frame_number c)))"

fun extend_data :: "(u16 \<times> frame) list \<Rightarrow> bytes \<Rightarrow> u16 list \<Rightarrow> bytes option" where
  "extend_data inputs data [] = Some data"
| "extend_data inputs data (i # is) =
     (case map_of inputs i of
        None \<Rightarrow> None
      | Some frame \<Rightarrow> extend_data inputs (data @ fr_data frame) is)"

definition frame_data :: "channel \<Rightarrow> bytes option" where
  "frame_data c =
     (if channel_is_empty c then None
      else extend_data (ch_inputs c) [] (frame_range (ch_last_frame_number c)))"

section \<open>The invariant\<close>

text \<open>
  Each buffered frame is filed under its number, belongs to the channel and is the closing frame
  exactly if the channel is closed with that number.
\<close>

definition entry_ok :: "channel \<Rightarrow> u16 \<Rightarrow> frame \<Rightarrow> bool" where
  "entry_ok c k f \<longleftrightarrow> fr_number f = k \<and> fr_id f = ch_id c \<and> k \<le> ch_highest_frame_number c \<and>
     (fr_is_last f \<longleftrightarrow> ch_closed c \<and> k = ch_last_frame_number c)"

definition channel_inv :: "channel \<Rightarrow> bool" where
  "channel_inv c \<longleftrightarrow>
     distinct (map fst (ch_inputs c)) \<and>
     (\<forall>e\<in>set (ch_inputs c). entry_ok c (fst e) (snd e)) \<and>
     (ch_closed c \<longrightarrow> ch_highest_frame_number c = ch_last_frame_number c \<and>
        ch_last_frame_number c \<in> fst ` set (ch_inputs c)) \<and>
     (\<not> ch_closed c \<longrightarrow> ch_last_frame_number c = 0)"

lemma channel_invD:
  assumes "channel_inv c" and "(k, f) \<in> set (ch_inputs c)"
  shows "fr_number f = k" "fr_id f = ch_id c" "k \<le> ch_highest_frame_number c"
    "fr_is_last f \<longleftrightarrow> ch_closed c \<and> k = ch_last_frame_number c"
  using assms by (auto simp: channel_inv_def entry_ok_def)

lemmas channel_step_defs = add_frame_def buffer_frame_def close_with_def prune_inputs_def Let_def

lemma channel_inv_new [simp]: "channel_inv (channel_new cid b)"
  by (simp add: channel_inv_def channel_new_def)

lemma channel_new_fields [simp]:
  "ch_id (channel_new cid b) = cid" "ch_inputs (channel_new cid b) = []"
  "ch_open_block (channel_new cid b) = b" "ch_closed (channel_new cid b) = False"
  by (simp_all add: channel_new_def)

lemma map_of_None_fst: "map_of xs k = None \<longleftrightarrow> k \<notin> fst ` set xs"
  by (simp add: map_of_eq_None_iff)

lemma update_fresh: "map_of xs k = None \<Longrightarrow> AList.update k v xs = xs @ [(k, v)]"
  by (induction xs) (auto split: if_splits)

lemma add_frame_err: "add_frame c f b = (c', Inl e) \<Longrightarrow> c' = c"
  by (auto simp: add_frame_def split: if_splits)

text \<open>What \<^verbatim>\<open>add_frame\<close> leaves of the fields when it accepts a frame.\<close>

lemma add_frame_Ok_iff:
  "snd (add_frame c f b) = Inr () \<longleftrightarrow>
     fr_id f = ch_id c \<and> \<not> (fr_is_last f \<and> ch_closed c) \<and> map_of (ch_inputs c) (fr_number f) = None \<and>
     (ch_closed c \<longrightarrow> fr_number f < ch_last_frame_number c)"
  by (auto simp: add_frame_def not_le)

lemma add_frame_Ok:
  "snd (add_frame c f b) = Inr () \<Longrightarrow>
   fst (add_frame c f b) = buffer_frame f b (if fr_is_last f then close_with f c else c)"
  by (auto simp: add_frame_def split: if_splits)

lemma add_frame_fixed [simp]:
  "ch_id (fst (add_frame c f b)) = ch_id c"
  "ch_open_block (fst (add_frame c f b)) = ch_open_block c"
  by (simp_all add: channel_step_defs)

lemma close_with_inputs:
  assumes inv: "channel_inv c" and fresh: "map_of (ch_inputs c) (fr_number f) = None"
    and e: "e \<in> set (ch_inputs (close_with f c))"
  shows "e \<in> set (ch_inputs c)" and "fst e < fr_number f"
proof -
  show c: "e \<in> set (ch_inputs c)"
    using e by (auto simp: close_with_def prune_inputs_def Let_def split: if_splits)
  have "fst e \<le> ch_highest_frame_number c"
    using channel_invD(3) [OF inv, of "fst e" "snd e"] c by simp
  moreover have "fst e \<noteq> fr_number f"
    using fresh c by (metis imageI map_of_None_fst)
  ultimately show "fst e < fr_number f"
    using e by (auto simp: close_with_def prune_inputs_def Let_def split: if_splits)
qed

lemma close_with_highest: "ch_highest_frame_number (close_with f c) \<le> fr_number f"
  by (auto simp: close_with_def prune_inputs_def Let_def)

lemma close_with_distinct:
  "distinct (map fst (ch_inputs c)) \<Longrightarrow> distinct (map fst (ch_inputs (close_with f c)))"
  by (simp add: close_with_def prune_inputs_def Let_def distinct_map_filter)

lemma close_with_fields [simp]:
  "ch_id (close_with f c) = ch_id c" "ch_closed (close_with f c)"
  "ch_last_frame_number (close_with f c) = fr_number f"
  by (simp_all add: channel_step_defs)

lemma buffer_frame_fields [simp]:
  "ch_id (buffer_frame f b c) = ch_id c" "ch_closed (buffer_frame f b c) = ch_closed c"
  "ch_last_frame_number (buffer_frame f b c) = ch_last_frame_number c"
  "ch_highest_frame_number (buffer_frame f b c) = max (fr_number f) (ch_highest_frame_number c)"
  "ch_inputs (buffer_frame f b c) = AList.update (fr_number f) f (ch_inputs c)"
  "ch_estimated_size (buffer_frame f b c) = ch_estimated_size c + word_of_nat (frame_size f)"
  by (auto simp: buffer_frame_def Let_def max_def)

lemma close_fresh:
  assumes "channel_inv c" and "map_of (ch_inputs c) (fr_number f) = None"
  shows "map_of (ch_inputs (close_with f c)) (fr_number f) = None"
  using close_with_inputs(2) [OF assms] by (fastforce simp: map_of_None_fst)

lemma channel_inv_add_frame:
  assumes inv: "channel_inv c"
  shows "channel_inv (fst (add_frame c f b))"
proof (cases "snd (add_frame c f b) = Inr ()")
  case False
  then have "fst (add_frame c f b) = c"
    using add_frame_err [of c f b] by (cases "add_frame c f b"; cases "snd (add_frame c f b)") auto
  with inv show ?thesis by simp
next
  case True
  then have ok: "fr_id f = ch_id c" "fr_is_last f \<Longrightarrow> \<not> ch_closed c"
    "map_of (ch_inputs c) (fr_number f) = None"
    "ch_closed c \<Longrightarrow> fr_number f < ch_last_frame_number c"
    by (auto simp: add_frame_Ok_iff)
  show ?thesis
  proof (cases "fr_is_last f")
    case last: True
    let ?c = "close_with f c"
    have step: "fst (add_frame c f b) = buffer_frame f b ?c"
      using add_frame_Ok [OF True] last by simp
    note inputs = close_with_inputs [OF inv ok(3)]
    have old: "entry_ok (buffer_frame f b ?c) (fst e) (snd e)" if "e \<in> set (ch_inputs ?c)" for e
      using channel_invD [OF inv, of "fst e" "snd e"] inputs [OF that] ok(2) last
      by (auto simp: entry_ok_def le_max_iff_disj)
    have new: "entry_ok (buffer_frame f b ?c) (fr_number f) f"
      using ok(1) last by (simp add: entry_ok_def)
    show ?thesis
      using inv old new close_with_highest [of f c] close_with_distinct [of c f]
        close_fresh [OF inv ok(3)] unfolding step channel_inv_def
      by (auto simp: update_fresh max_def map_of_None_fst)
  next
    case False
    have step: "fst (add_frame c f b) = buffer_frame f b c"
      using add_frame_Ok [OF True] False by simp
    have old: "entry_ok (buffer_frame f b c) (fst e) (snd e)" if "e \<in> set (ch_inputs c)" for e
      using channel_invD [OF inv, of "fst e" "snd e"] that by (simp add: entry_ok_def le_max_iff_disj)
    have new: "entry_ok (buffer_frame f b c) (fr_number f) f"
      using ok False by (auto simp: entry_ok_def)
    have "max (fr_number f) (ch_highest_frame_number c) = ch_last_frame_number c" if "ch_closed c"
      using inv ok(4) [OF that] that by (auto simp: channel_inv_def max_def)
    with inv old new ok(3) show ?thesis
      unfolding step channel_inv_def by (auto simp: update_fresh map_of_None_fst)
  qed
qed

section \<open>Readiness\<close>

lemma set_frame_range [simp]: "set (frame_range n) = {..n}"
proof -
  have "k \<in> word_of_nat ` {0..<Suc (unat n)}" if "k \<le> n" for k :: u16
    using that by (intro image_eqI [of _ _ "unat k"]) (auto simp: word_le_nat_alt)
  moreover have "word_of_nat i \<le> n" if "i \<le> unat n" for i
    unfolding word_le_nat_alt unsigned_of_nat of_nat_id by (rule order_trans [OF take_bit_nat_less_eq_self that])
  ultimately show ?thesis
    by (auto simp: frame_range_def less_Suc_eq_le simp del: upt_Suc)
qed

lemma length_frame_range [simp]: "length (frame_range n) = Suc (unat n)"
  by (simp add: frame_range_def)

lemma distinct_frame_range [simp]: "distinct (frame_range n)"
proof -
  have "Suc (unat n) \<le> 65536" using unsigned_less [of n, where 'a = nat] by simp
  then have "inj_on (word_of_nat :: nat \<Rightarrow> u16) {0..<Suc (unat n)}"
    by (intro inj_onI) (simp add: word_of_nat_eq_iff take_bit_nat_eq_self)
  then show ?thesis by (simp add: frame_range_def distinct_map del: upt_Suc)
qed

lemma extend_data_eq:
  "extend_data inputs data is =
     (if \<forall>i\<in>set is. map_of inputs i \<noteq> None
      then Some (data @ concat (map (\<lambda>i. fr_data (the (map_of inputs i))) is)) else None)"
  by (induction "is" arbitrary: data) (auto split: option.splits)

lemma frame_data_complete:
  assumes "\<forall>k\<le>ch_last_frame_number c. map_of (ch_inputs c) k \<noteq> None"
  shows "frame_data c = Some (concat (map (\<lambda>i. fr_data (the (map_of (ch_inputs c) i)))
    (frame_range (ch_last_frame_number c))))"
proof -
  have "ch_inputs c \<noteq> []" using assms by (auto dest: spec [of _ 0])
  with assms show ?thesis
    by (simp add: frame_data_def channel_is_empty_def extend_data_eq)
qed

lemma inputs_complete_len:
  assumes inv: "channel_inv c" and closed: "ch_closed c"
    and all: "\<forall>k\<le>ch_last_frame_number c. map_of (ch_inputs c) k \<noteq> None"
  shows "channel_len c = Suc (unat (ch_last_frame_number c))"
proof -
  have "set (map fst (ch_inputs c)) = set (frame_range (ch_last_frame_number c))"
  proof (intro set_eqI iffI)
    fix k assume "k \<in> set (map fst (ch_inputs c))"
    then obtain f where "(k, f) \<in> set (ch_inputs c)" by auto
    with channel_invD(3) [OF inv this] inv closed
    show "k \<in> set (frame_range (ch_last_frame_number c))" by (simp add: channel_inv_def)
  next
    fix k assume "k \<in> set (frame_range (ch_last_frame_number c))"
    with all show "k \<in> set (map fst (ch_inputs c))" by (simp add: map_of_None_fst)
  qed
  moreover have "distinct (map fst (ch_inputs c))"
    using inv by (simp add: channel_inv_def)
  ultimately show ?thesis
    by (metis channel_len_def distinct_card distinct_frame_range length_frame_range length_map)
qed

lemma is_ready_iff:
  assumes inv: "channel_inv c"
  shows "is_ready c \<longleftrightarrow> ch_closed c \<and> ch_last_frame_number c \<noteq> - 1 \<and>
    (\<forall>k\<le>ch_last_frame_number c. map_of (ch_inputs c) k \<noteq> None)"
proof (cases "ch_closed c")
  case True
  let ?all = "\<forall>k\<le>ch_last_frame_number c. map_of (ch_inputs c) k \<noteq> None"
  have ready: "is_ready c \<longleftrightarrow> channel_len c = unat (ch_last_frame_number c + 1) \<and> ?all"
    using True by (auto simp: is_ready_def list_all_iff)
  have nonempty: "channel_len c \<noteq> 0"
    using inv True by (auto simp: channel_inv_def channel_len_def)
  have "unat (ch_last_frame_number c + 1) = Suc (unat (ch_last_frame_number c))"
    if "ch_last_frame_number c \<noteq> - 1"
    using that by (metis add.commute add_eq_0_iff unatSuc)
  moreover have "unat (ch_last_frame_number c + 1) = 0" if "ch_last_frame_number c = - 1"
    using that by simp
  ultimately show ?thesis
    using True ready nonempty inputs_complete_len [OF inv True] by auto
qed (simp add: is_ready_def)

section \<open>Assembly\<close>

text \<open>
  A channel as its sender splits it: one frame per chunk of data, numbered from 0, the last one
  marked.  \<open>channel_split\<close> is what the assembly argument needs of such a set of frames.
\<close>

definition split_channel :: "channel_id \<Rightarrow> bytes list \<Rightarrow> frame list" where
  "split_channel cid chunks =
     map (\<lambda>i. \<lparr>fr_id = cid, fr_number = word_of_nat i, fr_data = chunks ! i,
       fr_is_last = (Suc i = length chunks)\<rparr>) [0..<length chunks]"

definition channel_split :: "channel_id \<Rightarrow> frame set \<Rightarrow> frame \<Rightarrow> bool" where
  "channel_split cid S l \<longleftrightarrow> l \<in> S \<and> inj_on fr_number S \<and>
     (\<forall>f\<in>S. fr_id f = cid \<and> (fr_is_last f \<longleftrightarrow> f = l) \<and> fr_number f \<le> fr_number l)"

lemma channel_splitD:
  assumes "channel_split cid S l" and "f \<in> S"
  shows "l \<in> S" "fr_id f = cid" "fr_is_last f \<longleftrightarrow> f = l" "f \<noteq> l \<Longrightarrow> fr_number f < fr_number l"
    "g \<in> S \<Longrightarrow> fr_number g = fr_number f \<longleftrightarrow> g = f"
proof -
  show "l \<in> S" "fr_id f = cid" "fr_is_last f \<longleftrightarrow> f = l"
    using assms by (auto simp: channel_split_def)
  show eq: "fr_number g = fr_number f \<longleftrightarrow> g = f" if "g \<in> S" for g
    using assms that by (auto simp: channel_split_def inj_on_def)
  have "fr_number f \<le> fr_number l"
    using assms by (simp add: channel_split_def)
  then show "fr_number f < fr_number l" if "f \<noteq> l"
    using eq [OF \<open>l \<in> S\<close>] that by (metis order_le_neq_trans)
qed

definition add_frames :: "channel \<Rightarrow> (frame \<times> block_info) list \<Rightarrow> channel" where
  "add_frames c fbs = foldl (\<lambda>c (f, b). fst (add_frame c f b)) c fbs"

lemma channel_inv_add_frames: "channel_inv c \<Longrightarrow> channel_inv (add_frames c fbs)"
  by (induction fbs arbitrary: c) (auto simp: add_frames_def channel_inv_add_frame)

definition filed :: "frame set \<Rightarrow> (u16 \<times> frame) set" where
  "filed S = (\<lambda>f. (fr_number f, f)) ` S"

lemma filed_insert: "filed (insert f S) = insert (fr_number f, f) (filed S)"
  by (simp add: filed_def)

lemma add_frame_repeated:
  assumes inv: "channel_inv c" and f: "(fr_number f, f) \<in> set (ch_inputs c)"
  shows "fst (add_frame c f b) = c"
proof -
  have "map_of (ch_inputs c) (fr_number f) \<noteq> None"
    using f imageI [OF f, of fst] by (simp add: map_of_None_fst)
  then show ?thesis by (simp add: add_frame_def)
qed

lemma split_closed:
  assumes inv: "channel_inv c" and sp: "channel_split cid S l"
    and seen: "set (ch_inputs c) = filed T" "T \<subseteq> S"
  shows "ch_closed c \<longleftrightarrow> l \<in> T" and "ch_closed c \<Longrightarrow> ch_last_frame_number c = fr_number l"
proof -
  have l: "l \<in> S" "fr_is_last l" using sp by (auto simp: channel_split_def)
  have closed: "l \<in> T \<and> ch_last_frame_number c = fr_number l" if "ch_closed c"
  proof -
    obtain g where g: "(ch_last_frame_number c, g) \<in> set (ch_inputs c)"
      using inv \<open>ch_closed c\<close> by (auto simp: channel_inv_def)
    then have "g \<in> T" "fr_number g = ch_last_frame_number c" "fr_is_last g"
      using seen(1) channel_invD(4) [OF inv g] \<open>ch_closed c\<close> by (auto simp: filed_def)
    moreover from this have "g = l" using seen(2) channel_splitD(3) [OF sp] by auto
    ultimately show ?thesis by auto
  qed
  moreover have "ch_closed c" if "l \<in> T"
    using channel_invD(4) [OF inv, of "fr_number l" l] seen(1) l(2) that by (simp add: filed_def)
  ultimately show "ch_closed c \<longleftrightarrow> l \<in> T" "ch_closed c \<Longrightarrow> ch_last_frame_number c = fr_number l"
    by auto
qed

lemma add_frame_split:
  assumes inv: "channel_inv c" and id: "ch_id c = cid" and sp: "channel_split cid S l"
    and seen: "set (ch_inputs c) = filed T" "T \<subseteq> S" and f: "f \<in> S" "f \<notin> T"
  shows "set (ch_inputs (fst (add_frame c f b))) = filed (insert f T)"
proof -
  note split = channel_splitD [OF sp]
  have "fr_number g \<noteq> fr_number f" if "g \<in> T" for g
    using split(5) [OF f(1), of g] that seen(2) f(2) by auto
  then have fresh: "map_of (ch_inputs c) (fr_number f) = None"
    using seen(1) by (fastforce simp: map_of_None_fst filed_def)
  note closed = split_closed [OF inv sp seen]
  have ok: "snd (add_frame c f b) = Inr ()"
    using f id fresh closed split(2-4) [OF f(1)] by (auto simp: add_frame_Ok_iff)
  have "set (ch_inputs (close_with f c)) = set (ch_inputs c)" if "fr_is_last f"
  proof -
    have "f = l" using that f split(3) by simp
    then have "fst e < fr_number f" if "e \<in> set (ch_inputs c)" for e
      using that seen f split(4) by (fastforce simp: filed_def)
    then show ?thesis by (auto simp: close_with_def prune_inputs_def Let_def)
  qed
  then show ?thesis
    using add_frame_Ok [OF ok] fresh close_fresh [OF inv fresh] seen(1)
    by (simp add: update_fresh filed_insert)
qed

lemma add_frames_split:
  assumes "channel_split cid S l"
    and "channel_inv c" "ch_id c = cid" "set (ch_inputs c) = filed T" "T \<subseteq> S"
    and "fst ` set fbs \<subseteq> S"
  shows "set (ch_inputs (add_frames c fbs)) = filed (T \<union> fst ` set fbs)"
  using assms
proof (induction fbs arbitrary: c T)
  case Nil
  then show ?case by (simp add: add_frames_def)
next
  case (Cons fb fbs)
  obtain f b where fb: "fb = (f, b)" by (cases fb)
  let ?c = "fst (add_frame c f b)"
  have step: "set (ch_inputs ?c) = filed (insert f T)"
  proof (cases "f \<in> T")
    case True
    then have "(fr_number f, f) \<in> set (ch_inputs c)" using Cons.prems(4) by (simp add: filed_def)
    with True show ?thesis
      using add_frame_repeated [OF Cons.prems(2)] Cons.prems(4) by (simp add: insert_absorb)
  next
    case False
    with Cons.prems fb show ?thesis by (intro add_frame_split [of c cid S l T]) auto
  qed
  have "set (ch_inputs (add_frames ?c fbs)) = filed (insert f T \<union> fst ` set fbs)"
    using Cons.prems fb by (intro Cons.IH step channel_inv_add_frame) auto
  then show ?case by (simp add: add_frames_def fb insert_commute)
qed

text \<open>The frames of \<open>split_channel\<close>.\<close>

abbreviation chunk_frame :: "channel_id \<Rightarrow> bytes list \<Rightarrow> nat \<Rightarrow> frame" where
  "chunk_frame cid chunks i \<equiv> \<lparr>fr_id = cid, fr_number = word_of_nat i, fr_data = chunks ! i,
     fr_is_last = (Suc i = length chunks)\<rparr>"

lemma set_split_channel:
  "set (split_channel cid chunks) = chunk_frame cid chunks ` {..<length chunks}"
  by (auto simp: split_channel_def)

lemma u16_of_nat: "i < 65536 \<Longrightarrow> unat (word_of_nat i :: u16) = i"
  by (simp add: unsigned_of_nat take_bit_nat_eq_self)

lemma u16_of_nat_eq: "i < 65536 \<Longrightarrow> j < 65536 \<Longrightarrow> (word_of_nat i :: u16) = word_of_nat j \<longleftrightarrow> i = j"
  by (metis u16_of_nat)

lemma split_channel_split:
  assumes "length chunks = Suc m" and "m < 65536"
  shows "channel_split cid (set (split_channel cid chunks)) (chunk_frame cid chunks m)"
proof -
  have "(word_of_nat i :: u16) \<le> word_of_nat m" if "i < Suc m" for i
    using assms that by (simp add: word_le_nat_alt u16_of_nat)
  with assms show ?thesis
    by (auto simp: channel_split_def set_split_channel inj_on_def u16_of_nat_eq)
qed

lemma complete_channel:
  assumes m: "length chunks = Suc m" "m < 65535" and inv: "channel_inv c"
    and inputs: "set (ch_inputs c) = filed (set (split_channel cid chunks))"
  shows "is_ready c" and "frame_data c = Some (concat chunks)"
proof -
  let ?S = "set (split_channel cid chunks)"
  have sp: "channel_split cid ?S (chunk_frame cid chunks m)"
    using m by (intro split_channel_split) auto
  have closed: "ch_closed c"
    using split_closed(1) [OF inv sp inputs] m by (auto simp: set_split_channel)
  have last: "ch_last_frame_number c = word_of_nat m"
    using split_closed(2) [OF inv sp inputs _ closed] by simp
  have entry: "map_of (ch_inputs c) (word_of_nat i) = Some (chunk_frame cid chunks i)" if "i < Suc m" for i
  proof -
    have "chunk_frame cid chunks i \<in> set (split_channel cid chunks)"
      unfolding set_split_channel using m that by (intro imageI) simp
    from imageI [OF this, of "\<lambda>f. (fr_number f, f)"]
    have "(word_of_nat i, chunk_frame cid chunks i) \<in> set (ch_inputs c)"
      unfolding inputs filed_def by simp
    with inv show ?thesis by (simp add: channel_inv_def)
  qed
  have all: "map_of (ch_inputs c) k \<noteq> None" if "k \<le> ch_last_frame_number c" for k
  proof -
    have "unat k < Suc m" using that m last by (simp add: word_le_nat_alt u16_of_nat)
    from entry [OF this] show ?thesis by simp
  qed
  have "unat (word_of_nat m :: u16) \<noteq> unat (- 1 :: u16)"
    using m by (simp add: u16_of_nat unsigned_minus_1_eq_mask mask_eq_exp_minus_1)
  then have "(word_of_nat m :: u16) \<noteq> - 1" by metis
  with closed all last show "is_ready c" by (simp add: is_ready_iff [OF inv])
  have "frame_range (ch_last_frame_number c) = map word_of_nat [0..<Suc m]"
    using last m by (simp add: frame_range_def u16_of_nat)
  then have "frame_data c = Some (concat (map (\<lambda>i. fr_data (the (map_of (ch_inputs c) i)))
      (map word_of_nat [0..<Suc m])))"
    using frame_data_complete [of c] all by simp
  also have "map (\<lambda>i. fr_data (the (map_of (ch_inputs c) i))) (map word_of_nat [0..<Suc m]) =
      map ((!) chunks) [0..<Suc m]"
    using entry by (simp del: upt_Suc)
  also have "\<dots> = chunks" using m(1) by (metis map_nth)
  finally show "frame_data c = Some (concat chunks)" .
qed

lemma ready_all_frames:
  assumes sp: "channel_split cid S l" and inv: "channel_inv c"
    and inputs: "set (ch_inputs c) = filed T" "T \<subseteq> S" and ready: "is_ready c"
  shows "T = S"
proof -
  have closed: "ch_closed c" and all: "\<And>k. k \<le> fr_number l \<Longrightarrow> map_of (ch_inputs c) k \<noteq> None"
    using ready split_closed(2) [OF inv sp inputs] by (auto simp: is_ready_iff [OF inv])
  have "f \<in> T" if f: "f \<in> S" for f
  proof -
    have "fr_number f \<le> fr_number l" using sp f by (simp add: channel_split_def)
    from all [OF this] obtain g where "g \<in> T" "fr_number g = fr_number f"
      using inputs(1) by (auto simp: map_of_None_fst filed_def)
    with channel_splitD(5) [OF sp f] inputs(2) show ?thesis by auto
  qed
  with inputs(2) show ?thesis by auto
qed

section \<open>The size estimate\<close>

definition inputs_size :: "(u16 \<times> frame) list \<Rightarrow> nat" where
  "inputs_size inputs = (\<Sum>(_, f)\<leftarrow>inputs. frame_size f)"

lemma foldl_subtract:
  "foldl (\<lambda>s (_, f). s - word_of_nat (frame_size f)) (x :: usize) inputs =
   x - word_of_nat (inputs_size inputs)"
  by (induction inputs arbitrary: x) (auto simp: inputs_size_def algebra_simps)

lemma estimate_grows:
  assumes "snd (add_frame c f b) = Inr ()" and "\<not> (fr_is_last f \<and> fr_number f < ch_highest_frame_number c)"
    and "ch_estimated_size c = word_of_nat (inputs_size (ch_inputs c))"
  shows "ch_estimated_size (fst (add_frame c f b)) =
    word_of_nat (inputs_size (ch_inputs (fst (add_frame c f b))))"
proof -
  have fresh: "map_of (ch_inputs c) (fr_number f) = None"
    using assms(1) by (simp add: add_frame_Ok_iff)
  have keep: "ch_inputs (close_with f c) = ch_inputs c"
    "ch_estimated_size (close_with f c) = ch_estimated_size c" if "fr_is_last f"
    using assms(2) that by (simp_all add: close_with_def Let_def)
  show ?thesis
    using add_frame_Ok [OF assms(1)] assms(3) fresh
    by (cases "fr_is_last f") (simp_all add: keep update_fresh inputs_size_def add.commute)
qed

lemma estimate_after_prune:
  assumes "snd (add_frame c f b) = Inr ()" and "fr_is_last f" and "fr_number f < ch_highest_frame_number c"
    and "ch_estimated_size c = word_of_nat (inputs_size (ch_inputs c))"
  shows "ch_estimated_size (fst (add_frame c f b)) = word_of_nat (frame_size f)"
  using add_frame_Ok [OF assms(1)] assms(2-4)
  by (simp add: close_with_def prune_inputs_def Let_def foldl_subtract)

section \<open>Properties\<close>

text \<open>
  C3. Frames of a channel may arrive in any order and any number of times: after any sequence of
  frames of a split channel (at most 65535 of them, added with whatever inclusion blocks), the
  channel is ready exactly if every frame of the split is among them, and then its data is the
  concatenation of the chunks.
\<close>

theorem channel_assembly:
  assumes "chunks \<noteq> []" and "length chunks \<le> 65535"
    and "fst ` set fbs \<subseteq> set (split_channel cid chunks)"
  shows "(is_ready (add_frames (channel_new cid ob) fbs) \<longleftrightarrow>
      fst ` set fbs = set (split_channel cid chunks)) \<and>
    (is_ready (add_frames (channel_new cid ob) fbs) \<longrightarrow>
      frame_data (add_frames (channel_new cid ob) fbs) = Some (concat chunks))"
proof -
  let ?c = "add_frames (channel_new cid ob) fbs"
  obtain m where m: "length chunks = Suc m" "m < 65535"
    using assms(1,2) by (cases "length chunks") auto
  then have sp: "channel_split cid (set (split_channel cid chunks)) (chunk_frame cid chunks m)"
    by (intro split_channel_split) auto
  have inv: "channel_inv ?c" by (simp add: channel_inv_add_frames)
  have inputs: "set (ch_inputs ?c) = filed (fst ` set fbs)"
    using add_frames_split [OF sp, of "channel_new cid ob" "{}" fbs] assms(3)
    by (simp add: filed_def)
  have "frame_data ?c = Some (concat chunks) \<and> is_ready ?c" if "fst ` set fbs = set (split_channel cid chunks)"
    using complete_channel [OF m inv] inputs that by simp
  moreover have "fst ` set fbs = set (split_channel cid chunks)" if "is_ready ?c"
    by (rule ready_all_frames [OF sp inv inputs assms(3) that])
  ultimately show ?thesis by blast
qed

theorem channel_assembly_witness:
  "is_ready (add_frames (channel_new 7 default_block_info)
     (map (\<lambda>f. (f, default_block_info)) (rev (split_channel 7 [[1, 2], [3], [4]])))) \<and>
   frame_data (add_frames (channel_new 7 default_block_info)
     (map (\<lambda>f. (f, default_block_info)) (rev (split_channel 7 [[1, 2], [3], [4]])))) = Some [1, 2, 3, 4]"
  using channel_assembly [of "[[1, 2], [3], [4]]"
      "map (\<lambda>f. (f, default_block_info)) (rev (split_channel 7 [[1, 2], [3], [4]]))" 7 default_block_info]
  by (simp add: image_image)

text \<open>
  C4. Every sequence of frames, of this or other channels and in any order, leaves a channel in
  which each buffered frame is filed under its own number and belongs to the channel, a closed
  channel holds its closing frame as the highest one and no other closing frame, and readiness is
  the presence of all frames up to the closing one, except that a channel closed by frame 65535
  is never ready (\<open>- 1\<close> is the number 65535).
\<close>

theorem channel_invariant:
  "channel_inv (add_frames (channel_new cid ob) fbs) \<and>
   (is_ready (add_frames (channel_new cid ob) fbs) \<longleftrightarrow>
      ch_closed (add_frames (channel_new cid ob) fbs) \<and>
      ch_last_frame_number (add_frames (channel_new cid ob) fbs) \<noteq> - 1 \<and>
      (\<forall>k. map_of (ch_inputs (add_frames (channel_new cid ob) fbs)) k = None \<longleftrightarrow>
           ch_last_frame_number (add_frames (channel_new cid ob) fbs) < k))"
proof -
  let ?c = "add_frames (channel_new cid ob) fbs"
  have inv: "channel_inv ?c" by (simp add: channel_inv_add_frames)
  moreover have "map_of (ch_inputs ?c) k = None" if "ch_closed ?c" "ch_last_frame_number ?c < k" for k
    using inv that channel_invD(3) [OF inv, of k] by (force simp: map_of_None_fst channel_inv_def)
  ultimately show ?thesis
    unfolding is_ready_iff [OF inv] by (metis linorder_not_le)
qed

text \<open>
  When a closing frame prunes the channel, the size estimate drops to the size of that frame
  alone: the sizes of the frames that are kept are subtracted with those of the frames removed.
  Every other accepted frame adds its own size.
\<close>

lemma close_prune_size:
  assumes "snd (add_frame c f b) = Inr ()"
    and "ch_estimated_size c = word_of_nat (inputs_size (ch_inputs c))"
  shows "ch_estimated_size (fst (add_frame c f b)) =
    (if fr_is_last f \<and> fr_number f < ch_highest_frame_number c then word_of_nat (frame_size f)
     else word_of_nat (inputs_size (ch_inputs (fst (add_frame c f b)))))"
  using estimate_grows [OF assms(1) _ assms(2)] estimate_after_prune [OF assms(1) _ _ assms(2)] by auto

definition pruned_example :: channel where
  "pruned_example = add_frames (channel_new 7 default_block_info)
     [(\<lparr>fr_id = 7, fr_number = 0, fr_data = [1, 2], fr_is_last = False\<rparr>, default_block_info),
      (\<lparr>fr_id = 7, fr_number = 2, fr_data = [3], fr_is_last = False\<rparr>, default_block_info)]"

lemma close_prune_size_witness:
  "ch_estimated_size (fst (add_frame pruned_example
     \<lparr>fr_id = 7, fr_number = 1, fr_data = [4], fr_is_last = True\<rparr> default_block_info)) = 201 \<and>
   inputs_size (ch_inputs (fst (add_frame pruned_example
     \<lparr>fr_id = 7, fr_number = 1, fr_data = [4], fr_is_last = True\<rparr> default_block_info))) = 403"
proof -
  let ?f = "\<lparr>fr_id = 7, fr_number = 1, fr_data = [4], fr_is_last = True\<rparr> :: frame"
  note eval = pruned_example_def add_frames_def channel_new_def channel_step_defs inputs_size_def
    frame_size_def FRAME_OVERHEAD_def
  have "snd (add_frame pruned_example ?f default_block_info) = Inr ()" by (simp add: eval)
  moreover have "ch_estimated_size pruned_example = word_of_nat (inputs_size (ch_inputs pruned_example))"
    by (simp add: eval)
  ultimately have "ch_estimated_size (fst (add_frame pruned_example ?f default_block_info)) = 201"
    by (subst close_prune_size) (simp_all add: eval)
  then show ?thesis by (simp add: eval)
qed

end
