(* ===== verification/Frame_Queue.thy ===== *)
theory Frame_Queue
  imports Pipeline_Types Frames "HOL-Library.Sublist"
begin

text \<open>
  The frame queue, \<^verbatim>\<open>crates/protocol/derive/src/stages/frame_queue.rs\<close>: parses the data of the
  L1 retrieval stage into frames, prunes them once Holocene is active and hands them out one by
  one.  The loop of \<^verbatim>\<open>prune\<close> edits the queue in place while an index moves over it; it is a
  function with the measure \<open>2 * length q - i\<close>.  \<open>None\<close> is a panic (an index into an empty queue,
  or the failing \<^verbatim>\<open>expect\<close>).

  Shown: pruning ends, never panics on a non-empty queue, and leaves a subsequence in which each
  frame continues its predecessor's channel or opens a new one after a closing frame; it keeps
  queues that are already of this form; and it can remove channels that are complete.
\<close>

section \<open>The stage\<close>

record 'p frame_queue_provider = "'p stage" +
  fqp_next_data :: "'p \<Rightarrow> 'p \<times> bytes pres"

record 'p frame_queue =
  fq_prev :: 'p
  fq_queue :: "frame list"
  fq_rollup_config :: rollup_config

definition frame_queue_new :: "'p \<Rightarrow> rollup_config \<Rightarrow> 'p frame_queue" where
  "frame_queue_new prev cfg = \<lparr>fq_prev = prev, fq_queue = [], fq_rollup_config = cfg\<rparr>"

definition fq_is_holocene_active :: "'p frame_queue \<Rightarrow> block_info \<Rightarrow> bool" where
  "fq_is_holocene_active fq origin = is_holocene_active (fq_rollup_config fq) (bi_timestamp origin)"

lemma position_first_le:
  assumes "position p xs = Some j" and "i < length xs" and "p (xs ! i)"
  shows "j \<le> i"
  using position_le [of i xs p] assms by auto

function prune_loop :: "frame list \<Rightarrow> nat \<Rightarrow> frame list option" where
  "prune_loop q i =
     (if q = [] then None
      else if i < length q - 1 then
        let prev_frame = q ! i;
            next_frame = q ! (i + 1);
            extends_channel = (fr_id prev_frame = fr_id next_frame)
        in if extends_channel \<and> fr_number prev_frame + 1 \<noteq> fr_number next_frame
           then prune_loop (remove_at (i + 1) q) i
           else if extends_channel \<and> fr_is_last prev_frame then prune_loop (remove_at (i + 1) q) i
           else if \<not> extends_channel \<and> fr_number next_frame \<noteq> 0
           then prune_loop (remove_at (i + 1) q) i
           else if \<not> extends_channel \<and> \<not> fr_is_last prev_frame \<and> fr_number next_frame = 0 then
             (case position (\<lambda>f. fr_id f = fr_id (q ! i)) q of
                None \<Rightarrow> None
              | Some first_frame \<Rightarrow>
                  prune_loop (drain first_frame (i + 1) q) (i - (i + 1 - first_frame)))
           else prune_loop q (i + 1)
      else Some q)"
  by pat_completeness auto
termination
proof (relation "measure (\<lambda>(q, i). 2 * length q - i)", goal_cases)
  case (5 q i pf nf ext first)
  then have "first \<le> i"
    using position_first_le [of "\<lambda>f. fr_id f = fr_id (q ! i)" q first i] by simp
  with 5 show ?case by (simp add: drain_def)
qed auto

declare prune_loop.simps [simp del]

definition prune :: "'p frame_queue \<Rightarrow> block_info \<Rightarrow> 'p frame_queue option" where
  "prune fq origin =
     (if \<not> fq_is_holocene_active fq origin then Some fq
      else map_option (\<lambda>q. fq\<lparr>fq_queue := q\<rparr>) (prune_loop (fq_queue fq) 0))"

definition load_frames :: "'p frame_queue_provider \<Rightarrow> 'p frame_queue \<Rightarrow> 'p frame_queue \<times> unit pres" where
  "load_frames P fq =
     (if fq_queue fq \<noteq> [] then (fq, Ok ())
      else pbind (via (\<lambda>p. fq\<lparr>fq_prev := p\<rparr>) (fqp_next_data P (fq_prev fq))) (\<lambda>fq data.
        case parse_frames data of
          Inl _ \<Rightarrow> (fq, Ok ())
        | Inr frames \<Rightarrow>
            let fq = fq\<lparr>fq_queue := fq_queue fq @ frames\<rparr>
            in pbind (ok_or fq (stg_origin P (fq_prev fq)) (crit MissingOrigin)) (\<lambda>fq origin.
                 case prune fq origin of
                   None \<Rightarrow> (fq, Panicked)
                 | Some fq \<Rightarrow> (fq, Ok ()))))"

definition next_frame :: "'p frame_queue_provider \<Rightarrow> 'p frame_queue \<Rightarrow> 'p frame_queue \<times> frame pres" where
  "next_frame P fq =
     pbind (load_frames P fq) (\<lambda>fq _.
       case fq_queue fq of
         [] \<Rightarrow> (fq, Err (temp NotEnoughData))
       | f # q \<Rightarrow> (fq\<lparr>fq_queue := q\<rparr>, Ok f))"

definition frame_queue_signal ::
    "'p frame_queue_provider \<Rightarrow> 'p frame_queue \<Rightarrow> signal \<Rightarrow> 'p frame_queue \<times> unit pres" where
  "frame_queue_signal P fq sig =
     pbind (via (\<lambda>p. fq\<lparr>fq_prev := p\<rparr>) (stg_signal P (fq_prev fq) sig)) (\<lambda>fq _.
       (fq\<lparr>fq_queue := []\<rparr>, Ok ()))"

record 'p next_frame_provider = "'p stage" +
  nfp_next_frame :: "'p \<Rightarrow> 'p \<times> frame pres"

definition frame_queue_ops :: "'p frame_queue_provider \<Rightarrow> 'p frame_queue next_frame_provider" where
  "frame_queue_ops P =
     \<lparr>stg_origin = (\<lambda>fq. stg_origin P (fq_prev fq)),
      stg_advance_origin = (\<lambda>fq. via (\<lambda>p. fq\<lparr>fq_prev := p\<rparr>) (stg_advance_origin P (fq_prev fq))),
      stg_signal = frame_queue_signal P,
      nfp_next_frame = next_frame P\<rparr>"

section \<open>What pruning leaves\<close>

definition follows :: "frame \<Rightarrow> frame \<Rightarrow> bool" where
  "follows f g \<longleftrightarrow>
     (if fr_id f = fr_id g then fr_number f + 1 = fr_number g \<and> \<not> fr_is_last f
      else fr_number g = 0 \<and> fr_is_last f)"

definition chained :: "frame list \<Rightarrow> bool" where
  "chained q \<longleftrightarrow> (\<forall>i. Suc i < length q \<longrightarrow> follows (q ! i) (q ! Suc i))"

text \<open>The first \<open>i\<close> neighbours are in order: what the loop has established at index \<open>i\<close>.\<close>

definition chained_to :: "nat \<Rightarrow> frame list \<Rightarrow> bool" where
  "chained_to i q \<longleftrightarrow> (\<forall>j<i. Suc j < length q \<longrightarrow> follows (q ! j) (q ! Suc j))"

text \<open>
  One step of the loop as a case distinction: the neighbour is in order, the next frame goes, or
  the run of the previous frame's channel goes.
\<close>

lemma prune_loop_step:
  assumes "Suc i < length q"
  shows "prune_loop q i =
    (if follows (q ! i) (q ! Suc i) then prune_loop q (Suc i)
     else if fr_id (q ! i) \<noteq> fr_id (q ! Suc i) \<and> fr_number (q ! Suc i) = 0 then
       (case position (\<lambda>f. fr_id f = fr_id (q ! i)) q of
          None \<Rightarrow> None
        | Some k \<Rightarrow> prune_loop (drain k (Suc i) q) (i - (Suc i - k)))
     else prune_loop (remove_at (Suc i) q) i)"
proof -
  have "q \<noteq> []" and "i < length q - 1" using assms by auto
  then show ?thesis
    by (subst prune_loop.simps, cases "fr_id (q ! i) = fr_id (q ! Suc i)"; cases "fr_is_last (q ! i)";
        cases "fr_number (q ! Suc i) = 0"; cases "fr_number (q ! i) + 1 = fr_number (q ! Suc i)")
      (simp_all only: follows_def Let_def if_False if_True simp_thms add_Suc_right add_0_right One_nat_def)
qed

lemma prune_loop_end: "q \<noteq> [] \<Longrightarrow> \<not> Suc i < length q \<Longrightarrow> prune_loop q i = Some q"
  by (subst prune_loop.simps) auto

lemma chained_to_remove:
  assumes "chained_to i q" and "Suc i < length q"
  shows "chained_to i (remove_at (Suc i) q)"
  using assms by (auto simp: chained_to_def remove_at_def nth_append)

lemma chained_to_drain:
  assumes "chained_to i q" and "Suc i < length q" and "k \<le> i"
  shows "chained_to (i - (Suc i - k)) (drain k (Suc i) q)"
  using assms by (auto simp: chained_to_def drain_def nth_append)

lemma subseq_drain:
  assumes "i \<le> j"
  shows "subseq (drain i j xs) xs"
proof -
  have "suffix (drop j xs) (drop i xs)"
    using assms by (metis le_add_diff_inverse2 drop_drop suffix_drop)
  then have "subseq (take i xs @ drop j xs) (take i xs @ drop i xs)"
    by (intro list_emb_append_mono suffix_imp_subseq) simp_all
  then show ?thesis by (simp add: drain_def)
qed

lemma remove_at_drain: "remove_at i xs = drain i (Suc i) xs"
  by (simp add: remove_at_def drain_def)

lemma drain_run:
  assumes "Suc i < length q"
  obtains k where "position (\<lambda>f. fr_id f = fr_id (q ! i)) q = Some k" "k \<le> i"
  using position_le [of i q "\<lambda>f. fr_id f = fr_id (q ! i)"] assms by auto

lemma prune_loop_result:
  assumes "q \<noteq> []" and "chained_to i q"
  shows "\<exists>q'. prune_loop q i = Some q' \<and> chained q' \<and> subseq q' q \<and> q' \<noteq> []"
  using assms
proof (induction "2 * length q - i" arbitrary: q i rule: less_induct)
  case less
  show ?case
  proof (cases "Suc i < length q")
    case False
    then have "chained q" using less.prems(2) by (auto simp: chained_def chained_to_def)
    then show ?thesis using prune_loop_end [OF less.prems(1) False] less.prems(1) by simp
  next
    case True
    obtain k where k: "position (\<lambda>f. fr_id f = fr_id (q ! i)) q = Some k" "k \<le> i"
      using True by (rule drain_run)
    consider (keep) "follows (q ! i) (q ! Suc i)" "prune_loop q i = prune_loop q (Suc i)"
      | (run) "prune_loop q i = prune_loop (drain k (Suc i) q) (i - (Suc i - k))"
      | (drop) "prune_loop q i = prune_loop (remove_at (Suc i) q) i"
      using prune_loop_step [OF True] k(1) by (auto split: if_splits)
    then show ?thesis
    proof cases
      case keep
      then have "chained_to (Suc i) q"
        using less.prems(2) by (auto simp: chained_to_def less_Suc_eq)
      with keep(2) show ?thesis using True less.prems(1) by (auto intro: less.hyps)
    next
      case run
      let ?q = "drain k (Suc i) q"
      have "\<exists>q'. prune_loop ?q (i - (Suc i - k)) = Some q' \<and> chained q' \<and> subseq q' ?q \<and> q' \<noteq> []"
        using True k(2) less.prems(2)
        by (intro less.hyps chained_to_drain) (auto simp: drain_def)
      with run k(2) show ?thesis
        using subseq_drain [of k "Suc i" q] by (metis le_Suc_eq subseq_order.order_trans)
    next
      case drop
      let ?q = "remove_at (Suc i) q"
      have "\<exists>q'. prune_loop ?q i = Some q' \<and> chained q' \<and> subseq q' ?q \<and> q' \<noteq> []"
        using True less.prems(2)
        by (intro less.hyps chained_to_remove) (auto simp: remove_at_def)
      with drop show ?thesis
        using subseq_drain [of "Suc i" "Suc (Suc i)" q]
        by (metis le_Suc_eq remove_at_drain subseq_order.order_trans)
    qed
  qed
qed

lemma prune_loop_chained:
  assumes "q \<noteq> []" and "chained q"
  shows "prune_loop q i = Some q"
proof (induction "length q - i" arbitrary: i)
  case 0
  then show ?case using assms(1) by (intro prune_loop_end) auto
next
  case (Suc n)
  show ?case
  proof (cases "Suc i < length q")
    case True
    with assms(2) have "follows (q ! i) (q ! Suc i)" by (simp add: chained_def)
    with True Suc show ?thesis by (simp add: prune_loop_step)
  qed (simp add: assms(1) prune_loop_end)
qed

section \<open>The reference algorithm\<close>

text \<open>
  Holocene's rule, frame by frame: a frame that continues what has been kept is kept; the first
  frame of a new channel drops the unfinished channel just before it, and only that one; any
  other frame is dropped.  The frames kept so far are held in reverse.
\<close>

function insert_frame :: "frame list \<Rightarrow> frame \<Rightarrow> frame list" where
  "insert_frame [] f = [f]"
| "insert_frame (g # acc) f =
     (if follows g f then f # g # acc
      else if fr_id g \<noteq> fr_id f \<and> fr_number f = 0
        then insert_frame (dropWhile (\<lambda>h. fr_id h = fr_id g) acc) f
      else g # acc)"
  by pat_completeness auto
termination
  by (relation "measure (\<lambda>(acc, f). length acc)") (auto simp: le_imp_less_Suc length_dropWhile_le)

definition prune_spec :: "frame list \<Rightarrow> frame list" where
  "prune_spec q = rev (foldl insert_frame [] q)"

text \<open>No channel id comes back after another channel's frames.\<close>

definition grouped :: "frame list \<Rightarrow> bool" where
  "grouped q \<longleftrightarrow> (\<forall>a b c. subseq [a, b, c] q \<longrightarrow> fr_id a = fr_id c \<longrightarrow> fr_id b = fr_id a)"

lemma grouped_subseq: "grouped q \<Longrightarrow> subseq q' q \<Longrightarrow> grouped q'"
  unfolding grouped_def by (meson subseq_order.order_trans)

lemma subseq_nth_drop:
  assumes "i \<le> j" and "j < length q" and "subseq xs (drop (Suc j) q)"
  shows "subseq (q ! j # xs) (drop i q)"
proof -
  have "suffix (drop j q) (drop i q)"
    using assms(1) by (metis le_add_diff_inverse2 drop_drop suffix_drop)
  moreover have "subseq (q ! j # xs) (drop j q)"
    using assms(2,3) by (simp flip: Cons_nth_drop_Suc)
  ultimately show ?thesis
    by (meson subseq_order.order_trans suffix_imp_subseq)
qed

lemma grouped_nth:
  assumes "grouped q" and "i \<le> j" "j \<le> k" "k < length q" and "fr_id (q ! i) = fr_id (q ! k)"
  shows "fr_id (q ! j) = fr_id (q ! i)"
proof (cases "i = j \<or> j = k")
  case False
  then have "subseq [q ! i, q ! j, q ! k] (drop 0 q)"
    using assms(2-4) by (intro subseq_nth_drop) auto
  with assms show ?thesis unfolding grouped_def by (metis drop0)
qed (use assms in auto)

lemma grouped_run:
  assumes "grouped q" and i: "i < length q" and k: "position (\<lambda>f. fr_id f = fr_id (q ! i)) q = Some k"
  shows "rev (take k q) = dropWhile (\<lambda>h. fr_id h = fr_id (q ! i)) (rev (take (Suc i) q))"
proof -
  let ?P = "\<lambda>h. fr_id h = fr_id (q ! i)"
  have ki: "k \<le> i" using position_first_le [OF k i] by simp
  have at: "?P (q ! k)" and before: "\<forall>j<k. \<not> ?P (q ! j)" using position_Some [OF k] by auto
  have "take (Suc i) q = take k q @ drop k (take (Suc i) q)"
    using ki by (metis append_take_drop_id le_SucI min.absorb1 take_take)
  then have "rev (take (Suc i) q) = rev (drop k (take (Suc i) q)) @ rev (take k q)"
    by (metis rev_append)
  moreover have "\<forall>x\<in>set (rev (drop k (take (Suc i) q))). ?P x"
  proof
    fix x assume "x \<in> set (rev (drop k (take (Suc i) q)))"
    then obtain n where "n < Suc i - k" "x = q ! (k + n)"
      using i by (auto simp: in_set_conv_nth)
    then show "?P x" using grouped_nth [OF assms(1), of k "k + n" i] at i by simp
  qed
  moreover have "dropWhile ?P (rev (take k q)) = rev (take k q)"
  proof (cases k)
    case (Suc m)
    then have "rev (take k q) = q ! m # rev (take m q)"
      using ki i by (simp add: take_Suc_conv_app_nth)
    with before Suc show ?thesis by simp
  qed simp
  ultimately show ?thesis
    using dropWhile_append2 [of "rev (drop k (take (Suc i) q))" ?P "rev (take k q)"] by metis
qed

lemma insert_frame_run:
  assumes "\<not> follows g f" "fr_id g \<noteq> fr_id f" "fr_number f = 0"
  shows "insert_frame (g # acc) f = insert_frame (dropWhile (\<lambda>h. fr_id h = fr_id g) (g # acc)) f"
  using assms by simp

lemma prune_loop_spec:
  assumes "grouped q" and "i < length q"
  shows "prune_loop q i = Some (rev (foldl insert_frame (rev (take (Suc i) q)) (drop (Suc i) q)))"
  using assms
proof (induction "2 * length q - i" arbitrary: q i rule: less_induct)
  case less
  show ?case
  proof (cases "Suc i < length q")
    case False
    then have "Suc i = length q" using less.prems(2) by simp
    then show ?thesis using prune_loop_end [of q i] less.prems(2) by (cases q) auto
  next
    case True
    let ?g = "q ! i" and ?f = "q ! Suc i"
    have acc: "rev (take (Suc i) q) = ?g # rev (take i q)"
      using True by (simp add: take_Suc_conv_app_nth)
    have rest: "drop (Suc i) q = ?f # drop (Suc (Suc i)) q"
      using True by (simp add: Cons_nth_drop_Suc)
    have len: "length q - i \<ge> 2" using True by simp
    consider (keep) "follows ?g ?f"
      | (run) "\<not> follows ?g ?f" "fr_id ?g \<noteq> fr_id ?f" "fr_number ?f = 0"
      | (drop) "\<not> follows ?g ?f" "\<not> (fr_id ?g \<noteq> fr_id ?f \<and> fr_number ?f = 0)"
      by blast
    then show ?thesis
    proof cases
      case keep
      have "prune_loop q (Suc i) =
          Some (rev (foldl insert_frame (rev (take (Suc (Suc i)) q)) (drop (Suc (Suc i)) q)))"
        using less.prems(1) True by (intro less.hyps) auto
      moreover have "rev (take (Suc (Suc i)) q) = ?f # ?g # rev (take i q)"
        using True by (simp add: take_Suc_conv_app_nth)
      ultimately show ?thesis using keep by (simp add: prune_loop_step [OF True] acc rest)
    next
      case drop
      let ?q = "remove_at (Suc i) q"
      have "prune_loop ?q i = Some (rev (foldl insert_frame (rev (take (Suc i) ?q)) (drop (Suc i) ?q)))"
        using less.prems(1) True subseq_drain [of "Suc i" "Suc (Suc i)" q]
        by (intro less.hyps) (auto simp: remove_at_drain intro: grouped_subseq, simp_all add: drain_def)
      moreover have "take (Suc i) ?q = take (Suc i) q" "drop (Suc i) ?q = drop (Suc (Suc i)) q"
        using True by (simp_all add: remove_at_def)
      ultimately show ?thesis
        using drop by (auto simp: prune_loop_step [OF True] acc rest)
    next
      case run
      obtain k where k: "position (\<lambda>f. fr_id f = fr_id ?g) q = Some k" "k \<le> i"
        using True by (rule drain_run)
      let ?q = "drain k (Suc i) q" and ?i = "i - (Suc i - k)"
      have step: "prune_loop q i = prune_loop ?q ?i"
        using prune_loop_step [OF True] run k(1) by simp
      have IH: "prune_loop ?q ?i = Some (rev (foldl insert_frame (rev (take (Suc ?i) ?q)) (drop (Suc ?i) ?q)))"
        using less.prems(1) True k(2) subseq_drain [of k "Suc i" q]
        by (intro less.hyps) (auto intro: grouped_subseq simp: drain_def)
      have fold: "foldl insert_frame (rev (take (Suc ?i) ?q)) (drop (Suc ?i) ?q) =
          foldl insert_frame (insert_frame (rev (take k q)) ?f) (drop (Suc (Suc i)) q)"
      proof (cases k)
        case 0
        then show ?thesis using True by (simp add: drain_def rest)
      next
        case (Suc m)
        then have "Suc ?i = k" using k(2) by simp
        then show ?thesis using True k(2) by (simp add: drain_def rest)
      qed
      show ?thesis
        unfolding step IH fold rest foldl_Cons acc insert_frame_run [OF run] grouped_run [OF less.prems(1) less.prems(2) k(1)]
        by simp
    qed
  qed
qed

section \<open>The stage's contract\<close>

lemma prune_queue:
  assumes "fq_queue fq \<noteq> []"
  obtains q where "prune fq origin = Some (fq\<lparr>fq_queue := q\<rparr>)" "subseq q (fq_queue fq)" "q \<noteq> []"
proof (cases "fq_is_holocene_active fq origin")
  case True
  then show thesis
    using prune_loop_result [OF assms, of 0] that by (auto simp: prune_def chained_to_def)
next
  case False
  then show thesis using that [of "fq_queue fq"] assms by (simp add: prune_def)
qed

text \<open>The first frame of another channel while the channel of \<open>f\<close> is unfinished.\<close>

lemma prune_loop_walk:
  assumes "chained (p @ [f])"
  shows "prune_loop (p @ f # zs) 0 = prune_loop (p @ f # zs) (length p)"
proof -
  have "i \<le> length p \<Longrightarrow> prune_loop (p @ f # zs) 0 = prune_loop (p @ f # zs) i" for i
  proof (induction i)
    case (Suc i)
    have "follows ((p @ [f]) ! i) ((p @ [f]) ! Suc i)"
      using assms Suc.prems by (simp add: chained_def)
    then have "follows ((p @ f # zs) ! i) ((p @ f # zs) ! Suc i)"
      using Suc.prems by (simp add: nth_append split: if_splits)
    with Suc show ?case by (simp add: prune_loop_step)
  qed simp
  then show ?thesis by simp
qed

lemma chained_appendD:
  assumes "chained (p @ q)"
  shows "chained p"
  unfolding chained_def
proof (intro allI impI)
  fix i assume "Suc i < length p"
  then show "follows (p ! i) (p ! Suc i)"
    using assms [unfolded chained_def, rule_format, of i] by (simp add: nth_append)
qed

lemma prune_loop_supersede:
  assumes "chained (xs @ ys @ [f])"
    and "\<forall>x\<in>set xs. fr_id x \<noteq> fr_id f" and "fr_id (hd (ys @ [f])) = fr_id f"
    and "\<not> fr_is_last f" and "fr_id g \<noteq> fr_id f" and "fr_number g = 0"
  shows "prune_loop (xs @ ys @ f # g # zs) 0 = prune_loop (xs @ g # zs) 0"
proof -
  let ?q = "xs @ ys @ f # g # zs" and ?i = "length xs + length ys"
  have at: "?q ! ?i = f" "?q ! Suc ?i = g"
    using nth_append_length_plus [of xs "ys @ f # g # zs" "length ys"]
      nth_append_length_plus [of xs "ys @ f # g # zs" "Suc (length ys)"]
    by (simp_all add: nth_append)
  have pos: "position (\<lambda>h. fr_id h = fr_id f) ?q = Some (length xs)"
    using assms(2,3) by (induction xs) (cases ys; simp)+
  have "prune_loop ?q 0 = prune_loop ?q ?i"
    using prune_loop_walk [of "xs @ ys" f "g # zs"] assms(1) by simp
  also have "\<dots> = prune_loop (drain (length xs) (Suc ?i) ?q) (?i - (Suc ?i - length xs))"
    using assms(4-6) pos by (subst prune_loop_step) (simp_all add: at follows_def)
  also have "\<dots> = prune_loop (xs @ g # zs) (length xs - 1)"
    by (simp add: drain_def)
  also have "\<dots> = prune_loop (xs @ g # zs) 0"
  proof (cases xs rule: rev_cases)
    case (snoc ps p)
    then show ?thesis
      using prune_loop_walk [of ps p "g # zs"] chained_appendD [of xs "ys @ [f]"] assms(1) by simp
  qed simp
  finally show ?thesis .
qed

lemma insert_frames_chained: "chained p \<Longrightarrow> foldl insert_frame [] p = rev p"
proof (induction p rule: rev_induct)
  case (snoc f p)
  have IH: "foldl insert_frame [] p = rev p" using snoc chained_appendD by blast
  show ?case
  proof (cases p rule: rev_cases)
    case (snoc ps e)
    then have "follows e f"
      using snoc.prems [unfolded chained_def, rule_format, of "length ps"] by (simp add: nth_append)
    with IH snoc show ?thesis by simp
  qed simp
qed simp

lemma prune_spec_supersede:
  assumes "chained (p @ [f])" and "\<not> fr_is_last f" and "fr_id g \<noteq> fr_id f" and "fr_number g = 0"
  shows "prune_spec (p @ f # g # zs) =
    prune_spec (rev (dropWhile (\<lambda>h. fr_id h = fr_id f) (rev p)) @ g # zs)"
proof -
  let ?k = "rev (dropWhile (\<lambda>h. fr_id h = fr_id f) (rev p))"
  have "rev p = takeWhile (\<lambda>h. fr_id h = fr_id f) (rev p) @ rev ?k" by simp
  then have "p = ?k @ rev (takeWhile (\<lambda>h. fr_id h = fr_id f) (rev p))"
    by (metis rev_append rev_rev_ident)
  then have "chained ?k" using chained_appendD assms(1) by metis
  then have kept: "foldl insert_frame [] ?k = rev ?k" by (rule insert_frames_chained)
  have "foldl insert_frame [] (p @ [f]) = f # rev p"
    using insert_frames_chained [OF assms(1)] by simp
  moreover have "insert_frame (f # rev p) g = insert_frame (rev ?k) g"
    using assms(2-4) by (simp add: follows_def)
  ultimately show ?thesis by (simp add: prune_spec_def kept)
qed

locale frame_queue_stage = safe_pull P I "\<lambda>_ :: unit. fqp_next_data P"
  for P :: "'p frame_queue_provider" and I
begin

lemma load_frames_all:
  assumes "I (fq_prev fq)"
  shows "snd (load_frames P fq) \<noteq> Panicked \<and>
    stg_origin P (fq_prev (fst (load_frames P fq))) = stg_origin P (fq_prev fq) \<and>
    I (fq_prev (fst (load_frames P fq)))"
proof -
  obtain p r where d: "fqp_next_data P (fq_prev fq) = (p, r)" by fastforce
  have org: "stg_origin P p = stg_origin P (fq_prev fq)" and safe: "r \<noteq> Panicked" and inv: "I p"
    using pull_origin [OF assms] pull_safe [OF assms] pull_inv [OF assms] d by simp_all
  show ?thesis
  proof (cases "fq_queue fq = [] \<and> (\<exists>data. r = Ok data \<and> (\<exists>fs. parse_frames data = Inr fs))")
    case True
    then obtain data fs where t: "fq_queue fq = []" "r = Ok data" "parse_frames data = Inr fs" by auto
    let ?fq = "fq\<lparr>fq_prev := p, fq_queue := fs\<rparr>"
    have fs: "fq_queue ?fq \<noteq> []" using parse_frames_Inr(1) [OF t(3)] by simp
    show ?thesis
    proof (cases "stg_origin P p")
      case None
      with t d org inv show ?thesis by (simp add: load_frames_def Let_def)
    next
      case (Some b)
      obtain q where "prune ?fq b = Some (?fq\<lparr>fq_queue := q\<rparr>)"
        using prune_queue [OF fs, of b] by metis
      with Some t d org inv show ?thesis by (simp add: load_frames_def Let_def)
    qed
  next
    case False
    with d org safe inv assms show ?thesis
      by (cases r) (auto simp: load_frames_def Let_def split: sum.splits)
  qed
qed

lemma next_frame_safe:
  assumes "I (fq_prev fq)"
  shows "snd (next_frame P fq) \<noteq> Panicked"
    "stg_origin P (fq_prev (fst (next_frame P fq))) = stg_origin P (fq_prev fq)"
    "I (fq_prev (fst (next_frame P fq)))"
  using load_frames_all [OF assms]
  by (cases "load_frames P fq"; cases "snd (load_frames P fq)";
      auto simp: next_frame_def split: list.splits)+

end

lemma frame_queue_signal_prev:
  "fq_prev (fst (frame_queue_signal P fq s)) = fst (stg_signal P (fq_prev fq) s)"
  "snd (stg_signal P (fq_prev fq) s) = Ok () \<Longrightarrow> snd (frame_queue_signal P fq s) = Ok ()"
  by (cases "stg_signal P (fq_prev fq) s"; cases "snd (stg_signal P (fq_prev fq) s)";
      simp add: frame_queue_signal_def)+

lemma frame_queue_contract:
  "stage_contract P I \<Longrightarrow> stage_contract (frame_queue_ops P) (\<lambda>fq. I (fq_prev fq))"
  by (erule stage_contract_lift_prev [where prev = fq_prev])
    (simp_all add: frame_queue_ops_def via_def frame_queue_signal_prev)

sublocale frame_queue_stage \<subseteq>
  fq: safe_pull "frame_queue_ops P" "\<lambda>fq. I (fq_prev fq)" "\<lambda>_ :: unit. nfp_next_frame (frame_queue_ops P)"
  by (rule safe_pull.intro, rule stable_pull.intro, rule frame_queue_contract, rule stage_contract_axioms)
    (unfold_locales, simp_all add: frame_queue_ops_def next_frame_safe)

section \<open>Properties\<close>

text \<open>
  Under Holocene, pruning a non-empty queue ends without a panic in a non-empty subsequence of
  it in which every frame continues its predecessor's unfinished channel with the next number or
  opens another channel, with number 0, after a closing frame; pruning again changes nothing.
\<close>

lemma prune_well_formed:
  assumes "fq_is_holocene_active fq origin" and "fq_queue fq \<noteq> []"
  shows "\<exists>q. prune fq origin = Some (fq\<lparr>fq_queue := q\<rparr>) \<and> q \<noteq> [] \<and> chained q \<and>
    subseq q (fq_queue fq) \<and> prune (fq\<lparr>fq_queue := q\<rparr>) origin = Some (fq\<lparr>fq_queue := q\<rparr>)"
  using prune_loop_result [OF assms(2), of 0] prune_loop_chained assms(1)
  by (auto simp: prune_def chained_to_def fq_is_holocene_active_def)

definition example_fq :: "frame list \<Rightarrow> unit frame_queue" where
  "example_fq q = \<lparr>fq_prev = (), fq_queue = q, fq_rollup_config = example_config\<rparr>"

definition late_block :: block_info where
  "late_block = \<lparr>bi_hash = 1, bi_number = 50, bi_parent_hash = 2, bi_timestamp = 1000\<rparr>"

lemma example_fq_holocene: "fq_is_holocene_active (example_fq q) late_block"
  by (simp add: fq_is_holocene_active_def example_fq_def late_block_def cfg_defs reached_def
      example_config_defs)

lemma prune_well_formed_witness:
  "\<exists>q. prune (example_fq [example_frame 7 0 False, example_frame 7 2 True]) late_block =
       Some (example_fq [example_frame 7 0 False, example_frame 7 2 True]\<lparr>fq_queue := q\<rparr>) \<and>
     q \<noteq> [] \<and> chained q"
  using prune_well_formed [OF example_fq_holocene, of "[example_frame 7 0 False, example_frame 7 2 True]"]
  by (auto simp: example_fq_def)

text \<open>
  C6. As long as no channel's frames come back after those of another channel, pruning is
  Holocene's frame rule: keep what continues or properly opens a channel, let the first frame of
  a new channel drop the unfinished channel before it, drop everything else.
\<close>

theorem prune_refines:
  assumes "fq_is_holocene_active fq origin" and "fq_queue fq \<noteq> []" and "grouped (fq_queue fq)"
  shows "prune fq origin = Some (fq\<lparr>fq_queue := prune_spec (fq_queue fq)\<rparr>)"
proof -
  obtain f q where q: "fq_queue fq = f # q" using assms(2) by (cases "fq_queue fq") auto
  then have "prune_loop (fq_queue fq) 0 = Some (prune_spec (fq_queue fq))"
    using prune_loop_spec [OF assms(3), of 0] by (simp add: prune_spec_def)
  with assms(1) show ?thesis by (simp add: prune_def)
qed

theorem prune_refines_witness:
  "prune (example_fq [example_frame 7 0 False, example_frame 8 0 True]) late_block =
   Some (example_fq [example_frame 8 0 True])"
proof -
  let ?q = "[example_frame 7 0 False, example_frame 8 0 True]"
  have "\<not> subseq [x, y, z] ?q" for x y z
    using list_emb_length [of "(=)" "[x, y, z]" ?q] by auto
  then have "grouped ?q" unfolding grouped_def by blast
  then have "grouped (fq_queue (example_fq ?q))" by (simp add: example_fq_def)
  from prune_refines [OF example_fq_holocene _ this]
  have "prune (example_fq ?q) late_block = Some (example_fq ?q\<lparr>fq_queue := prune_spec ?q\<rparr>)"
    by (simp add: example_fq_def)
  moreover have "prune_spec ?q = [example_frame 8 0 True]"
    by (simp add: prune_spec_def follows_def example_frame_def)
  ultimately show ?thesis by (simp add: example_fq_def)
qed

text \<open>
  C7. When a channel's id comes back, the code departs from that rule, for every queue.  Take
  frames in order \<open>xs @ ys @ [f]\<close> whose first frame of \<open>f\<close>'s id is the first of \<open>ys @ [f]\<close>, and
  after them the first frame \<open>g\<close> of another channel while \<open>f\<close>'s channel is unfinished.  Pruning
  goes on as if all of \<open>ys @ [f]\<close> had never been queued, complete channels of the same id and of
  other ids included, because the drain starts at the first frame of \<open>f\<close>'s id in the whole queue;
  the rule removes only the frames of \<open>f\<close>'s id that directly precede \<open>g\<close>.
\<close>

theorem prune_drops_complete_channels:
  assumes "fq_is_holocene_active fq origin"
    and "fq_queue fq = xs @ ys @ f # g # zs"
    and "chained (xs @ ys @ [f])"
    and "\<forall>x\<in>set xs. fr_id x \<noteq> fr_id f" and "fr_id (hd (ys @ [f])) = fr_id f"
    and "\<not> fr_is_last f" and "fr_id g \<noteq> fr_id f" and "fr_number g = 0"
  shows "prune fq origin = prune (fq\<lparr>fq_queue := xs @ g # zs\<rparr>) origin \<and>
    prune_spec (fq_queue fq) =
      prune_spec (rev (dropWhile (\<lambda>h. fr_id h = fr_id f) (rev (xs @ ys))) @ g # zs)"
proof
  have "prune_loop (xs @ ys @ f # g # zs) 0 = prune_loop (xs @ g # zs) 0"
    using assms(3-8) by (rule prune_loop_supersede)
  moreover have "fq_is_holocene_active (fq\<lparr>fq_queue := xs @ g # zs\<rparr>) origin"
    using assms(1) by (simp add: fq_is_holocene_active_def)
  ultimately show "prune fq origin = prune (fq\<lparr>fq_queue := xs @ g # zs\<rparr>) origin"
    using assms(1,2) by (simp add: prune_def)
  show "prune_spec (fq_queue fq) =
      prune_spec (rev (dropWhile (\<lambda>h. fr_id h = fr_id f) (rev (xs @ ys))) @ g # zs)"
    using prune_spec_supersede [of "xs @ ys" f g zs] assms by simp
qed

theorem prune_drops_complete_channels_witness:
  "prune (example_fq [example_frame 1 0 True, example_frame 2 0 True, example_frame 1 0 False,
     example_frame 3 0 True]) late_block = Some (example_fq [example_frame 3 0 True]) \<and>
   prune_spec [example_frame 1 0 True, example_frame 2 0 True, example_frame 1 0 False,
     example_frame 3 0 True] = [example_frame 1 0 True, example_frame 2 0 True, example_frame 3 0 True]"
proof -
  let ?ys = "[example_frame 1 0 True, example_frame 2 0 True]"
  have in_order: "chained ([] @ ?ys @ [example_frame 1 0 False])"
    by (auto simp: chained_def follows_def example_frame_def less_Suc_eq)
  have single: "prune_loop [example_frame 3 0 True] 0 = Some [example_frame 3 0 True]"
    by (simp add: prune_loop_end)
  show ?thesis
    using prune_drops_complete_channels [OF example_fq_holocene _ in_order, of
        "?ys @ [example_frame 1 0 False, example_frame 3 0 True]" "example_frame 3 0 True" "[]"]
      example_fq_holocene [of "[example_frame 3 0 True]"] single
    by (simp add: example_fq_def example_frame_def prune_def prune_spec_def follows_def)
qed

end
