(* ===== verification/L1_Retrieval.thy ===== *)
theory L1_Retrieval
  imports Traversal Frame_Queue
begin

text \<open>
  L1 retrieval, \<^verbatim>\<open>crates/protocol/derive/src/stages/l1_retrieval.rs\<close>: pulls the data of the
  current L1 block from the data availability provider, a parameter given by its two operations.

  Shown: the stage meets the contract of a stage and turns a safe pull of blocks into a safe pull
  of data, so that the frame queue's guarantees hold on top of either traversal stage; what a
  reset leaves to be read.
\<close>

section \<open>The stage\<close>

record 'd data_availability_provider =
  dap_next :: "'d \<Rightarrow> block_info \<Rightarrow> address \<Rightarrow> 'd \<times> (pipeline_error_kind + bytes)"
  dap_clear :: "'d \<Rightarrow> 'd"

record ('d, 'p) l1_retrieval =
  lr_prev :: 'p
  lr_provider :: 'd
  lr_next :: "block_info option"

definition l1_retrieval_new :: "'p \<Rightarrow> 'd \<Rightarrow> ('d, 'p) l1_retrieval" where
  "l1_retrieval_new prev provider = \<lparr>lr_prev = prev, lr_provider = provider, lr_next = None\<rparr>"

definition l1_fetch_next ::
    "'p l1_retrieval_provider \<Rightarrow> ('d, 'p) l1_retrieval \<Rightarrow> ('d, 'p) l1_retrieval \<times> block_info pres" where
  "l1_fetch_next P l =
     (case lr_next l of
        Some b \<Rightarrow> (l, Ok b)
      | None \<Rightarrow>
          pbind (via (\<lambda>p. l\<lparr>lr_prev := p\<rparr>) (lrp_next_l1_block P (lr_prev l))) (\<lambda>l b.
          pbind (ok_or l b (temp MissingL1Data)) (\<lambda>l b. (l\<lparr>lr_next := Some b\<rparr>, Ok b))))"

definition l1_retrieval_next_data ::
    "'d data_availability_provider \<Rightarrow> 'p l1_retrieval_provider \<Rightarrow> ('d, 'p) l1_retrieval \<Rightarrow>
     ('d, 'p) l1_retrieval \<times> bytes pres" where
  "l1_retrieval_next_data D P l =
     pbind (l1_fetch_next P l) (\<lambda>l b.
       case dap_next D (lr_provider l) b (lrp_batcher_addr P (lr_prev l)) of
         (d, Inr data) \<Rightarrow> (l\<lparr>lr_provider := d\<rparr>, Ok data)
       | (d, Inl e) \<Rightarrow>
           (if e = temp Eof then (l\<lparr>lr_next := None, lr_provider := dap_clear D d\<rparr>, Err e)
            else (l\<lparr>lr_provider := d\<rparr>, Err e)))"

definition l1_retrieval_signal ::
    "'p l1_retrieval_provider \<Rightarrow> ('d, 'p) l1_retrieval \<Rightarrow> signal \<Rightarrow> ('d, 'p) l1_retrieval \<times> unit pres" where
  "l1_retrieval_signal P l sig =
     pbind (via (\<lambda>p. l\<lparr>lr_prev := p\<rparr>) (stg_signal P (lr_prev l) sig)) (\<lambda>l _.
       (case sig of
          signal.Reset r \<Rightarrow> (l\<lparr>lr_next := Some (rs_l1_origin r)\<rparr>, Ok ())
        | Activation a \<Rightarrow> (l\<lparr>lr_next := Some (as_l1_origin a)\<rparr>, Ok ())
        | _ \<Rightarrow> (l, Ok ())))"

definition l1_retrieval_ops ::
    "'d data_availability_provider \<Rightarrow> 'p l1_retrieval_provider \<Rightarrow> ('d, 'p) l1_retrieval frame_queue_provider" where
  "l1_retrieval_ops D P =
     \<lparr>stg_origin = (\<lambda>l. stg_origin P (lr_prev l)),
      stg_advance_origin = (\<lambda>l. via (\<lambda>p. l\<lparr>lr_prev := p\<rparr>) (stg_advance_origin P (lr_prev l))),
      stg_signal = l1_retrieval_signal P,
      fqp_next_data = l1_retrieval_next_data D P\<rparr>"

section \<open>The stage's contract\<close>

locale l1_retrieval_stage = safe_pull P I "\<lambda>_ :: unit. lrp_next_l1_block P"
  for P :: "'p l1_retrieval_provider" and I
begin

lemma l1_fetch_next_safe:
  assumes "I (lr_prev l)"
  shows "snd (l1_fetch_next P l) \<noteq> Panicked"
    "stg_origin P (lr_prev (fst (l1_fetch_next P l))) = stg_origin P (lr_prev l)"
    "I (lr_prev (fst (l1_fetch_next P l)))"
  using assms pull_safe [of "lr_prev l"] pull_origin [of "lr_prev l"] pull_inv [of "lr_prev l"]
  by (cases "lrp_next_l1_block P (lr_prev l)"; cases "snd (lrp_next_l1_block P (lr_prev l))";
      force simp: l1_fetch_next_def ok_or_def split: option.splits)+

lemma next_data_safe:
  assumes "I (lr_prev l)"
  shows "snd (l1_retrieval_next_data D P l) \<noteq> Panicked"
    "stg_origin P (lr_prev (fst (l1_retrieval_next_data D P l))) = stg_origin P (lr_prev l)"
    "I (lr_prev (fst (l1_retrieval_next_data D P l)))"
  using l1_fetch_next_safe [OF assms]
  by (cases "l1_fetch_next P l"; cases "snd (l1_fetch_next P l)";
      auto simp: l1_retrieval_next_data_def split: prod.splits sum.splits)+

end

lemma l1_retrieval_signal_prev:
  "lr_prev (fst (l1_retrieval_signal P l s)) = fst (stg_signal P (lr_prev l) s)"
  "snd (stg_signal P (lr_prev l) s) = Ok () \<Longrightarrow> snd (l1_retrieval_signal P l s) = Ok ()"
  by (cases "stg_signal P (lr_prev l) s"; cases "snd (stg_signal P (lr_prev l) s)"; cases s;
      simp add: l1_retrieval_signal_def)+

lemma l1_retrieval_contract:
  "stage_contract P I \<Longrightarrow> stage_contract (l1_retrieval_ops D P) (\<lambda>l. I (lr_prev l))"
  by (erule stage_contract_lift_prev [where prev = lr_prev])
    (simp_all add: l1_retrieval_ops_def via_def l1_retrieval_signal_prev)

sublocale l1_retrieval_stage \<subseteq>
  lr: frame_queue_stage "l1_retrieval_ops D P" "\<lambda>l. I (lr_prev l)" for D :: "'d data_availability_provider"
  by (rule frame_queue_stage.intro, rule safe_pull.intro, rule stable_pull.intro,
      rule l1_retrieval_contract, rule stage_contract_axioms)
    (unfold_locales, simp_all add: l1_retrieval_ops_def next_data_safe)

interpretation polling_lr: l1_retrieval_stage "polling_ops A cp" "\<lambda>_. True"
  for A :: abi and cp :: "'f chain_provider"
  by unfold_locales

interpretation indexed_lr: l1_retrieval_stage "indexed_ops A cp" "\<lambda>_. True"
  for A :: abi and cp :: "'f chain_provider"
  by unfold_locales

end
