(* ===== verification/Channel_Bank.thy ===== *)
theory Channel_Bank
  imports Channels L1_Retrieval
begin

text \<open>
  The channel bank, \<^verbatim>\<open>crates/protocol/derive/src/stages/channel/channel_bank.rs\<close>: before Holocene,
  frames of several channels are collected side by side and channels are read out in the order
  in which they were opened.  The hash map of channels is an association list with distinct keys;
  sizes are 64-bit \<^verbatim>\<open>usize\<close> values, whose sums wrap.

  Shown: the queue and the map always hold the same channels; under that invariant ingesting a
  frame cannot fail and leaves the bank within its size limit, and reading never reports a
  critical error; which channel is read.
\<close>

section \<open>The stage\<close>

definition MAX_CHANNEL_BANK_SIZE :: usize where "MAX_CHANNEL_BANK_SIZE = 100000000"

definition FJORD_MAX_CHANNEL_BANK_SIZE :: usize where "FJORD_MAX_CHANNEL_BANK_SIZE = 1000000000"

record 'p channel_bank =
  cb_cfg :: rollup_config
  cb_channels :: "(channel_id \<times> channel) list"
  cb_channel_queue :: "channel_id list"
  cb_prev :: 'p

definition channel_bank_new :: "rollup_config \<Rightarrow> 'p \<Rightarrow> 'p channel_bank" where
  "channel_bank_new cfg prev = \<lparr>cb_cfg = cfg, cb_channels = [], cb_channel_queue = [], cb_prev = prev\<rparr>"

definition channels_size :: "(channel_id \<times> channel) list \<Rightarrow> usize" where
  "channels_size cs = foldl (\<lambda>acc (_, c). acc + channel_size c) 0 cs"

definition bank_size :: "'p channel_bank \<Rightarrow> usize" where
  "bank_size b = channels_size (cb_channels b)"

definition max_channel_bank_size :: "rollup_config \<Rightarrow> block_info \<Rightarrow> usize" where
  "max_channel_bank_size cfg origin =
     (if is_fjord_active cfg (bi_timestamp origin) then FJORD_MAX_CHANNEL_BANK_SIZE
      else MAX_CHANNEL_BANK_SIZE)"

text \<open>The pruning loop, on the queue: every round pops its head.\<close>

fun bank_prune_loop ::
    "usize \<Rightarrow> channel_id list \<Rightarrow> (channel_id \<times> channel) list \<Rightarrow> usize \<Rightarrow>
     (channel_id list \<times> (channel_id \<times> channel) list) \<times> unit pres" where
  "bank_prune_loop total_size [] channels limit =
     (if total_size > limit then (([], channels), Err (crit ChannelProviderEmpty)) else (([], channels), Ok ()))"
| "bank_prune_loop total_size (i # queue) channels limit =
     (if total_size > limit then
        (case map_of channels i of
           None \<Rightarrow> ((queue, channels), Err (crit ChannelNotFound))
         | Some channel \<Rightarrow>
             bank_prune_loop (total_size - channel_size channel) queue (AList.delete i channels) limit)
      else ((i # queue, channels), Ok ()))"

definition bank_prune :: "('p, 'z) stage_scheme \<Rightarrow> 'p channel_bank \<Rightarrow> 'p channel_bank \<times> unit pres" where
  "bank_prune P b =
     (let total_size = bank_size b
      in pbind (ok_or b (stg_origin P (cb_prev b)) (crit MissingOrigin)) (\<lambda>b origin.
         via (\<lambda>(queue, channels). b\<lparr>cb_channel_queue := queue, cb_channels := channels\<rparr>)
           (bank_prune_loop total_size (cb_channel_queue b) (cb_channels b)
             (max_channel_bank_size (cb_cfg b) origin))))"

definition channel_timed_out :: "rollup_config \<Rightarrow> channel \<Rightarrow> block_info \<Rightarrow> bool" where
  "channel_timed_out cfg c origin =
     (open_block_number c + channel_timeout cfg (bi_timestamp origin) < bi_number origin)"

definition open_channel :: "'p channel_bank \<Rightarrow> frame \<Rightarrow> block_info \<Rightarrow> 'p channel_bank \<times> channel" where
  "open_channel b frame origin =
     (case map_of (cb_channels b) (fr_id frame) of
        Some c \<Rightarrow> (b, c)
      | None \<Rightarrow>
          (let channel = channel_new (fr_id frame) origin
           in (b\<lparr>cb_channel_queue := cb_channel_queue b @ [fr_id frame],
                 cb_channels := AList.update (fr_id frame) channel (cb_channels b)\<rparr>, channel)))"

definition ingest_frame :: "('p, 'z) stage_scheme \<Rightarrow> 'p channel_bank \<Rightarrow> frame \<Rightarrow> 'p channel_bank \<times> unit pres" where
  "ingest_frame P b frame =
     pbind (ok_or b (stg_origin P (cb_prev b)) (crit MissingOrigin)) (\<lambda>b origin.
       let (b, current_channel) = open_channel b frame origin
       in if channel_timed_out (cb_cfg b) current_channel origin then (b, Ok ())
          else
            let (current_channel, res) = add_frame current_channel frame origin;
                b = b\<lparr>cb_channels := AList.update (fr_id frame) current_channel (cb_channels b)\<rparr>
            in case res of
                 Inl _ \<Rightarrow> (b, Ok ())
               | Inr _ \<Rightarrow> bank_prune P b)"

definition try_read_channel_at_index ::
    "('p, 'z) stage_scheme \<Rightarrow> 'p channel_bank \<Rightarrow> nat \<Rightarrow> 'p channel_bank \<times> bytes pres" where
  "try_read_channel_at_index P b index =
     (if length (cb_channel_queue b) \<le> index then (b, Panicked)
      else
        let channel_id = cb_channel_queue b ! index
        in pbind (ok_or b (map_of (cb_channels b) channel_id) (crit ChannelProviderEmpty)) (\<lambda>b channel.
           pbind (ok_or b (stg_origin P (cb_prev b)) (crit MissingOrigin)) (\<lambda>b origin.
             if channel_timed_out (cb_cfg b) channel origin \<or> \<not> is_ready channel then (b, Err (temp Eof))
             else ok_or (b\<lparr>cb_channels := AList.delete channel_id (cb_channels b),
                           cb_channel_queue := remove_at index (cb_channel_queue b)\<rparr>)
                    (frame_data channel) (crit ChannelProviderEmpty))))"

fun find_readable :: "('p, 'z) stage_scheme \<Rightarrow> 'p channel_bank \<Rightarrow> nat list \<Rightarrow> 'p channel_bank \<times> bytes option pres" where
  "find_readable P b [] = (b, Ok None)"
| "find_readable P b (i # is) =
     (case try_read_channel_at_index P b i of
        (b, Ok data) \<Rightarrow> (b, Ok (Some data))
      | (b, Err _) \<Rightarrow> find_readable P b is
      | (b, Panicked) \<Rightarrow> (b, Panicked))"

definition bank_read :: "('p, 'z) stage_scheme \<Rightarrow> 'p channel_bank \<Rightarrow> 'p channel_bank \<times> bytes option pres" where
  "bank_read P b =
     (case cb_channel_queue b of
        [] \<Rightarrow> (b, Err (temp Eof))
      | first # _ \<Rightarrow>
          pbind (ok_or b (map_of (cb_channels b) first) (crit ChannelProviderEmpty)) (\<lambda>b channel.
          pbind (ok_or b (stg_origin P (cb_prev b)) (crit ChannelProviderEmpty)) (\<lambda>b origin.
            if channel_timed_out (cb_cfg b) channel origin
            then (b\<lparr>cb_channels := AList.delete first (cb_channels b),
                   cb_channel_queue := tl (cb_channel_queue b)\<rparr>, Ok None)
            else if \<not> is_canyon_active (cb_cfg b) (bi_timestamp origin)
            then pbind (try_read_channel_at_index P b 0) (\<lambda>b data. (b, Ok (Some data)))
            else pbind (find_readable P b [0..<length (cb_channel_queue b)]) (\<lambda>b channel_data.
                   case channel_data of
                     None \<Rightarrow> (b, Err (temp Eof))
                   | Some data \<Rightarrow> (b, Ok (Some data))))))"

definition bank_next_data ::
    "'p next_frame_provider \<Rightarrow> 'p channel_bank \<Rightarrow> 'p channel_bank \<times> bytes option pres" where
  "bank_next_data P b =
     (case bank_read P b of
        (b, Ok data) \<Rightarrow> (b, Ok data)
      | (b, Panicked) \<Rightarrow> (b, Panicked)
      | (b, Err e) \<Rightarrow>
          if e \<noteq> temp Eof then (b, Err (crit ChannelProviderEmpty))
          else
            pbind (via (\<lambda>p. b\<lparr>cb_prev := p\<rparr>) (nfp_next_frame P (cb_prev b))) (\<lambda>b frame.
            pbind (ingest_frame P b frame) (\<lambda>b _.
              (b, Err (temp NotEnoughData)))))"

definition bank_signal :: "('p, 'z) stage_scheme \<Rightarrow> 'p channel_bank \<Rightarrow> signal \<Rightarrow> 'p channel_bank \<times> unit pres" where
  "bank_signal P b sig =
     pbind (via (\<lambda>p. b\<lparr>cb_prev := p\<rparr>) (stg_signal P (cb_prev b) sig)) (\<lambda>b _.
       (b\<lparr>cb_channels := [], cb_channel_queue := []\<rparr>, Ok ()))"

record 'p channel_reader_provider = "'p stage" +
  crp_next_data :: "'p \<Rightarrow> 'p \<times> bytes option pres"

definition channel_bank_ops :: "'p next_frame_provider \<Rightarrow> 'p channel_bank channel_reader_provider" where
  "channel_bank_ops P =
     \<lparr>stg_origin = (\<lambda>b. stg_origin P (cb_prev b)),
      stg_advance_origin = (\<lambda>b. via (\<lambda>p. b\<lparr>cb_prev := p\<rparr>) (stg_advance_origin P (cb_prev b))),
      stg_signal = bank_signal P,
      crp_next_data = bank_next_data P\<rparr>"

section \<open>The invariant\<close>

text \<open>The queue lists the keys of the map, and each channel is filed under its id.\<close>

definition same_channels :: "channel_id list \<Rightarrow> (channel_id \<times> channel) list \<Rightarrow> bool" where
  "same_channels queue channels \<longleftrightarrow>
     distinct queue \<and> distinct (map fst channels) \<and> set queue = fst ` set channels \<and>
     (\<forall>e\<in>set channels. ch_id (snd e) = fst e \<and> channel_inv (snd e))"

definition bank_inv :: "'p channel_bank \<Rightarrow> bool" where
  "bank_inv b \<longleftrightarrow> same_channels (cb_channel_queue b) (cb_channels b)"

lemma channels_size_sum: "channels_size cs = (\<Sum>e\<leftarrow>cs. channel_size (snd e))"
proof -
  have "foldl (\<lambda>acc (_, c). acc + channel_size c) x cs = x + (\<Sum>e\<leftarrow>cs. channel_size (snd e))" for x
    by (induction cs arbitrary: x) (auto simp: algebra_simps)
  then show ?thesis by (simp add: channels_size_def)
qed

lemma channels_size_delete:
  "distinct (map fst cs) \<Longrightarrow> map_of cs i = Some c \<Longrightarrow>
   channels_size (AList.delete i cs) = channels_size cs - channel_size c"
proof (induction cs)
  case (Cons e cs)
  show ?case
  proof (cases "fst e = i")
    case True
    with Cons.prems have "AList.delete i cs = cs"
      by (intro delete_id) auto
    with True Cons.prems show ?thesis by (simp add: channels_size_sum)
  next
    case False
    with Cons show ?thesis by (simp add: channels_size_sum algebra_simps)
  qed
qed simp

lemma same_channels_delete:
  assumes "same_channels queue channels"
  shows "same_channels (removeAll i queue) (AList.delete i channels)"
proof -
  have keys: "fst ` set (AList.delete i channels) = fst ` set channels - {i}"
    by (auto simp: AList.delete_eq image_iff)
  have "set (AList.delete i channels) \<subseteq> set channels"
    by (auto simp: AList.delete_eq)
  then show ?thesis
    using assms keys by (auto simp: same_channels_def distinct_delete distinct_removeAll)
qed

lemma same_channels_get:
  assumes "same_channels queue channels" and "i \<in> set queue"
  obtains c where "map_of channels i = Some c" "ch_id c = i" "channel_inv c"
proof -
  from assms have "i \<in> fst ` set channels" by (simp add: same_channels_def)
  then obtain c where c: "map_of channels i = Some c"
    using map_of_None_fst [of channels i] by auto
  then have "(i, c) \<in> set channels" by (rule map_of_SomeD)
  with assms(1) c show thesis by (intro that [of c]) (auto simp: same_channels_def)
qed

lemma removeAll_hd: "distinct (i # queue) \<Longrightarrow> removeAll i (i # queue) = queue"
  by simp

lemma remove_at_removeAll:
  "distinct xs \<Longrightarrow> i < length xs \<Longrightarrow> remove_at i xs = removeAll (xs ! i) xs"
proof (induction xs arbitrary: i)
  case (Cons x xs)
  then show ?case by (cases i) (auto simp: remove_at_def)
qed simp

lemma same_channels_pop:
  assumes "same_channels (i # queue) channels"
  shows "same_channels queue (AList.delete i channels)"
proof -
  have "distinct (i # queue)" using assms by (simp add: same_channels_def)
  with same_channels_delete [OF assms, of i] show ?thesis by (simp only: removeAll_hd)
qed

lemma same_channels_update:
  assumes "same_channels queue channels" and "i \<in> set queue" and "ch_id c = i" and "channel_inv c"
  shows "same_channels queue (AList.update i c channels)"
proof -
  have "set (AList.update i c channels) \<subseteq> insert (i, c) (set channels)"
    by (induction channels) auto
  then have "ch_id (snd e) = fst e \<and> channel_inv (snd e)" if "e \<in> set (AList.update i c channels)" for e
    using assms that by (cases "e \<in> set channels") (auto simp: same_channels_def)
  then show ?thesis
    using assms by (simp add: same_channels_def distinct_update dom_update insert_absorb)
qed

lemma same_channels_push:
  assumes "same_channels queue channels" and "map_of channels i = None" and "ch_id c = i" and "channel_inv c"
  shows "same_channels (queue @ [i]) (AList.update i c channels)"
  using assms by (auto simp: same_channels_def update_fresh map_of_None_fst)

lemma bank_prune_loop_ok:
  assumes "same_channels queue channels" and "total_size = channels_size channels"
  shows "\<exists>queue' channels'. bank_prune_loop total_size queue channels limit = ((queue', channels'), Ok ()) \<and>
    same_channels queue' channels' \<and> channels_size channels' \<le> limit \<and> suffix queue' queue"
  using assms
proof (induction total_size queue channels limit rule: bank_prune_loop.induct)
  case (1 total_size channels limit)
  then have "channels = []" by (simp add: same_channels_def)
  with 1 show ?case by (simp add: channels_size_def)
next
  case (2 total_size i queue channels limit)
  show ?case
  proof (cases "total_size > limit")
    case True
    obtain c where c: "map_of channels i = Some c"
      using same_channels_get [OF "2.prems"(1), of i] by auto
    have "\<exists>queue' channels'. bank_prune_loop (total_size - channel_size c) queue (AList.delete i channels) limit =
        ((queue', channels'), Ok ()) \<and> same_channels queue' channels' \<and>
        channels_size channels' \<le> limit \<and> suffix queue' queue"
      using "2.prems" c same_channels_pop [OF "2.prems"(1)]
      by (intro "2.IH" [OF True c]) (auto simp: channels_size_delete same_channels_def)
    with True c show ?thesis by (auto intro: suffix_ConsI)
  qed (use 2 in auto)
qed

lemma bank_prune_ok:
  assumes inv: "bank_inv b" and origin: "stg_origin P (cb_prev b) = Some origin"
  shows "\<exists>b'. bank_prune P b = (b', Ok ()) \<and> bank_inv b' \<and> cb_prev b' = cb_prev b \<and> cb_cfg b' = cb_cfg b \<and>
    bank_size b' \<le> max_channel_bank_size (cb_cfg b) origin \<and>
    suffix (cb_channel_queue b') (cb_channel_queue b)"
  using bank_prune_loop_ok [OF inv [unfolded bank_inv_def] bank_size_def,
      of "max_channel_bank_size (cb_cfg b) origin"]
  by (auto simp: bank_prune_def origin Let_def bank_inv_def bank_size_def)

lemma open_channel_inv:
  assumes "bank_inv b" and "open_channel b f origin = (b', c)"
  shows "bank_inv b'" "map_of (cb_channels b') (fr_id f) = Some c" "ch_id c = fr_id f" "channel_inv c"
    "cb_prev b' = cb_prev b" "cb_cfg b' = cb_cfg b" "fr_id f \<in> set (cb_channel_queue b')"
proof -
  have "bank_inv b' \<and> map_of (cb_channels b') (fr_id f) = Some c \<and> cb_prev b' = cb_prev b \<and> cb_cfg b' = cb_cfg b"
    using assms same_channels_push [of "cb_channel_queue b" "cb_channels b" "fr_id f" "channel_new (fr_id f) origin"]
    by (auto simp: open_channel_def bank_inv_def update_conv' Let_def split: option.splits)
  then show inv: "bank_inv b'" and c: "map_of (cb_channels b') (fr_id f) = Some c"
    and "cb_prev b' = cb_prev b" "cb_cfg b' = cb_cfg b" by auto
  from map_of_SomeD [OF c] inv show "ch_id c = fr_id f" "channel_inv c" "fr_id f \<in> set (cb_channel_queue b')"
    by (force simp: bank_inv_def same_channels_def)+
qed

lemma update_same: "map_of xs k = Some v \<Longrightarrow> AList.update k v xs = xs"
  by (induction xs) (auto split: if_splits)

text \<open>
  Ingesting a frame cannot fail once there is an origin; it keeps the invariant and leaves the
  bank within the limit if it was within it before.
\<close>

lemma ingest_frame_ok:
  assumes inv: "bank_inv b" and origin: "stg_origin P (cb_prev b) = Some origin"
  shows "\<exists>b'. ingest_frame P b f = (b', Ok ()) \<and> bank_inv b' \<and> cb_prev b' = cb_prev b \<and> cb_cfg b' = cb_cfg b \<and>
    (bank_size b \<le> max_channel_bank_size (cb_cfg b) origin \<longrightarrow>
     bank_size b' \<le> max_channel_bank_size (cb_cfg b) origin)"
proof -
  obtain b1 c where open1: "open_channel b f origin = (b1, c)" by fastforce
  note o = open_channel_inv [OF inv open1]
  obtain c' r where add: "add_frame c f origin = (c', r)" by fastforce
  let ?b = "b1\<lparr>cb_channels := AList.update (fr_id f) c' (cb_channels b1)\<rparr>"
  have c': "ch_id c' = fr_id f" "channel_inv c'"
    using add_frame_fixed(1) [of c f origin] channel_inv_add_frame [OF o(4), of f origin] o(3) add by simp_all
  then have inv': "bank_inv ?b"
    using o(1,7) same_channels_update by (simp add: bank_inv_def)
  have size1: "bank_size b1 = bank_size b"
    using open1 by (auto simp: open_channel_def bank_size_def channels_size_sum update_fresh Let_def
        channel_size_def channel_new_def split: option.splits)
  have org: "stg_origin P (cb_prev ?b) = Some origin" using o(5) origin by simp
  show ?thesis
  proof (cases r)
    case (Inl e)
    then have "c' = c" using add_frame_err add by blast
    with Inl add open1 origin size1 o(1,5,6) update_same [OF o(2)] show ?thesis
      by (simp add: ingest_frame_def)
  next
    case (Inr u)
    from bank_prune_ok [where P = P, OF inv' org] Inr add open1 origin o size1 show ?thesis
      by (auto simp: ingest_frame_def)
  qed
qed

section \<open>Reading\<close>

definition channel_at :: "'p channel_bank \<Rightarrow> nat \<Rightarrow> channel" where
  "channel_at b i = the (map_of (cb_channels b) (cb_channel_queue b ! i))"

definition readable :: "'p channel_bank \<Rightarrow> block_info \<Rightarrow> nat \<Rightarrow> bool" where
  "readable b origin i \<longleftrightarrow> \<not> channel_timed_out (cb_cfg b) (channel_at b i) origin \<and> is_ready (channel_at b i)"

definition take_channel :: "'p channel_bank \<Rightarrow> nat \<Rightarrow> 'p channel_bank" where
  "take_channel b i = b\<lparr>cb_channels := AList.delete (cb_channel_queue b ! i) (cb_channels b),
     cb_channel_queue := remove_at i (cb_channel_queue b)\<rparr>"

lemma ready_data:
  assumes "is_ready c"
  obtains d where "frame_data c = Some d"
  using assms frame_data_complete [of c] by (auto simp: is_ready_def list_all_iff split: if_splits)

lemma channel_at:
  assumes "bank_inv b" and "i < length (cb_channel_queue b)"
  shows "map_of (cb_channels b) (cb_channel_queue b ! i) = Some (channel_at b i)"
proof -
  have "same_channels (cb_channel_queue b) (cb_channels b)" using assms(1) by (simp add: bank_inv_def)
  then obtain c where "map_of (cb_channels b) (cb_channel_queue b ! i) = Some c"
    using nth_mem [OF assms(2)] by (rule same_channels_get)
  then show ?thesis by (simp add: channel_at_def)
qed

lemma take_channel_inv:
  assumes "bank_inv b" and "i < length (cb_channel_queue b)"
  shows "bank_inv (take_channel b i)"
proof -
  have "distinct (cb_channel_queue b)" using assms(1) by (simp add: bank_inv_def same_channels_def)
  with assms show ?thesis
    using same_channels_delete [of "cb_channel_queue b" "cb_channels b" "cb_channel_queue b ! i"]
    by (simp add: bank_inv_def take_channel_def remove_at_removeAll)
qed

lemma try_read_eq:
  assumes "bank_inv b" and "i < length (cb_channel_queue b)" and "stg_origin P (cb_prev b) = Some origin"
  shows "try_read_channel_at_index P b i =
    (if readable b origin i then (take_channel b i, Ok (the (frame_data (channel_at b i))))
     else (b, Err (temp Eof)))"
proof (cases "readable b origin i")
  case True
  then obtain d where "frame_data (channel_at b i) = Some d"
    by (auto simp: readable_def elim: ready_data)
  with True assms show ?thesis
    by (simp add: try_read_channel_at_index_def channel_at take_channel_def readable_def)
qed (use assms in \<open>auto simp: try_read_channel_at_index_def channel_at readable_def\<close>)

lemma find_readable_eq:
  assumes inv: "bank_inv b" and origin: "stg_origin P (cb_prev b) = Some origin"
    and "\<forall>i\<in>set is. i < length (cb_channel_queue b)"
  shows "find_readable P b is =
    (case find (readable b origin) is of
       None \<Rightarrow> (b, Ok None)
     | Some i \<Rightarrow> (take_channel b i, Ok (frame_data (channel_at b i))))"
  using assms(3)
proof (induction "is")
  case (Cons i "is")
  show ?case
  proof (cases "readable b origin i")
    case True
    then obtain d where "frame_data (channel_at b i) = Some d"
      by (auto simp: readable_def elim: ready_data)
    with True Cons.prems show ?thesis by (simp add: try_read_eq [OF inv _ origin])
  qed (use Cons in \<open>simp add: try_read_eq [OF inv _ origin]\<close>)
qed simp

text \<open>What a read does, for a bank with an origin.\<close>

lemma bank_read_cases:
  assumes inv: "bank_inv b" and origin: "stg_origin P (cb_prev b) = Some origin"
  obtains (empty) "cb_channel_queue b = []" "bank_read P b = (b, Err (temp Eof))"
  | (expired) "cb_channel_queue b \<noteq> []" "channel_timed_out (cb_cfg b) (channel_at b 0) origin"
      "bank_read P b = (take_channel b 0, Ok None)"
  | (none) "bank_read P b = (b, Err (temp Eof))" "cb_channel_queue b \<noteq> []"
      "\<not> channel_timed_out (cb_cfg b) (channel_at b 0) origin"
      "\<forall>i<(if is_canyon_active (cb_cfg b) (bi_timestamp origin) then length (cb_channel_queue b) else 1).
         \<not> readable b origin i"
  | (found) i where "i < (if is_canyon_active (cb_cfg b) (bi_timestamp origin) then length (cb_channel_queue b) else 1)"
      "cb_channel_queue b \<noteq> []" "\<not> channel_timed_out (cb_cfg b) (channel_at b 0) origin"
      "readable b origin i" "\<forall>j<i. \<not> readable b origin j"
      "bank_read P b = (take_channel b i, Ok (frame_data (channel_at b i)))"
proof (cases "cb_channel_queue b")
  case Nil
  then show thesis by (intro empty) (simp_all add: bank_read_def)
next
  case (Cons i0 q)
  then have head: "map_of (cb_channels b) i0 = Some (channel_at b 0)" "0 < length (cb_channel_queue b)"
    using channel_at [OF inv, of 0] by simp_all
  show thesis
  proof (cases "channel_timed_out (cb_cfg b) (channel_at b 0) origin")
    case True
    then show thesis using Cons head origin
      by (intro expired) (simp_all add: bank_read_def take_channel_def)
  next
    case False
    show thesis
    proof (cases "is_canyon_active (cb_cfg b) (bi_timestamp origin)")
      case canyon: True
      let ?n = "length (cb_channel_queue b)"
      have read: "bank_read P b = pbind (find_readable P b [0..<?n]) (\<lambda>b channel_data.
          case channel_data of None \<Rightarrow> (b, Err (temp Eof)) | Some data \<Rightarrow> (b, Ok (Some data)))"
        using head origin False canyon
        unfolding bank_read_def by (simp add: Cons del: upt_Suc)
      note find = find_readable_eq [OF inv origin, of "[0..<?n]"]
      show thesis
      proof (cases "find (readable b origin) [0..<?n]")
        case None
        with read find have "bank_read P b = (b, Err (temp Eof))" by (simp del: upt_Suc)
        moreover have "\<forall>i<?n. \<not> readable b origin i" using None by (simp add: find_None_iff)
        ultimately show thesis using Cons canyon False by (intro none) simp_all
      next
        case (Some i)
        then have i: "i < ?n" "readable b origin i" "\<forall>j<i. \<not> readable b origin j"
          by (auto simp: find_Some_iff)
        then obtain d where "frame_data (channel_at b i) = Some d"
          by (auto simp: readable_def elim: ready_data)
        with Some read find have "bank_read P b = (take_channel b i, Ok (frame_data (channel_at b i)))"
          by (simp del: upt_Suc)
        with i Cons canyon False show thesis by (intro found [of i]) simp_all
      qed
    next
      case False': False
      show thesis
      proof (cases "readable b origin 0")
        case True
        then obtain d where "frame_data (channel_at b 0) = Some d"
          by (auto simp: readable_def elim: ready_data)
        then show thesis using Cons head origin False False' True
          by (intro found [of 0]) (simp_all add: bank_read_def try_read_eq [OF inv _ origin])
      next
        case not: False
        then show thesis using Cons head origin False False'
          by (intro none) (simp_all add: bank_read_def try_read_eq [OF inv _ origin])
      qed
    qed
  qed
qed

section \<open>The stage's contract\<close>

text \<open>None of the following needs the invariant: reading has no way to panic.\<close>

lemma try_read_err:
  assumes "i < length (cb_channel_queue b)"
  shows "snd (try_read_channel_at_index P b i) \<noteq> Panicked"
    and "(\<exists>d. snd (try_read_channel_at_index P b i) = Ok d) \<or> fst (try_read_channel_at_index P b i) = b"
    and "cb_prev (fst (try_read_channel_at_index P b i)) = cb_prev b"
  using assms
  by (auto simp: try_read_channel_at_index_def ok_or_def Let_def elim!: ready_data split: option.splits)

lemma find_readable_safe:
  assumes "\<forall>i\<in>set is. i < length (cb_channel_queue b)"
  shows "snd (find_readable P b is) \<noteq> Panicked \<and> cb_prev (fst (find_readable P b is)) = cb_prev b"
  using assms
proof (induction "is" arbitrary: b)
  case (Cons i "is")
  then have i: "i < length (cb_channel_queue b)" by simp
  from try_read_err [OF this, of P] Cons show ?case
    by (cases "try_read_channel_at_index P b i"; cases "snd (try_read_channel_at_index P b i)") auto
qed simp

lemma bank_read_safe: "snd (bank_read P b) \<noteq> Panicked \<and> cb_prev (fst (bank_read P b)) = cb_prev b"
proof (cases "cb_channel_queue b")
  case (Cons i q)
  let ?attempt = "try_read_channel_at_index P b 0" and ?find = "find_readable P b [0..<length (cb_channel_queue b)]"
  have t: "snd ?attempt \<noteq> Panicked" "cb_prev (fst ?attempt) = cb_prev b"
    using try_read_err [of 0 b P] Cons by auto
  have f: "snd ?find \<noteq> Panicked" "cb_prev (fst ?find) = cb_prev b"
    using find_readable_safe [of "[0..<length (cb_channel_queue b)]" b P] by auto
  have "snd (pbind ?attempt k) \<noteq> Panicked \<and> cb_prev (fst (pbind ?attempt k)) = cb_prev b"
    if "\<And>b d. snd (k b d) \<noteq> Panicked \<and> cb_prev (fst (k b d)) = cb_prev b" for k :: "_ \<Rightarrow> _ \<Rightarrow> _ \<times> bytes option pres"
    using t that by (cases ?attempt; cases "snd ?attempt") auto
  moreover have "snd (pbind ?find k) \<noteq> Panicked \<and> cb_prev (fst (pbind ?find k)) = cb_prev b"
    if "\<And>b d. snd (k b d) \<noteq> Panicked \<and> cb_prev (fst (k b d)) = cb_prev b" for k :: "_ \<Rightarrow> _ \<Rightarrow> _ \<times> bytes option pres"
    using f that by (cases ?find; cases "snd ?find") auto
  ultimately show ?thesis
    using Cons by (auto simp: bank_read_def ok_or_def split: option.splits simp del: upt_Suc)
qed (simp add: bank_read_def)

lemma bank_prune_loop_safe: "snd (bank_prune_loop t q cs l) \<noteq> Panicked"
  by (induction t q cs l rule: bank_prune_loop.induct) (auto split: option.splits)

lemma bank_prune_safe: "snd (bank_prune P b) \<noteq> Panicked" "cb_prev (fst (bank_prune P b)) = cb_prev b"
  using bank_prune_loop_safe
  by (auto simp: bank_prune_def ok_or_def Let_def via_def split: option.splits prod.splits)

lemma open_channel_prev: "cb_prev (fst (open_channel b f origin)) = cb_prev b"
  by (auto simp: open_channel_def Let_def split: option.splits)

lemma ingest_frame_safe: "snd (ingest_frame P b f) \<noteq> Panicked" "cb_prev (fst (ingest_frame P b f)) = cb_prev b"
proof -
  have "cb_prev b1 = cb_prev b" if "open_channel b f origin = (b1, c)" for origin b1 c
    using open_channel_prev [of b f origin] that by simp
  then show "snd (ingest_frame P b f) \<noteq> Panicked" "cb_prev (fst (ingest_frame P b f)) = cb_prev b"
    by (auto simp: ingest_frame_def ok_or_def Let_def bank_prune_safe split: option.splits prod.splits sum.splits)
qed

lemma ingest_then_safe:
  "snd (pbind (ingest_frame P b f) (\<lambda>b _. (b, Err e))) \<noteq> Panicked"
  "cb_prev (fst (pbind (ingest_frame P b f) (\<lambda>b _. (b, Err e)))) = cb_prev b"
  using ingest_frame_safe [of P b f]
  by (cases "ingest_frame P b f"; cases "snd (ingest_frame P b f)"; simp)+

lemma bank_signal_prev:
  "cb_prev (fst (bank_signal P b s)) = fst (stg_signal P (cb_prev b) s)"
  "snd (stg_signal P (cb_prev b) s) = Ok () \<Longrightarrow> snd (bank_signal P b s) = Ok ()"
  by (cases "stg_signal P (cb_prev b) s"; cases "snd (stg_signal P (cb_prev b) s)"; simp add: bank_signal_def)+

text \<open>The invariant is kept.\<close>

lemma bank_inv_prev [simp]: "bank_inv (b\<lparr>cb_prev := p\<rparr>) = bank_inv b"
  by (simp add: bank_inv_def)

lemma bank_inv_new: "bank_inv (channel_bank_new cfg p)"
  by (simp add: bank_inv_def same_channels_def channel_bank_new_def)

lemma bank_inv_read: "bank_inv b \<Longrightarrow> bank_inv (fst (bank_read P b))"
proof (cases "stg_origin P (cb_prev b)")
  case None
  then show "bank_inv b \<Longrightarrow> bank_inv (fst (bank_read P b))"
    by (auto simp: bank_read_def ok_or_def split: list.splits option.splits)
next
  case (Some origin)
  assume inv: "bank_inv b"
  then show ?thesis using Some
  proof (cases rule: bank_read_cases)
    case (found i)
    then have "i < length (cb_channel_queue b)" by (cases "cb_channel_queue b") (auto split: if_splits)
    with inv found show ?thesis by (simp add: take_channel_inv)
  qed (use inv take_channel_inv in auto)
qed

lemma bank_inv_ingest: "bank_inv b \<Longrightarrow> bank_inv (fst (ingest_frame P b f))"
proof (cases "stg_origin P (cb_prev b)")
  case None
  then show "bank_inv b \<Longrightarrow> bank_inv (fst (ingest_frame P b f))" by (simp add: ingest_frame_def)
next
  case (Some origin)
  assume "bank_inv b"
  from ingest_frame_ok [where P = P, OF this Some, of f] show ?thesis by auto
qed

lemma bank_inv_ingest_then:
  "bank_inv b \<Longrightarrow> bank_inv (fst (pbind (ingest_frame P b f) (\<lambda>b _. (b, Err e))))"
  using bank_inv_ingest [of b P f]
  by (cases "ingest_frame P b f"; cases "snd (ingest_frame P b f)") simp_all

lemma bank_inv_next_data:
  assumes "bank_inv b"
  shows "bank_inv (fst (bank_next_data P b))"
proof -
  obtain b1 r where read: "bank_read P b = (b1, r)" by fastforce
  then have b1: "bank_inv b1" using bank_inv_read [OF assms, of P] by simp
  obtain p f where nxt: "nfp_next_frame P (cb_prev b1) = (p, f)" by fastforce
  with b1 show ?thesis
    by (cases r; cases f) (simp_all add: bank_next_data_def read nxt bank_inv_ingest_then)
qed

lemma bank_inv_signal: "bank_inv b \<Longrightarrow> bank_inv (fst (bank_signal P b s))"
  by (cases "stg_signal P (cb_prev b) s"; cases "snd (stg_signal P (cb_prev b) s)")
    (simp_all add: bank_signal_def bank_inv_def same_channels_def)

section \<open>The stage's contract\<close>

lemma channel_bank_contract:
  "stage_contract P I \<Longrightarrow> stage_contract (channel_bank_ops P) (\<lambda>b. I (cb_prev b) \<and> bank_inv b)"
  by (erule stage_contract_lift [where prev = cb_prev])
    (simp_all add: channel_bank_ops_def via_def bank_signal_prev bank_inv_signal)

locale channel_stage = safe_pull P I "\<lambda>_ :: unit. nfp_next_frame P"
  for P :: "'p next_frame_provider" and I
begin

lemma bank_next_data_all:
  assumes "I (cb_prev b)"
  shows "snd (bank_next_data P b) \<noteq> Panicked \<and>
    stg_origin P (cb_prev (fst (bank_next_data P b))) = stg_origin P (cb_prev b) \<and>
    I (cb_prev (fst (bank_next_data P b)))"
proof -
  obtain b1 r where read: "bank_read P b = (b1, r)" by fastforce
  then have b1: "r \<noteq> Panicked" "cb_prev b1 = cb_prev b" using bank_read_safe [of P b] by auto
  obtain p f where nxt: "nfp_next_frame P (cb_prev b) = (p, f)" by fastforce
  then have p: "f \<noteq> Panicked" "stg_origin P p = stg_origin P (cb_prev b)" "I p"
    using pull_safe [OF assms] pull_origin [OF assms] pull_inv [OF assms] by auto
  show ?thesis
  proof (cases "r = Err (temp Eof)")
    case True
    then show ?thesis
      using p by (cases f) (simp_all add: bank_next_data_def read nxt b1(2) ingest_then_safe)
  next
    case False
    then show ?thesis using b1 assms by (cases r) (simp_all add: bank_next_data_def read)
  qed
qed

end

sublocale channel_stage \<subseteq>
  cb: safe_pull "channel_bank_ops P" "\<lambda>b. I (cb_prev b) \<and> bank_inv b" "\<lambda>_ :: unit. crp_next_data (channel_bank_ops P)"
  by (rule safe_pull.intro, rule stable_pull.intro, rule channel_bank_contract, rule stage_contract_axioms)
    (unfold_locales, simp_all add: channel_bank_ops_def bank_next_data_all bank_inv_next_data)

interpretation polling_fq: channel_stage "frame_queue_ops (l1_retrieval_ops D (polling_ops A cp))" "\<lambda>_. True"
  for D :: "'d data_availability_provider" and A :: abi and cp :: "'f chain_provider"
  by unfold_locales

interpretation indexed_fq: channel_stage "frame_queue_ops (l1_retrieval_ops D (indexed_ops A cp))" "\<lambda>_. True"
  for D :: "'d data_availability_provider" and A :: abi and cp :: "'f chain_provider"
  by unfold_locales

section \<open>Reachable banks\<close>

text \<open>The states a bank can get into, whatever the previous stage does.\<close>

inductive bank_reachable :: "'p next_frame_provider \<Rightarrow> 'p channel_bank \<Rightarrow> bool" for P where
  new: "bank_reachable P (channel_bank_new cfg prev)"
| pull: "bank_reachable P b \<Longrightarrow> bank_reachable P (fst (bank_next_data P b))"
| signal: "bank_reachable P b \<Longrightarrow> bank_reachable P (fst (bank_signal P b s))"
| advance: "bank_reachable P b \<Longrightarrow>
    bank_reachable P (b\<lparr>cb_prev := fst (stg_advance_origin P (cb_prev b))\<rparr>)"

lemma reachable_bank_inv: "bank_reachable P b \<Longrightarrow> bank_inv b"
  by (induction rule: bank_reachable.induct)
    (simp_all add: bank_inv_new bank_inv_next_data bank_inv_signal)

section \<open>Properties\<close>

text \<open>
  C9. In every reachable state of the channel bank, the queue lists each buffered channel once and
  no other, and each channel is well formed; whenever there is an origin, ingesting any frame
  succeeds and does not take the bank over its size limit, and reading gives no other error than
  "end of data".
\<close>

theorem channel_bank_invariant:
  assumes "bank_reachable P b"
  shows "bank_inv b \<and>
    (\<forall>origin f. stg_origin P (cb_prev b) = Some origin \<longrightarrow>
       (\<exists>b'. ingest_frame P b f = (b', Ok ()) \<and> bank_inv b' \<and>
          (bank_size b \<le> max_channel_bank_size (cb_cfg b) origin \<longrightarrow>
           bank_size b' \<le> max_channel_bank_size (cb_cfg b) origin)) \<and>
       ((\<exists>d. snd (bank_read P b) = Ok d) \<or> snd (bank_read P b) = Err (temp Eof)))"
proof (intro conjI allI impI)
  show inv: "bank_inv b" using assms by (rule reachable_bank_inv)
  fix origin f assume origin: "stg_origin P (cb_prev b) = Some origin"
  show "\<exists>b'. ingest_frame P b f = (b', Ok ()) \<and> bank_inv b' \<and>
      (bank_size b \<le> max_channel_bank_size (cb_cfg b) origin \<longrightarrow>
       bank_size b' \<le> max_channel_bank_size (cb_cfg b) origin)"
    using ingest_frame_ok [where P = P, OF inv origin, of f] by auto
  from inv origin show "(\<exists>d. snd (bank_read P b) = Ok d) \<or> snd (bank_read P b) = Err (temp Eof)"
    by (cases rule: bank_read_cases) auto
qed

definition still_provider :: "block_info \<Rightarrow> unit next_frame_provider" where
  "still_provider b = \<lparr>stg_origin = (\<lambda>_. Some b), stg_advance_origin = (\<lambda>p. (p, Ok ())),
     stg_signal = (\<lambda>p _. (p, Ok ())), nfp_next_frame = (\<lambda>p. (p, Ok (example_frame 7 0 True)))\<rparr>"

theorem channel_bank_invariant_witness:
  "bank_inv (fst (bank_next_data (still_provider late_block) (channel_bank_new example_config ()))) \<and>
   (\<exists>b'. ingest_frame (still_provider late_block)
      (fst (bank_next_data (still_provider late_block) (channel_bank_new example_config ())))
      (example_frame 8 0 True) = (b', Ok ()))"
proof -
  have "bank_reachable (still_provider late_block)
      (fst (bank_next_data (still_provider late_block) (channel_bank_new example_config ())))"
    by (intro bank_reachable.intros)
  from channel_bank_invariant [OF this] show ?thesis by (auto simp: still_provider_def)
qed

text \<open>
  Which channel a read takes: none if there is no channel; the first one is dropped if it has
  timed out; otherwise, from Canyon on, the first in opening order that is ready and has not
  timed out (before Canyon, the first channel or none).  Its data is that of its frames in order,
  and the channel leaves the bank.
\<close>

lemma bank_read_takes_first_ready:
  assumes "bank_inv b" and "stg_origin P (cb_prev b) = Some origin"
  shows "bank_read P b =
    (if cb_channel_queue b = [] then (b, Err (temp Eof))
     else if channel_timed_out (cb_cfg b) (channel_at b 0) origin then (take_channel b 0, Ok None)
     else case find (readable b origin)
            [0..<if is_canyon_active (cb_cfg b) (bi_timestamp origin) then length (cb_channel_queue b) else 1] of
            None \<Rightarrow> (b, Err (temp Eof))
          | Some i \<Rightarrow> (take_channel b i, Ok (frame_data (channel_at b i))))"
  using assms
proof (cases rule: bank_read_cases)
  case none
  let ?n = "if is_canyon_active (cb_cfg b) (bi_timestamp origin) then length (cb_channel_queue b) else 1"
  have "find (readable b origin) [0..<?n] = None" using none by (auto simp: find_None_iff)
  then show ?thesis using none by (simp del: upt_Suc)
next
  case (found i)
  let ?n = "if is_canyon_active (cb_cfg b) (bi_timestamp origin) then length (cb_channel_queue b) else 1"
  have "find (readable b origin) [0..<?n] = Some i"
    using found by (simp add: find_Some_iff) (auto intro: exI [of _ i])
  then show ?thesis using found by (simp del: upt_Suc)
qed auto

definition full_channel :: channel where
  "full_channel = add_frames (channel_new 7 late_block) [(example_frame 7 0 True, late_block)]"

lemma full_channel:
  "channel_inv full_channel" "ch_id full_channel = 7" "ch_closed full_channel"
  "ch_last_frame_number full_channel = 0" "ch_open_block full_channel = late_block"
  "ch_inputs full_channel = [(0, example_frame 7 0 True)]"
proof -
  show "channel_inv full_channel" by (simp add: full_channel_def channel_inv_add_frames)
qed (simp_all add: full_channel_def add_frames_def add_frame_def example_frame_def buffer_frame_def
    close_with_def channel_new_def Let_def)

lemma full_channel_ready: "is_ready full_channel" "frame_data full_channel = Some [222, 173]"
  by (simp_all add: is_ready_def frame_data_def full_channel channel_len_def frame_range_def
      channel_is_empty_def example_frame_def)

definition full_bank :: "unit channel_bank" where
  "full_bank = \<lparr>cb_cfg = example_config, cb_channels = [(7, full_channel)], cb_channel_queue = [7], cb_prev = ()\<rparr>"

lemma bank_read_takes_first_ready_witness:
  "bank_read (still_provider late_block) full_bank = (take_channel full_bank 0, Ok (Some [222, 173]))"
proof -
  have inv: "bank_inv full_bank"
    by (simp add: bank_inv_def same_channels_def full_bank_def full_channel)
  have queue: "cb_channel_queue full_bank = [7]" by (simp add: full_bank_def)
  have at: "channel_at full_bank 0 = full_channel" by (simp add: channel_at_def full_bank_def)
  have live: "\<not> channel_timed_out (cb_cfg full_bank) full_channel late_block"
    by (simp add: channel_timed_out_def full_bank_def open_block_number_def full_channel late_block_def
        channel_timeout_def cfg_defs reached_def example_config_defs GRANITE_CHANNEL_TIMEOUT_def)
  have "readable full_bank late_block 0" by (simp add: readable_def at live full_channel_ready)
  then show ?thesis
    by (subst bank_read_takes_first_ready [OF inv, where origin = late_block])
      (simp_all add: still_provider_def queue at live full_channel_ready)
qed

end
