(* ===== verification/Channel_Assembler.thy ===== *)
theory Channel_Assembler
  imports Channel_Bank
begin

text \<open>
  The channel assembler, \<^verbatim>\<open>crates/protocol/derive/src/stages/channel/channel_assembler.rs\<close>, which
  replaces the channel bank under Holocene: at most one channel is under assembly, a frame with
  number 0 starts the next one.

  Shown: the stage's contract; what it holds is a well-formed channel that is not yet ready, and
  the data it gives out is that of a ready channel; a channel whose frames arrive in order comes
  out whole with its last frame.
\<close>

section \<open>The stage\<close>

record 'p channel_assembler =
  ca_cfg :: rollup_config
  ca_prev :: 'p
  ca_channel :: "channel option"

definition channel_assembler_new :: "rollup_config \<Rightarrow> 'p \<Rightarrow> 'p channel_assembler" where
  "channel_assembler_new cfg prev = \<lparr>ca_cfg = cfg, ca_prev = prev, ca_channel = None\<rparr>"

definition is_timed_out ::
    "('p, 'z) stage_scheme \<Rightarrow> 'p channel_assembler \<Rightarrow> 'p channel_assembler \<times> bool pres" where
  "is_timed_out P a =
     pbind (ok_or a (stg_origin P (ca_prev a)) (crit MissingOrigin)) (\<lambda>a origin.
       (a, Ok (case ca_channel a of
                 None \<Rightarrow> False
               | Some c \<Rightarrow> open_block_number c + channel_timeout (ca_cfg a) (bi_timestamp origin) < bi_number origin)))"

text \<open>The part of \<^verbatim>\<open>next_data\<close> after the next frame has been pulled.\<close>

definition assemble_frame ::
    "'p channel_assembler \<Rightarrow> block_info \<Rightarrow> frame \<Rightarrow> 'p channel_assembler \<times> bytes option pres" where
  "assemble_frame a origin frame =
     (let a = (if fr_number frame = 0
               then a\<lparr>ca_channel := Some (channel_new (fr_id frame) origin)\<rparr> else a)
      in case ca_channel a of
           None \<Rightarrow> (a, Err (temp NotEnoughData))
         | Some channel \<Rightarrow>
             let (channel, res) = add_frame channel frame origin;
                 a = a\<lparr>ca_channel := Some channel\<rparr>
             in case res of
                  Inl _ \<Rightarrow> (a, Err (temp NotEnoughData))
                | Inr _ \<Rightarrow>
                    let max_rlp_bytes_per_channel =
                          (if is_fjord_active (ca_cfg a) (bi_timestamp origin)
                           then MAX_RLP_BYTES_PER_CHANNEL_FJORD else MAX_RLP_BYTES_PER_CHANNEL_BEDROCK)
                    in if channel_size channel > max_rlp_bytes_per_channel
                       then (a\<lparr>ca_channel := None\<rparr>, Err (temp NotEnoughData))
                       else if is_ready channel then
                         pbind (ok_or a (frame_data channel) (crit ChannelNotFound)) (\<lambda>a channel_bytes.
                           (a\<lparr>ca_channel := None\<rparr>, Ok (Some channel_bytes)))
                       else (a, Err (temp NotEnoughData)))"

definition assembler_next_data ::
    "'p next_frame_provider \<Rightarrow> 'p channel_assembler \<Rightarrow> 'p channel_assembler \<times> bytes option pres" where
  "assembler_next_data P a =
     pbind (ok_or a (stg_origin P (ca_prev a)) (crit MissingOrigin)) (\<lambda>a origin.
     pbind (case ca_channel a of
              None \<Rightarrow> (a, Ok ())
            | Some _ \<Rightarrow> pbind (is_timed_out P a) (\<lambda>a expired.
                if expired then (a\<lparr>ca_channel := None\<rparr>, Ok ()) else (a, Ok ()))) (\<lambda>a _.
     pbind (via (\<lambda>p. a\<lparr>ca_prev := p\<rparr>) (nfp_next_frame P (ca_prev a))) (\<lambda>a frame.
       assemble_frame a origin frame)))"

definition assembler_signal ::
    "('p, 'z) stage_scheme \<Rightarrow> 'p channel_assembler \<Rightarrow> signal \<Rightarrow> 'p channel_assembler \<times> unit pres" where
  "assembler_signal P a sig =
     pbind (via (\<lambda>p. a\<lparr>ca_prev := p\<rparr>) (stg_signal P (ca_prev a) sig)) (\<lambda>a _.
       (a\<lparr>ca_channel := None\<rparr>, Ok ()))"

definition channel_assembler_ops :: "'p next_frame_provider \<Rightarrow> 'p channel_assembler channel_reader_provider" where
  "channel_assembler_ops P =
     \<lparr>stg_origin = (\<lambda>a. stg_origin P (ca_prev a)),
      stg_advance_origin = (\<lambda>a. via (\<lambda>p. a\<lparr>ca_prev := p\<rparr>) (stg_advance_origin P (ca_prev a))),
      stg_signal = assembler_signal P,
      crp_next_data = assembler_next_data P\<rparr>"

section \<open>Calls to the previous stage\<close>

lemma assemble_frame_prev:
  "ca_prev (fst (assemble_frame a origin f)) = ca_prev a" "snd (assemble_frame a origin f) \<noteq> Panicked"
  by (auto simp: assemble_frame_def Let_def ok_or_def split: option.splits prod.splits sum.splits)

lemma assembler_signal_prev:
  "ca_prev (fst (assembler_signal P a s)) = fst (stg_signal P (ca_prev a) s)"
  "snd (stg_signal P (ca_prev a) s) = Ok () \<Longrightarrow> snd (assembler_signal P a s) = Ok ()"
  by (cases "stg_signal P (ca_prev a) s"; cases "snd (stg_signal P (ca_prev a) s)";
      simp add: assembler_signal_def)+

text \<open>The timeout check, resolved.\<close>

definition drop_expired :: "'p channel_assembler \<Rightarrow> block_info \<Rightarrow> 'p channel_assembler" where
  "drop_expired a origin =
     (case ca_channel a of
        Some c \<Rightarrow> if channel_timed_out (ca_cfg a) c origin then a\<lparr>ca_channel := None\<rparr> else a
      | None \<Rightarrow> a)"

lemma assembler_next_data_eq:
  "assembler_next_data P a =
     (case stg_origin P (ca_prev a) of
        None \<Rightarrow> (a, Err (crit MissingOrigin))
      | Some origin \<Rightarrow>
          pbind (via (\<lambda>p. drop_expired a origin\<lparr>ca_prev := p\<rparr>) (nfp_next_frame P (ca_prev a))) (\<lambda>a f.
            assemble_frame a origin f))"
  by (auto simp: assembler_next_data_def is_timed_out_def drop_expired_def channel_timed_out_def
      split: option.splits)

section \<open>What the assembler holds and gives out\<close>

definition assembler_inv :: "'p channel_assembler \<Rightarrow> bool" where
  "assembler_inv a \<longleftrightarrow> (\<forall>c. ca_channel a = Some c \<longrightarrow> channel_inv c \<and> \<not> is_ready c)"

lemma not_ready_new [simp]: "\<not> is_ready (channel_new cid b)"
  by (simp add: is_ready_def)

abbreviation rlp_limit :: "rollup_config \<Rightarrow> block_info \<Rightarrow> u64" where
  "rlp_limit cfg origin \<equiv> (if is_fjord_active cfg (bi_timestamp origin)
     then MAX_RLP_BYTES_PER_CHANNEL_FJORD else MAX_RLP_BYTES_PER_CHANNEL_BEDROCK)"

text \<open>The channel a frame goes to: a new one for number 0.\<close>

abbreviation target :: "'p channel_assembler \<Rightarrow> block_info \<Rightarrow> frame \<Rightarrow> channel option" where
  "target a origin f \<equiv> (if fr_number f = 0 then Some (channel_new (fr_id f) origin) else ca_channel a)"

lemma assemble_frame_accepted:
  assumes "target a origin f = Some c" and "add_frame c f origin = (c', Inr ())"
  shows "assemble_frame a origin f =
    (if channel_size c' > rlp_limit (ca_cfg a) origin then (a\<lparr>ca_channel := None\<rparr>, Err (temp NotEnoughData))
     else if is_ready c' then (a\<lparr>ca_channel := None\<rparr>, Ok (frame_data c'))
     else (a\<lparr>ca_channel := Some c'\<rparr>, Err (temp NotEnoughData)))"
  using assms by (auto simp: assemble_frame_def Let_def elim!: ready_data split: if_splits)

lemma assemble_frame_cases:
  assumes "assembler_inv a" and "assemble_frame a origin f = (a', r)"
  obtains (wait) "r = Err (temp NotEnoughData)" "assembler_inv a'" "ca_prev a' = ca_prev a"
  | (full) c where "r = Ok (frame_data c)" "frame_data c \<noteq> None" "is_ready c" "channel_inv c" "ch_id c = fr_id f"
      "a' = a\<lparr>ca_channel := None\<rparr>"
proof -
  let ?ch = "if fr_number f = 0 then Some (channel_new (fr_id f) origin) else ca_channel a"
  show thesis
  proof (cases ?ch)
    case None
    with assms show thesis
      by (intro wait) (auto simp: assemble_frame_def assembler_inv_def split: if_splits)
  next
    case (Some c)
    then have c: "channel_inv c" "\<not> is_ready c"
      using assms(1) by (auto simp: assembler_inv_def split: if_splits)
    obtain c' res where add: "add_frame c f origin = (c', res)" by fastforce
    have inv': "channel_inv c'" using channel_inv_add_frame [OF c(1), of f origin] add by simp
    show thesis
    proof (cases res)
      case (Inl e)
      with add have "c' = c" using add_frame_err by blast
      with Some Inl add c assms show thesis
        by (intro wait) (auto simp: assemble_frame_def assembler_inv_def split: if_splits)
    next
      case (Inr u)
      show thesis
      proof (cases "is_ready c'")
        case True
        then obtain d where d: "frame_data c' = Some d" by (rule ready_data)
        have "snd (add_frame c f origin) = Inr ()" using add Inr by simp
        then have "fr_id f = ch_id c" by (simp only: add_frame_Ok_iff)
        then have "fr_id f = ch_id c'"
          using add_frame_fixed(1) [of c f origin] add by simp
        moreover have "assemble_frame a origin f =
          (if channel_size c' > rlp_limit (ca_cfg a) origin then (a\<lparr>ca_channel := None\<rparr>, Err (temp NotEnoughData))
           else (a\<lparr>ca_channel := None\<rparr>, Ok (frame_data c')))"
          using assemble_frame_accepted [OF Some] add Inr True by simp
        ultimately show thesis
          using assms True d inv'
          by (cases "channel_size c' > rlp_limit (ca_cfg a) origin")
            (intro wait, auto simp: assembler_inv_def intro!: full [of c'])
      next
        case False
        then show thesis
          using assemble_frame_accepted [OF Some] add Inr inv' assms
          by (intro wait) (auto simp: assembler_inv_def split: if_splits)
      qed
    qed
  qed
qed

lemma assembler_inv_assemble:
  assumes "assembler_inv a"
  shows "assembler_inv (fst (assemble_frame a origin f))"
  by (cases rule: assemble_frame_cases [OF assms surjective_pairing, of origin f]) (simp_all add: assembler_inv_def)

lemma assembler_inv_signal: "assembler_inv a \<Longrightarrow> assembler_inv (fst (assembler_signal P a s))"
  by (cases "stg_signal P (ca_prev a) s"; cases "snd (stg_signal P (ca_prev a) s)")
    (simp_all add: assembler_signal_def assembler_inv_def)

lemma assembler_inv_prev [simp]: "assembler_inv (a\<lparr>ca_prev := p\<rparr>) = assembler_inv a"
  by (simp add: assembler_inv_def)

lemma assembler_inv_drop: "assembler_inv a \<Longrightarrow> assembler_inv (drop_expired a origin)"
  by (auto simp: drop_expired_def assembler_inv_def split: option.splits)

lemma assembler_inv_next_data:
  assumes "assembler_inv a"
  shows "assembler_inv (fst (assembler_next_data P a))"
proof (cases "stg_origin P (ca_prev a)")
  case None
  with assms show ?thesis by (simp add: assembler_next_data_eq)
next
  case (Some origin)
  with assembler_inv_drop [OF assms, of origin] show ?thesis
    by (cases "nfp_next_frame P (ca_prev a)"; cases "snd (nfp_next_frame P (ca_prev a))")
      (simp_all add: assembler_next_data_eq assembler_inv_assemble)
qed

section \<open>The stage's contract\<close>

lemma channel_assembler_contract:
  "stage_contract P I \<Longrightarrow> stage_contract (channel_assembler_ops P) (\<lambda>a. I (ca_prev a) \<and> assembler_inv a)"
  by (erule stage_contract_lift [where prev = ca_prev])
    (simp_all add: channel_assembler_ops_def via_def assembler_signal_prev assembler_inv_signal)

context channel_stage
begin

lemma assembler_next_data_safe:
  assumes "I (ca_prev a)"
  shows "snd (assembler_next_data P a) \<noteq> Panicked"
    "stg_origin P (ca_prev (fst (assembler_next_data P a))) = stg_origin P (ca_prev a)"
    "I (ca_prev (fst (assembler_next_data P a)))"
  using assms pull_safe [OF assms] pull_origin [OF assms] pull_inv [OF assms]
  by (cases "nfp_next_frame P (ca_prev a)"; cases "snd (nfp_next_frame P (ca_prev a))";
      auto simp: assembler_next_data_eq assemble_frame_prev drop_expired_def split: option.splits)+

end

sublocale channel_stage \<subseteq>
  ca: safe_pull "channel_assembler_ops P" "\<lambda>a. I (ca_prev a) \<and> assembler_inv a"
    "\<lambda>_ :: unit. crp_next_data (channel_assembler_ops P)"
  by (rule safe_pull.intro, rule stable_pull.intro, rule channel_assembler_contract, rule stage_contract_axioms)
    (unfold_locales, simp_all add: channel_assembler_ops_def assembler_next_data_safe assembler_inv_next_data)

section \<open>Frames in order\<close>

fun assemble_frames ::
    "'p channel_assembler \<Rightarrow> block_info \<Rightarrow> frame list \<Rightarrow> 'p channel_assembler \<times> bytes option pres list" where
  "assemble_frames a origin [] = (a, [])"
| "assemble_frames a origin (f # fs) =
     (let (a, r) = assemble_frame a origin f; (a, rs) = assemble_frames a origin fs in (a, r # rs))"

text \<open>The channel after the first \<open>k\<close> frames of a split.\<close>

definition prefix_channel :: "channel_id \<Rightarrow> bytes list \<Rightarrow> block_info \<Rightarrow> nat \<Rightarrow> channel" where
  "prefix_channel cid chunks ob k =
     add_frames (channel_new cid ob) (map (\<lambda>i. (chunk_frame cid chunks i, ob)) [0..<k])"

lemma prefix_channel_Suc:
  "prefix_channel cid chunks ob (Suc k) =
   fst (add_frame (prefix_channel cid chunks ob k) (chunk_frame cid chunks k) ob)"
  by (simp add: prefix_channel_def add_frames_def)

lemma prefix_channel_0: "prefix_channel cid chunks ob 0 = channel_new cid ob"
  by (simp add: prefix_channel_def add_frames_def)

lemma u16_less: "i < 65536 \<Longrightarrow> j < 65536 \<Longrightarrow> (word_of_nat i :: u16) < word_of_nat j \<longleftrightarrow> i < j"
  by (simp add: word_less_nat_alt u16_of_nat)

lemma prefix_channel_state:
  assumes "k \<le> length chunks" and "length chunks \<le> 65535"
  shows "ch_id (prefix_channel cid chunks ob k) = cid \<and>
    (ch_closed (prefix_channel cid chunks ob k) \<longleftrightarrow> k = length chunks \<and> k \<noteq> 0) \<and>
    ch_inputs (prefix_channel cid chunks ob k) = map (\<lambda>i. (word_of_nat i, chunk_frame cid chunks i)) [0..<k] \<and>
    ch_highest_frame_number (prefix_channel cid chunks ob k) = word_of_nat (k - 1) \<and>
    ch_estimated_size (prefix_channel cid chunks ob k) = word_of_nat (\<Sum>i<k. length (chunks ! i) + 200)"
  using assms(1)
proof (induction k)
  case 0
  then show ?case by (simp add: prefix_channel_0 channel_new_def)
next
  case (Suc k)
  define c where "c = prefix_channel cid chunks ob k"
  define f where "f = chunk_frame cid chunks k"
  have f: "fr_id f = cid" "fr_number f = word_of_nat k" "fr_is_last f \<longleftrightarrow> Suc k = length chunks"
    "frame_size f = length (chunks ! k) + 200"
    by (simp_all add: f_def frame_size_def FRAME_OVERHEAD_def)
  have IH: "ch_id c = cid" "\<not> ch_closed c"
    "ch_inputs c = map (\<lambda>i. (word_of_nat i, chunk_frame cid chunks i)) [0..<k]"
    "ch_highest_frame_number c = word_of_nat (k - 1)"
    "ch_estimated_size c = word_of_nat (\<Sum>i<k. length (chunks ! i) + 200)"
    using Suc by (auto simp: c_def)
  have k: "k < 65535" using Suc.prems assms(2) by simp
  have fresh: "map_of (ch_inputs c) (fr_number f) = None"
    using k by (auto simp: IH(3) f map_of_None_fst u16_of_nat_eq)
  have ok: "snd (add_frame c f ob) = Inr ()"
    using IH(1,2) fresh by (simp add: add_frame_Ok_iff f)
  have le: "\<not> fr_number f < ch_highest_frame_number c"
    unfolding f IH(4) using k by (subst u16_less) auto
  define c' where "c' = (if fr_is_last f then close_with f c else c)"
  have c': "ch_inputs c' = ch_inputs c" "ch_estimated_size c' = ch_estimated_size c" "ch_id c' = ch_id c"
    "ch_highest_frame_number c' = ch_highest_frame_number c" "ch_closed c' \<longleftrightarrow> Suc k = length chunks"
    using le IH(2) by (simp_all add: c'_def close_with_def Let_def f)
  have "prefix_channel cid chunks ob (Suc k) = buffer_frame f ob c'"
    using add_frame_Ok [OF ok] by (simp add: prefix_channel_Suc c_def f_def c'_def)
  moreover have "max (fr_number f) (ch_highest_frame_number c) = word_of_nat k"
    using le by (simp add: max_def f)
  ultimately show ?case
    using fresh c' IH by (simp add: update_fresh f(4), simp add: f f_def)
qed

lemma prefix_channel_add:
  assumes "k < length chunks" and "length chunks \<le> 65535"
  shows "add_frame (prefix_channel cid chunks ob k) (chunk_frame cid chunks k) ob =
    (prefix_channel cid chunks ob (Suc k), Inr ())"
proof -
  have k: "k < 65535" using assms by simp
  have "map_of (ch_inputs (prefix_channel cid chunks ob k)) (word_of_nat k) = None"
    using prefix_channel_state [of k chunks cid ob] assms k by (auto simp: map_of_None_fst u16_of_nat_eq)
  moreover have "ch_id (prefix_channel cid chunks ob k) = cid" "\<not> ch_closed (prefix_channel cid chunks ob k)"
    using prefix_channel_state [of k chunks cid ob] assms by auto
  ultimately have "snd (add_frame (prefix_channel cid chunks ob k) (chunk_frame cid chunks k) ob) = Inr ()"
    by (simp add: add_frame_Ok_iff)
  then show ?thesis by (simp add: prefix_channel_Suc prod_eq_iff)
qed

lemma prefix_channel_full:
  assumes "chunks \<noteq> []" and "length chunks \<le> 65535"
  shows "is_ready (prefix_channel cid chunks ob (length chunks))"
    and "frame_data (prefix_channel cid chunks ob (length chunks)) = Some (concat chunks)"
proof -
  let ?c = "prefix_channel cid chunks ob (length chunks)"
  obtain m where m: "length chunks = Suc m" "m < 65535"
    using assms by (cases "length chunks") auto
  have inv: "channel_inv ?c" by (simp add: prefix_channel_def channel_inv_add_frames)
  have "set (ch_inputs ?c) = filed (set (split_channel cid chunks))"
    using prefix_channel_state [of "length chunks" chunks cid ob] assms(2)
    by (simp add: filed_def split_channel_def image_image)
  from complete_channel [OF m inv this] show "is_ready ?c" "frame_data ?c = Some (concat chunks)" by simp_all
qed

lemma prefix_channel_size:
  assumes "k \<le> length chunks" and "length chunks \<le> 65535"
    and "(\<Sum>d\<leftarrow>chunks. length d + 200) \<le> unat (limit :: u64)"
  shows "channel_size (prefix_channel cid chunks ob k) \<le> limit"
proof -
  have "(\<Sum>i<k. length (chunks ! i) + 200) \<le> (\<Sum>i<length chunks. length (chunks ! i) + 200)"
    using assms(1) by (intro sum_mono2) auto
  also have "\<dots> = (\<Sum>d\<leftarrow>chunks. length d + 200)"
    by (simp add: sum_list_sum_nth atLeast0LessThan)
  finally have le: "(\<Sum>i<k. length (chunks ! i) + 200) \<le> unat limit" using assms(3) by simp
  have "channel_size (prefix_channel cid chunks ob k) = word_of_nat (\<Sum>i<k. length (chunks ! i) + 200)"
    using prefix_channel_state [OF assms(1,2)] by (simp only: channel_size_def)
  moreover have "word_of_nat (\<Sum>i<k. length (chunks ! i) + 200) \<le> limit"
    unfolding word_le_nat_alt unsigned_of_nat of_nat_id by (rule order_trans [OF take_bit_nat_less_eq_self le])
  ultimately show ?thesis by (simp only:)
qed

text \<open>The assembler after \<open>k\<close> frames of the split.\<close>

definition waiting :: "'p channel_assembler \<Rightarrow> channel_id \<Rightarrow> bytes list \<Rightarrow> block_info \<Rightarrow> nat \<Rightarrow> 'p channel_assembler" where
  "waiting a cid chunks ob k = (if k = 0 then a else a\<lparr>ca_channel := Some (prefix_channel cid chunks ob k)\<rparr>)"

lemma assemble_chunk:
  assumes "k < length chunks" and "length chunks \<le> 65535"
    and "(\<Sum>d\<leftarrow>chunks. length d + 200) \<le> unat (rlp_limit (ca_cfg a) origin)"
  shows "assemble_frame (waiting a cid chunks origin k) origin (chunk_frame cid chunks k) =
    (if Suc k = length chunks then (a\<lparr>ca_channel := None\<rparr>, Ok (Some (concat chunks)))
     else (waiting a cid chunks origin (Suc k), Err (temp NotEnoughData)))"
proof -
  let ?c = "prefix_channel cid chunks origin"
  have "(word_of_nat k :: u16) = word_of_nat 0 \<longleftrightarrow> k = 0"
    using assms by (intro u16_of_nat_eq) auto
  then have target: "target (waiting a cid chunks origin k) origin (chunk_frame cid chunks k) = Some (?c k)"
    by (simp add: waiting_def prefix_channel_0)
  have cfg: "ca_cfg (waiting a cid chunks origin k) = ca_cfg a" by (simp add: waiting_def)
  have size: "\<not> channel_size (?c (Suc k)) > rlp_limit (ca_cfg a) origin"
    using prefix_channel_size [of "Suc k" chunks "rlp_limit (ca_cfg a) origin" cid origin] assms
    by (simp add: not_less)
  note step = assemble_frame_accepted [OF target prefix_channel_add [OF assms(1,2)], unfolded cfg]
  show ?thesis
  proof (cases "Suc k = length chunks")
    case True
    then have "chunks \<noteq> []" by auto
    from prefix_channel_full [OF this assms(2), of cid origin] True size step show ?thesis
      by (simp add: waiting_def)
  next
    case False
    then have "\<not> is_ready (?c (Suc k))"
      using prefix_channel_state [of "Suc k" chunks cid origin] assms(1,2) by (simp add: is_ready_def)
    with False size step show ?thesis by (simp add: waiting_def)
  qed
qed

lemma assemble_chunks:
  assumes "length chunks \<le> 65535"
    and "(\<Sum>d\<leftarrow>chunks. length d + 200) \<le> unat (rlp_limit (ca_cfg a) origin)"
    and "length chunks = k + Suc n"
  shows "assemble_frames (waiting a cid chunks origin k) origin (map (chunk_frame cid chunks) [k..<length chunks]) =
    (a\<lparr>ca_channel := None\<rparr>, replicate n (Err (temp NotEnoughData)) @ [Ok (Some (concat chunks))])"
  using assms(3)
proof (induction n arbitrary: k)
  case 0
  then show ?case using assemble_chunk [OF _ assms(1,2), of k cid] by simp
next
  case (Suc n)
  then have "[k..<length chunks] = k # [Suc k..<length chunks]" by (intro upt_conv_Cons) simp
  moreover have "assemble_frames (waiting a cid chunks origin (Suc k)) origin
      (map (chunk_frame cid chunks) [Suc k..<length chunks]) =
    (a\<lparr>ca_channel := None\<rparr>, replicate n (Err (temp NotEnoughData)) @ [Ok (Some (concat chunks))])"
    using Suc by (intro Suc.IH) simp
  ultimately show ?case
    using assemble_chunk [OF _ assms(1,2), of k cid] Suc.prems by (simp del: upt_Suc)
qed

section \<open>Properties\<close>

text \<open>
  Frames in order: whatever the assembler was doing before, the frames of a split channel (at
  most 65535 of them, within the size limit), each delivered at the same origin, make it wait
  until the last one, with which it gives out the concatenated data and is left empty.
\<close>

lemma assembler_in_order:
  assumes "chunks \<noteq> []" and "length chunks \<le> 65535"
    and "(\<Sum>d\<leftarrow>chunks. length d + 200) \<le> unat (rlp_limit (ca_cfg a) origin)"
  shows "assemble_frames a origin (split_channel cid chunks) =
    (a\<lparr>ca_channel := None\<rparr>,
     replicate (length chunks - 1) (Err (temp NotEnoughData)) @ [Ok (Some (concat chunks))])"
  using assemble_chunks [OF assms(2,3), of 0 "length chunks - 1" cid] assms(1)
  by (simp add: waiting_def split_channel_def)

lemma assembler_in_order_witness:
  "assemble_frames (channel_assembler_new example_config ()) late_block (split_channel 9 [[1, 2], [3]]) =
   (channel_assembler_new example_config (), [Err (temp NotEnoughData), Ok (Some [1, 2, 3])])"
  by (subst assembler_in_order)
    (simp_all add: channel_assembler_new_def MAX_RLP_BYTES_PER_CHANNEL_FJORD_def
      MAX_RLP_BYTES_PER_CHANNEL_BEDROCK_def)

end
