(* ===== verification/Mux.thy ===== *)
theory Mux
  imports Pipeline_Types
begin

text \<open>
  Multiplexers.  \<^verbatim>\<open>ChannelProvider\<close> and \<^verbatim>\<open>BatchProvider\<close> have the same shape: an update of the
  active stage from the origin's timestamp, then a call that goes to the one stage or the other.
  The locale \<open>mux\<close> is what the shape needs to pass the contract of the stages on, with pulls
  that keep the origin.
\<close>

definition mux_dispatch ::
    "('s \<Rightarrow> 's \<times> unit pres) \<Rightarrow> ('s \<Rightarrow> 'a option) \<Rightarrow> ('s \<Rightarrow> 'a \<Rightarrow> 's) \<Rightarrow> ('s \<Rightarrow> 'b option) \<Rightarrow> ('s \<Rightarrow> 'b \<Rightarrow> 's) \<Rightarrow>
     ('a \<Rightarrow> 'a \<times> 'r pres) \<Rightarrow> ('b \<Rightarrow> 'b \<times> 'r pres) \<Rightarrow> 's \<Rightarrow> 's \<times> 'r pres" where
  "mux_dispatch update get_a put_a get_b put_b f g s =
     pbind (update s) (\<lambda>s _.
       case get_a s of
         Some a \<Rightarrow> via (put_a s) (f a)
       | None \<Rightarrow> (case get_b s of
           Some b \<Rightarrow> via (put_b s) (g b)
         | None \<Rightarrow> (s, Err (temp NotEnoughData))))"

locale mux =
  fixes SA :: "('a, 'y) stage_scheme" and IA :: "'a \<Rightarrow> bool"
    and SB :: "('b, 'z) stage_scheme" and IB :: "'b \<Rightarrow> bool"
    and T :: "('s, 'w) stage_scheme" and I :: "'s \<Rightarrow> bool"
    and update :: "'s \<Rightarrow> 's \<times> unit pres"
    and get_a :: "'s \<Rightarrow> 'a option" and put_a :: "'s \<Rightarrow> 'a \<Rightarrow> 's"
    and get_b :: "'s \<Rightarrow> 'b option" and put_b :: "'s \<Rightarrow> 'b \<Rightarrow> 's"
  assumes contract_a: "stage_contract SA IA" and contract_b: "stage_contract SB IB"
    and update_none: "stg_origin T s = None \<Longrightarrow> update s = (s, Err (crit MissingOrigin))"
    and update_some: "I s \<Longrightarrow> stg_origin T s = Some x \<Longrightarrow>
      \<exists>s'. update s = (s', Ok ()) \<and> I s' \<and> stg_origin T s' = Some x \<and> (get_a s' \<noteq> None \<or> get_b s' \<noteq> None)"
    and origin_a: "get_a s = Some a \<Longrightarrow> stg_origin T s = stg_origin SA a"
    and origin_b: "get_a s = None \<Longrightarrow> get_b s = Some b \<Longrightarrow> stg_origin T s = stg_origin SB b"
    and inv_a: "I s \<Longrightarrow> get_a s = Some a \<Longrightarrow> IA a"
    and inv_b: "I s \<Longrightarrow> get_b s = Some b \<Longrightarrow> IB b"
    and put_a: "I s \<Longrightarrow> get_a s \<noteq> None \<Longrightarrow> IA a \<Longrightarrow> get_a (put_a s a) = Some a \<and> I (put_a s a)"
    and put_b: "I s \<Longrightarrow> get_b s \<noteq> None \<Longrightarrow> get_a s = None \<Longrightarrow> IB b \<Longrightarrow>
      get_a (put_b s b) = None \<and> get_b (put_b s b) = Some b \<and> I (put_b s b)"
    and advance: "stg_advance_origin T =
      mux_dispatch update get_a put_a get_b put_b (stg_advance_origin SA) (stg_advance_origin SB)"
    and signal: "stg_signal T s sig =
      mux_dispatch update get_a put_a get_b put_b (\<lambda>a. stg_signal SA a sig) (\<lambda>b. stg_signal SB b sig) s"
begin

abbreviation dispatch :: "('a \<Rightarrow> 'a \<times> 'r pres) \<Rightarrow> ('b \<Rightarrow> 'b \<times> 'r pres) \<Rightarrow> 's \<Rightarrow> 's \<times> 'r pres" where
  "dispatch \<equiv> mux_dispatch update get_a put_a get_b put_b"

lemma dispatch_none: "stg_origin T s = None \<Longrightarrow> dispatch f g s = (s, Err (crit MissingOrigin))"
  by (simp add: mux_dispatch_def update_none)

text \<open>A call reaches one of the stages, in a state of its invariant, and puts back what it leaves.\<close>

lemma dispatch_some:
  assumes inv: "I s" and "stg_origin T s = Some x"
    and f: "\<And>a. IA a \<Longrightarrow> IA (fst (f a))" and g: "\<And>b. IB b \<Longrightarrow> IB (fst (g b))"
  obtains (A) a where "IA a" "stg_origin SA a = Some x" "snd (dispatch f g s) = snd (f a)"
      "stg_origin T (fst (dispatch f g s)) = stg_origin SA (fst (f a))" "I (fst (dispatch f g s))"
  | (B) b where "IB b" "stg_origin SB b = Some x" "snd (dispatch f g s) = snd (g b)"
      "stg_origin T (fst (dispatch f g s)) = stg_origin SB (fst (g b))" "I (fst (dispatch f g s))"
proof -
  obtain s' where s': "update s = (s', Ok ())" "I s'" "stg_origin T s' = Some x"
      "get_a s' \<noteq> None \<or> get_b s' \<noteq> None"
    using update_some [OF assms(1,2)] by blast
  show thesis
  proof (cases "get_a s'")
    case (Some a)
    with inv_a [OF s'(2)] have a: "IA a" by simp
    with put_a [OF s'(2) _ f] Some
    have "get_a (put_a s' (fst (f a))) = Some (fst (f a)) \<and> I (put_a s' (fst (f a)))" by blast
    then show thesis using s' Some a origin_a [of s' a] origin_a [of "put_a s' (fst (f a))"]
      by (intro A [of a]) (simp_all add: mux_dispatch_def via_def)
  next
    case None
    then obtain b where b: "get_b s' = Some b" using s'(4) by blast
    with inv_b [OF s'(2)] have b': "IB b" by simp
    with put_b [OF s'(2) _ None g] b
    have "get_a (put_b s' (fst (g b))) = None \<and> get_b (put_b s' (fst (g b))) = Some (fst (g b)) \<and>
        I (put_b s' (fst (g b)))" by blast
    then show thesis using s' None b b' origin_b [of s' b] origin_b [of "put_b s' (fst (g b))"]
      by (intro B [of b]) (simp_all add: mux_dispatch_def via_def)
  qed
qed

lemmas signal_some = dispatch_some [of _ _ "\<lambda>a. stg_signal SA a x" "\<lambda>b. stg_signal SB b x" for x,
  OF _ _ stage_contract.signal_inv [OF contract_a] stage_contract.signal_inv [OF contract_b], folded signal]

lemmas advance_some = dispatch_some [of _ _ "stg_advance_origin SA" "stg_advance_origin SB",
  OF _ _ stage_contract.advance_inv [OF contract_a] stage_contract.advance_inv [OF contract_b], folded advance]

lemma dispatch_inv:
  assumes "I s" and "\<And>a. IA a \<Longrightarrow> IA (fst (f a))" and "\<And>b. IB b \<Longrightarrow> IB (fst (g b))"
  shows "I (fst (dispatch f g s))"
proof (cases "stg_origin T s")
  case (Some x)
  then show ?thesis by (rule dispatch_some [OF assms(1) _ assms(2,3)])
qed (simp add: dispatch_none assms)

lemma mux_contract: "stage_contract T I"
proof
  fix p s and b old :: block_info and c
  assume p: "I p" "stg_origin T p = Some old" and s: "signal_origin s = Some b" "signal_system_config s = Some c"
  show "\<exists>p'. stg_signal T p s = (p', Ok ()) \<and> stg_origin T p' = Some b"
    using stage_contract.reset_ok [OF contract_a _ _ s] stage_contract.reset_ok [OF contract_b _ _ s]
    by (cases "stg_signal T p s"; cases rule: signal_some [OF p, of s]) force+
next
  fix p and old :: block_info
  assume p: "I p" "stg_origin T p = Some old"
  show "\<exists>p'. stg_signal T p FlushChannel = (p', Ok ()) \<and> stg_origin T p' = Some old"
    using stage_contract.flush_ok [OF contract_a] stage_contract.flush_ok [OF contract_b]
    by (cases "stg_signal T p FlushChannel"; cases rule: signal_some [OF p, of FlushChannel]) force+
next
  fix p x assume p: "I p"
  show "stg_origin T (fst (stg_signal T p (ProvideBlock x))) = stg_origin T p \<or>
      linked (stg_origin T p) (stg_origin T (fst (stg_signal T p (ProvideBlock x))))"
  proof (cases "stg_origin T p")
    case (Some y)
    show ?thesis
      using stage_contract.provide_linked [OF contract_a, of _ x] stage_contract.provide_linked [OF contract_b, of _ x]
      by (cases rule: signal_some [OF p Some, of "ProvideBlock x"]) (simp_all add: Some, metis+)
  qed (simp add: signal dispatch_none)
next
  fix p assume p: "I p"
  show "stg_origin T (fst (stg_advance_origin T p)) = stg_origin T p \<or>
      linked (stg_origin T p) (stg_origin T (fst (stg_advance_origin T p)))"
  proof (cases "stg_origin T p")
    case (Some y)
    show ?thesis
      using stage_contract.advance_linked [OF contract_a] stage_contract.advance_linked [OF contract_b]
      by (cases rule: advance_some [OF p Some]) (simp_all add: Some, metis+)
  qed (simp add: advance dispatch_none)
  show "snd (stg_advance_origin T p) \<noteq> Panicked"
  proof (cases "stg_origin T p")
    case (Some y)
    show ?thesis
      using stage_contract.advance_safe [OF contract_a] stage_contract.advance_safe [OF contract_b]
      by (cases rule: advance_some [OF p Some]) simp_all
  qed (simp add: advance dispatch_none)
qed (simp_all add: advance signal dispatch_inv stage_contract.advance_inv [OF contract_a]
    stage_contract.advance_inv [OF contract_b] stage_contract.signal_inv [OF contract_a]
    stage_contract.signal_inv [OF contract_b])

text \<open>A pull that goes to a pull of either stage.\<close>

lemma mux_pull:
  assumes f: "stable_pull SA IA (\<lambda>q. f q)" and g: "stable_pull SB IB (\<lambda>q. g q)"
  shows "stable_pull T I (\<lambda>q. dispatch (f q) (g q))"
proof (rule stable_pull.intro, rule mux_contract, unfold_locales)
  fix q s assume s: "I s"
  note fg = stable_pull.pull_inv [OF f, of _ q] stable_pull.pull_inv [OF g, of _ q]
  show "stg_origin T (fst (dispatch (f q) (g q) s)) = stg_origin T s"
  proof (cases "stg_origin T s")
    case (Some x)
    show ?thesis
      using stable_pull.pull_origin [OF f, of _ q] stable_pull.pull_origin [OF g, of _ q]
      by (cases rule: dispatch_some [of s x "f q" "g q", OF s Some fg]) (simp_all add: Some)
  qed (simp add: dispatch_none)
  show "I (fst (dispatch (f q) (g q) s))" using s fg by (rule dispatch_inv)
qed

lemma mux_safe_pull:
  assumes f: "safe_pull SA IA (\<lambda>q. f q)" and g: "safe_pull SB IB (\<lambda>q. g q)"
  shows "safe_pull T I (\<lambda>q. dispatch (f q) (g q))"
proof (rule safe_pull.intro, rule mux_pull)
  show fg: "stable_pull SA IA (\<lambda>q. f q)" "stable_pull SB IB (\<lambda>q. g q)"
    using f g by (simp_all add: safe_pull_def)
  show "safe_pull_axioms I (\<lambda>q. dispatch (f q) (g q))"
  proof
    fix q s assume s: "I s"
    note fg = stable_pull.pull_inv [OF fg(1), of _ q] stable_pull.pull_inv [OF fg(2), of _ q]
    show "snd (dispatch (f q) (g q) s) \<noteq> Panicked"
    proof (cases "stg_origin T s")
      case (Some x)
      show ?thesis
        using safe_pull.pull_safe [OF f, of _ q] safe_pull.pull_safe [OF g, of _ q]
        by (cases rule: dispatch_some [of s x "f q" "g q", OF s Some fg]) simp_all
    qed (simp add: dispatch_none)
  qed
qed

end

end
