(* ===== verification/Channel_Provider.thy ===== *)
theory Channel_Provider
  imports Channel_Assembler Mux
begin

text \<open>
  The channel provider, \<^verbatim>\<open>crates/protocol/derive/src/stages/channel/channel_provider.rs\<close>: the
  multiplexer between the channel bank (before Holocene) and the channel assembler (from Holocene
  on).  It hands the previous stage from one to the other when the origin crosses the activation.

  Shown: exactly one of the three owners of the previous stage is set at any time; which one is
  active follows the origin; the contract of the stages carries over.
\<close>

section \<open>The stage\<close>

record 'p channel_provider =
  cv_cfg :: rollup_config
  cv_prev :: "'p option"
  cv_channel_bank :: "'p channel_bank option"
  cv_channel_assembler :: "'p channel_assembler option"

definition channel_provider_new :: "rollup_config \<Rightarrow> 'p \<Rightarrow> 'p channel_provider" where
  "channel_provider_new cfg prev =
     \<lparr>cv_cfg = cfg, cv_prev = Some prev, cv_channel_bank = None, cv_channel_assembler = None\<rparr>"

definition channel_provider_origin :: "'p next_frame_provider \<Rightarrow> 'p channel_provider \<Rightarrow> block_info option" where
  "channel_provider_origin P c =
     (case cv_channel_assembler c of
        None \<Rightarrow> (case cv_channel_bank c of
            None \<Rightarrow> Option.bind (cv_prev c) (stg_origin P)
          | Some channel_bank \<Rightarrow> stg_origin (channel_bank_ops P) channel_bank)
      | Some channel_assembler \<Rightarrow> stg_origin (channel_assembler_ops P) channel_assembler)"

definition channel_attempt_update ::
    "'p next_frame_provider \<Rightarrow> 'p channel_provider \<Rightarrow> 'p channel_provider \<times> unit pres" where
  "channel_attempt_update P c =
     pbind (ok_or c (channel_provider_origin P c) (crit MissingOrigin)) (\<lambda>c origin.
       let holocene = is_holocene_active (cv_cfg c) (bi_timestamp origin) in
       case cv_prev c of
         Some prev \<Rightarrow>
           (if holocene
            then c\<lparr>cv_prev := None, cv_channel_assembler := Some (channel_assembler_new (cv_cfg c) prev)\<rparr>
            else c\<lparr>cv_prev := None, cv_channel_bank := Some (channel_bank_new (cv_cfg c) prev)\<rparr>, Ok ())
       | None \<Rightarrow>
           if cv_channel_bank c \<noteq> None \<and> holocene then
             (case cv_channel_bank c of
                Some channel_bank \<Rightarrow>
                  (c\<lparr>cv_channel_bank := None,
                     cv_channel_assembler := Some (channel_assembler_new (cv_cfg c) (cb_prev channel_bank))\<rparr>, Ok ())
              | None \<Rightarrow> (c, Panicked))
           else if cv_channel_assembler c \<noteq> None \<and> \<not> holocene then
             (case cv_channel_assembler c of
                Some channel_assembler \<Rightarrow>
                  (c\<lparr>cv_channel_assembler := None,
                     cv_channel_bank := Some (channel_bank_new (cv_cfg c) (ca_prev channel_assembler))\<rparr>, Ok ())
              | None \<Rightarrow> (c, Panicked))
           else (c, Ok ()))"

definition channel_provider_advance_origin ::
    "'p next_frame_provider \<Rightarrow> 'p channel_provider \<Rightarrow> 'p channel_provider \<times> unit pres" where
  "channel_provider_advance_origin P c =
     pbind (channel_attempt_update P c) (\<lambda>c _.
       case cv_channel_assembler c of
         Some a \<Rightarrow> via (\<lambda>a. c\<lparr>cv_channel_assembler := Some a\<rparr>) (stg_advance_origin (channel_assembler_ops P) a)
       | None \<Rightarrow> (case cv_channel_bank c of
           Some b \<Rightarrow> via (\<lambda>b. c\<lparr>cv_channel_bank := Some b\<rparr>) (stg_advance_origin (channel_bank_ops P) b)
         | None \<Rightarrow> (c, Err (temp NotEnoughData))))"

definition channel_provider_signal ::
    "'p next_frame_provider \<Rightarrow> 'p channel_provider \<Rightarrow> signal \<Rightarrow> 'p channel_provider \<times> unit pres" where
  "channel_provider_signal P c sig =
     pbind (channel_attempt_update P c) (\<lambda>c _.
       case cv_channel_assembler c of
         Some a \<Rightarrow> via (\<lambda>a. c\<lparr>cv_channel_assembler := Some a\<rparr>) (stg_signal (channel_assembler_ops P) a sig)
       | None \<Rightarrow> (case cv_channel_bank c of
           Some b \<Rightarrow> via (\<lambda>b. c\<lparr>cv_channel_bank := Some b\<rparr>) (stg_signal (channel_bank_ops P) b sig)
         | None \<Rightarrow> (c, Err (temp NotEnoughData))))"

definition channel_provider_next_data ::
    "'p next_frame_provider \<Rightarrow> 'p channel_provider \<Rightarrow> 'p channel_provider \<times> bytes option pres" where
  "channel_provider_next_data P c =
     pbind (channel_attempt_update P c) (\<lambda>c _.
       case cv_channel_assembler c of
         Some a \<Rightarrow> via (\<lambda>a. c\<lparr>cv_channel_assembler := Some a\<rparr>) (crp_next_data (channel_assembler_ops P) a)
       | None \<Rightarrow> (case cv_channel_bank c of
           Some b \<Rightarrow> via (\<lambda>b. c\<lparr>cv_channel_bank := Some b\<rparr>) (crp_next_data (channel_bank_ops P) b)
         | None \<Rightarrow> (c, Err (temp NotEnoughData))))"

definition channel_provider_ops :: "'p next_frame_provider \<Rightarrow> 'p channel_provider channel_reader_provider" where
  "channel_provider_ops P =
     \<lparr>stg_origin = channel_provider_origin P,
      stg_advance_origin = channel_provider_advance_origin P,
      stg_signal = channel_provider_signal P,
      crp_next_data = channel_provider_next_data P\<rparr>"

section \<open>Ownership of the previous stage\<close>

text \<open>
  Exactly one owner is set, and it is in a state of its invariant.
\<close>

fun owner :: "'p option \<Rightarrow> 'p channel_bank option \<Rightarrow> 'p channel_assembler option \<Rightarrow> 'p option" where
  "owner (Some p) None None = Some p"
| "owner None (Some b) None = Some (cb_prev b)"
| "owner None None (Some a) = Some (ca_prev a)"
| "owner _ _ _ = None"

abbreviation prev_of :: "'p channel_provider \<Rightarrow> 'p option" where
  "prev_of c \<equiv> owner (cv_prev c) (cv_channel_bank c) (cv_channel_assembler c)"

definition channel_provider_inv :: "('p \<Rightarrow> bool) \<Rightarrow> 'p channel_provider \<Rightarrow> bool" where
  "channel_provider_inv I c \<longleftrightarrow>
     (case prev_of c of None \<Rightarrow> False | Some p \<Rightarrow> I p) \<and>
     (case cv_channel_bank c of None \<Rightarrow> True | Some b \<Rightarrow> bank_inv b) \<and>
     (case cv_channel_assembler c of None \<Rightarrow> True | Some a \<Rightarrow> assembler_inv a)"

lemma channel_provider_inv_cases:
  assumes "channel_provider_inv I c"
  obtains (prev) p where "cv_prev c = Some p" "cv_channel_bank c = None" "cv_channel_assembler c = None" "I p"
  | (bank) b where "cv_prev c = None" "cv_channel_bank c = Some b" "cv_channel_assembler c = None"
      "I (cb_prev b)" "bank_inv b"
  | (assembler) a where "cv_prev c = None" "cv_channel_bank c = None" "cv_channel_assembler c = Some a"
      "I (ca_prev a)" "assembler_inv a"
  using assms
  by (cases "cv_prev c"; cases "cv_channel_bank c"; cases "cv_channel_assembler c")
    (auto simp: channel_provider_inv_def)

lemma channel_provider_inv_new: "I p \<Longrightarrow> channel_provider_inv I (channel_provider_new cfg p)"
  by (simp add: channel_provider_inv_def channel_provider_new_def)

lemma assembler_inv_new: "assembler_inv (channel_assembler_new cfg p)"
  by (simp add: assembler_inv_def channel_assembler_new_def)

lemma channel_new_prev [simp]:
  "cb_prev (channel_bank_new cfg p) = p" "ca_prev (channel_assembler_new cfg p) = p"
  by (simp_all add: channel_bank_new_def channel_assembler_new_def)

text \<open>After the update the active stage is the one for the origin, over the same previous stage.\<close>

definition channel_active :: "rollup_config \<Rightarrow> block_info \<Rightarrow> 'p channel_provider \<Rightarrow> bool" where
  "channel_active cfg x c \<longleftrightarrow> cv_prev c = None \<and>
     (cv_channel_assembler c \<noteq> None) = is_holocene_active cfg (bi_timestamp x) \<and>
     (cv_channel_bank c \<noteq> None) = (\<not> is_holocene_active cfg (bi_timestamp x))"

lemma channel_attempt_update_ok:
  assumes inv: "channel_provider_inv I c" and origin: "channel_provider_origin P c = Some x"
  obtains c' where "channel_attempt_update P c = (c', Ok ())" "channel_provider_inv I c'"
    "prev_of c' = prev_of c" "channel_provider_origin P c' = Some x" "channel_active (cv_cfg c) x c'"
    "channel_active (cv_cfg c) x c \<Longrightarrow> c' = c"
proof -
  let ?h = "is_holocene_active (cv_cfg c) (bi_timestamp x)"
  note defs = channel_provider_inv_def channel_attempt_update_def channel_provider_origin_def
    bank_inv_new assembler_inv_new channel_bank_ops_def channel_assembler_ops_def channel_active_def
  let ?bank = "\<lambda>p. c\<lparr>cv_prev := None, cv_channel_assembler := None, cv_channel_bank := Some (channel_bank_new (cv_cfg c) p)\<rparr>"
  let ?asm = "\<lambda>p. c\<lparr>cv_prev := None, cv_channel_bank := None, cv_channel_assembler := Some (channel_assembler_new (cv_cfg c) p)\<rparr>"
  show thesis using inv
  proof (cases rule: channel_provider_inv_cases)
    case (prev p)
    then show thesis using origin
      by (cases ?h) (intro that [of "?asm p"], simp_all add: defs, intro that [of "?bank p"], simp_all add: defs)
  next
    case (bank b)
    then show thesis using origin
      by (cases ?h) (intro that [of "?asm (cb_prev b)"], simp_all add: defs, intro that [of c], simp_all add: defs)
  next
    case (assembler a)
    then show thesis using origin
      by (cases ?h) (intro that [of c], simp_all add: defs, intro that [of "?bank (ca_prev a)"], simp_all add: defs)
  qed
qed

section \<open>The stage's contract\<close>

abbreviation channel_dispatch ::
    "'p next_frame_provider \<Rightarrow> ('p channel_assembler \<Rightarrow> 'p channel_assembler \<times> 'r pres) \<Rightarrow>
     ('p channel_bank \<Rightarrow> 'p channel_bank \<times> 'r pres) \<Rightarrow> 'p channel_provider \<Rightarrow> 'p channel_provider \<times> 'r pres" where
  "channel_dispatch P \<equiv> mux_dispatch (channel_attempt_update P)
     cv_channel_assembler (\<lambda>c a. c\<lparr>cv_channel_assembler := Some a\<rparr>)
     cv_channel_bank (\<lambda>c b. c\<lparr>cv_channel_bank := Some b\<rparr>)"

lemma channel_provider_dispatch:
  "channel_provider_advance_origin P =
     channel_dispatch P (stg_advance_origin (channel_assembler_ops P)) (stg_advance_origin (channel_bank_ops P))"
  "channel_provider_signal P c s =
     channel_dispatch P (\<lambda>a. stg_signal (channel_assembler_ops P) a s) (\<lambda>b. stg_signal (channel_bank_ops P) b s) c"
  "channel_provider_next_data P =
     channel_dispatch P (crp_next_data (channel_assembler_ops P)) (crp_next_data (channel_bank_ops P))"
  by (simp_all add: fun_eq_iff mux_dispatch_def channel_provider_advance_origin_def
      channel_provider_signal_def channel_provider_next_data_def)

sublocale channel_stage \<subseteq>
  cv: mux "channel_assembler_ops P" "\<lambda>a. I (ca_prev a) \<and> assembler_inv a"
    "channel_bank_ops P" "\<lambda>b. I (cb_prev b) \<and> bank_inv b"
    "channel_provider_ops P" "channel_provider_inv I" "channel_attempt_update P"
    cv_channel_assembler "\<lambda>c a. c\<lparr>cv_channel_assembler := Some a\<rparr>"
    cv_channel_bank "\<lambda>c b. c\<lparr>cv_channel_bank := Some b\<rparr>"
proof (rule mux.intro, goal_cases)
  case (4 s x)
  then obtain c' where "channel_attempt_update P s = (c', Ok ())" "channel_provider_inv I c'"
    "channel_provider_origin P c' = Some x" "channel_active (cv_cfg s) x c'"
    by (auto simp: channel_provider_ops_def elim: channel_attempt_update_ok)
  then show ?case by (auto simp: channel_provider_ops_def channel_active_def)
next
  case (9 s a)
  from 9(1) 9(2,3) show ?case by (cases rule: channel_provider_inv_cases) (auto simp: channel_provider_inv_def)
next
  case (10 s b)
  from 10(1) 10(2-4) show ?case by (cases rule: channel_provider_inv_cases) (auto simp: channel_provider_inv_def)
qed (auto intro: channel_assembler_contract channel_bank_contract stage_contract_axioms
    elim!: channel_provider_inv_cases
    simp: channel_provider_ops_def channel_attempt_update_def channel_provider_origin_def channel_provider_dispatch)

locale channel_reader_stage = safe_pull P I "\<lambda>_ :: unit. crp_next_data P"
  for P :: "'p channel_reader_provider" and I

sublocale channel_stage \<subseteq> cv: channel_reader_stage "channel_provider_ops P" "channel_provider_inv I"
  using cv.mux_safe_pull [OF ca.safe_pull_axioms cb.safe_pull_axioms]
  by (simp add: channel_reader_stage_def channel_provider_ops_def channel_provider_dispatch)

interpretation polling_cv: channel_reader_stage
  "channel_provider_ops (frame_queue_ops (l1_retrieval_ops D (polling_ops A cp)))" "channel_provider_inv (\<lambda>_. True)"
  for D :: "'d data_availability_provider" and A :: abi and cp :: "'f chain_provider"
  by (rule polling_fq.cv.channel_reader_stage_axioms)

interpretation indexed_cv: channel_reader_stage
  "channel_provider_ops (frame_queue_ops (l1_retrieval_ops D (indexed_ops A cp)))" "channel_provider_inv (\<lambda>_. True)"
  for D :: "'d data_availability_provider" and A :: abi and cp :: "'f chain_provider"
  by (rule indexed_fq.cv.channel_reader_stage_axioms)

section \<open>Reachable providers\<close>

inductive channel_provider_reachable :: "'p next_frame_provider \<Rightarrow> 'p channel_provider \<Rightarrow> bool" for P where
  new: "channel_provider_reachable P (channel_provider_new cfg prev)"
| pull: "channel_provider_reachable P c \<Longrightarrow> channel_provider_reachable P (fst (channel_provider_next_data P c))"
| signal: "channel_provider_reachable P c \<Longrightarrow> channel_provider_reachable P (fst (channel_provider_signal P c s))"
| advance: "channel_provider_reachable P c \<Longrightarrow> channel_provider_reachable P (fst (channel_provider_advance_origin P c))"

abbreviation owned :: "'p channel_provider \<Rightarrow> bool" where
  "owned \<equiv> channel_provider_inv (\<lambda>_. True)"

lemma owned_dispatch:
  assumes "owned c" and "\<And>a. assembler_inv a \<Longrightarrow> assembler_inv (fst (f a))" and "\<And>b. bank_inv b \<Longrightarrow> bank_inv (fst (g b))"
  shows "owned (fst (channel_dispatch P f g c))"
proof (cases "channel_provider_origin P c")
  case None
  with assms(1) show ?thesis by (simp add: mux_dispatch_def channel_attempt_update_def)
next
  case (Some x)
  obtain c' where c': "channel_attempt_update P c = (c', Ok ())" "owned c'" "channel_active (cv_cfg c) x c'"
    using assms(1) Some by (rule channel_attempt_update_ok)
  from c'(2) show ?thesis
    using c'(1,3) assms(2,3)
    by (cases rule: channel_provider_inv_cases)
      (auto simp: mux_dispatch_def via_def channel_provider_inv_def channel_active_def)
qed

lemma reachable_owned: "channel_provider_reachable P c \<Longrightarrow> owned c"
  by (induction rule: channel_provider_reachable.induct)
    (auto simp: channel_provider_inv_new channel_provider_dispatch channel_assembler_ops_def channel_bank_ops_def
      assembler_inv_next_data bank_inv_next_data assembler_inv_signal bank_inv_signal via_def intro!: owned_dispatch)

section \<open>Properties\<close>

text \<open>
  In every reachable state of the channel provider exactly one of the previous stage itself,
  the channel bank and the channel assembler holds the previous stage.  Whenever there is an
  origin, the update before each call makes the bank active before Holocene and the assembler
  from Holocene on, without touching the previous stage, and changes nothing if the right one
  was active already.
\<close>

lemma channel_provider_follows_holocene:
  assumes "channel_provider_reachable P c"
  shows "prev_of c \<noteq> None \<and>
    (\<forall>x. channel_provider_origin P c = Some x \<longrightarrow>
       (\<exists>c'. channel_attempt_update P c = (c', Ok ()) \<and> prev_of c' = prev_of c \<and>
          channel_active (cv_cfg c) x c' \<and> (channel_active (cv_cfg c) x c \<longrightarrow> c' = c)))"
proof -
  have inv: "owned c" using assms by (rule reachable_owned)
  then have "prev_of c \<noteq> None" by (auto simp: channel_provider_inv_def split: option.splits)
  moreover have "\<exists>c'. channel_attempt_update P c = (c', Ok ()) \<and> prev_of c' = prev_of c \<and>
      channel_active (cv_cfg c) x c' \<and> (channel_active (cv_cfg c) x c \<longrightarrow> c' = c)"
    if "channel_provider_origin P c = Some x" for x
    using inv that by (rule channel_attempt_update_ok) blast
  ultimately show ?thesis by blast
qed

lemma channel_provider_follows_holocene_witness:
  "(\<exists>c'. channel_attempt_update (still_provider late_block) (channel_provider_new example_config ()) = (c', Ok ()) \<and>
     cv_channel_assembler c' \<noteq> None) \<and>
   prev_of (channel_provider_new example_config ()) \<noteq> None"
  using channel_provider_follows_holocene [OF channel_provider_reachable.new, of example_config "()" "still_provider late_block"]
  by (auto simp: channel_provider_origin_def channel_provider_new_def still_provider_def channel_active_def
      late_block_def example_config_def is_holocene_active_def reached_def)

end
