(* ===== verification/Batch_Reader.thy ===== *)
theory Batch_Reader
  imports Span_Validity
begin

text \<open>
  Batches and the batch reader, \<^verbatim>\<open>crates/protocol/protocol/src/batch/{core,type,inclusion,reader}.rs\<close>
  and \<^verbatim>\<open>brotli.rs\<close>: decoding a batch, decompressing a channel and reading its batches one by one.

  RLP, zlib and brotli come from other crates and are the argument \<open>codecs\<close>.  The brotli
  decompressor is a stream: a call is given room in the output buffer, and says what it wrote and
  whether it is done.

  Shown: decompression returns for every non-empty input, and it succeeds exactly when what the
  decompressor writes fits into one of the buffers the loop tries, which excludes outputs below the
  limit and includes the output of corrupt and truncated streams; the reader hands out the batches
  of a channel in order.
\<close>

section \<open>Batches\<close>

datatype batch_type = Single | Span

definition SINGLE_BATCH_TYPE :: u8 where "SINGLE_BATCH_TYPE = 0"

definition SPAN_BATCH_TYPE :: u8 where "SPAN_BATCH_TYPE = 1"

datatype batch = Single single_batch | Span span_batch

datatype batch_encoding_error = AlloyRlpError string | SpanBatchError span_batch_error

datatype batch_decoding_error = EmptyBuffer | AlloyRlpError string | SpanBatchError span_batch_error

datatype brotli_result = ResultSuccess | NeedsMoreInput | NeedsMoreOutput | ResultFailure

record 'b codecs =
  cd_wire :: wire
  cd_single_encode :: "single_batch \<Rightarrow> bytes"
  cd_single_decode :: "bytes \<Rightarrow> (string, single_batch \<times> bytes) outcome"
  cd_bytes_encode :: "bytes \<Rightarrow> bytes"
  cd_bytes_decode :: "bytes \<Rightarrow> (bytes \<times> bytes) option"
  cd_zlib :: "bytes \<Rightarrow> bytes option"
  cd_brotli_new :: "bytes \<Rightarrow> 'b"
  cd_brotli_step :: "'b \<Rightarrow> nat \<Rightarrow> 'b \<times> brotli_result \<times> bytes"

text \<open>\<^verbatim>\<open>BatchType::from\<close> panics on any other byte.\<close>

definition batch_type_from :: "u8 \<Rightarrow> ('e, batch_type) outcome" where
  "batch_type_from val =
     (if val = SINGLE_BATCH_TYPE then Good batch_type.Single
      else if val = SPAN_BATCH_TYPE then Good batch_type.Span else Panic)"

fun batch_type_byte :: "batch_type \<Rightarrow> u8" where
  "batch_type_byte batch_type.Single = SINGLE_BATCH_TYPE"
| "batch_type_byte batch_type.Span = SPAN_BATCH_TYPE"

fun batch_timestamp :: "batch \<Rightarrow> ('e, u64) outcome" where
  "batch_timestamp (batch.Single sb) = Good (sb_timestamp sb)"
| "batch_timestamp (batch.Span sb) = (if sp_batches sb = [] then Panic else Good (starting_timestamp sb))"

definition batch_decode :: "'b codecs \<Rightarrow> rollup_config \<Rightarrow> bytes \<Rightarrow> (batch_decoding_error, batch) outcome" where
  "batch_decode C cfg r =
     (case r of
        [] \<Rightarrow> Bad batch_decoding_error.EmptyBuffer
      | b # r \<Rightarrow> obind (batch_type_from b) (\<lambda>ty. case ty of
          batch_type.Single \<Rightarrow>
            obind (map_err batch_decoding_error.AlloyRlpError (cd_single_decode C r)) (\<lambda>(single_batch, _).
              Good (batch.Single single_batch))
        | batch_type.Span \<Rightarrow>
            obind (map_err batch_decoding_error.SpanBatchError (raw_decode (cd_wire C) r)) (\<lambda>(raw_span_batch, _).
            obind (map_err batch_decoding_error.SpanBatchError
              (raw_derive (cd_wire C) raw_span_batch (rc_block_time cfg) (cg_l2_time (rc_genesis cfg)) (rc_l2_chain_id cfg)))
              (\<lambda>span_batch. Good (batch.Span span_batch)))))"

fun batch_encode :: "'b codecs \<Rightarrow> batch \<Rightarrow> (batch_encoding_error, bytes) outcome" where
  "batch_encode C (batch.Single sb) = Good (batch_type_byte batch_type.Single # cd_single_encode C sb)"
| "batch_encode C (batch.Span sb) =
     obind (map_err batch_encoding_error.SpanBatchError (to_raw_span_batch sb)) (\<lambda>raw.
     obind (map_err batch_encoding_error.SpanBatchError (raw_encode (cd_wire C) raw)) (\<lambda>e.
       Good (batch_type_byte batch_type.Span # e)))"

record batch_with_inclusion_block =
  bw_inclusion_block :: block_info
  bw_batch :: batch

definition inclusion_check_batch ::
    "'f batch_validation_provider \<Rightarrow> batch_with_inclusion_block \<Rightarrow> rollup_config \<Rightarrow> block_info list \<Rightarrow> l2_block_info \<Rightarrow>
     'f \<Rightarrow> 'f \<times> batch_validity option" where
  "inclusion_check_batch F b cfg l1_blocks l2_safe_head f =
     (case bw_batch b of
        batch.Single single_batch \<Rightarrow> (f, Some (single_check_batch single_batch cfg l1_blocks l2_safe_head (bw_inclusion_block b)))
      | batch.Span span_batch \<Rightarrow> span_check_batch F span_batch cfg l1_blocks l2_safe_head (bw_inclusion_block b) f)"

section \<open>Brotli\<close>

datatype brotli_decompression_error = BatchTooLarge

text \<open>
  The loop: \<open>out\<close> is what was written so far into a buffer of size \<open>len\<close>, so that \<open>len - length out\<close>
  is \<^verbatim>\<open>available_out\<close>.  The result None is a loop that does not end.
\<close>

partial_function (option) brotli_loop ::
    "'b codecs \<Rightarrow> nat \<Rightarrow> 'b \<Rightarrow> bytes \<Rightarrow> nat \<Rightarrow> (brotli_decompression_error, bytes) outcome option" where
  "brotli_loop C max_size st out len =
     (let (st, res, new) = cd_brotli_step C st (len - length out) in
      if res = NeedsMoreOutput then
        if max_size < len * 2 then Some (Bad BatchTooLarge)
        else brotli_loop C max_size st (out @ new) (len * 2)
      else Some (Good (out @ new)))"

definition decompress_brotli :: "'b codecs \<Rightarrow> bytes \<Rightarrow> nat \<Rightarrow> (brotli_decompression_error, bytes) outcome option" where
  "decompress_brotli C data max_bytes = brotli_loop C max_bytes (cd_brotli_new C data) [] (length data)"

section \<open>Batch reader\<close>

datatype decompression_error = EmptyData | UnsupportedType u8 | BrotliError brotli_decompression_error | ZlibError
  | RlpTooLarge nat nat

record batch_reader =
  rd_data :: "bytes option"
  rd_decompressed :: bytes
  rd_cursor :: nat
  rd_max_rlp_bytes_per_channel :: nat
  rd_brotli_used :: bool

definition ZLIB_DEFLATE_COMPRESSION_METHOD :: u8 where "ZLIB_DEFLATE_COMPRESSION_METHOD = 8"

definition ZLIB_RESERVED_COMPRESSION_METHOD :: u8 where "ZLIB_RESERVED_COMPRESSION_METHOD = 15"

definition CHANNEL_VERSION_BROTLI :: u8 where "CHANNEL_VERSION_BROTLI = 1"

definition batch_reader_new :: "bytes \<Rightarrow> nat \<Rightarrow> batch_reader" where
  "batch_reader_new data max_bytes =
     \<lparr>rd_data = Some data, rd_decompressed = [], rd_cursor = 0,
      rd_max_rlp_bytes_per_channel = max_bytes, rd_brotli_used = False\<rparr>"

text \<open>A brotli loop that does not end is no return to the caller, like a panic.\<close>

definition decompress :: "'b codecs \<Rightarrow> batch_reader \<Rightarrow> batch_reader \<times> (decompression_error, unit) outcome" where
  "decompress C r =
     (case rd_data r of
        None \<Rightarrow> (r, Good ())
      | Some data \<Rightarrow>
          let r = r\<lparr>rd_data := None\<rparr> in
          if data = [] then (r, Bad EmptyData)
          else
            let compression_type = hd data in
            if and compression_type 0x0F = ZLIB_DEFLATE_COMPRESSION_METHOD \<or>
               and compression_type 0x0F = ZLIB_RESERVED_COMPRESSION_METHOD
            then (case cd_zlib C data of
                    None \<Rightarrow> (r, Bad ZlibError)
                  | Some d \<Rightarrow>
                      let r = r\<lparr>rd_decompressed := d\<rparr> in
                      if rd_max_rlp_bytes_per_channel r < length d
                      then (r, Bad (RlpTooLarge (length d) (rd_max_rlp_bytes_per_channel r)))
                      else (r, Good ()))
            else if compression_type = CHANNEL_VERSION_BROTLI then
              let r = r\<lparr>rd_brotli_used := True\<rparr> in
              (case decompress_brotli C (tl data) (rd_max_rlp_bytes_per_channel r) of
                 Some (Good d) \<Rightarrow> (r\<lparr>rd_decompressed := d\<rparr>, Good ())
               | Some (Bad e) \<Rightarrow> (r, Bad (BrotliError e))
               | _ \<Rightarrow> (r, Panic))
            else (r, Bad (UnsupportedType compression_type)))"

text \<open>The result is Good None when there is no further batch.\<close>

definition reader_next_batch ::
    "'b codecs \<Rightarrow> rollup_config \<Rightarrow> batch_reader \<Rightarrow> batch_reader \<times> (unit, batch option) outcome" where
  "reader_next_batch C cfg r =
     (case decompress C r of
        (r, Panic) \<Rightarrow> (r, Panic)
      | (r, Bad _) \<Rightarrow> (r, Good None)
      | (r, Good _) \<Rightarrow>
          if length (rd_decompressed r) < rd_cursor r then (r, Panic)
          else case cd_bytes_decode C (drop (rd_cursor r) (rd_decompressed r)) of
            None \<Rightarrow> (r, Good None)
          | Some (bs, rest) \<Rightarrow>
              (case batch_decode C cfg bs of
                 Panic \<Rightarrow> (r, Panic)
               | Bad _ \<Rightarrow> (r, Good None)
               | Good b \<Rightarrow>
                   (case (if rd_brotli_used r then batch_timestamp b else Good 0 :: (unit, u64) outcome) of
                      Good t \<Rightarrow>
                        if rd_brotli_used r \<and> \<not> is_fjord_active cfg t then (r, Good None)
                        else (r\<lparr>rd_cursor := length (rd_decompressed r) - length rest\<rparr>, Good (Some b))
                    | _ \<Rightarrow> (r, Panic))))"

section \<open>Decompression\<close>

lemma brotli_loop_returns:
  "0 < len \<Longrightarrow> \<exists>r. brotli_loop C m st out len = Some r \<and> r \<noteq> Panic"
proof (induction "Suc m - len" arbitrary: st out len rule: less_induct)
  case less
  obtain st' res new where step: "cd_brotli_step C st (len - length out) = (st', res, new)"
    by (cases "cd_brotli_step C st (len - length out)")
  show ?case
  proof (cases "res = NeedsMoreOutput \<and> \<not> m < len * 2")
    case True
    then have "\<exists>r. brotli_loop C m st' (out @ new) (len * 2) = Some r \<and> r \<noteq> Panic"
      using less.prems by (intro less.hyps) auto
    with True step show ?thesis by (subst brotli_loop.simps) simp
  next
    case False
    with step show ?thesis by (subst brotli_loop.simps) auto
  qed
qed

text \<open>
  The states the decompressor can be in after it was started on \<open>data\<close>, has written \<open>w\<close> and has asked
  for more room each time.
\<close>

inductive brotli_reaches :: "'b codecs \<Rightarrow> bytes \<Rightarrow> bytes \<Rightarrow> 'b \<Rightarrow> bool" for C data where
  start: "brotli_reaches C data [] (cd_brotli_new C data)"
| more: "brotli_reaches C data (w @ new) st'"
  if "brotli_reaches C data w st" and "cd_brotli_step C st n = (st', NeedsMoreOutput, new)"

text \<open>
  What the stream \<open>data\<close> decompresses to, however the room is portioned: the decompressor writes
  \<open>out\<close>, as much as there is room for in each call, asks for more room while something is left, and
  then ends with \<open>res\<close>.  That is success for a proper stream, a request for input for a truncated one
  and a failure for a corrupt one; \<open>out\<close> is then what was written before the end.
\<close>

definition brotli_yields :: "'b codecs \<Rightarrow> bytes \<Rightarrow> bytes \<Rightarrow> brotli_result \<Rightarrow> bool" where
  "brotli_yields C data out res \<longleftrightarrow> res \<noteq> NeedsMoreOutput \<and>
     (\<forall>w st n. brotli_reaches C data w st \<longrightarrow>
        (let rest = drop (length w) out in
         snd (cd_brotli_step C st n) = (if n < length rest then NeedsMoreOutput else res, take n rest)))"

text \<open>The sizes of the output buffer that the loop tries.\<close>

definition buffer_fits :: "nat \<Rightarrow> nat \<Rightarrow> nat \<Rightarrow> bool" where
  "buffer_fits len m n \<longleftrightarrow> (\<exists>k. n \<le> len * 2 ^ k \<and> (k = 0 \<or> len * 2 ^ k \<le> m))"

lemma buffer_fits_double:
  assumes "len < n"
  shows "buffer_fits len m n \<longleftrightarrow> len * 2 \<le> m \<and> buffer_fits (len * 2) m n"
proof
  assume "buffer_fits len m n"
  then obtain k where "n \<le> len * 2 ^ k" "k = 0 \<or> len * 2 ^ k \<le> m" by (auto simp: buffer_fits_def)
  with assms obtain k' where k: "k = Suc k'" "n \<le> len * 2 ^ k" "len * 2 ^ k \<le> m" by (cases k) auto
  have "len * 2 * 1 \<le> len * 2 * 2 ^ k'" by (intro mult_le_mono2) simp
  also have "\<dots> \<le> m" using k by (simp add: mult.assoc)
  finally show "len * 2 \<le> m \<and> buffer_fits (len * 2) m n"
    using k by (auto simp: buffer_fits_def mult.assoc intro!: exI [of _ k'])
next
  assume "len * 2 \<le> m \<and> buffer_fits (len * 2) m n"
  then obtain k where "n \<le> len * 2 * 2 ^ k" "len * 2 * 2 ^ k \<le> m" "len * 2 \<le> m"
    by (fastforce simp: buffer_fits_def)
  then show "buffer_fits len m n" by (auto simp: buffer_fits_def mult.assoc intro!: exI [of _ "Suc k"])
qed

lemma brotli_loop_yields:
  assumes "brotli_yields C data out res"
  shows "0 < len \<Longrightarrow> length w \<le> len \<Longrightarrow> brotli_reaches C data w st \<Longrightarrow> out = w @ rest \<Longrightarrow>
    brotli_loop C m st w len = Some (if buffer_fits len m (length out) then Good out else Bad BatchTooLarge)"
proof (induction "Suc m - len" arbitrary: st w rest len rule: less_induct)
  case less
  let ?n = "len - length w"
  have "snd (cd_brotli_step C st ?n) = (if ?n < length rest then NeedsMoreOutput else res, take ?n rest)"
    using assms less.prems(3,4) by (simp add: brotli_yields_def Let_def)
  then obtain st' where step:
      "cd_brotli_step C st ?n = (st', if ?n < length rest then NeedsMoreOutput else res, take ?n rest)"
    by (metis prod.collapse)
  show ?case
  proof (cases "?n < length rest")
    case False
    with less.prems have "buffer_fits len m (length out)" by (auto simp: buffer_fits_def intro!: exI [of _ 0])
    with step False less.prems(4) assms show ?thesis
      by (subst brotli_loop.simps) (simp add: brotli_yields_def)
  next
    case True
    with less.prems have "len < length out" by simp
    note double = buffer_fits_double [OF this, of m]
    show ?thesis
    proof (cases "m < len * 2")
      case False
      have "brotli_reaches C data (w @ take ?n rest) st'"
        using less.prems(3) step True by (auto intro: brotli_reaches.more)
      then have "brotli_loop C m st' (w @ take ?n rest) (len * 2) =
          Some (if buffer_fits (len * 2) m (length out) then Good out else Bad BatchTooLarge)"
        using False less.prems True by (intro less.hyps [where rest = "drop ?n rest"]) simp_all
      with step True False double show ?thesis by (subst brotli_loop.simps) simp
    next
      case big: True
      with step True double show ?thesis by (subst brotli_loop.simps) simp
    qed
  qed
qed

section \<open>Reading the batches\<close>

text \<open>What is relied on of the RLP strings \<open>es\<close>: what was encoded is decoded, and nothing is decoded from nothing.\<close>

definition rlp_strings :: "'b codecs \<Rightarrow> bytes list \<Rightarrow> bool" where
  "rlp_strings C es \<longleftrightarrow> (\<forall>e\<in>set es. \<forall>rest. cd_bytes_decode C (cd_bytes_encode C e @ rest) = Some (e, rest)) \<and>
     cd_bytes_decode C [] = None"

definition readable :: "'b codecs \<Rightarrow> rollup_config \<Rightarrow> bool \<Rightarrow> bytes \<Rightarrow> batch \<Rightarrow> bool" where
  "readable C cfg brotli e b \<longleftrightarrow> batch_decode C cfg e = Good b \<and>
     (brotli \<longrightarrow> (\<exists>t. batch_timestamp b = (Good t :: (unit, u64) outcome) \<and> is_fjord_active cfg t))"

lemma reader_next_batch_encoded:
  assumes "rlp_strings C [e]" and "rd_data r = None" and "rd_cursor r = length before"
    and "rd_decompressed r = before @ cd_bytes_encode C e @ rest" and "readable C cfg (rd_brotli_used r) e b"
  shows "reader_next_batch C cfg r = (r\<lparr>rd_cursor := length (before @ cd_bytes_encode C e)\<rparr>, Good (Some b))"
  using assms by (auto simp: reader_next_batch_def decompress_def rlp_strings_def readable_def)

lemma reader_next_batch_end:
  "rlp_strings C es \<Longrightarrow> rd_data r = None \<Longrightarrow> rd_cursor r = length (rd_decompressed r) \<Longrightarrow>
    reader_next_batch C cfg r = (r, Good None)"
  by (simp add: reader_next_batch_def decompress_def rlp_strings_def)

lemma decompress_new:
  "decompress C (batch_reader_new data m) = (r, Good ()) \<Longrightarrow> rd_data r = None \<and> rd_cursor r = 0"
  by (auto simp: decompress_def batch_reader_new_def Let_def split: if_splits option.splits outcome.splits)

section \<open>Spacing of the batches\<close>

fun batch_steps :: "rollup_config \<Rightarrow> batch \<Rightarrow> bool" where
  "batch_steps cfg (batch.Single b) = True"
| "batch_steps cfg (batch.Span s) = span_spaced (rc_block_time cfg) s"

lemma batch_decode_steps: "batch_decode C cfg r = Good b \<Longrightarrow> batch_steps cfg b"
  by (auto simp: batch_decode_def obind_eq_Good dest: raw_derive_spaced
      split: list.splits batch_type.splits) (metis batch_type.exhaust)

lemma reader_next_batch_steps: "reader_next_batch C cfg r = (r', Good (Some b)) \<Longrightarrow> batch_steps cfg b"
  by (auto simp: reader_next_batch_def dest: batch_decode_steps
      split: prod.splits outcome.splits if_splits option.splits)

section \<open>Properties\<close>

text \<open>
  Decompressing brotli data returns for every non-empty input and every limit, whatever the
  decompressor does: the buffer doubles until it is above the limit.
\<close>

lemma decompress_brotli_returns:
  "data \<noteq> [] \<Longrightarrow> \<exists>r. decompress_brotli C data m = Some r \<and> r \<noteq> Panic"
  unfolding decompress_brotli_def by (rule brotli_loop_returns) simp

definition example_codecs :: "bytes codecs" where
  "example_codecs = \<lparr>cd_wire = example_wire, cd_single_encode = (\<lambda>_. [0xC0]),
     cd_single_decode = (\<lambda>r. case r of b # r \<Rightarrow> Good (example_single_batch, r) | [] \<Rightarrow> Bad []),
     cd_bytes_encode = (\<lambda>b. put_word 8 (word_of_nat (length b) :: u64) @ b),
     cd_bytes_decode = (\<lambda>r. if length r < 8 then None
        else let n = be_decode (take 8 r); r = drop 8 r in if length r < n then None else Some (take n r, drop n r)),
     cd_zlib = (\<lambda>data. Some (tl data)), cd_brotli_new = (\<lambda>data. replicate 8 0),
     cd_brotli_step = (\<lambda>st n. (drop n st, if n < length st then NeedsMoreOutput else ResultSuccess, take n st))\<rparr>"

lemma decompress_brotli_returns_witness:
  "\<exists>r. decompress_brotli example_codecs [1, 2, 3] 100 = Some r \<and> r \<noteq> Panic"
  by (rule decompress_brotli_returns) simp

text \<open>
  C15. What a brotli stream decompresses to is returned exactly when it fits into a buffer that the
  loop tries: the size of the input, doubled while it does not go above the limit.  So an output
  below the limit can be refused, and one above it accepted when the input is larger still.  The
  way the stream ends plays no role: what a truncated or a corrupt stream has written before its
  end is returned as the output of a proper one would be, without an error.
\<close>

theorem decompress_brotli_limit:
  assumes "brotli_yields C data out res" and "data \<noteq> []"
  shows "decompress_brotli C data m =
    Some (if buffer_fits (length data) m (length out) then Good out else Bad BatchTooLarge)"
  using brotli_loop_yields [OF assms(1), of "length data" "[]" _ out m] assms(2)
  by (simp add: decompress_brotli_def brotli_reaches.start)

text \<open>A proper stream for three limits and input sizes, and a corrupt one.\<close>

definition corrupt_codecs :: "bytes codecs" where
  "corrupt_codecs = example_codecs\<lparr>cd_brotli_step :=
     (\<lambda>st n. (drop n st, if n < length st then NeedsMoreOutput else ResultFailure, take n st))\<rparr>"

lemma example_yields:
  "brotli_yields example_codecs data (replicate 8 0) ResultSuccess"
  "brotli_yields corrupt_codecs data (replicate 8 0) ResultFailure"
proof -
  have "w @ st = replicate 8 0" if "brotli_reaches C data w st"
    and "C = example_codecs \<or> C = corrupt_codecs" for C w st
    using that by induction (auto simp: example_codecs_def corrupt_codecs_def split: if_splits)
  then have "brotli_reaches C data w st \<Longrightarrow> C = example_codecs \<or> C = corrupt_codecs \<Longrightarrow>
      st = drop (length w) (replicate 8 0)" for C w st
    by (metis append_eq_conv_conj)
  then show "brotli_yields example_codecs data (replicate 8 0) ResultSuccess"
    "brotli_yields corrupt_codecs data (replicate 8 0) ResultFailure"
    by (fastforce simp: brotli_yields_def example_codecs_def corrupt_codecs_def)+
qed

lemma example_buffer_sizes: "\<not> buffer_fits 3 10 8" "buffer_fits 3 12 8" "buffer_fits 8 5 8"
proof -
  show "\<not> buffer_fits 3 10 8"
  proof
    assume "buffer_fits 3 10 8"
    then obtain k where k: "(8::nat) \<le> 3 * 2 ^ k" "k = 0 \<or> (3::nat) * 2 ^ k \<le> 10" by (auto simp: buffer_fits_def)
    consider "k = 0" | "k = 1" | "2 \<le> k" by linarith
    then show False
    proof cases
      case 3
      then have "(2::nat) ^ 2 \<le> 2 ^ k" by (rule power_increasing) simp
      with k(2) 3 show False by simp
    qed (use k in simp_all)
  qed
qed (auto simp: buffer_fits_def intro: exI [of _ 2] exI [of _ 0])

theorem decompress_brotli_limit_witness:
  "decompress_brotli example_codecs [1, 2, 3] 10 = Some (Bad BatchTooLarge) \<and>
   decompress_brotli example_codecs [1, 2, 3] 12 = Some (Good (replicate 8 0)) \<and>
   decompress_brotli example_codecs [1, 2, 3, 4, 5, 6, 7, 8] 5 = Some (Good (replicate 8 0)) \<and>
   decompress_brotli corrupt_codecs [1, 2, 3] 12 = Some (Good (replicate 8 0))"
proof -
  have lengths: "length [1, 2, 3 :: u8] = 3" "length [1, 2, 3, 4, 5, 6, 7, 8 :: u8] = 8" "length (replicate 8 (0 :: u8)) = 8"
    by simp_all
  note limit = decompress_brotli_limit [OF example_yields(1)]
  show ?thesis
    using limit [of "[1, 2, 3]" 10] limit [of "[1, 2, 3]" 12] limit [of "[1, 2, 3, 4, 5, 6, 7, 8]" 5]
      decompress_brotli_limit [OF example_yields(2), of "[1, 2, 3]" 12]
    unfolding lengths by (simp only: example_buffer_sizes if_True if_False list.distinct simp_thms)
qed

end
