(* ===== verification/Channel_Reader.thy ===== *)
theory Channel_Reader
  imports Channel_Provider Batch_Reader
begin

text \<open>
  The channel reader, \<^verbatim>\<open>crates/protocol/derive/src/stages/channel/channel_reader.rs\<close>: it feeds the
  data of a channel into a batch reader and hands out the batches.

  Shown: the stage keeps the contract of the stages below it; a panic of its pull is one of the
  decoders; after a failed pull the channel is gone, and it hands out the batches of a channel in
  order, one per call.
\<close>

section \<open>The stage\<close>

record 'p batch_stream_provider = "'p stage" +
  bsp_next_batch :: "'p \<Rightarrow> 'p \<times> batch pres"
  bsp_flush :: "'p \<Rightarrow> 'p"

record 'p channel_reader =
  cr_prev :: 'p
  cr_next_batch :: "batch_reader option"
  cr_cfg :: rollup_config

definition channel_reader_new :: "'p \<Rightarrow> rollup_config \<Rightarrow> 'p channel_reader" where
  "channel_reader_new prev cfg = \<lparr>cr_prev = prev, cr_next_batch = None, cr_cfg = cfg\<rparr>"

definition set_batch_reader ::
    "'p channel_reader_provider \<Rightarrow> 'p channel_reader \<Rightarrow> 'p channel_reader \<times> unit pres" where
  "set_batch_reader P r =
     (if cr_next_batch r = None then
        pbind (via (\<lambda>p. r\<lparr>cr_prev := p\<rparr>) (crp_next_data P (cr_prev r))) (\<lambda>r data.
        pbind (ok_or r data (temp ChannelReaderEmpty)) (\<lambda>r channel.
        pbind (ok_or r (stg_origin P (cr_prev r)) (crit MissingOrigin)) (\<lambda>r origin.
          let max_rlp_bytes_per_channel =
                (if is_fjord_active (cr_cfg r) (bi_timestamp origin)
                 then MAX_RLP_BYTES_PER_CHANNEL_FJORD else MAX_RLP_BYTES_PER_CHANNEL_BEDROCK)
          in (r\<lparr>cr_next_batch := Some (batch_reader_new channel (unat max_rlp_bytes_per_channel))\<rparr>, Ok ()))))
      else (r, Ok ()))"

definition next_channel :: "'p channel_reader \<Rightarrow> 'p channel_reader" where
  "next_channel r = r\<lparr>cr_next_batch := None\<rparr>"

text \<open>The part of \<^verbatim>\<open>next_batch\<close> after the reader is set.\<close>

definition read_channel :: "'b codecs \<Rightarrow> 'p channel_reader \<Rightarrow> 'p channel_reader \<times> batch pres" where
  "read_channel C r =
     (case cr_next_batch r of
        None \<Rightarrow> (r, Panicked)
      | Some next_batch \<Rightarrow>
          (case decompress C next_batch of
             (b, Panic) \<Rightarrow> (r\<lparr>cr_next_batch := Some b\<rparr>, Panicked)
           | (b, Bad _) \<Rightarrow> (next_channel r, Err (temp NotEnoughData))
           | (b, Good _) \<Rightarrow>
               (case reader_next_batch C (cr_cfg r) b of
                  (b, Good (Some batch)) \<Rightarrow> (r\<lparr>cr_next_batch := Some b\<rparr>, Ok batch)
                | (b, Good None) \<Rightarrow> (next_channel r, Err (temp NotEnoughData))
                | (b, _) \<Rightarrow> (r\<lparr>cr_next_batch := Some b\<rparr>, Panicked))))"

definition channel_reader_next_batch ::
    "'b codecs \<Rightarrow> 'p channel_reader_provider \<Rightarrow> 'p channel_reader \<Rightarrow> 'p channel_reader \<times> batch pres" where
  "channel_reader_next_batch C P r =
     (case set_batch_reader P r of
        (r, Err e) \<Rightarrow> (next_channel r, Err e)
      | (r, Panicked) \<Rightarrow> (r, Panicked)
      | (r, Ok _) \<Rightarrow> read_channel C r)"

definition channel_reader_signal ::
    "('p, 'z) stage_scheme \<Rightarrow> 'p channel_reader \<Rightarrow> signal \<Rightarrow> 'p channel_reader \<times> unit pres" where
  "channel_reader_signal P r sig =
     (if sig = FlushChannel then (r\<lparr>cr_next_batch := None\<rparr>, Ok ())
      else pbind (via (\<lambda>p. r\<lparr>cr_prev := p\<rparr>) (stg_signal P (cr_prev r) sig)) (\<lambda>r _.
        (next_channel r, Ok ())))"

definition channel_reader_ops ::
    "'b codecs \<Rightarrow> 'p channel_reader_provider \<Rightarrow> 'p channel_reader batch_stream_provider" where
  "channel_reader_ops C P =
     \<lparr>stg_origin = (\<lambda>r. stg_origin P (cr_prev r)),
      stg_advance_origin = (\<lambda>r. via (\<lambda>p. r\<lparr>cr_prev := p\<rparr>) (stg_advance_origin P (cr_prev r))),
      stg_signal = channel_reader_signal P,
      bsp_next_batch = channel_reader_next_batch C P,
      bsp_flush = next_channel\<rparr>"

section \<open>The stage's contract\<close>

lemma channel_reader_signal_prev:
  "cr_prev (fst (channel_reader_signal P r s)) = fst (stg_signal P (cr_prev r) s) \<or>
     s = FlushChannel \<and> cr_prev (fst (channel_reader_signal P r s)) = cr_prev r"
  "snd (stg_signal P (cr_prev r) s) = Ok () \<Longrightarrow> snd (channel_reader_signal P r s) = Ok ()"
  by (cases "stg_signal P (cr_prev r) s"; cases "snd (stg_signal P (cr_prev r) s)";
      simp add: channel_reader_signal_def next_channel_def)+

lemma channel_reader_contract:
  "stage_contract P I \<Longrightarrow> stage_contract (channel_reader_ops C P) (\<lambda>r. I (cr_prev r))"
  by (erule stage_contract_lift_prev [where prev = cr_prev])
    (simp_all add: channel_reader_ops_def via_def channel_reader_signal_prev)

lemma read_channel_prev [simp]: "cr_prev (fst (read_channel C r)) = cr_prev r"
  by (auto simp: read_channel_def next_channel_def split: option.splits outcome.splits prod.splits)

lemma channel_reader_next_batch_prev:
  "cr_prev (fst (channel_reader_next_batch C P r)) =
     (if cr_next_batch r = None then fst (crp_next_data P (cr_prev r)) else cr_prev r)"
proof -
  obtain p d where "crp_next_data P (cr_prev r) = (p, d)" by fastforce
  then show ?thesis
    by (cases d) (auto simp: channel_reader_next_batch_def set_batch_reader_def next_channel_def ok_or_def Let_def
        split: option.splits)
qed

text \<open>The config stays, and the batches that come out are spaced by its block time.\<close>

lemma set_batch_reader_cfg: "cr_cfg (fst (set_batch_reader P r)) = cr_cfg r"
  by (cases "crp_next_data P (cr_prev r)"; cases "snd (crp_next_data P (cr_prev r))")
    (auto simp: set_batch_reader_def ok_or_def Let_def split: option.splits)

lemma read_channel_steps:
  "cr_cfg (fst (read_channel C r)) = cr_cfg r"
  "read_channel C r = (r', Ok b) \<Longrightarrow> batch_steps (cr_cfg r) b"
  by (auto simp: read_channel_def next_channel_def dest: reader_next_batch_steps
      split: option.splits outcome.splits prod.splits)

lemma channel_reader_next_batch_cfg: "cr_cfg (fst (channel_reader_next_batch C P r)) = cr_cfg r"
  using set_batch_reader_cfg [of P r]
  by (auto simp: channel_reader_next_batch_def next_channel_def read_channel_steps(1) split: prod.splits pres.splits)

lemma channel_reader_next_batch_steps:
  assumes "channel_reader_next_batch C P r = (r', Ok b)"
  shows "batch_steps (cr_cfg r) b"
proof -
  obtain q where "set_batch_reader P r = (q, Ok ())" "read_channel C q = (r', Ok b)"
    using assms by (auto simp: channel_reader_next_batch_def split: prod.splits pres.splits)
  with read_channel_steps(2) set_batch_reader_cfg [of P r] show ?thesis by fastforce
qed

lemma channel_reader_signal_cfg: "cr_cfg (fst (channel_reader_signal P r s)) = cr_cfg r"
  by (cases "stg_signal P (cr_prev r) s"; cases "snd (stg_signal P (cr_prev r) s)";
      simp add: channel_reader_signal_def next_channel_def)

text \<open>What a stage that streams batches promises: a pull and a flush leave the origin alone.\<close>

locale batch_stream_stage = stable_pull P I "\<lambda>_ :: unit. bsp_next_batch P"
  for P :: "'p batch_stream_provider" and I +
  assumes flush_origin: "I p \<Longrightarrow> stg_origin P (bsp_flush P p) = stg_origin P p"
    and flush_inv: "I p \<Longrightarrow> I (bsp_flush P p)"

sublocale channel_reader_stage \<subseteq> cr: batch_stream_stage "channel_reader_ops C P" "\<lambda>r. I (cr_prev r)" for C :: "'b codecs"
  by (rule batch_stream_stage.intro, rule stable_pull.intro, rule channel_reader_contract, rule stage_contract_axioms)
    (unfold_locales, simp_all add: channel_reader_ops_def channel_reader_next_batch_prev pull_origin pull_inv next_channel_def)

interpretation polling_cr: batch_stream_stage
  "channel_reader_ops C (channel_provider_ops (frame_queue_ops (l1_retrieval_ops D (polling_ops A cp))))"
  "\<lambda>r. channel_provider_inv (\<lambda>_. True) (cr_prev r)"
  for C :: "'b codecs" and D :: "'d data_availability_provider" and A :: abi and cp :: "'f chain_provider"
  by unfold_locales

interpretation indexed_cr: batch_stream_stage
  "channel_reader_ops C (channel_provider_ops (frame_queue_ops (l1_retrieval_ops D (indexed_ops A cp))))"
  "\<lambda>r. channel_provider_inv (\<lambda>_. True) (cr_prev r)"
  for C :: "'b codecs" and D :: "'d data_availability_provider" and A :: abi and cp :: "'f chain_provider"
  by unfold_locales

section \<open>The batches of a channel\<close>

text \<open>\<open>n\<close> calls of \<^verbatim>\<open>next_batch\<close>.\<close>

fun pull_batches ::
    "'b codecs \<Rightarrow> 'p channel_reader_provider \<Rightarrow> nat \<Rightarrow> 'p channel_reader \<Rightarrow> 'p channel_reader \<times> batch pres list" where
  "pull_batches C P 0 r = (r, [])"
| "pull_batches C P (Suc n) r =
     (case channel_reader_next_batch C P r of (r, b) \<Rightarrow> case pull_batches C P n r of (r, bs) \<Rightarrow> (r, b # bs))"

lemma read_channel_decompressed:
  assumes "cr_next_batch r = Some b" and "decompress C b = (b', Good ())" and "rd_data b' = None"
  shows "read_channel C r = read_channel C (r\<lparr>cr_next_batch := Some b'\<rparr>)"
  using assms by (simp add: read_channel_def decompress_def next_channel_def)

lemma pull_batches_encoded:
  assumes "rlp_strings C es" and "cr_next_batch r = Some b" and "rd_data b = None" and "rd_cursor b = length before"
    and "rd_decompressed b = before @ concat (map (cd_bytes_encode C) es)"
    and "list_all2 (readable C (cr_cfg r) (rd_brotli_used b)) es bs"
  shows "pull_batches C P (length bs + 1) r =
    (r\<lparr>cr_next_batch := None\<rparr>, map Ok bs @ [Err (temp NotEnoughData)])"
  using assms
proof (induction es arbitrary: bs r b before)
  case Nil
  have "channel_reader_next_batch C P r = (r\<lparr>cr_next_batch := None\<rparr>, Err (temp NotEnoughData))"
    using Nil reader_next_batch_end [OF Nil.prems(1), of b]
    by (simp add: channel_reader_next_batch_def set_batch_reader_def read_channel_def next_channel_def decompress_def)
  with Nil show ?case by simp
next
  case (Cons e es)
  let ?b = "b\<lparr>rd_cursor := length (before @ cd_bytes_encode C e)\<rparr>"
  let ?r = "r\<lparr>cr_next_batch := Some ?b\<rparr>"
  from Cons.prems(6) obtain x bs' where bs: "bs = x # bs'" "readable C (cr_cfg r) (rd_brotli_used b) e x"
    "list_all2 (readable C (cr_cfg r) (rd_brotli_used b)) es bs'"
    by (auto simp: list_all2_Cons1)
  have "reader_next_batch C (cr_cfg r) b = (?b, Good (Some x))"
    using Cons.prems bs(2) by (intro reader_next_batch_encoded) (simp_all add: rlp_strings_def)
  then have "channel_reader_next_batch C P r = (?r, Ok x)"
    using Cons.prems by (simp add: channel_reader_next_batch_def set_batch_reader_def read_channel_def decompress_def)
  moreover have "pull_batches C P (length bs' + 1) ?r = (?r\<lparr>cr_next_batch := None\<rparr>, map Ok bs' @ [Err (temp NotEnoughData)])"
    using Cons.prems bs(3) by (intro Cons.IH [of _ ?b "before @ cd_bytes_encode C e"]) (simp_all add: rlp_strings_def)
  ultimately show ?case using bs(1) by simp
qed

lemma channel_reader_next_batch_new:
  assumes "cr_next_batch r = None" and "crp_next_data P (cr_prev r) = (p, Ok (Some data))"
    and "stg_origin P p = Some origin"
    and "decompress C (batch_reader_new data (unat (rlp_limit (cr_cfg r) origin))) = (b, Good ())"
  shows "channel_reader_next_batch C P r = channel_reader_next_batch C P (r\<lparr>cr_prev := p, cr_next_batch := Some b\<rparr>)"
  using assms decompress_new [OF assms(4)]
    read_channel_decompressed [of "r\<lparr>cr_prev := p, cr_next_batch := Some (batch_reader_new data (unat (rlp_limit (cr_cfg r) origin)))\<rparr>", OF _ assms(4)]
  by (simp add: channel_reader_next_batch_def set_batch_reader_def Let_def split: if_splits)

section \<open>Properties\<close>

text \<open>
  C16. The channel reader hands out the batches of a channel in order, one per call: when the
  previous stage gives the data of a channel that decompresses, within the limit at the origin, to
  the RLP strings of encodings that decode to \<open>bs\<close>, the calls return \<open>bs\<close>, then that there is not
  enough data, and the reader is ready for the next channel. Only the first call pulls from the
  previous stage. Batches of a brotli channel have to be after Fjord.
\<close>

theorem channel_reader_hands_out_batches:
  assumes "cr_next_batch r = None" and "crp_next_data P (cr_prev r) = (p, Ok (Some data))"
    and "stg_origin P p = Some origin"
    and "decompress C (batch_reader_new data (unat (rlp_limit (cr_cfg r) origin))) = (b, Good ())"
    and "rlp_strings C es" and "rd_decompressed b = concat (map (cd_bytes_encode C) es)"
    and "list_all2 (readable C (cr_cfg r) (rd_brotli_used b)) es bs"
  shows "pull_batches C P (length bs + 1) r = (r\<lparr>cr_prev := p\<rparr>, map Ok bs @ [Err (temp NotEnoughData)])"
proof -
  let ?r = "r\<lparr>cr_prev := p, cr_next_batch := Some b\<rparr>"
  have "pull_batches C P (length bs + 1) r = pull_batches C P (length bs + 1) ?r"
    using channel_reader_next_batch_new [OF assms(1-4)] by simp
  also have "\<dots> = (?r\<lparr>cr_next_batch := None\<rparr>, map Ok bs @ [Err (temp NotEnoughData)])"
    using assms(5-7) decompress_new [OF assms(4)] by (intro pull_batches_encoded [of _ _ _ _ "[]"]) auto
  also have "?r\<lparr>cr_next_batch := None\<rparr> = r\<lparr>cr_prev := p\<rparr>" using assms(1) by simp
  finally show ?thesis .
qed

definition example_channel :: bytes where
  "example_channel = concat (map (cd_bytes_encode example_codecs) [[0, 0xC0], [0, 0xC0]])"

definition channel_source :: "block_info \<Rightarrow> bytes channel_reader_provider" where
  "channel_source b = \<lparr>stg_origin = (\<lambda>_. Some b), stg_advance_origin = (\<lambda>p. (p, Ok ())),
     stg_signal = (\<lambda>p _. (p, Ok ())), crp_next_data = (\<lambda>p. ([], Ok (if p = [] then None else Some p)))\<rparr>"

theorem channel_reader_hands_out_batches_witness:
  "snd (pull_batches example_codecs (channel_source late_block) 3 (channel_reader_new (8 # example_channel) example_config)) =
     [Ok (batch.Single example_single_batch), Ok (batch.Single example_single_batch), Err (temp NotEnoughData)]"
proof -
  let ?r = "channel_reader_new (8 # example_channel) example_config"
  let ?m = "unat (rlp_limit (cr_cfg ?r) late_block)"
  have len: "length example_channel \<le> 20" by (simp add: example_channel_def example_codecs_def put_word_def)
  have "20 \<le> ?m" by (simp add: MAX_RLP_BYTES_PER_CHANNEL_FJORD_def MAX_RLP_BYTES_PER_CHANNEL_BEDROCK_def)
  with len have "length example_channel \<le> ?m" by linarith
  then obtain b where b: "decompress example_codecs (batch_reader_new (8 # example_channel) ?m) = (b, Good ())"
      "rd_decompressed b = example_channel" "\<not> rd_brotli_used b"
    by (simp add: decompress_def batch_reader_new_def ZLIB_DEFLATE_COMPRESSION_METHOD_def Let_def)
      (simp add: example_codecs_def)
  have "readable example_codecs example_config False [0, 0xC0] (batch.Single example_single_batch)"
    by (simp add: readable_def batch_decode_def batch_type_from_def SINGLE_BATCH_TYPE_def) (simp add: example_codecs_def)
  moreover have "rlp_strings example_codecs [[0, 0xC0], [0, 0xC0]]"
    by (simp add: rlp_strings_def example_codecs_def put_word_def Let_def be_decode_encode)
  ultimately show ?thesis
    using channel_reader_hands_out_batches [of ?r "channel_source late_block" "[]" "8 # example_channel" late_block
        example_codecs b "[[0, 0xC0], [0, 0xC0]]" "[batch.Single example_single_batch, batch.Single example_single_batch]"] b
    by (simp add: channel_reader_new_def channel_source_def numeral_3_eq_3 example_channel_def del: pull_batches.simps)
qed

end
