(* ===== verification/Batch_Stream.thy ===== *)
theory Batch_Stream
  imports Channel_Reader
begin

text \<open>
  The batch stream, \<^verbatim>\<open>crates/protocol/derive/src/stages/batch/batch_stream.rs\<close>, and the trait that
  the stages above it use, \<^verbatim>\<open>stages/batch/mod.rs\<close>.  From Holocene on it takes span batches apart;
  before, it passes batches through.

  Shown: the stage's contract; under Holocene only single batches come out, and an accepted span
  batch comes out as its single batches in order, with one pull from the stage below.
\<close>

section \<open>The stage\<close>

record 'p next_batch_provider = "'p stage" +
  nbp_next_batch :: "l2_block_info \<Rightarrow> block_info list \<Rightarrow> 'p \<Rightarrow> 'p \<times> batch pres"
  nbp_span_buffer_size :: "'p \<Rightarrow> nat"
  nbp_flush :: "'p \<Rightarrow> 'p"

record ('p, 'f) batch_stream =
  bs_prev :: 'p
  bs_span :: "span_batch option"
  bs_buffer :: "single_batch list"
  bs_config :: rollup_config
  bs_fetcher :: 'f

definition batch_stream_new :: "'p \<Rightarrow> rollup_config \<Rightarrow> 'f \<Rightarrow> ('p, 'f) batch_stream" where
  "batch_stream_new prev config fetcher =
     \<lparr>bs_prev = prev, bs_span = None, bs_buffer = [], bs_config = config, bs_fetcher = fetcher\<rparr>"

definition stream_is_active ::
    "('p, 'z) stage_scheme \<Rightarrow> ('p, 'f) batch_stream \<Rightarrow> ('p, 'f) batch_stream \<times> bool pres" where
  "stream_is_active P b =
     pbind (ok_or b (stg_origin P (bs_prev b)) (crit MissingOrigin)) (\<lambda>b origin.
       (b, Ok (is_holocene_active (bs_config b) (bi_timestamp origin))))"

definition try_hydrate_buffer ::
    "l2_block_info \<Rightarrow> block_info list \<Rightarrow> ('p, 'f) batch_stream \<Rightarrow> ('p, 'f) batch_stream \<times> unit pres" where
  "try_hydrate_buffer parent l1_origins b =
     (case bs_span b of
        None \<Rightarrow> (b, Ok ())
      | Some span \<Rightarrow>
          let b = b\<lparr>bs_span := None\<rparr> in
          (case get_singular_batches span l1_origins parent of
             Good batches \<Rightarrow> (b\<lparr>bs_buffer := bs_buffer b @ batches\<rparr>, Ok ())
           | Bad e \<Rightarrow> (b, Err (crit (BadEncoding (pipeline_encoding_error.SpanBatchError e))))
           | Panic \<Rightarrow> (b, Panicked)))"

definition get_single_batch ::
    "l2_block_info \<Rightarrow> block_info list \<Rightarrow> ('p, 'f) batch_stream \<Rightarrow> ('p, 'f) batch_stream \<times> single_batch pres" where
  "get_single_batch parent l1_origins b =
     pbind (try_hydrate_buffer parent l1_origins b) (\<lambda>b _.
       case bs_buffer b of
         [] \<Rightarrow> (b, Err (temp NotEnoughData))
       | x # xs \<Rightarrow> (b\<lparr>bs_buffer := xs\<rparr>, Ok x))"

definition stream_flush :: "'p batch_stream_provider \<Rightarrow> ('p, 'f) batch_stream \<Rightarrow> ('p, 'f) batch_stream" where
  "stream_flush P b =
     (if snd (stream_is_active P b) = Ok True
      then b\<lparr>bs_prev := bsp_flush P (bs_prev b), bs_span := None, bs_buffer := []\<rparr>
      else b)"

text \<open>
  The part of \<^verbatim>\<open>next_batch\<close> that loads a batch when the buffer is empty: a single batch to return
  at once, or None with the span batch staged.
\<close>

definition stage_span ::
    "'f batch_validation_provider \<Rightarrow> 'p batch_stream_provider \<Rightarrow> l2_block_info \<Rightarrow> block_info list \<Rightarrow> block_info \<Rightarrow>
     span_batch \<Rightarrow> ('p, 'f) batch_stream \<Rightarrow> ('p, 'f) batch_stream \<times> batch option pres" where
  "stage_span F P parent l1_origins inclusion_block s b =
     (case check_batch_prefix F s (bs_config b) l1_origins parent inclusion_block (bs_fetcher b) of
        (f, None) \<Rightarrow> (b\<lparr>bs_fetcher := f\<rparr>, Panicked)
      | (f, Some (validity, _)) \<Rightarrow>
          let b = b\<lparr>bs_fetcher := f\<rparr> in
          (case validity of
             Accept \<Rightarrow> (b\<lparr>bs_span := Some s\<rparr>, Ok None)
           | Drop \<Rightarrow> (stream_flush P b, Err (temp NotEnoughData))
           | Past \<Rightarrow> pbind (stream_is_active P b) (\<lambda>b active.
               (b, Err (if active then temp NotEnoughData else crit InvalidBatchValidity)))
           | _ \<Rightarrow> (b, Err (temp NotEnoughData))))"

definition load_batch ::
    "'f batch_validation_provider \<Rightarrow> 'p batch_stream_provider \<Rightarrow> l2_block_info \<Rightarrow> block_info list \<Rightarrow>
     ('p, 'f) batch_stream \<Rightarrow> ('p, 'f) batch_stream \<times> batch option pres" where
  "load_batch F P parent l1_origins b =
     pbind (ok_or b (stg_origin P (bs_prev b)) (crit MissingOrigin)) (\<lambda>b origin.
     pbind (via (\<lambda>p. b\<lparr>bs_prev := p\<rparr>) (bsp_next_batch P (bs_prev b))) (\<lambda>b batch.
       case batch of
         batch.Single s \<Rightarrow> (b, Ok (Some (batch.Single s)))
       | batch.Span s \<Rightarrow> stage_span F P parent l1_origins origin s b))"

definition stream_next_batch ::
    "'f batch_validation_provider \<Rightarrow> 'p batch_stream_provider \<Rightarrow> l2_block_info \<Rightarrow> block_info list \<Rightarrow>
     ('p, 'f) batch_stream \<Rightarrow> ('p, 'f) batch_stream \<times> batch pres" where
  "stream_next_batch F P parent l1_origins b =
     pbind (stream_is_active P b) (\<lambda>b active.
       if \<not> active then via (\<lambda>p. b\<lparr>bs_prev := p\<rparr>) (bsp_next_batch P (bs_prev b))
       else
         pbind (if bs_buffer b = [] then load_batch F P parent l1_origins b else (b, Ok None)) (\<lambda>b loaded.
           case loaded of
             Some batch \<Rightarrow> (b, Ok batch)
           | None \<Rightarrow> pbind (get_single_batch parent l1_origins b) (\<lambda>b s. (b, Ok (batch.Single s)))))"

definition stream_signal ::
    "('p, 'z) stage_scheme \<Rightarrow> ('p, 'f) batch_stream \<Rightarrow> signal \<Rightarrow> ('p, 'f) batch_stream \<times> unit pres" where
  "stream_signal P b sig =
     pbind (via (\<lambda>p. b\<lparr>bs_prev := p\<rparr>) (stg_signal P (bs_prev b) sig)) (\<lambda>b _.
       (b\<lparr>bs_buffer := [], bs_span := None\<rparr>, Ok ()))"

definition batch_stream_ops ::
    "'f batch_validation_provider \<Rightarrow> 'p batch_stream_provider \<Rightarrow> ('p, 'f) batch_stream next_batch_provider" where
  "batch_stream_ops F P =
     \<lparr>stg_origin = (\<lambda>b. stg_origin P (bs_prev b)),
      stg_advance_origin = (\<lambda>b. via (\<lambda>p. b\<lparr>bs_prev := p\<rparr>) (stg_advance_origin P (bs_prev b))),
      stg_signal = stream_signal P,
      nbp_next_batch = stream_next_batch F P,
      nbp_span_buffer_size = (\<lambda>b. length (bs_buffer b)),
      nbp_flush = stream_flush P\<rparr>"

section \<open>Between calls\<close>

text \<open>No span batch is staged between calls, and the config is the one of the pipeline.\<close>

definition stream_inv :: "rollup_config \<Rightarrow> ('p, 'f) batch_stream \<Rightarrow> bool" where
  "stream_inv cfg b \<longleftrightarrow> bs_span b = None \<and> bs_config b = cfg"

lemma stream_inv_new: "stream_inv cfg (batch_stream_new prev cfg fetcher)"
  by (simp add: stream_inv_def batch_stream_new_def)

lemma stream_is_active_eq:
  "stream_is_active P b = (b, case stg_origin P (bs_prev b) of None \<Rightarrow> Err (crit MissingOrigin)
     | Some origin \<Rightarrow> Ok (is_holocene_active (bs_config b) (bi_timestamp origin)))"
  by (simp add: stream_is_active_def split: option.splits)

lemma stream_flush_inv: "stream_inv cfg b \<Longrightarrow> stream_inv cfg (stream_flush P b)"
  by (simp add: stream_inv_def stream_flush_def)

lemma stream_signal_prev:
  "bs_prev (fst (stream_signal P b s)) = fst (stg_signal P (bs_prev b) s)"
  "snd (stg_signal P (bs_prev b) s) = Ok () \<Longrightarrow> snd (stream_signal P b s) = Ok ()"
  "stream_inv cfg b \<Longrightarrow> stream_inv cfg (fst (stream_signal P b s))"
  by (cases "stg_signal P (bs_prev b) s"; cases "snd (stg_signal P (bs_prev b) s)";
      simp add: stream_signal_def stream_inv_def)+

lemma batch_stream_contract:
  "stage_contract P I \<Longrightarrow> stage_contract (batch_stream_ops F P) (\<lambda>b. I (bs_prev b) \<and> stream_inv cfg b)"
  by (erule stage_contract_lift [where prev = bs_prev])
    (simp_all add: batch_stream_ops_def via_def stream_signal_prev, simp add: stream_inv_def)

lemma get_single_batch_frame:
  "bs_prev (fst (get_single_batch parent l1 b)) = bs_prev b \<and> bs_config (fst (get_single_batch parent l1 b)) = bs_config b \<and>
   bs_span (fst (get_single_batch parent l1 b)) = None"
  by (auto simp: get_single_batch_def try_hydrate_buffer_def Let_def split: option.splits outcome.splits list.splits)

section \<open>The stage's contract\<close>

text \<open>
  What the stages above rely on: pulling and flushing leave the origin alone, and at an origin
  under Holocene only single batches are pulled.
\<close>

locale next_batch_stage = stable_pull P I "\<lambda>q. nbp_next_batch P (fst q) (snd q)"
  for P :: "'p next_batch_provider" and I +
  fixes cfg :: rollup_config
  assumes flush_origin: "I p \<Longrightarrow> stg_origin P (nbp_flush P p) = stg_origin P p"
    and flush_inv: "I p \<Longrightarrow> I (nbp_flush P p)"
    and singles: "I p \<Longrightarrow> stg_origin P p = Some x \<Longrightarrow> is_holocene_active cfg (bi_timestamp x) \<Longrightarrow>
      snd (nbp_next_batch P parent l1 p) = Ok b \<Longrightarrow> \<exists>s. b = batch.Single s"

context batch_stream_stage
begin

lemma stream_flush_frame:
  assumes "I (bs_prev b)"
  shows "I (bs_prev (stream_flush P b)) \<and> stg_origin P (bs_prev (stream_flush P b)) = stg_origin P (bs_prev b)"
  using assms by (simp add: stream_flush_def flush_origin flush_inv)

lemma stage_span_frame:
  assumes "I (bs_prev b)" and "stage_span F P parent l1 incl s b = (b', r)"
  shows "I (bs_prev b') \<and> stg_origin P (bs_prev b') = stg_origin P (bs_prev b) \<and> bs_config b' = bs_config b \<and>
    (bs_span b = None \<longrightarrow> r \<noteq> Ok None \<longrightarrow> bs_span b' = None) \<and> (\<forall>x. r = Ok x \<longrightarrow> x = None)"
proof (cases "check_batch_prefix F s (bs_config b) l1 parent incl (bs_fetcher b)")
  case (Pair f v)
  with assms show ?thesis
    using stream_flush_frame [of "b\<lparr>bs_fetcher := f\<rparr>"]
    by (auto simp: stage_span_def stream_is_active_eq Let_def stream_flush_def
        split: option.splits batch_validity.splits if_splits)
qed

lemma load_batch_frame:
  assumes "I (bs_prev b)" and "load_batch F P parent l1 b = (b', r)"
  shows "I (bs_prev b') \<and> stg_origin P (bs_prev b') = stg_origin P (bs_prev b) \<and> bs_config b' = bs_config b \<and>
    (bs_span b = None \<longrightarrow> r \<noteq> Ok None \<longrightarrow> bs_span b' = None) \<and> (\<forall>x. r = Ok (Some x) \<longrightarrow> (\<exists>s. x = batch.Single s))"
proof (cases "stg_origin P (bs_prev b)")
  case (Some origin)
  obtain p d where pull: "bsp_next_batch P (bs_prev b) = (p, d)" by fastforce
  then have p: "I p" "stg_origin P p = Some origin" using pull_inv [OF assms(1)] pull_origin [OF assms(1)] Some by simp_all
  show ?thesis
  proof (cases "\<exists>s. d = Ok (batch.Span s)")
    case True
    then obtain s where "d = Ok (batch.Span s)" by blast
    with assms(2) Some pull have "stage_span F P parent l1 origin s (b\<lparr>bs_prev := p\<rparr>) = (b', r)" by (simp add: load_batch_def)
    from stage_span_frame [OF _ this] p Some show ?thesis by auto
  next
    case False
    with assms(2) Some pull p show ?thesis by (cases d) (auto simp: load_batch_def split: batch.splits)
  qed
qed (use assms in \<open>auto simp: load_batch_def\<close>)

lemma stream_next_batch_frame:
  assumes "I (bs_prev b)" and "stream_inv cfg b" and "stream_next_batch F P parent l1 b = (b', r)"
  shows "I (bs_prev b') \<and> stg_origin P (bs_prev b') = stg_origin P (bs_prev b) \<and> stream_inv cfg b'"
    "stg_origin P (bs_prev b) = Some x \<Longrightarrow> is_holocene_active cfg (bi_timestamp x) \<Longrightarrow> r = Ok y \<Longrightarrow> \<exists>s. y = batch.Single s"
proof -
  obtain b1 r1 where load: "load_batch F P parent l1 b = (b1, r1)" by fastforce
  note load = load load_batch_frame [OF assms(1) load]
  obtain b2 r2 where single: "get_single_batch parent l1 (if bs_buffer b = [] then b1 else b) = (b2, r2)" by fastforce
  have b2: "bs_prev b2 = bs_prev (if bs_buffer b = [] then b1 else b) \<and>
      bs_config b2 = bs_config (if bs_buffer b = [] then b1 else b) \<and> bs_span b2 = None"
    using get_single_batch_frame [of parent l1 "if bs_buffer b = [] then b1 else b"] single by simp
  obtain p d where pull: "bsp_next_batch P (bs_prev b) = (p, d)" by fastforce
  then have p: "I p" "stg_origin P p = stg_origin P (bs_prev b)" using pull_inv [OF assms(1)] pull_origin [OF assms(1)] by simp_all
  show "I (bs_prev b') \<and> stg_origin P (bs_prev b') = stg_origin P (bs_prev b) \<and> stream_inv cfg b'"
    using assms load single b2 pull p
    by (cases r2; cases r1; cases "bs_buffer b = []")
      (auto simp: stream_next_batch_def stream_is_active_eq stream_inv_def split: option.splits if_splits)
  show "\<exists>s. y = batch.Single s"
    if "stg_origin P (bs_prev b) = Some x" "is_holocene_active cfg (bi_timestamp x)" "r = Ok y"
    using assms load single that
    by (cases r2; cases r1; cases "bs_buffer b = []")
      (auto simp: stream_next_batch_def stream_is_active_eq stream_inv_def split: option.splits if_splits)
qed

end

sublocale batch_stream_stage \<subseteq> bs: next_batch_stage "batch_stream_ops F P" "\<lambda>b. I (bs_prev b) \<and> stream_inv cfg b" cfg
  for F :: "'f batch_validation_provider" and cfg
proof (rule next_batch_stage.intro, rule stable_pull.intro, rule batch_stream_contract, rule stage_contract_axioms,
    unfold_locales, goal_cases)
  case (5 b x parent l1 y)
  then show ?case
    using stream_next_batch_frame(2) [of b cfg F parent l1 _ "Ok y" x y]
    by (cases "stream_next_batch F P parent l1 b") (simp add: batch_stream_ops_def)
qed (simp_all add: batch_stream_ops_def stream_flush_frame stream_flush_inv
    stream_next_batch_frame(1) [where cfg = cfg, OF _ _ prod.collapse [symmetric]])

interpretation polling_bs: next_batch_stage
  "batch_stream_ops F (channel_reader_ops C (channel_provider_ops (frame_queue_ops (l1_retrieval_ops D (polling_ops A cp)))))"
  "\<lambda>b. channel_provider_inv (\<lambda>_. True) (cr_prev (bs_prev b)) \<and> stream_inv cfg b" cfg
  for F :: "'f batch_validation_provider" and C :: "'b codecs" and D :: "'d data_availability_provider"
    and A :: abi and cp :: "'c chain_provider" and cfg
  by unfold_locales

interpretation indexed_bs: next_batch_stage
  "batch_stream_ops F (channel_reader_ops C (channel_provider_ops (frame_queue_ops (l1_retrieval_ops D (indexed_ops A cp)))))"
  "\<lambda>b. channel_provider_inv (\<lambda>_. True) (cr_prev (bs_prev b)) \<and> stream_inv cfg b" cfg
  for F :: "'f batch_validation_provider" and C :: "'b codecs" and D :: "'d data_availability_provider"
    and A :: abi and cp :: "'c chain_provider" and cfg
  by unfold_locales

section \<open>Batches from a channel\<close>

text \<open>
  What the stages above can also rely on when the batches come from a channel reader: in every state
  of an invariant, which all operations keep, only batches with a property are pulled.
\<close>

locale batches_from =
  fixes P :: "'p next_batch_provider" and J :: "'p \<Rightarrow> bool" and B :: "batch \<Rightarrow> bool"
  assumes pull_keeps: "J p \<Longrightarrow> J (fst (nbp_next_batch P parent l1 p))"
    and pull_batch: "J p \<Longrightarrow> nbp_next_batch P parent l1 p = (p', Ok b) \<Longrightarrow> B b"
    and flush_keeps: "J p \<Longrightarrow> J (nbp_flush P p)"
    and advance_keeps: "J p \<Longrightarrow> J (fst (stg_advance_origin P p))"
    and signal_keeps: "J p \<Longrightarrow> J (fst (stg_signal P p s))"

lemma stage_span_prev:
  "bs_prev (fst (stage_span F P parent l1 x s b)) = bs_prev b \<or>
   bs_prev (fst (stage_span F P parent l1 x s b)) = bsp_flush P (bs_prev b)"
  by (auto simp: stage_span_def stream_flush_def stream_is_active_eq Let_def
      split: prod.splits option.splits batch_validity.splits)

lemma load_batch_prev:
  "bs_prev (fst (load_batch F P parent l1 b)) \<in>
   {bs_prev b, fst (bsp_next_batch P (bs_prev b)), bsp_flush P (fst (bsp_next_batch P (bs_prev b)))}"
proof -
  obtain p r where pull: "bsp_next_batch P (bs_prev b) = (p, r)" by fastforce
  have "bs_prev (fst (stage_span F P parent l1 x s (b\<lparr>bs_prev := p\<rparr>))) \<in> {p, bsp_flush P p}" for x s
    using stage_span_prev [of F P parent l1 x s "b\<lparr>bs_prev := p\<rparr>"] by auto
  with pull show ?thesis
    by (cases r) (auto simp: load_batch_def ok_or_def split: option.splits batch.splits)
qed

lemma stream_next_batch_prev:
  "bs_prev (fst (stream_next_batch F P parent l1 b)) \<in>
   {bs_prev b, fst (bsp_next_batch P (bs_prev b)), bsp_flush P (fst (bsp_next_batch P (bs_prev b)))}"
proof -
  obtain p r where pull: "bsp_next_batch P (bs_prev b) = (p, r)" by fastforce
  obtain b1 r1 where load: "(if bs_buffer b = [] then load_batch F P parent l1 b else (b, Ok None)) = (b1, r1)" by fastforce
  then have b1: "bs_prev b1 \<in> {bs_prev b, p, bsp_flush P p}"
    using load_batch_prev [of F P parent l1 b] pull by (auto split: if_splits)
  obtain b2 r2 where single: "get_single_batch parent l1 b1 = (b2, r2)" by fastforce
  then have b2: "bs_prev b2 = bs_prev b1" using get_single_batch_frame [of parent l1 b1] by simp
  show ?thesis
  proof (cases "snd (stream_is_active P b) = Ok True")
    case True
    then have "stream_next_batch F P parent l1 b = pbind (b1, r1) (\<lambda>b loaded. case loaded of
        Some batch \<Rightarrow> (b, Ok batch)
      | None \<Rightarrow> pbind (get_single_batch parent l1 b) (\<lambda>b s. (b, Ok (batch.Single s))))"
      unfolding load [symmetric] by (simp add: stream_next_batch_def stream_is_active_eq split: option.splits)
    with b1 b2 single pull show ?thesis
      by (cases r1; cases r2) (simp_all split: option.splits)
  next
    case False
    with pull show ?thesis
      by (auto simp: stream_next_batch_def stream_is_active_eq split: option.splits)
  qed
qed

lemma stream_next_batch_source:
  assumes "stream_next_batch F P parent l1 b = (b', Ok x)"
  shows "(\<exists>s. x = batch.Single s) \<or> (\<exists>p. bsp_next_batch P (bs_prev b) = (p, Ok x))"
proof -
  have span: "snd (stage_span F P parent l1 o' s c) \<noteq> Ok (Some y)" for o' s c y
    by (auto simp: stage_span_def stream_is_active_eq Let_def split: prod.splits option.splits batch_validity.splits)
  have "\<exists>s. y = batch.Single s" if "load_batch F P parent l1 b = (b1, Ok (Some y))" for b1 y
  proof -
    from that obtain o' c z where "(case z of batch.Single s \<Rightarrow> (c, Ok (Some (batch.Single s)))
        | batch.Span s \<Rightarrow> stage_span F P parent l1 o' s c) = (b1, Ok (Some y))"
      by (auto simp: load_batch_def pbind_eq_Ok)
    with span [of o' _ c y] show ?thesis by (cases z) (auto dest: arg_cong [where f = snd])
  qed
  with assms show ?thesis
    by (auto simp: stream_next_batch_def stream_is_active_eq pbind_eq_Ok via_eq_Ok split: option.splits if_splits)
qed

interpretation reader_bs: batches_from "batch_stream_ops F (channel_reader_ops C P)"
  "\<lambda>b. cr_cfg (bs_prev b) = cfg" "batch_steps cfg"
  for F :: "'f batch_validation_provider" and C :: "'b codecs" and P :: "'p channel_reader_provider" and cfg
proof (unfold_locales, goal_cases)
  case (1 b parent l1)
  then show ?case
    using stream_next_batch_prev [of F "channel_reader_ops C P" parent l1 b]
    by (auto simp: batch_stream_ops_def channel_reader_ops_def channel_reader_next_batch_cfg next_channel_def)
next
  case (2 b parent l1 b' x)
  then have "stream_next_batch F (channel_reader_ops C P) parent l1 b = (b', Ok x)" by (simp add: batch_stream_ops_def)
  from stream_next_batch_source [OF this] 2(1) show ?case
    by (auto simp: channel_reader_ops_def dest: channel_reader_next_batch_steps)
qed (simp_all add: batch_stream_ops_def channel_reader_ops_def stream_flush_def next_channel_def via_def
    stream_signal_prev(1) channel_reader_signal_cfg)

section \<open>Streaming a span batch\<close>

text \<open>A sequence of pulls, each with its parent and L1 origins.\<close>

fun pull_stream ::
    "'f batch_validation_provider \<Rightarrow> 'p batch_stream_provider \<Rightarrow> (l2_block_info \<times> block_info list) list \<Rightarrow>
     ('p, 'f) batch_stream \<Rightarrow> ('p, 'f) batch_stream \<times> batch pres list" where
  "pull_stream F P [] b = (b, [])"
| "pull_stream F P ((parent, l1) # qs) b =
     (case stream_next_batch F P parent l1 b of (b, r) \<Rightarrow> case pull_stream F P qs b of (b, rs) \<Rightarrow> (b, r # rs))"

definition stream_active :: "('p, 'z) stage_scheme \<Rightarrow> ('p, 'f) batch_stream \<Rightarrow> bool" where
  "stream_active P b \<longleftrightarrow> snd (stream_is_active P b) = Ok True"

lemma stream_active_iff:
  "stream_active P b \<longleftrightarrow> (\<exists>x. stg_origin P (bs_prev b) = Some x \<and> is_holocene_active (bs_config b) (bi_timestamp x))"
  by (simp add: stream_active_def stream_is_active_eq split: option.splits)

lemma stream_next_batch_buffered:
  assumes "stream_active P b" and "bs_span b = None" and "bs_buffer b = x # xs"
  shows "stream_next_batch F P parent l1 b = (b\<lparr>bs_buffer := xs\<rparr>, Ok (batch.Single x))"
  using assms
  by (auto simp: stream_next_batch_def stream_active_iff stream_is_active_eq get_single_batch_def try_hydrate_buffer_def)

lemma pull_stream_buffered:
  "stream_active P b \<Longrightarrow> bs_span b = None \<Longrightarrow> length qs \<le> length (bs_buffer b) \<Longrightarrow>
    pull_stream F P qs b =
      (b\<lparr>bs_buffer := drop (length qs) (bs_buffer b)\<rparr>, map (Ok \<circ> batch.Single) (take (length qs) (bs_buffer b)))"
proof (induction qs arbitrary: b)
  case (Cons q qs)
  obtain parent l1 where q: "q = (parent, l1)" by fastforce
  obtain x xs where xs: "bs_buffer b = x # xs" using Cons.prems(3) by (cases "bs_buffer b") auto
  have "pull_stream F P qs (b\<lparr>bs_buffer := xs\<rparr>) =
      ((b\<lparr>bs_buffer := xs\<rparr>)\<lparr>bs_buffer := drop (length qs) xs\<rparr>, map (Ok \<circ> batch.Single) (take (length qs) xs))"
    using Cons.prems xs Cons.IH [of "b\<lparr>bs_buffer := xs\<rparr>"] by (simp add: stream_active_iff)
  with q xs Cons.prems show ?case by (simp add: stream_next_batch_buffered)
qed simp

lemma stream_next_batch_span:
  assumes "stream_active P b" and "bs_span b = None" and "bs_buffer b = []" and "stg_origin P (bs_prev b) = Some origin"
    and "bsp_next_batch P (bs_prev b) = (p, Ok (batch.Span s))"
    and "check_batch_prefix F s (bs_config b) l1 parent origin (bs_fetcher b) = (f, Some (Accept, q))"
    and "get_singular_batches s l1 parent = Good (x # xs)"
  shows "stream_next_batch F P parent l1 b = (b\<lparr>bs_prev := p, bs_fetcher := f, bs_buffer := xs\<rparr>, Ok (batch.Single x))"
  using assms
  by (simp add: stream_next_batch_def stream_active_iff stream_is_active_eq load_batch_def stage_span_def
      get_single_batch_def try_hydrate_buffer_def)

section \<open>Properties\<close>

text \<open>
  C17. Under Holocene a span batch whose prefix is accepted is streamed: with an empty buffer, the
  pull that meets it returns its first single batch and the pulls after that return the others in
  order, whatever the parents they are called with. The previous stage is pulled once. A flush on
  the way drops the rest.
\<close>

theorem batch_stream_streams_span:
  assumes "stream_active P b" and "bs_span b = None" and "bs_buffer b = []" and "stg_origin P (bs_prev b) = Some origin"
    and "bsp_next_batch P (bs_prev b) = (p, Ok (batch.Span s))" and "stg_origin P p = Some origin"
    and "check_batch_prefix F s (bs_config b) l1 parent origin (bs_fetcher b) = (f, Some (Accept, q))"
    and "get_singular_batches s l1 parent = Good xs" and "length ((parent, l1) # qs) \<le> length xs"
  shows "\<exists>b'. pull_stream F P ((parent, l1) # qs) b = (b', map (Ok \<circ> batch.Single) (take (length qs + 1) xs)) \<and>
    bs_prev b' = p \<and> bs_buffer b' = drop (length qs + 1) xs \<and>
    bs_buffer (stream_flush P b') = [] \<and> bs_prev (stream_flush P b') = bsp_flush P p"
proof -
  obtain y ys where xs: "xs = y # ys" using assms(9) by (cases xs) auto
  let ?b = "b\<lparr>bs_prev := p, bs_fetcher := f, bs_buffer := ys\<rparr>"
  have active: "stream_active P (?b\<lparr>bs_buffer := zs\<rparr>)" for zs using assms(1,4,6) by (simp add: stream_active_iff)
  have "stream_next_batch F P parent l1 b = (?b, Ok (batch.Single y))"
    using assms xs by (intro stream_next_batch_span) auto
  moreover have "pull_stream F P qs ?b =
      (?b\<lparr>bs_buffer := drop (length qs) ys\<rparr>, map (Ok \<circ> batch.Single) (take (length qs) ys))"
    using active [of ys] assms(2,9) xs by (subst pull_stream_buffered) auto
  ultimately show ?thesis
    using active [of "drop (length qs) ys"] xs
    by (auto simp: stream_flush_def stream_active_def)
qed

definition batch_source :: "block_info \<Rightarrow> batch list batch_stream_provider" where
  "batch_source b = \<lparr>stg_origin = (\<lambda>_. Some b), stg_advance_origin = (\<lambda>p. (p, Ok ())),
     stg_signal = (\<lambda>p _. (p, Ok ())),
     bsp_next_batch = (\<lambda>p. case p of [] \<Rightarrow> (p, Err (temp Eof)) | x # xs \<Rightarrow> (xs, Ok x)), bsp_flush = (\<lambda>p. [])\<rparr>"

definition example_singles :: "single_batch list" where
  "example_singles = [\<lparr>sb_parent_hash = 0, sb_epoch_num = 8, sb_epoch_hash = 22, sb_timestamp = 64, sb_transactions = [[2, 1]]\<rparr>,
     \<lparr>sb_parent_hash = 0, sb_epoch_num = 8, sb_epoch_hash = 22, sb_timestamp = 66, sb_transactions = []\<rparr>]"

lemma example_span_prefix:
  "check_batch_prefix example_fetcher example_span example_config example_origins example_head (example_origins ! 1) () =
     ((), Some (Accept, Some example_head))"
  by (simp add: check_batch_prefix_def check_prefix_parent_def check_end_origin_def
      starting_timestamp_def final_timestamp_def starting_epoch_num_def check_parent_hash_def
      check_origin_hash_def example_span_def default_span_batch_def example_batch_defs example_config_defs Let_def
      cfg_defs reached_def)

lemma example_span_singles: "get_singular_batches example_span example_origins example_head = Good example_singles"
  by (simp add: get_singular_batches_def example_singles_def example_span_def example_batch_defs)

theorem batch_stream_streams_span_witness:
  "snd (pull_stream example_fetcher (batch_source (example_origins ! 1)) [(example_head, example_origins), (example_head, [])]
     (batch_stream_new [batch.Span example_span] example_config ())) = map (Ok \<circ> batch.Single) example_singles"
proof -
  let ?b = "batch_stream_new [batch.Span example_span] example_config ()" and ?P = "batch_source (example_origins ! 1)"
  have "stream_active ?P ?b"
    by (simp add: stream_active_iff batch_source_def batch_stream_new_def example_origins_def example_config_defs
        cfg_defs reached_def)
  then show ?thesis
    using batch_stream_streams_span [of ?P ?b "example_origins ! 1" "[]" example_span example_fetcher example_origins
        example_head "()" "Some example_head" example_singles "[(example_head, [])]"]
      example_span_prefix example_span_singles
    by (auto simp: batch_source_def batch_stream_new_def example_singles_def simp del: pull_stream.simps)
qed

end
