(* ===== verification/Batch_Validator.thy ===== *)
theory Batch_Validator
  imports Batch_Stream
begin

text \<open>
  The batch validator, \<^verbatim>\<open>crates/protocol/derive/src/stages/batch/batch_validator.rs\<close>, which checks
  the single batches of the batch stream from Holocene on, and the trait \<^verbatim>\<open>AttributesProvider\<close>
  (\<^verbatim>\<open>traits/attributes.rs\<close>) that it implements.

  Shown: the stage's contract; a batch it hands out has passed the check of single batches or is
  an empty one after the sequencing window; and when the window has passed and the stages below
  have no more data, an empty batch comes out within two pulls.
\<close>

section \<open>The stage\<close>

record 'p attributes_provider = "'p stage" +
  ap_next_batch :: "l2_block_info \<Rightarrow> 'p \<Rightarrow> 'p \<times> single_batch pres"
  ap_is_last_in_span :: "'p \<Rightarrow> bool"

record 'p batch_validator =
  bv_cfg :: rollup_config
  bv_prev :: 'p
  bv_origin :: "block_info option"
  bv_l1_blocks :: "block_info list"

definition batch_validator_new :: "rollup_config \<Rightarrow> 'p \<Rightarrow> 'p batch_validator" where
  "batch_validator_new cfg prev = \<lparr>bv_cfg = cfg, bv_prev = prev, bv_origin = None, bv_l1_blocks = []\<rparr>"

definition origin_behind :: "block_info option \<Rightarrow> l2_block_info \<Rightarrow> bool" where
  "origin_behind origin parent =
     (case origin of None \<Rightarrow> True | Some origin \<Rightarrow> bi_number origin < bnh_number (l2_l1_origin parent))"

text \<open>Dropping the L1 blocks before the origin of the parent.\<close>

definition advance_epoch :: "l2_block_info \<Rightarrow> block_info list \<Rightarrow> block_info list" where
  "advance_epoch parent l1_blocks =
     (if l1_blocks \<noteq> [] \<and> bi_number (l1_blocks ! 0) < bnh_number (l2_l1_origin parent)
      then case position_of (bnh_number (l2_l1_origin parent)) l1_blocks of
        None \<Rightarrow> l1_blocks
      | Some (i, _) \<Rightarrow> drop i l1_blocks
      else l1_blocks)"

definition update_origins ::
    "('p, 'z) stage_scheme \<Rightarrow> l2_block_info \<Rightarrow> 'p batch_validator \<Rightarrow> 'p batch_validator \<times> unit pres" where
  "update_origins P parent v =
     (let behind = origin_behind (stg_origin P (bv_prev v)) parent in
      pbind
        (if bv_origin v \<noteq> stg_origin P (bv_prev v) then
           let v = v\<lparr>bv_origin := stg_origin P (bv_prev v)\<rparr> in
           if \<not> behind then
             pbind (ok_or v (bv_origin v) (crit MissingOrigin)) (\<lambda>v origin.
               (v\<lparr>bv_l1_blocks := bv_l1_blocks v @ [origin]\<rparr>, Ok ()))
           else (v\<lparr>bv_l1_blocks := []\<rparr>, Ok ())
         else (v, Ok ()))
        (\<lambda>v _. (v\<lparr>bv_l1_blocks := advance_epoch parent (bv_l1_blocks v)\<rparr>, Ok ())))"

definition empty_batch :: "rollup_config \<Rightarrow> l2_block_info \<Rightarrow> block_info \<Rightarrow> single_batch" where
  "empty_batch cfg parent epoch =
     \<lparr>sb_parent_hash = bi_hash (l2_info parent), sb_epoch_num = bi_number epoch, sb_epoch_hash = bi_hash epoch,
      sb_timestamp = bi_timestamp (l2_info parent) + rc_block_time cfg, sb_transactions = []\<rparr>"

definition try_derive_empty_batch ::
    "l2_block_info \<Rightarrow> 'p batch_validator \<Rightarrow> 'p batch_validator \<times> single_batch pres" where
  "try_derive_empty_batch parent v =
     (if bv_l1_blocks v = [] then (v, Panicked)
      else let epoch = bv_l1_blocks v ! 0 in
        pbind (ok_or v (bv_origin v) (crit MissingOrigin)) (\<lambda>v stage_origin.
          let expiry_epoch = bi_number epoch + rc_seq_window_size (bv_cfg v);
              force_empty_batches = (expiry_epoch \<le> bi_number stage_origin);
              first_of_epoch = (bi_number epoch = bnh_number (l2_l1_origin parent) + 1);
              next_timestamp = bi_timestamp (l2_info parent) + rc_block_time (bv_cfg v) in
          if \<not> force_empty_batches then (v, Err (temp Eof))
          else if length (bv_l1_blocks v) < 2 then (v, Err (temp Eof))
          else if next_timestamp < bi_timestamp (bv_l1_blocks v ! 1) \<or> first_of_epoch
          then (v, Ok (empty_batch (bv_cfg v) parent epoch))
          else (v\<lparr>bv_l1_blocks := tl (bv_l1_blocks v)\<rparr>, Err (temp Eof))))"

text \<open>The check of the batch that was pulled.\<close>

definition validate_batch ::
    "'p next_batch_provider \<Rightarrow> l2_block_info \<Rightarrow> block_info \<Rightarrow> batch \<Rightarrow> 'p batch_validator \<Rightarrow> 'p batch_validator \<times> single_batch pres" where
  "validate_batch P parent stage_origin batch v =
     (case batch of
        batch.Span _ \<Rightarrow> (v, Err (crit InvalidBatchType))
      | batch.Single next_batch \<Rightarrow>
          let next_batch = next_batch\<lparr>sb_parent_hash := bi_hash (l2_info parent)\<rparr> in
          (case single_check_batch next_batch (bv_cfg v) (bv_l1_blocks v) parent stage_origin of
             Accept \<Rightarrow> (v, Ok next_batch)
           | Past \<Rightarrow> (v, Err (temp NotEnoughData))
           | Drop \<Rightarrow> (v\<lparr>bv_prev := nbp_flush P (bv_prev v)\<rparr>, Err (temp NotEnoughData))
           | Undecided \<Rightarrow> (v, Err (temp NotEnoughData))
           | Future \<Rightarrow> (v, Err (crit InvalidBatchValidity))))"

definition validator_next_batch ::
    "'p next_batch_provider \<Rightarrow> l2_block_info \<Rightarrow> 'p batch_validator \<Rightarrow> 'p batch_validator \<times> single_batch pres" where
  "validator_next_batch P parent v =
     pbind (update_origins P parent v) (\<lambda>v _.
     pbind (ok_or v (bv_origin v) (crit MissingOrigin)) (\<lambda>v stage_origin.
       if origin_behind (stg_origin P (bv_prev v)) parent \<or> bnh_number (l2_l1_origin parent) = bi_number stage_origin
       then pbind (via (\<lambda>p. v\<lparr>bv_prev := p\<rparr>) (nbp_next_batch P parent (bv_l1_blocks v) (bv_prev v))) (\<lambda>v _.
         (v, Err (temp NotEnoughData)))
       else if length (bv_l1_blocks v) < 2 then (v, Err (crit MissingOrigin))
       else let epoch = bv_l1_blocks v ! 0 in
         if l2_l1_origin parent \<noteq> block_id epoch \<and> bnh_number (l2_l1_origin parent) \<noteq> bi_number epoch - 1
         then (v, Err (pipeline_error_kind.Reset (L1OriginMismatch (bnh_number (l2_l1_origin parent)) (bi_number epoch - 1))))
         else (case nbp_next_batch P parent (bv_l1_blocks v) (bv_prev v) of
                 (p, Ok batch) \<Rightarrow> validate_batch P parent stage_origin batch (v\<lparr>bv_prev := p\<rparr>)
               | (p, Err e) \<Rightarrow>
                   if e = temp Eof then try_derive_empty_batch parent (v\<lparr>bv_prev := p\<rparr>) else (v\<lparr>bv_prev := p\<rparr>, Err e)
               | (p, Panicked) \<Rightarrow> (v\<lparr>bv_prev := p\<rparr>, Panicked))))"

definition validator_signal ::
    "('p, 'z) stage_scheme \<Rightarrow> 'p batch_validator \<Rightarrow> signal \<Rightarrow> 'p batch_validator \<times> unit pres" where
  "validator_signal P v sig =
     pbind (via (\<lambda>p. v\<lparr>bv_prev := p\<rparr>) (stg_signal P (bv_prev v) sig)) (\<lambda>v _.
       case sig of
         signal.Reset r \<Rightarrow> (v\<lparr>bv_origin := Some (rs_l1_origin r), bv_l1_blocks := [rs_l1_origin r]\<rparr>, Ok ())
       | _ \<Rightarrow> (v, Ok ()))"

definition batch_validator_ops :: "'p next_batch_provider \<Rightarrow> 'p batch_validator attributes_provider" where
  "batch_validator_ops P =
     \<lparr>stg_origin = (\<lambda>v. stg_origin P (bv_prev v)),
      stg_advance_origin = (\<lambda>v. via (\<lambda>p. v\<lparr>bv_prev := p\<rparr>) (stg_advance_origin P (bv_prev v))),
      stg_signal = validator_signal P,
      ap_next_batch = validator_next_batch P,
      ap_is_last_in_span = (\<lambda>v. nbp_span_buffer_size P (bv_prev v) = 0)\<rparr>"

section \<open>The stage's contract\<close>

lemma validator_signal_prev:
  "bv_prev (fst (validator_signal P v s)) = fst (stg_signal P (bv_prev v) s)"
  "snd (stg_signal P (bv_prev v) s) = Ok () \<Longrightarrow> snd (validator_signal P v s) = Ok ()"
  "bv_cfg (fst (validator_signal P v s)) = bv_cfg v"
  by (cases "stg_signal P (bv_prev v) s"; cases "snd (stg_signal P (bv_prev v) s)";
      simp add: validator_signal_def split: signal.splits)+

lemma batch_validator_contract:
  "stage_contract P I \<Longrightarrow> stage_contract (batch_validator_ops P) (\<lambda>v. I (bv_prev v) \<and> bv_cfg v = cfg)"
  by (erule stage_contract_lift [where prev = bv_prev])
    (simp_all add: batch_validator_ops_def via_def validator_signal_prev)

lemma update_origins_frame:
  assumes "update_origins P parent v = (v', r)"
  shows "bv_prev v' = bv_prev v \<and> bv_cfg v' = bv_cfg v \<and> bv_origin v' = stg_origin P (bv_prev v) \<and>
    (r = Ok () \<or> r = Err (crit MissingOrigin))"
  using assms by (auto simp: update_origins_def Let_def ok_or_def split: if_splits option.splits)

lemma try_derive_empty_batch_frame:
  assumes "try_derive_empty_batch parent v = (v', r)"
  shows "bv_prev v' = bv_prev v \<and> bv_cfg v' = bv_cfg v \<and> bv_origin v' = bv_origin v \<and> (bv_l1_blocks v \<noteq> [] \<longrightarrow> r \<noteq> Panicked)"
  using assms by (auto simp: try_derive_empty_batch_def Let_def ok_or_def split: if_splits option.splits)

lemma validate_batch_frame:
  assumes "validate_batch P parent o' b v = (v', r)"
  shows "(bv_prev v' = bv_prev v \<or> bv_prev v' = nbp_flush P (bv_prev v)) \<and> bv_cfg v' = bv_cfg v \<and>
    bv_origin v' = bv_origin v \<and> bv_l1_blocks v' = bv_l1_blocks v \<and> r \<noteq> Panicked"
  using assms by (auto simp: validate_batch_def Let_def split: batch.splits batch_validity.splits)

text \<open>The ways through \<^verbatim>\<open>next_batch\<close>, after the update of the origins.\<close>

lemma validator_next_batch_cases:
  assumes "validator_next_batch P parent v = (v', r)"
  obtains (stop) u e where "update_origins P parent v = (u, e)" "v' = u" "\<exists>e. r = Err e \<and> e \<noteq> crit InvalidBatchType"
  | (drain) u p d where "update_origins P parent v = (u, Ok ())" "nbp_next_batch P parent (bv_l1_blocks u) (bv_prev v) = (p, d)"
      "v' = u\<lparr>bv_prev := p\<rparr>" "\<forall>b. r \<noteq> Ok b" "\<forall>e. r = Err e \<longrightarrow> d = Err e \<or> e = temp NotEnoughData" "r = Panicked \<longrightarrow> d = Panicked"
  | (empty) u p stage_origin where "update_origins P parent v = (u, Ok ())" "bv_origin u = Some stage_origin" "2 \<le> length (bv_l1_blocks u)"
      "nbp_next_batch P parent (bv_l1_blocks u) (bv_prev v) = (p, Err (temp Eof))"
      "try_derive_empty_batch parent (u\<lparr>bv_prev := p\<rparr>) = (v', r)"
  | (batch) u p b stage_origin where "update_origins P parent v = (u, Ok ())" "bv_origin u = Some stage_origin" "2 \<le> length (bv_l1_blocks u)"
      "nbp_next_batch P parent (bv_l1_blocks u) (bv_prev v) = (p, Ok b)"
      "validate_batch P parent stage_origin b (u\<lparr>bv_prev := p\<rparr>) = (v', r)"
proof -
  obtain u e where u: "update_origins P parent v = (u, e)" by fastforce
  note uf = update_origins_frame [OF u]
  obtain p d where pull: "nbp_next_batch P parent (bv_l1_blocks u) (bv_prev v) = (p, d)" by fastforce
  show thesis
  proof (cases "\<exists>x. e = Ok () \<and> bv_origin u = Some x")
    case False
    with u uf assms have "v' = u" "r = Err (crit MissingOrigin)"
      by (auto simp: validator_next_batch_def)
    with u show thesis by (intro stop) auto
  next
    case True
    then obtain x where x: "e = Ok ()" "bv_origin u = Some x" by blast
    define draining where "draining \<longleftrightarrow>
      origin_behind (stg_origin P (bv_prev v)) parent \<or> bnh_number (l2_l1_origin parent) = bi_number x"
    let ?epoch = "bv_l1_blocks u ! 0"
    have eq: "(if draining then pbind (u\<lparr>bv_prev := p\<rparr>, d) (\<lambda>v _. (v, Err (temp NotEnoughData)))
      else if length (bv_l1_blocks u) < 2 then (u, Err (crit MissingOrigin))
      else if l2_l1_origin parent \<noteq> block_id ?epoch \<and> bnh_number (l2_l1_origin parent) \<noteq> bi_number ?epoch - 1
      then (u, Err (pipeline_error_kind.Reset (L1OriginMismatch (bnh_number (l2_l1_origin parent)) (bi_number ?epoch - 1))))
      else (case (p, d) of
            (p, Ok batch) \<Rightarrow> validate_batch P parent x batch (u\<lparr>bv_prev := p\<rparr>)
          | (p, Err e) \<Rightarrow> if e = temp Eof then try_derive_empty_batch parent (u\<lparr>bv_prev := p\<rparr>) else (u\<lparr>bv_prev := p\<rparr>, Err e)
          | (p, Panicked) \<Rightarrow> (u\<lparr>bv_prev := p\<rparr>, Panicked))) = (v', r)"
      using assms u conjunct1 [OF uf] x pull unfolding draining_def
      by (simp add: validator_next_batch_def Let_def cong: if_cong split del: if_split)
    consider "draining" | "\<not> draining" "\<exists>e. r = Err e \<and> e \<noteq> crit InvalidBatchType \<and> v' = u"
      | "\<not> draining" "2 \<le> length (bv_l1_blocks u)" "(case (p, d) of
            (p, Ok batch) \<Rightarrow> validate_batch P parent x batch (u\<lparr>bv_prev := p\<rparr>)
          | (p, Err e) \<Rightarrow> if e = temp Eof then try_derive_empty_batch parent (u\<lparr>bv_prev := p\<rparr>) else (u\<lparr>bv_prev := p\<rparr>, Err e)
          | (p, Panicked) \<Rightarrow> (u\<lparr>bv_prev := p\<rparr>, Panicked)) = (v', r)"
      using eq by (auto simp: not_less split: if_splits)
    then show thesis
    proof cases
      case 1
      with eq u uf x pull show thesis by (intro drain [of u p d]) (cases d; auto)+
    next
      case 2
      with u show thesis by (intro stop) auto
    next
      case 3
      with u x pull show thesis
        by (cases d) (auto split: if_splits intro: batch empty drain)
    qed
  qed
qed

text \<open>What a stage that provides batches for attributes promises: the pull leaves the origin alone.\<close>

locale attributes_stage = stable_pull P I "\<lambda>parent. ap_next_batch P parent"
  for P :: "'p attributes_provider" and I

context next_batch_stage
begin

lemma validator_next_batch_frame:
  assumes inv: "I (bv_prev v)" and result: "validator_next_batch P parent v = (v', r)"
  shows "I (bv_prev v') \<and> stg_origin P (bv_prev v') = stg_origin P (bv_prev v) \<and> bv_cfg v' = bv_cfg v"
proof -
  have p: "I p \<and> stg_origin P p = stg_origin P (bv_prev v)"
    if "nbp_next_batch P parent l1 (bv_prev v) = (p, d)" for l1 p d
    using pull_inv [OF inv, of "(parent, l1)"] pull_origin [OF inv, of "(parent, l1)"] that by simp
  from result show ?thesis
  proof (cases rule: validator_next_batch_cases)
    case (stop u e)
    with update_origins_frame [OF stop(1)] inv show ?thesis by simp
  next
    case (drain u p d)
    with update_origins_frame [OF drain(1)] p [OF drain(2)] show ?thesis by simp
  next
    case (empty u p stage_origin)
    with update_origins_frame [OF empty(1)] p [OF empty(4)] try_derive_empty_batch_frame [OF empty(5)]
    show ?thesis by simp
  next
    case (batch u p b stage_origin)
    then show ?thesis
      using p [OF batch(4)] validate_batch_frame [OF batch(5)] update_origins_frame [OF batch(1)]
      by (auto simp: flush_inv flush_origin)
  qed
qed

text \<open>Under Holocene the stage below hands out single batches only, so a span batch is not met.\<close>

lemma validator_batch_type:
  assumes "I (bv_prev v)" and "stg_origin P (bv_prev v) = Some x" and "is_holocene_active cfg (bi_timestamp x)"
    and result: "validator_next_batch P parent v = (v', r)"
    and prev: "\<And>l1. snd (nbp_next_batch P parent l1 (bv_prev v)) \<noteq> Err (crit InvalidBatchType)"
  shows "r \<noteq> Err (crit InvalidBatchType)"
  using result
proof (cases rule: validator_next_batch_cases)
  case (drain u p d)
  then show ?thesis using prev [of "bv_l1_blocks u"] by auto
next
  case (empty u p)
  then show ?thesis by (auto simp: try_derive_empty_batch_def Let_def ok_or_def split: if_splits option.splits)
next
  case (batch u p b stage_origin)
  obtain s where "b = batch.Single s"
    using singles [OF assms(1-3), of parent "bv_l1_blocks u" b] batch(4) by auto
  with batch(5) show ?thesis by (auto simp: validate_batch_def Let_def split: batch_validity.splits)
qed auto

end

sublocale next_batch_stage \<subseteq> bv: attributes_stage "batch_validator_ops P" "\<lambda>v. I (bv_prev v) \<and> bv_cfg v = cfg"
  by (rule attributes_stage.intro, rule stable_pull.intro, rule batch_validator_contract, rule stage_contract_axioms)
    (unfold_locales, simp_all add: batch_validator_ops_def validator_next_batch_frame [OF _ prod.collapse [symmetric]])

section \<open>Batches handed out\<close>

lemma check_batch_timestamp_next:
  "check_batch_timestamp b cfg safe incl = Accept \<Longrightarrow> sb_timestamp b = bi_timestamp (l2_info safe) + rc_block_time cfg"
  by (auto simp: check_batch_timestamp_def Let_def split: if_splits)

lemma single_check_batch_next:
  "single_check_batch b cfg l1 safe incl = Accept \<Longrightarrow>
    sb_timestamp b = bi_timestamp (l2_info safe) + rc_block_time cfg \<and> sb_parent_hash b = bi_hash (l2_info safe)"
  unfolding single_check_batch_steps by (blast dest: check_batch_timestamp_next)

text \<open>The empty batches that the validator makes up when the window has passed.\<close>

definition forced_empty :: "rollup_config \<Rightarrow> block_info list \<Rightarrow> block_info \<Rightarrow> l2_block_info \<Rightarrow> single_batch \<Rightarrow> bool" where
  "forced_empty cfg l1 stage_origin parent b \<longleftrightarrow> b = empty_batch cfg parent (l1 ! 0) \<and>
     bi_number (l1 ! 0) + rc_seq_window_size cfg \<le> bi_number stage_origin \<and>
     (sb_timestamp b < bi_timestamp (l1 ! 1) \<or> bi_number (l1 ! 0) = bnh_number (l2_l1_origin parent) + 1)"

lemma try_derive_empty_batch_Ok:
  assumes "try_derive_empty_batch parent v = (v', Ok b)"
  shows "v' = v \<and> 2 \<le> length (bv_l1_blocks v) \<and> (\<exists>x. bv_origin v = Some x \<and> forced_empty (bv_cfg v) (bv_l1_blocks v) x parent b)"
  using assms
  by (auto simp: try_derive_empty_batch_def forced_empty_def empty_batch_def Let_def ok_or_def split: if_splits option.splits)

lemma validate_batch_Ok:
  assumes "validate_batch P parent x b v = (v', Ok b')"
  shows "v' = v \<and> single_check_batch b' (bv_cfg v) (bv_l1_blocks v) parent x = Accept"
  using assms by (auto simp: validate_batch_def Let_def split: batch.splits batch_validity.splits)

lemma validator_next_batch_Ok:
  assumes "validator_next_batch P parent v = (v', Ok b)"
  obtains x where "stg_origin P (bv_prev v) = Some x" "2 \<le> length (bv_l1_blocks v')"
    "single_check_batch b (bv_cfg v) (bv_l1_blocks v') parent x = Accept \<or> forced_empty (bv_cfg v) (bv_l1_blocks v') x parent b"
  using assms
proof (cases rule: validator_next_batch_cases)
  case (empty u p stage_origin)
  with try_derive_empty_batch_Ok [OF empty(5)] update_origins_frame [OF empty(1)] show ?thesis by (auto intro: that)
next
  case (batch u p b' stage_origin)
  with validate_batch_Ok [OF batch(5)] update_origins_frame [OF batch(1)] show ?thesis by (intro that [of stage_origin]) auto
qed auto

lemma validator_next_batch_next:
  assumes "validator_next_batch P parent v = (v', Ok b)"
  shows "sb_timestamp b = bi_timestamp (l2_info parent) + rc_block_time (bv_cfg v) \<and> sb_parent_hash b = bi_hash (l2_info parent)"
  using assms by (rule validator_next_batch_Ok) (auto dest: single_check_batch_next simp: forced_empty_def empty_batch_def)

section \<open>After the sequencing window\<close>

text \<open>The stage below has no more data at its origin and stays so.\<close>

definition out_of_data :: "'p next_batch_provider \<Rightarrow> ('p \<Rightarrow> bool) \<Rightarrow> bool" where
  "out_of_data P D \<longleftrightarrow> (\<forall>p parent l1. D p \<longrightarrow>
     (\<exists>p'. nbp_next_batch P parent l1 p = (p', Err (temp Eof)) \<and> D p' \<and> stg_origin P p' = stg_origin P p))"

lemma validator_next_batch_dry:
  assumes "out_of_data P D" and "D (bv_prev v)" and "stg_origin P (bv_prev v) = Some x" and "bv_origin v = Some x"
    and "bv_l1_blocks v = a # b # l1"
    and "\<not> bi_number a < bnh_number (l2_l1_origin parent)" and "bnh_number (l2_l1_origin parent) < bi_number x"
    and "l2_l1_origin parent = block_id a \<or> bnh_number (l2_l1_origin parent) = bi_number a - 1"
  shows "\<exists>p. D p \<and> stg_origin P p = Some x \<and>
    validator_next_batch P parent v = try_derive_empty_batch parent (v\<lparr>bv_prev := p\<rparr>)"
proof -
  obtain p where p: "nbp_next_batch P parent (bv_l1_blocks v) (bv_prev v) = (p, Err (temp Eof))" "D p" "stg_origin P p = Some x"
    using assms(1-3) unfolding out_of_data_def by (metis (no_types, lifting))
  have "advance_epoch parent (bv_l1_blocks v) = bv_l1_blocks v" using assms(5,6) by (simp add: advance_epoch_def)
  then have "update_origins P parent v = (v, Ok ())" using assms(3,4) by (simp add: update_origins_def)
  moreover have "\<not> origin_behind (Some x) parent" "bnh_number (l2_l1_origin parent) \<noteq> bi_number x"
    using assms(7) by (auto simp: origin_behind_def)
  moreover have "\<not> length (bv_l1_blocks v) < 2" "bv_l1_blocks v ! 0 = a" using assms(5) by simp_all
  ultimately show ?thesis
    using p assms(3,4,8) by (intro exI [of _ p]) (auto simp: validator_next_batch_def)
qed

lemma try_derive_empty_batch_expired:
  assumes "bv_origin v = Some x" and "bv_l1_blocks v = a # b # l1"
    and "bi_number a + rc_seq_window_size (bv_cfg v) \<le> bi_number x"
  shows "try_derive_empty_batch parent v =
    (if bi_timestamp (l2_info parent) + rc_block_time (bv_cfg v) < bi_timestamp b \<or> bi_number a = bnh_number (l2_l1_origin parent) + 1
     then (v, Ok (empty_batch (bv_cfg v) parent a)) else (v\<lparr>bv_l1_blocks := b # l1\<rparr>, Err (temp Eof)))"
  using assms by (simp add: try_derive_empty_batch_def Let_def)

section \<open>Properties\<close>

text \<open>
  C18. Every batch that the validator hands out extends the parent by one block time and carries
  its hash. It has passed the check of single batches against the L1 blocks and the origin of the
  stage, or it is an empty batch for the current epoch and the sequencing window of that epoch has
  passed.
\<close>

theorem validator_batches_valid:
  assumes "validator_next_batch P parent v = (v', Ok b)"
  shows "\<exists>x. stg_origin P (bv_prev v) = Some x \<and> 2 \<le> length (bv_l1_blocks v') \<and>
    sb_timestamp b = bi_timestamp (l2_info parent) + rc_block_time (bv_cfg v) \<and> sb_parent_hash b = bi_hash (l2_info parent) \<and>
    (single_check_batch b (bv_cfg v) (bv_l1_blocks v') parent x = Accept \<or> forced_empty (bv_cfg v) (bv_l1_blocks v') x parent b)"
  using assms validator_next_batch_next [OF assms] by (auto elim: validator_next_batch_Ok)

definition example_validator :: "(batch list, unit) batch_stream batch_validator" where
  "example_validator = \<lparr>bv_cfg = example_config, bv_prev = batch_stream_new [batch.Single example_single_batch] example_config (),
     bv_origin = None, bv_l1_blocks = [example_origins ! 0]\<rparr>"

lemma example_validator_next:
  "\<exists>v'. validator_next_batch (batch_stream_ops example_fetcher (batch_source (example_origins ! 1))) example_head example_validator =
    (v', Ok example_single_batch)"
proof -
  let ?P = "batch_stream_ops example_fetcher (batch_source (example_origins ! 1))"
  let ?u = "example_validator\<lparr>bv_origin := Some (example_origins ! 1), bv_l1_blocks := example_origins\<rparr>"
  have "update_origins ?P example_head example_validator = (?u, Ok ())"
    by (simp add: update_origins_def example_validator_def batch_stream_ops_def batch_source_def batch_stream_new_def
        origin_behind_def advance_epoch_def example_batch_defs)
  moreover have "nbp_next_batch ?P example_head example_origins (bv_prev ?u) =
      (batch_stream_new [] example_config (), Ok (batch.Single example_single_batch))"
    by (simp add: example_validator_def batch_stream_ops_def stream_next_batch_def stream_is_active_eq load_batch_def
        batch_source_def batch_stream_new_def example_origins_def example_config_defs cfg_defs reached_def)
  moreover have "example_single_batch\<lparr>sb_parent_hash := bi_hash (l2_info example_head)\<rparr> = example_single_batch"
    by (simp add: example_batch_defs)
  moreover have "\<not> origin_behind (stg_origin ?P (bv_prev ?u)) example_head" "bnh_number (l2_l1_origin example_head) \<noteq> bi_number (example_origins ! 1)"
      "\<not> length example_origins < 2" "l2_l1_origin example_head = block_id (example_origins ! 0)"
    by (simp_all add: batch_stream_ops_def batch_source_def origin_behind_def example_batch_defs block_id_def)
  ultimately show ?thesis
    using example_single_accepted by (simp add: validator_next_batch_def validate_batch_def) (simp add: example_validator_def)
qed

theorem validator_batches_valid_witness:
  "\<exists>v' x. validator_next_batch (batch_stream_ops example_fetcher (batch_source (example_origins ! 1))) example_head example_validator =
      (v', Ok example_single_batch) \<and>
    (single_check_batch example_single_batch example_config (bv_l1_blocks v') example_head x = Accept \<or>
     forced_empty example_config (bv_l1_blocks v') x example_head example_single_batch)"
  using example_validator_next validator_batches_valid [of _ example_head example_validator _ example_single_batch]
  by (fastforce simp: example_validator_def)

text \<open>
  C19. When the sequencing window of the next epoch too has passed and the stages below have no
  more data, the validator hands out an empty batch on the parent within two pulls: for the current
  epoch while the next L1 block is later than the new block, and otherwise, after one pull that
  drops the current epoch, for the next epoch.
\<close>

theorem validator_forces_empty_batch:
  assumes "out_of_data P D" and "D (bv_prev v)" and "stg_origin P (bv_prev v) = Some x" and "bv_origin v = Some x"
    and "bv_l1_blocks v = e0 # e1 # e2 # l1" and "l2_l1_origin parent = block_id e0"
    and "unat (bi_number e1) = unat (bi_number e0) + 1"
    and "unat (bi_number e1) + unat (rc_seq_window_size (bv_cfg v)) \<le> unat (bi_number x)"
  shows "if bi_timestamp (l2_info parent) + rc_block_time (bv_cfg v) < bi_timestamp e1
    then snd (validator_next_batch P parent v) = Ok (empty_batch (bv_cfg v) parent e0)
    else \<exists>v1. validator_next_batch P parent v = (v1, Err (temp Eof)) \<and>
      snd (validator_next_batch P parent v1) = Ok (empty_batch (bv_cfg v) parent e1)"
proof -
  have "unat (bi_number x) < 2 ^ 64" using unsigned_less [of "bi_number x"] by simp
  then have sums: "unat (bi_number e1 + rc_seq_window_size (bv_cfg v)) = unat (bi_number e1) + unat (rc_seq_window_size (bv_cfg v))"
      "unat (bi_number e0 + rc_seq_window_size (bv_cfg v)) = unat (bi_number e0) + unat (rc_seq_window_size (bv_cfg v))"
      "unat (bi_number e0 + 1) = unat (bi_number e0) + 1"
    using assms(7,8) unat_plus_64 [of "bi_number e0" 1] by (auto simp: unat_plus_64)
  have e1: "bi_number e1 = bi_number e0 + 1" using assms(7) sums(3) by (simp add: word_unat_eq_iff)
  have expired: "bi_number e0 + rc_seq_window_size (bv_cfg v) \<le> bi_number x" "bi_number e1 + rc_seq_window_size (bv_cfg v) \<le> bi_number x"
    and less: "bi_number e0 < bi_number x" and ne: "bi_number e0 \<noteq> bi_number e0 + 1"
    using assms(7,8) sums by (simp_all add: word_le_nat_alt word_less_nat_alt)
  have parent: "bnh_number (l2_l1_origin parent) = bi_number e0" using assms(6) by (simp add: block_id_def)
  obtain p where p: "D p" "stg_origin P p = Some x"
      "validator_next_batch P parent v = try_derive_empty_batch parent (v\<lparr>bv_prev := p\<rparr>)"
    using validator_next_batch_dry [OF assms(1-5), of parent] parent less assms(6) by auto
  note first = p(3) try_derive_empty_batch_expired [of "v\<lparr>bv_prev := p\<rparr>" x e0 e1 "e2 # l1" parent]
  show ?thesis
  proof (cases "bi_timestamp (l2_info parent) + rc_block_time (bv_cfg v) < bi_timestamp e1")
    case True
    with first assms(4,5) expired show ?thesis by simp
  next
    case False
    let ?v = "v\<lparr>bv_prev := p, bv_l1_blocks := e1 # e2 # l1\<rparr>"
    have v: "validator_next_batch P parent v = (?v, Err (temp Eof))"
      using first False assms(4,5) expired parent ne by simp
    obtain p' where "validator_next_batch P parent ?v = try_derive_empty_batch parent (?v\<lparr>bv_prev := p'\<rparr>)"
      using validator_next_batch_dry [OF assms(1), of ?v x e1 e2 l1 parent] p assms(4) parent less e1 expired(2) sums
      by (auto simp: word_less_nat_alt)
    then show ?thesis
      using v False try_derive_empty_batch_expired [of "?v\<lparr>bv_prev := p'\<rparr>" x e1 e2 l1 parent] assms(4) expired(2) parent e1
      by simp
  qed
qed

definition window_blocks :: "block_info list" where
  "window_blocks = example_origins @ [\<lparr>bi_hash = 23, bi_number = 9, bi_parent_hash = 22, bi_timestamp = 74\<rparr>]"

lemma batch_source_out_of_data:
  "out_of_data (batch_stream_ops F (batch_source x)) (\<lambda>b. bs_prev b = [] \<and> bs_span b = None \<and> bs_buffer b = [])"
  unfolding out_of_data_def
  by (auto simp: batch_stream_ops_def stream_next_batch_def stream_is_active_eq load_batch_def batch_source_def)

theorem validator_forces_empty_batch_witness:
  "\<exists>v1. validator_next_batch (batch_stream_ops example_fetcher (batch_source (window_blocks ! 2))) example_head
      \<lparr>bv_cfg = example_config\<lparr>rc_seq_window_size := 1\<rparr>, bv_prev = batch_stream_new [] example_config (),
       bv_origin = Some (window_blocks ! 2), bv_l1_blocks = window_blocks\<rparr> = (v1, Err (temp Eof)) \<and>
    snd (validator_next_batch (batch_stream_ops example_fetcher (batch_source (window_blocks ! 2))) example_head v1) =
      Ok (empty_batch (example_config\<lparr>rc_seq_window_size := 1\<rparr>) example_head (window_blocks ! 1))"
  using validator_forces_empty_batch [OF batch_source_out_of_data [of example_fetcher "window_blocks ! 2"],
      of "\<lparr>bv_cfg = example_config\<lparr>rc_seq_window_size := 1\<rparr>, bv_prev = batch_stream_new [] example_config (),
        bv_origin = Some (window_blocks ! 2), bv_l1_blocks = window_blocks\<rparr>" "window_blocks ! 2" "window_blocks ! 0"
        "window_blocks ! 1" "window_blocks ! 2" "[]" example_head]
  by (simp add: batch_stream_new_def batch_stream_ops_def batch_source_def window_blocks_def example_batch_defs block_id_def
      example_config_defs)

end
