(* ===== verification/Batch_Queue.thy ===== *)
theory Batch_Queue
  imports Batch_Validator
begin

text \<open>
  The batch queue, \<^verbatim>\<open>crates/protocol/derive/src/stages/batch/batch_queue.rs\<close>, which orders batches
  before Holocene: it keeps the batches it has seen and hands out the first one that can be
  applied to the safe head, a span batch as its single batches, or an empty batch when the
  sequencing window has passed.

  Shown: the stage's contract; every batch handed out is the next block on the parent.
\<close>

section \<open>The stage\<close>

record ('p, 'f) batch_queue =
  bq_cfg :: rollup_config
  bq_prev :: 'p
  bq_origin :: "block_info option"
  bq_l1_blocks :: "block_info list"
  bq_batches :: "batch_with_inclusion_block list"
  bq_next_spans :: "single_batch list"
  bq_fetcher :: 'f

definition batch_queue_new :: "rollup_config \<Rightarrow> 'p \<Rightarrow> 'f \<Rightarrow> ('p, 'f) batch_queue" where
  "batch_queue_new cfg prev fetcher =
     \<lparr>bq_cfg = cfg, bq_prev = prev, bq_origin = None, bq_l1_blocks = [], bq_batches = [], bq_next_spans = [],
      bq_fetcher = fetcher\<rparr>"

definition pop_next_batch :: "l2_block_info \<Rightarrow> ('p, 'f) batch_queue \<Rightarrow> ('p, 'f) batch_queue \<times> single_batch pres" where
  "pop_next_batch parent q =
     (case bq_next_spans q of
        [] \<Rightarrow> (q, Panicked)
      | b # bs \<Rightarrow> (q\<lparr>bq_next_spans := bs\<rparr>, Ok (b\<lparr>sb_parent_hash := bi_hash (l2_info parent)\<rparr>)))"

definition queue_flush_prev :: "'p next_batch_provider \<Rightarrow> ('p, 'f) batch_queue \<Rightarrow> ('p, 'f) batch_queue" where
  "queue_flush_prev P q = q\<lparr>bq_prev := nbp_flush P (bq_prev q)\<rparr>"

lemma queue_flush_prev_batches [simp]: "bq_batches (queue_flush_prev P q) = bq_batches q"
  by (simp add: queue_flush_prev_def)

text \<open>The loop over the batches; \<open>remaining\<close> is what is kept of those before.\<close>

fun search_batches ::
    "'f batch_validation_provider \<Rightarrow> 'p next_batch_provider \<Rightarrow> block_info \<Rightarrow> l2_block_info \<Rightarrow>
     batch_with_inclusion_block list \<Rightarrow> batch_with_inclusion_block list \<Rightarrow> ('p, 'f) batch_queue \<Rightarrow>
     ('p, 'f) batch_queue \<times> batch_with_inclusion_block option pres" where
  "search_batches F P origin parent remaining [] q = (q\<lparr>bq_batches := remaining\<rparr>, Ok None)"
| "search_batches F P origin parent remaining (b # bs) q =
     (case inclusion_check_batch F b (bq_cfg q) (bq_l1_blocks q) parent (bq_fetcher q) of
        (f, None) \<Rightarrow> (q\<lparr>bq_fetcher := f\<rparr>, Panicked)
      | (f, Some validity) \<Rightarrow>
          let q = q\<lparr>bq_fetcher := f\<rparr>; holocene = is_holocene_active (bq_cfg q) (bi_timestamp origin) in
          (case validity of
             Future \<Rightarrow>
               if \<not> holocene then search_batches F P origin parent (remaining @ [b]) bs q
               else search_batches F P origin parent remaining bs (queue_flush_prev P q)
           | Drop \<Rightarrow> search_batches F P origin parent remaining bs (queue_flush_prev P q)
           | Accept \<Rightarrow> (q\<lparr>bq_batches := remaining @ bs\<rparr>, Ok (Some b))
           | Undecided \<Rightarrow> (q\<lparr>bq_batches := remaining @ b # bs\<rparr>, Err (temp Eof))
           | Past \<Rightarrow>
               if \<not> holocene then (q, Err (crit InvalidBatchValidity))
               else search_batches F P origin parent remaining bs q))"

text \<open>The end of \<^verbatim>\<open>derive_next_batch\<close>: empty batches after the sequencing window.\<close>

definition force_empty_batch ::
    "bool \<Rightarrow> block_info \<Rightarrow> block_info \<Rightarrow> l2_block_info \<Rightarrow> ('p, 'f) batch_queue \<Rightarrow> ('p, 'f) batch_queue \<times> batch pres" where
  "force_empty_batch none_left epoch origin parent q =
     (let expiry_epoch = bi_number epoch + rc_seq_window_size (bq_cfg q);
          force_empty_batches = (expiry_epoch = bi_number origin \<and> none_left \<or> expiry_epoch < bi_number origin);
          first_of_epoch = (bi_number epoch = bnh_number (l2_l1_origin parent) + 1);
          next_timestamp = bi_timestamp (l2_info parent) + rc_block_time (bq_cfg q) in
      if \<not> force_empty_batches then (q, Err (temp Eof))
      else if length (bq_l1_blocks q) < 2 then (q, Err (temp Eof))
      else if next_timestamp < bi_timestamp (bq_l1_blocks q ! 1) \<or> first_of_epoch
      then (q, Ok (batch.Single (empty_batch (bq_cfg q) parent epoch)))
      else (q\<lparr>bq_l1_blocks := tl (bq_l1_blocks q)\<rparr>, Err (temp Eof)))"

definition derive_next_batch ::
    "'f batch_validation_provider \<Rightarrow> 'p next_batch_provider \<Rightarrow> bool \<Rightarrow> l2_block_info \<Rightarrow> ('p, 'f) batch_queue \<Rightarrow>
     ('p, 'f) batch_queue \<times> batch pres" where
  "derive_next_batch F P none_left parent q =
     (if bq_l1_blocks q = [] then (q, Err (crit MissingOrigin))
      else let epoch = bq_l1_blocks q ! 0 in
        if l2_l1_origin parent \<noteq> block_id epoch \<and> bnh_number (l2_l1_origin parent) \<noteq> bi_number epoch - 1
        then (q, Err (pipeline_error_kind.Reset (L1OriginMismatch (bnh_number (l2_l1_origin parent)) (bi_number epoch - 1))))
        else
          pbind (ok_or q (bq_origin q) (crit MissingOrigin)) (\<lambda>q origin.
          pbind (search_batches F P origin parent [] (bq_batches q) q) (\<lambda>q next_batch.
            case next_batch of
              Some nb \<Rightarrow> (q, Ok (bw_batch nb))
            | None \<Rightarrow> force_empty_batch none_left epoch origin parent q)))"

definition add_batch ::
    "'f batch_validation_provider \<Rightarrow> 'p next_batch_provider \<Rightarrow> batch \<Rightarrow> l2_block_info \<Rightarrow> ('p, 'f) batch_queue \<Rightarrow>
     ('p, 'f) batch_queue \<times> unit pres" where
  "add_batch F P batch parent q =
     (if bq_l1_blocks q = [] then (q, Panicked)
      else
        pbind (ok_or q (bq_origin q) (crit MissingOrigin)) (\<lambda>q origin.
          let data = \<lparr>bw_inclusion_block = origin, bw_batch = batch\<rparr> in
          (case inclusion_check_batch F data (bq_cfg q) (bq_l1_blocks q) parent (bq_fetcher q) of
             (f, None) \<Rightarrow> (q\<lparr>bq_fetcher := f\<rparr>, Panicked)
           | (f, Some validity) \<Rightarrow>
               let q = q\<lparr>bq_fetcher := f\<rparr> in
               if is_drop validity \<or> is_holocene_active (bq_cfg q) (bi_timestamp origin) \<and> is_future validity
               then (queue_flush_prev P q, Ok ())
               else if is_outdated validity then (q, Ok ())
               else (q\<lparr>bq_batches := bq_batches q @ [data]\<rparr>, Ok ()))))"

text \<open>\<^verbatim>\<open>next_batch\<close> when there is no cached single batch for the parent.  First the L1 blocks and the origin.\<close>

definition queue_update_origins ::
    "('p, 'z) stage_scheme \<Rightarrow> l2_block_info \<Rightarrow> ('p, 'f) batch_queue \<Rightarrow> ('p, 'f) batch_queue \<times> unit pres" where
  "queue_update_origins P parent q =
     (let q = q\<lparr>bq_l1_blocks := advance_epoch parent (bq_l1_blocks q)\<rparr>;
          behind = origin_behind (stg_origin P (bq_prev q)) parent in
      if bq_origin q \<noteq> stg_origin P (bq_prev q) then
        let q = q\<lparr>bq_origin := stg_origin P (bq_prev q)\<rparr> in
        if \<not> behind then
          pbind (ok_or q (bq_origin q) (crit MissingOrigin)) (\<lambda>q origin.
            (q\<lparr>bq_l1_blocks := bq_l1_blocks q @ [origin]\<rparr>, Ok ()))
        else (q\<lparr>bq_l1_blocks := []\<rparr>, Ok ())
      else (q, Ok ()))"

text \<open>Then one more batch is loaded; the result tells whether the previous stage is out of data.\<close>

definition load_queue ::
    "'f batch_validation_provider \<Rightarrow> 'p next_batch_provider \<Rightarrow> l2_block_info \<Rightarrow> bool \<Rightarrow> ('p, 'f) batch_queue \<Rightarrow>
     ('p, 'f) batch_queue \<times> bool pres" where
  "load_queue F P parent behind q =
     (case nbp_next_batch P parent (bq_l1_blocks q) (bq_prev q) of
        (p, Ok b) \<Rightarrow>
          let q = q\<lparr>bq_prev := p\<rparr> in
          if \<not> behind then
            (case add_batch F P b parent q of
               (q, Panicked) \<Rightarrow> (q, Panicked)
             | (q, _) \<Rightarrow> (q, Ok False))
          else (q, Ok False)
      | (p, Err e) \<Rightarrow> (q\<lparr>bq_prev := p\<rparr>, if e = temp Eof then Ok True else Err e)
      | (p, Panicked) \<Rightarrow> (q\<lparr>bq_prev := p\<rparr>, Panicked))"

text \<open>Last, a derived batch is handed out; a span batch is taken apart.\<close>

definition unpack_batch ::
    "l2_block_info \<Rightarrow> batch \<Rightarrow> ('p, 'f) batch_queue \<Rightarrow> ('p, 'f) batch_queue \<times> single_batch pres" where
  "unpack_batch parent batch q =
     (case batch of
        batch.Single sb \<Rightarrow> (q, Ok sb)
      | batch.Span sb \<Rightarrow>
          (case get_singular_batches sb (bq_l1_blocks q) parent of
             Good batches \<Rightarrow> pop_next_batch parent (q\<lparr>bq_next_spans := batches\<rparr>)
           | Bad e \<Rightarrow> (q, Err (crit (BadEncoding (pipeline_encoding_error.SpanBatchError e))))
           | Panic \<Rightarrow> (q, Panicked)))"

definition queue_find_batch ::
    "'f batch_validation_provider \<Rightarrow> 'p next_batch_provider \<Rightarrow> l2_block_info \<Rightarrow> ('p, 'f) batch_queue \<Rightarrow>
     ('p, 'f) batch_queue \<times> single_batch pres" where
  "queue_find_batch F P parent q =
     pbind (queue_update_origins P parent q) (\<lambda>q _.
       let behind = origin_behind (stg_origin P (bq_prev q)) parent in
       pbind (load_queue F P parent behind q) (\<lambda>q out_of_data.
         if behind then (q, Err (temp (if out_of_data then Eof else NotEnoughData)))
         else
           (case derive_next_batch F P out_of_data parent q of
              (q, Ok batch) \<Rightarrow> unpack_batch parent batch q
            | (q, Err e) \<Rightarrow>
                (q, Err (if e = temp Eof then temp (if out_of_data then Eof else NotEnoughData) else e))
            | (q, Panicked) \<Rightarrow> (q, Panicked))))"

definition queue_next_batch ::
    "'f batch_validation_provider \<Rightarrow> 'p next_batch_provider \<Rightarrow> l2_block_info \<Rightarrow> ('p, 'f) batch_queue \<Rightarrow>
     ('p, 'f) batch_queue \<times> single_batch pres" where
  "queue_next_batch F P parent q =
     (case bq_next_spans q of
        [] \<Rightarrow> queue_find_batch F P parent q
      | s # _ \<Rightarrow>
          if sb_timestamp s = bi_timestamp (l2_info parent) + rc_block_time (bq_cfg q)
          then pop_next_batch parent q
          else queue_find_batch F P parent (q\<lparr>bq_next_spans := []\<rparr>))"

definition queue_signal ::
    "('p, 'z) stage_scheme \<Rightarrow> ('p, 'f) batch_queue \<Rightarrow> signal \<Rightarrow> ('p, 'f) batch_queue \<times> unit pres" where
  "queue_signal P q sig =
     pbind (via (\<lambda>p. q\<lparr>bq_prev := p\<rparr>) (stg_signal P (bq_prev q) sig)) (\<lambda>q _.
       case sig of
         signal.Reset r \<Rightarrow>
           (q\<lparr>bq_origin := Some (rs_l1_origin r), bq_batches := [], bq_l1_blocks := [rs_l1_origin r],
              bq_next_spans := []\<rparr>, Ok ())
       | Activation _ \<Rightarrow> (q\<lparr>bq_batches := [], bq_next_spans := []\<rparr>, Ok ())
       | FlushChannel \<Rightarrow> (q\<lparr>bq_batches := [], bq_next_spans := []\<rparr>, Ok ())
       | ProvideBlock _ \<Rightarrow> (q, Ok ()))"

definition batch_queue_ops ::
    "'f batch_validation_provider \<Rightarrow> 'p next_batch_provider \<Rightarrow> ('p, 'f) batch_queue attributes_provider" where
  "batch_queue_ops F P =
     \<lparr>stg_origin = (\<lambda>q. stg_origin P (bq_prev q)),
      stg_advance_origin = (\<lambda>q. via (\<lambda>p. q\<lparr>bq_prev := p\<rparr>) (stg_advance_origin P (bq_prev q))),
      stg_signal = queue_signal P,
      ap_next_batch = queue_next_batch F P,
      ap_is_last_in_span = (\<lambda>q. bq_next_spans q = [])\<rparr>"

section \<open>The stage's contract\<close>

lemma queue_signal_prev:
  "bq_prev (fst (queue_signal P q s)) = fst (stg_signal P (bq_prev q) s)"
  "snd (stg_signal P (bq_prev q) s) = Ok () \<Longrightarrow> snd (queue_signal P q s) = Ok ()"
  "bq_cfg (fst (queue_signal P q s)) = bq_cfg q"
  by (cases "stg_signal P (bq_prev q) s"; cases "snd (stg_signal P (bq_prev q) s)";
      simp add: queue_signal_def split: signal.splits)+

lemma batch_queue_contract:
  "stage_contract P I \<Longrightarrow> stage_contract (batch_queue_ops F P) (\<lambda>q. I (bq_prev q) \<and> bq_cfg q = cfg)"
  by (erule stage_contract_lift [where prev = bq_prev])
    (simp_all add: batch_queue_ops_def via_def queue_signal_prev)

text \<open>What the parts of \<^verbatim>\<open>next_batch\<close> leave alone.\<close>

lemma queue_update_origins_frame:
  assumes "queue_update_origins P parent q = (q', r)"
  shows "bq_prev q' = bq_prev q \<and> bq_cfg q' = bq_cfg q \<and> bq_origin q' = stg_origin P (bq_prev q) \<and>
    bq_batches q' = bq_batches q \<and> bq_next_spans q' = bq_next_spans q"
  using assms by (auto simp: queue_update_origins_def Let_def ok_or_def split: if_splits option.splits)

lemma force_empty_batch_frame:
  assumes "force_empty_batch none_left epoch x parent q = (q', r)"
  shows "bq_prev q' = bq_prev q \<and> bq_cfg q' = bq_cfg q \<and> r \<noteq> Panicked"
  using assms by (auto simp: force_empty_batch_def Let_def split: if_splits)

lemma unpack_batch_frame:
  assumes "unpack_batch parent b q = (q', r)"
  shows "bq_prev q' = bq_prev q \<and> bq_cfg q' = bq_cfg q"
  using assms by (auto simp: unpack_batch_def pop_next_batch_def split: batch.splits outcome.splits list.splits)

context next_batch_stage
begin

abbreviation same_below :: "('p, 'f) batch_queue \<Rightarrow> ('p, 'f) batch_queue \<Rightarrow> bool" where
  "same_below q q' \<equiv> I (bq_prev q') \<and> stg_origin P (bq_prev q') = stg_origin P (bq_prev q) \<and> bq_cfg q' = bq_cfg q"

lemma search_batches_frame:
  assumes "I (bq_prev q)" and "search_batches F P x parent remaining bs q = (q', r)"
  shows "same_below q q'"
  using assms
proof (induction bs arbitrary: q remaining)
  case (Cons b bs)
  obtain f v where check: "inclusion_check_batch F b (bq_cfg q) (bq_l1_blocks q) parent (bq_fetcher q) = (f, v)" by fastforce
  let ?q = "q\<lparr>bq_fetcher := f\<rparr>"
  show ?case
  proof (cases v)
    case (Some validity)
    have "same_below ?q q'" if "search_batches F P x parent rem bs ?q = (q', r)" for rem
      using Cons.IH [OF _ that] Cons.prems(1) by simp
    moreover have "same_below ?q q'" if "search_batches F P x parent rem bs (queue_flush_prev P ?q) = (q', r)" for rem
      using Cons.IH [OF _ that] Cons.prems(1) by (simp add: queue_flush_prev_def flush_inv flush_origin)
    ultimately show ?thesis
      using Cons.prems check Some by (cases validity) (auto simp: Let_def split: if_splits)
  qed (use Cons.prems check in auto)
qed auto

lemma add_batch_frame:
  assumes "I (bq_prev q)" and "add_batch F P b parent q = (q', r)"
  shows "same_below q q'"
  using assms
  by (auto simp: add_batch_def queue_flush_prev_def ok_or_def flush_inv flush_origin Let_def
      split: if_splits option.splits prod.splits)

lemma load_queue_frame:
  assumes "I (bq_prev q)" and "load_queue F P parent behind q = (q', r)"
  shows "same_below q q'"
proof -
  obtain p d where pull: "nbp_next_batch P parent (bq_l1_blocks q) (bq_prev q) = (p, d)" by fastforce
  then have p: "I p" "stg_origin P p = stg_origin P (bq_prev q)"
    using pull_inv [OF assms(1), of "(parent, bq_l1_blocks q)"] pull_origin [OF assms(1), of "(parent, bq_l1_blocks q)"] by simp_all
  show ?thesis
  proof (cases d)
    case (Ok b)
    obtain q1 r1 where add: "add_batch F P b parent (q\<lparr>bq_prev := p\<rparr>) = (q1, r1)" by fastforce
    with add_batch_frame [OF _ add] assms(2) pull p Ok show ?thesis
      by (cases r1) (auto simp: load_queue_def Let_def split: if_splits)
  qed (use assms(2) pull p in \<open>auto simp: load_queue_def\<close>)
qed

lemma derive_next_batch_frame:
  assumes "I (bq_prev q)" and "derive_next_batch F P none_left parent q = (q', r)"
  shows "same_below q q'"
proof (cases "bq_origin q")
  case (Some x)
  obtain q1 r1 where search: "search_batches F P x parent [] (bq_batches q) q = (q1, r1)" by fastforce
  note frame = search_batches_frame [OF assms(1) search]
  show ?thesis
  proof (cases "r1 = Ok None")
    case True
    obtain q2 r2 where force: "force_empty_batch none_left (bq_l1_blocks q ! 0) x parent q1 = (q2, r2)" by fastforce
    with force_empty_batch_frame [OF force] assms search frame Some True show ?thesis
      by (auto simp: derive_next_batch_def Let_def split: if_splits)
  next
    case False
    with assms search frame Some show ?thesis
      by (cases r1) (auto simp: derive_next_batch_def Let_def split: if_splits option.splits)
  qed
qed (use assms in \<open>auto simp: derive_next_batch_def Let_def split: if_splits\<close>)

lemma queue_find_batch_frame:
  assumes "I (bq_prev q)" and "queue_find_batch F P parent q = (q', r)"
  shows "same_below q q'"
proof -
  obtain q1 r1 where update: "queue_update_origins P parent q = (q1, r1)" by fastforce
  have q1: "same_below q q1" using queue_update_origins_frame [OF update] assms(1) by simp
  let ?behind = "origin_behind (stg_origin P (bq_prev q1)) parent"
  obtain q2 r2 where load: "load_queue F P parent ?behind q1 = (q2, r2)" by fastforce
  have q2: "same_below q q2" using load_queue_frame [OF _ load] q1 by simp
  show ?thesis
  proof (cases r1)
    case (Ok u)
    show ?thesis
    proof (cases r2)
      case (Ok out)
      obtain q3 r3 where derive: "derive_next_batch F P out parent q2 = (q3, r3)" by fastforce
      have q3: "same_below q q3" using derive_next_batch_frame [OF _ derive] q2 by simp
      show ?thesis
      proof (cases r3)
        case (Ok b)
        obtain q4 r4 where unpack: "unpack_batch parent b q3 = (q4, r4)" by fastforce
        show ?thesis
          using unpack_batch_frame [OF unpack] assms(2) update load derive unpack q2 q3 Ok \<open>r1 = Ok u\<close> \<open>r2 = Ok out\<close>
          by (auto simp: queue_find_batch_def Let_def split: if_splits)
      qed (use assms(2) update load derive q2 q3 \<open>r1 = Ok u\<close> Ok in \<open>auto simp: queue_find_batch_def Let_def split: if_splits\<close>)
    qed (use assms(2) update load q2 Ok in \<open>auto simp: queue_find_batch_def Let_def\<close>)
  qed (use assms(2) update q1 in \<open>auto simp: queue_find_batch_def\<close>)
qed

lemma queue_next_batch_frame:
  assumes "I (bq_prev q)" and "queue_next_batch F P parent q = (q', r)"
  shows "same_below q q'"
  using assms queue_find_batch_frame [of q F parent q' r] queue_find_batch_frame [of "q\<lparr>bq_next_spans := []\<rparr>" F parent q' r]
  by (auto simp: queue_next_batch_def pop_next_batch_def split: list.splits if_splits)

end

sublocale next_batch_stage \<subseteq> bq: attributes_stage "batch_queue_ops F P" "\<lambda>q. I (bq_prev q) \<and> bq_cfg q = cfg"
  for F :: "'f batch_validation_provider"
  by (rule attributes_stage.intro, rule stable_pull.intro, rule batch_queue_contract, rule stage_contract_axioms)
    (unfold_locales, simp_all add: batch_queue_ops_def queue_next_batch_frame [OF _ prod.collapse [symmetric]])

text \<open>The same for the invariant of a stage whose batches come from a channel.\<close>

context batches_from
begin

lemma search_batches_keeps:
  assumes "J (bq_prev q)"
  shows "J (bq_prev (fst (search_batches F P x parent remaining bs q)))"
  using assms
proof (induction bs arbitrary: q remaining)
  case (Cons b bs)
  obtain f v where check: "inclusion_check_batch F b (bq_cfg q) (bq_l1_blocks q) parent (bq_fetcher q) = (f, v)" by fastforce
  let ?q = "q\<lparr>bq_fetcher := f\<rparr>"
  have IH: "J (bq_prev (fst (search_batches F P x parent rem bs ?q)))"
    "J (bq_prev (fst (search_batches F P x parent rem bs (queue_flush_prev P ?q))))" for rem
    using Cons.IH [of ?q] Cons.IH [of "queue_flush_prev P ?q"] Cons.prems
    by (simp_all add: queue_flush_prev_def flush_keeps)
  show ?case
  proof (cases v)
    case (Some validity)
    with check Cons.prems IH show ?thesis by (cases validity) (simp_all add: Let_def)
  qed (use check Cons.prems in simp)
qed simp

lemma add_batch_keeps: "J (bq_prev q) \<Longrightarrow> J (bq_prev (fst (add_batch F P b parent q)))"
  by (auto simp: add_batch_def queue_flush_prev_def ok_or_def Let_def flush_keeps split: option.splits prod.splits)

lemma load_queue_keeps:
  assumes "J (bq_prev q)"
  shows "J (bq_prev (fst (load_queue F P parent behind q)))"
proof -
  obtain p d where pull: "nbp_next_batch P parent (bq_l1_blocks q) (bq_prev q) = (p, d)" by fastforce
  then have p: "J p" using pull_keeps [OF assms, of parent "bq_l1_blocks q"] by simp
  show ?thesis
  proof (cases d)
    case (Ok b)
    obtain q1 r1 where add: "add_batch F P b parent (q\<lparr>bq_prev := p\<rparr>) = (q1, r1)" by fastforce
    then have "J (bq_prev q1)" using add_batch_keeps [of "q\<lparr>bq_prev := p\<rparr>" F b parent] p by simp
    with pull p Ok add show ?thesis by (cases r1) (simp_all add: load_queue_def Let_def)
  qed (use pull p in \<open>simp_all add: load_queue_def\<close>)
qed

lemma derive_next_batch_keeps:
  assumes "J (bq_prev q)"
  shows "J (bq_prev (fst (derive_next_batch F P none_left parent q)))"
proof (cases "bq_origin q")
  case (Some x)
  obtain q1 r1 where search: "search_batches F P x parent [] (bq_batches q) q = (q1, r1)" by fastforce
  then have q1: "J (bq_prev q1)" using search_batches_keeps [OF assms, of F x parent "[]" "bq_batches q"] by simp
  have "bq_prev (fst (force_empty_batch none_left e x parent q1)) = bq_prev q1" for e
    using force_empty_batch_frame [of none_left e x parent q1] prod.collapse by metis
  with search q1 Some assms show ?thesis
    by (cases r1) (auto simp: derive_next_batch_def Let_def split: option.splits)
qed (use assms in \<open>simp add: derive_next_batch_def Let_def\<close>)

lemma queue_find_batch_keeps:
  assumes "J (bq_prev q)"
  shows "J (bq_prev (fst (queue_find_batch F P parent q)))"
proof -
  obtain q1 r1 where update: "queue_update_origins P parent q = (q1, r1)" by fastforce
  have q1: "J (bq_prev q1)" using queue_update_origins_frame [OF update] assms by simp
  let ?behind = "origin_behind (stg_origin P (bq_prev q1)) parent"
  obtain q2 r2 where load: "load_queue F P parent ?behind q1 = (q2, r2)" by fastforce
  have q2: "J (bq_prev q2)" using load_queue_keeps [OF q1, of F parent ?behind] load by simp
  have derive: "J (bq_prev (fst (case derive_next_batch F P out parent q2 of
      (q, Ok batch) \<Rightarrow> unpack_batch parent batch q
    | (q, Err e) \<Rightarrow> (q, Err (if e = temp Eof then temp (if out then Eof else NotEnoughData) else e))
    | (q, Panicked) \<Rightarrow> (q, Panicked))))" for out
  proof -
    obtain q3 r3 where d: "derive_next_batch F P out parent q2 = (q3, r3)" by fastforce
    then have "J (bq_prev q3)" using derive_next_batch_keeps [OF q2, of F out parent] by simp
    moreover have "bq_prev (fst (unpack_batch parent b q3)) = bq_prev q3" for b
      using unpack_batch_frame [of parent b q3] prod.collapse by metis
    ultimately show ?thesis using d by (cases r3) simp_all
  qed
  show ?thesis
  proof (cases r1)
    case (Ok u)
    with update load q2 derive show ?thesis by (cases r2) (auto simp: queue_find_batch_def Let_def)
  qed (use update q1 in \<open>simp_all add: queue_find_batch_def\<close>)
qed

lemma queue_next_batch_keeps:
  "J (bq_prev q) \<Longrightarrow> J (bq_prev (fst (queue_next_batch F P parent q)))"
  using queue_find_batch_keeps [of q] queue_find_batch_keeps [of "q\<lparr>bq_next_spans := []\<rparr>"]
  by (auto simp: queue_next_batch_def pop_next_batch_def split: list.splits)

end

section \<open>The first single batch of an accepted span batch\<close>

lemma singular_loop_timestamps:
  "singular_loop l1 t k es = Good xs \<Longrightarrow> map sb_timestamp xs = filter (\<lambda>u. t < u) (map el_timestamp es)"
proof (induction es arbitrary: k xs)
  case (Cons e es)
  then show ?case
    by (auto simp: not_le obind_eq_Good split: if_splits option.splits)
qed simp

lemma check_batch_prefix_times:
  assumes "check_batch_prefix F s cfg l1 head incl f = (f', Some (Accept, q))"
  shows "sp_batches s \<noteq> [] \<and> starting_timestamp s \<le> bi_timestamp (l2_info head) + rc_block_time cfg \<and>
    bi_timestamp (l2_info head) + rc_block_time cfg \<le> final_timestamp s \<and>
    (starting_timestamp s = bi_timestamp (l2_info head) + rc_block_time cfg \<or>
     starting_timestamp s \<le> bi_timestamp (l2_info head) \<and>
     unat (rc_block_time cfg) dvd unat (bi_timestamp (l2_info head) - starting_timestamp s))"
  using assms by (auto simp: check_batch_prefix_def Let_def not_less split: if_splits prod.splits sum.splits)

lemma unat_evenly_spaced:
  assumes "unat t0 + i * unat d < 2 ^ 64"
  shows "unat (t0 + d * word_of_nat i :: u64) = unat t0 + i * unat d"
proof -
  have "t0 + d * word_of_nat i = word_of_nat (unat t0 + i * unat d)" by simp
  also have "unat \<dots> = unat t0 + i * unat d" using assms by (simp only: unat_of_nat) simp
  finally show ?thesis .
qed

text \<open>
  The block times up to the next block do not wrap around, and the last one is not before it; so the
  next block is among those of the batch, and the first after the head.
\<close>

lemma evenly_spaced_first:
  fixes ts :: "u64 list"
  assumes ts: "\<And>i. i < length ts \<Longrightarrow> ts ! i = t0 + d * word_of_nat i" and d: "0 < d" and "ts \<noteq> []"
    and start: "t0 = now + d \<or> t0 \<le> now \<and> unat d dvd unat (now - t0)" and last: "now + d \<le> last ts"
    and now: "unat now + unat d < 2 ^ 64"
  shows "\<exists>us. filter (\<lambda>u. now < u) ts = (now + d) # us"
proof -
  have sum: "unat (now + d) = unat now + unat d" using now by (rule unat_plus_64)
  have d': "0 < unat d" using d by (simp add: word_less_nat_alt)
  obtain k where k: "unat t0 + k * unat d = unat now + unat d"
  proof (cases "t0 = now + d")
    case False
    with start have "unat t0 \<le> unat now" "unat d dvd unat now - unat t0"
      by (auto simp: unat_sub word_le_nat_alt)
    then obtain m where "unat now - unat t0 = unat d * m" "unat t0 \<le> unat now" by (blast elim: dvdE)
    then show thesis by (intro that [of "Suc m"]) (simp add: mult.commute)
  qed (use sum that [of 0] in simp)
  have val: "unat (ts ! i) = unat t0 + i * unat d" if "i < length ts" "i \<le> k" for i
  proof -
    have "i * unat d \<le> k * unat d" using that(2) by (rule mult_le_mono1)
    with k now have "unat t0 + i * unat d < 2 ^ 64" by linarith
    then show ?thesis using unat_evenly_spaced ts [OF that(1)] by simp
  qed
  have len: "k < length ts"
  proof (rule ccontr)
    assume "\<not> k < length ts"
    then have "length ts - 1 < k" using assms(3) by (cases ts) auto
    then have "(length ts - 1) * unat d < k * unat d" using d' by simp
    moreover have "unat (last ts) = unat t0 + (length ts - 1) * unat d"
      using val [of "length ts - 1"] assms(3) \<open>length ts - 1 < k\<close> by (simp add: last_conv_nth)
    moreover have "unat now + unat d \<le> unat (last ts)" using last sum by (simp add: word_le_nat_alt)
    ultimately show False using k by linarith
  qed
  have "filter (\<lambda>u. now < u) (take k ts) = []"
  proof (rule filter_False, rule ballI)
    fix u assume "u \<in> set (take k ts)"
    then obtain i where i: "i < k" "u = ts ! i" using len by (auto simp: in_set_conv_nth)
    then have "Suc i * unat d \<le> k * unat d" by (intro mult_le_mono1) simp
    with i k val [of i] len show "\<not> now < u" by (simp add: word_less_nat_alt)
  qed
  moreover have "ts ! k = now + d" using val [OF len] k sum by (simp add: word_unat_eq_iff)
  then have "ts = take k ts @ (now + d) # drop (Suc k) ts" using id_take_nth_drop [OF len] by simp
  moreover have "now < now + d" using sum d' by (simp add: word_less_nat_alt)
  ultimately show ?thesis by (metis (no_types, lifting) append_Nil filter.simps(2) filter_append)
qed

lemma span_first_single:
  assumes "check_batch_prefix F s cfg l1 head incl f = (f', Some (Accept, q))"
    and "span_spaced (rc_block_time cfg) s" and "0 < rc_block_time cfg"
    and "unat (bi_timestamp (l2_info head)) + unat (rc_block_time cfg) < 2 ^ 64"
    and "get_singular_batches s l1' head = Good xs"
  obtains y ys where "xs = y # ys" "sb_timestamp y = bi_timestamp (l2_info head) + rc_block_time cfg"
proof -
  let ?now = "bi_timestamp (l2_info head)" and ?d = "rc_block_time cfg"
  let ?ts = "map el_timestamp (sp_batches s)"
  note times = check_batch_prefix_times [OF assms(1)]
  obtain t0 where t0: "\<And>i. i < length (sp_batches s) \<Longrightarrow> el_timestamp (sp_batches s ! i) = t0 + ?d * word_of_nat i"
    using assms(2) by (auto simp: span_spaced_def)
  have start: "starting_timestamp s = t0" using t0 [of 0] times by (simp add: starting_timestamp_def)
  have "\<exists>us. filter (\<lambda>u. ?now < u) ?ts = (?now + ?d) # us"
  proof (rule evenly_spaced_first [OF _ assms(3) _ _ _ assms(4)])
    show "?ts ! i = t0 + ?d * word_of_nat i" if "i < length ?ts" for i using t0 that by simp
    show "?ts \<noteq> []" using times by simp
    show "t0 = ?now + ?d \<or> t0 \<le> ?now \<and> unat ?d dvd unat (?now - t0)" using times start by auto
    show "?now + ?d \<le> last ?ts" using times by (auto simp: final_timestamp_def last_map last_conv_nth)
  qed
  moreover have "map sb_timestamp xs = filter (\<lambda>u. ?now < u) ?ts"
    using singular_loop_timestamps [of l1' ?now 0 "sp_batches s" xs] assms(5)
    by (simp add: get_singular_batches_def)
  ultimately obtain us where "map sb_timestamp xs = (?now + ?d) # us" by auto
  then show thesis by (cases xs) (auto intro!: that)
qed

section \<open>Batches handed out\<close>

definition accepted_batch :: "'f batch_validation_provider \<Rightarrow> rollup_config \<Rightarrow> block_info list \<Rightarrow> l2_block_info \<Rightarrow> batch \<Rightarrow> bool" where
  "accepted_batch F cfg l1 parent b \<longleftrightarrow> (\<exists>x f. snd (inclusion_check_batch F \<lparr>bw_inclusion_block = x, bw_batch = b\<rparr> cfg l1 parent f) = Some Accept)"

lemma search_batches_found:
  assumes "search_batches F P x parent remaining bs q = (q', Ok (Some b))"
  shows "b \<in> set bs \<and> accepted_batch F (bq_cfg q) (bq_l1_blocks q) parent (bw_batch b) \<and> bq_cfg q' = bq_cfg q"
  using assms
proof (induction bs arbitrary: q remaining)
  case (Cons a bs)
  obtain f v where check: "inclusion_check_batch F a (bq_cfg q) (bq_l1_blocks q) parent (bq_fetcher q) = (f, v)" by fastforce
  have "accepted_batch F (bq_cfg q) (bq_l1_blocks q) parent (bw_batch a)" if "v = Some Accept"
    using check that unfolding accepted_batch_def
    by (cases a) (auto intro!: exI [of _ "bw_inclusion_block a"] exI [of _ "bq_fetcher q"])
  moreover note Cons.IH [of _ "q\<lparr>bq_fetcher := f\<rparr>"] Cons.IH [of _ "queue_flush_prev P (q\<lparr>bq_fetcher := f\<rparr>)"]
  ultimately show ?case
    using Cons.prems check
    by (auto simp: Let_def queue_flush_prev_def split: option.splits batch_validity.splits if_splits)
qed simp

lemma search_batches_cfg:
  "search_batches F P x parent remaining bs q = (q', r) \<Longrightarrow> bq_cfg q' = bq_cfg q"
  by (induction bs arbitrary: q remaining)
    (auto simp: Let_def queue_flush_prev_def split: option.splits batch_validity.splits if_splits prod.splits)

lemma derive_next_batch_Ok:
  assumes "derive_next_batch F P none_left parent q = (q', Ok b)"
  shows "bq_cfg q' = bq_cfg q \<and>
    ((\<exists>e. b = batch.Single (empty_batch (bq_cfg q) parent e)) \<or>
     b \<in> bw_batch ` set (bq_batches q) \<and> accepted_batch F (bq_cfg q) (bq_l1_blocks q) parent b)"
proof -
  from assms obtain x q1 nb where x: "bq_origin q = Some x" and search: "search_batches F P x parent [] (bq_batches q) q = (q1, Ok nb)"
    and rest: "(case nb of Some nb \<Rightarrow> (q1, Ok (bw_batch nb)) | None \<Rightarrow> force_empty_batch none_left (bq_l1_blocks q ! 0) x parent q1) = (q', Ok b)"
    by (cases "bq_origin q") (auto simp: derive_next_batch_def Let_def pbind_eq_Ok split: if_splits)
  show ?thesis
  proof (cases nb)
    case None
    with rest search_batches_cfg [OF search] show ?thesis by (auto simp: force_empty_batch_def Let_def split: if_splits)
  next
    case (Some a)
    with rest search_batches_found [of F P x parent "[]" "bq_batches q" q q1 a] search show ?thesis by auto
  qed
qed

lemma load_queue_subset:
  assumes "load_queue F P parent behind q = (q', r)"
  shows "bq_cfg q' = bq_cfg q \<and>
    (\<forall>b\<in>bw_batch ` set (bq_batches q'). b \<in> bw_batch ` set (bq_batches q) \<or>
      (\<exists>p. nbp_next_batch P parent (bq_l1_blocks q) (bq_prev q) = (p, Ok b)))"
  using assms
  by (auto simp: load_queue_def add_batch_def queue_flush_prev_def ok_or_def Let_def
      split: prod.splits pres.splits if_splits option.splits)

lemma accepted_batch_Single:
  "accepted_batch F cfg l1 parent (batch.Single b) \<Longrightarrow>
    sb_timestamp b = bi_timestamp (l2_info parent) + rc_block_time cfg \<and> sb_parent_hash b = bi_hash (l2_info parent)"
  by (auto simp: accepted_batch_def inclusion_check_batch_def dest: single_check_batch_next)

lemma accepted_batch_Span:
  assumes "accepted_batch F cfg l1 parent (batch.Span s)"
  obtains x f f' q where "check_batch_prefix F s cfg l1 parent x f = (f', Some (Accept, q))"
proof -
  obtain x f where "snd (span_check_batch F s cfg l1 parent x f) = Some Accept"
    using assms by (auto simp: accepted_batch_def inclusion_check_batch_def)
  then show thesis
    by (cases "check_batch_prefix F s cfg l1 parent x f")
      (auto simp: span_check_batch_def intro: that split: option.splits if_splits)
qed

lemma unpack_batch_next:
  assumes "unpack_batch parent b q = (q', Ok sb)"
    and "b = batch.Single (empty_batch (bq_cfg q) parent e) \<or> accepted_batch F (bq_cfg q) l1 parent b"
    and "batch_steps (bq_cfg q) b" and "0 < rc_block_time (bq_cfg q)"
    and "unat (bi_timestamp (l2_info parent)) + unat (rc_block_time (bq_cfg q)) < 2 ^ 64"
  shows "sb_timestamp sb = bi_timestamp (l2_info parent) + rc_block_time (bq_cfg q) \<and> sb_parent_hash sb = bi_hash (l2_info parent)"
proof (cases b)
  case (Single x)
  with assms(1,2) show ?thesis
    using accepted_batch_Single [of F "bq_cfg q" l1 parent x] by (auto simp: unpack_batch_def empty_batch_def)
next
  case (Span s)
  with assms(1) obtain xs where xs: "get_singular_batches s (bq_l1_blocks q) parent = Good xs"
    and pop: "pop_next_batch parent (q\<lparr>bq_next_spans := xs\<rparr>) = (q', Ok sb)"
    by (auto simp: unpack_batch_def split: outcome.splits)
  from assms(2) Span obtain x f f' r where "check_batch_prefix F s (bq_cfg q) l1 parent x f = (f', Some (Accept, r))"
    using accepted_batch_Span [of F "bq_cfg q" l1 parent s] by (metis batch.distinct(1))
  from span_first_single [OF this _ assms(4,5) xs] Span assms(3)
  obtain y ys where "xs = y # ys" "sb_timestamp y = bi_timestamp (l2_info parent) + rc_block_time (bq_cfg q)" by auto
  with pop show ?thesis by (auto simp: pop_next_batch_def)
qed

lemma queue_find_batch_next:
  assumes "queue_find_batch F P parent q = (q', Ok b)"
    and "list_all (batch_steps (bq_cfg q) \<circ> bw_batch) (bq_batches q)"
    and "\<And>l1 p s. nbp_next_batch P parent l1 (bq_prev q) = (p, Ok s) \<Longrightarrow> batch_steps (bq_cfg q) s"
    and "0 < rc_block_time (bq_cfg q)"
    and "unat (bi_timestamp (l2_info parent)) + unat (rc_block_time (bq_cfg q)) < 2 ^ 64"
  shows "sb_timestamp b = bi_timestamp (l2_info parent) + rc_block_time (bq_cfg q) \<and> sb_parent_hash b = bi_hash (l2_info parent)"
proof -
  from assms(1) obtain q1 q2 out q3 x where q1: "queue_update_origins P parent q = (q1, Ok ())"
    and q2: "load_queue F P parent (origin_behind (stg_origin P (bq_prev q1)) parent) q1 = (q2, Ok out)"
    and q3: "derive_next_batch F P out parent q2 = (q3, Ok x)" and unpack: "unpack_batch parent x q3 = (q', Ok b)"
    by (auto simp: queue_find_batch_def Let_def pbind_eq_Ok split: if_splits prod.splits pres.splits)
  note f1 = queue_update_origins_frame [OF q1] and f2 = load_queue_subset [OF q2] and f3 = derive_next_batch_Ok [OF q3]
  have cfg: "bq_cfg q3 = bq_cfg q" using f1 f2 f3 by simp
  have steps: "batch_steps (bq_cfg q) y" if "y \<in> bw_batch ` set (bq_batches q2)" for y
    using f1 f2 that assms(2,3) by (fastforce simp: list_all_iff)
  have "x = batch.Single (empty_batch (bq_cfg q) parent e) \<Longrightarrow> batch_steps (bq_cfg q) x" for e by simp
  with f1 f2 f3 steps cfg have "batch_steps (bq_cfg q3) x" by auto
  with unpack_batch_next [OF unpack, of _ F "bq_l1_blocks q2"] f1 f2 f3 assms(4,5) cfg show ?thesis by metis
qed

lemma queue_next_batch_next:
  assumes "queue_next_batch F P parent q = (q', Ok b)"
    and "list_all (batch_steps (bq_cfg q) \<circ> bw_batch) (bq_batches q)"
    and "\<And>l1 p s. nbp_next_batch P parent l1 (bq_prev q) = (p, Ok s) \<Longrightarrow> batch_steps (bq_cfg q) s"
    and "0 < rc_block_time (bq_cfg q)"
    and "unat (bi_timestamp (l2_info parent)) + unat (rc_block_time (bq_cfg q)) < 2 ^ 64"
  shows "sb_timestamp b = bi_timestamp (l2_info parent) + rc_block_time (bq_cfg q) \<and> sb_parent_hash b = bi_hash (l2_info parent)"
proof (cases "bq_next_spans q \<noteq> [] \<and> sb_timestamp (hd (bq_next_spans q)) = bi_timestamp (l2_info parent) + rc_block_time (bq_cfg q)")
  case True
  with assms(1) show ?thesis by (auto simp: queue_next_batch_def pop_next_batch_def neq_Nil_conv)
next
  case False
  have "queue_find_batch F P parent (q\<lparr>bq_next_spans := []\<rparr>) = (q', Ok b)"
  proof (cases "bq_next_spans q")
    case Nil
    then have "q\<lparr>bq_next_spans := []\<rparr> = q" by simp
    with assms(1) Nil show ?thesis by (simp only: queue_next_batch_def list.case)
  qed (use assms(1) False in \<open>auto simp: queue_next_batch_def\<close>)
  from queue_find_batch_next [OF this] assms(2-5) show ?thesis by simp
qed

text \<open>The batches that the queue holds were held before or have just been pulled.\<close>

lemma search_batches_subset:
  "search_batches F P x parent remaining bs q = (q', r) \<Longrightarrow>
    set (bq_batches q') \<subseteq> set remaining \<union> set bs \<union> set (bq_batches q)"
proof (induction bs arbitrary: q remaining)
  case (Cons b bs)
  obtain f v where check: "inclusion_check_batch F b (bq_cfg q) (bq_l1_blocks q) parent (bq_fetcher q) = (f, v)" by fastforce
  note IH = Cons.IH [of _ "q\<lparr>bq_fetcher := f\<rparr>"] Cons.IH [of _ "queue_flush_prev P (q\<lparr>bq_fetcher := f\<rparr>)"]
  show ?case
    using Cons.prems check
    by (auto simp: Let_def split: option.splits batch_validity.splits if_splits dest!: IH)
qed auto

lemma derive_next_batch_subset:
  assumes "derive_next_batch F P none_left parent q = (q', r)"
  shows "set (bq_batches q') \<subseteq> set (bq_batches q) \<and> bq_cfg q' = bq_cfg q"
proof (cases "bq_origin q")
  case (Some x)
  obtain q1 r1 where search: "search_batches F P x parent [] (bq_batches q) q = (q1, r1)" by fastforce
  show ?thesis
    using assms Some search search_batches_subset [OF search] search_batches_cfg [OF search]
    by (cases r1) (auto simp: derive_next_batch_def force_empty_batch_def Let_def split: if_splits option.splits)
qed (use assms in \<open>auto simp: derive_next_batch_def Let_def split: if_splits\<close>)

lemma unpack_batch_subset:
  "unpack_batch parent b q = (q', r) \<Longrightarrow> bq_batches q' = bq_batches q \<and> bq_cfg q' = bq_cfg q"
  by (auto simp: unpack_batch_def pop_next_batch_def split: batch.splits outcome.splits list.splits)

lemma queue_find_batch_subset:
  assumes "queue_find_batch F P parent q = (q', r)"
  shows "bq_cfg q' = bq_cfg q \<and>
    (\<forall>b\<in>bw_batch ` set (bq_batches q'). b \<in> bw_batch ` set (bq_batches q) \<or>
      (\<exists>l1 p. nbp_next_batch P parent l1 (bq_prev q) = (p, Ok b)))"
proof -
  obtain q1 r1 where q1: "queue_update_origins P parent q = (q1, r1)" by fastforce
  note f1 = queue_update_origins_frame [OF q1]
  obtain q2 r2 where q2: "load_queue F P parent (origin_behind (stg_origin P (bq_prev q1)) parent) q1 = (q2, r2)" by fastforce
  note f2 = load_queue_subset [OF q2]
  from assms q1 q2 consider "q' = q1" | "q' = q2" | out q3 r3 where "derive_next_batch F P out parent q2 = (q3, r3)"
      "q' = q3 \<or> (\<exists>b. unpack_batch parent b q3 = (q', r))"
    by (cases r1; cases r2) (auto simp: queue_find_batch_def Let_def split: if_splits prod.splits pres.splits)
  then show ?thesis
  proof cases
    case 3
    then have "set (bq_batches q') \<subseteq> set (bq_batches q2)" "bq_cfg q' = bq_cfg q2"
      using derive_next_batch_subset [OF 3(1)] unpack_batch_subset [of parent _ q3 q' r] by auto
    with f1 f2 show ?thesis by (metis image_mono subset_iff)
  qed (use f1 f2 in auto)
qed

lemma queue_next_batch_subset:
  assumes "queue_next_batch F P parent q = (q', r)"
  shows "bq_cfg q' = bq_cfg q \<and>
    (\<forall>b\<in>bw_batch ` set (bq_batches q'). b \<in> bw_batch ` set (bq_batches q) \<or>
      (\<exists>l1 p. nbp_next_batch P parent l1 (bq_prev q) = (p, Ok b)))"
  using assms queue_find_batch_subset [of F P parent q q' r] queue_find_batch_subset [of F P parent "q\<lparr>bq_next_spans := []\<rparr>" q' r]
  by (auto simp: queue_next_batch_def pop_next_batch_def split: list.splits if_splits)

definition example_queue :: "((batch list, unit) batch_stream, unit) batch_queue" where
  "example_queue = (batch_queue_new example_config (batch_stream_new [] example_config ()) ())
     \<lparr>bq_origin := Some (example_origins ! 1), bq_l1_blocks := example_origins,
      bq_batches := [\<lparr>bw_inclusion_block = example_origins ! 1, bw_batch = batch.Span example_span\<rparr>]\<rparr>"

lemma example_queue_prev:
  "nbp_next_batch (batch_stream_ops example_fetcher (batch_source (example_origins ! 1))) parent l1 (bq_prev example_queue) =
    (bq_prev example_queue, Err (temp Eof))"
  by (simp add: example_queue_def batch_queue_new_def batch_stream_ops_def stream_next_batch_def stream_is_active_eq
      load_batch_def batch_source_def batch_stream_new_def)

lemma example_queue_next:
  "\<exists>q'. queue_next_batch example_fetcher (batch_stream_ops example_fetcher (batch_source (example_origins ! 1))) example_head example_queue =
    (q', Ok (hd example_singles\<lparr>sb_parent_hash := 31\<rparr>))"
proof -
  let ?P = "batch_stream_ops example_fetcher (batch_source (example_origins ! 1))"
  have fields: "bq_l1_blocks example_queue = example_origins" "bq_origin example_queue = Some (example_origins ! 1)"
    "bq_cfg example_queue = example_config" "bq_next_spans example_queue = []" "bq_fetcher example_queue = ()"
    "bq_batches example_queue = [\<lparr>bw_inclusion_block = example_origins ! 1, bw_batch = batch.Span example_span\<rparr>]"
    by (simp_all add: example_queue_def batch_queue_new_def)
  have origin: "stg_origin ?P p = Some (example_origins ! 1)" for p by (simp add: batch_stream_ops_def batch_source_def)
  have "advance_epoch example_head example_origins = example_origins" by (simp add: advance_epoch_def example_batch_defs)
  then have "queue_update_origins ?P example_head example_queue = (example_queue, Ok ())"
    by (simp add: queue_update_origins_def origin fields Let_def del: One_nat_def)
  moreover have "load_queue example_fetcher ?P example_head False example_queue = (example_queue, Ok True)"
    using example_queue_prev [of example_head example_origins] by (simp add: load_queue_def fields del: One_nat_def)
  moreover have "\<not> origin_behind (Some (example_origins ! 1)) example_head" "l2_l1_origin example_head = block_id (example_origins ! 0)"
      "example_origins \<noteq> []" "bi_hash (l2_info example_head) = 31"
    by (simp_all add: origin_behind_def example_batch_defs block_id_def)
  moreover obtain f where "inclusion_check_batch example_fetcher \<lparr>bw_inclusion_block = example_origins ! 1, bw_batch = batch.Span example_span\<rparr>
      example_config example_origins example_head () = (f, Some Accept)"
    using example_span_accepted by (auto simp: inclusion_check_batch_def prod_eq_iff)
  ultimately show ?thesis
    using example_span_singles
    by (simp add: queue_next_batch_def queue_find_batch_def fields origin derive_next_batch_def unpack_batch_def pop_next_batch_def
        del: One_nat_def)
      (simp add: example_singles_def)
qed

end
