(* ===== verification/Batch_Provider.thy ===== *)
theory Batch_Provider
  imports Batch_Queue
begin

text \<open>
  The batch provider, \<^verbatim>\<open>crates/protocol/derive/src/stages/batch/batch_provider.rs\<close>: the multiplexer
  between the batch queue (before Holocene) and the batch validator (from Holocene on).  When the
  origin crosses the activation it hands the previous stage and the known L1 blocks from one to
  the other.

  Shown: the stage's contract, from the multiplexer's; which stage is active and what is handed
  over; every batch that comes out is the next block on the parent, whatever data the channels
  below hold.
\<close>

section \<open>The stage\<close>

record ('p, 'f) batch_provider =
  bp_cfg :: rollup_config
  bp_provider :: 'f
  bp_prev :: "'p option"
  bp_batch_queue :: "('p, 'f) batch_queue option"
  bp_batch_validator :: "'p batch_validator option"

definition batch_provider_new :: "rollup_config \<Rightarrow> 'p \<Rightarrow> 'f \<Rightarrow> ('p, 'f) batch_provider" where
  "batch_provider_new cfg prev provider =
     \<lparr>bp_cfg = cfg, bp_provider = provider, bp_prev = Some prev, bp_batch_queue = None, bp_batch_validator = None\<rparr>"

definition batch_provider_origin ::
    "'f batch_validation_provider \<Rightarrow> 'p next_batch_provider \<Rightarrow> ('p, 'f) batch_provider \<Rightarrow> block_info option" where
  "batch_provider_origin F P b =
     (case bp_batch_validator b of
        None \<Rightarrow> (case bp_batch_queue b of
            None \<Rightarrow> Option.bind (bp_prev b) (stg_origin P)
          | Some batch_queue \<Rightarrow> stg_origin (batch_queue_ops F P) batch_queue)
      | Some batch_validator \<Rightarrow> stg_origin (batch_validator_ops P) batch_validator)"

definition batch_attempt_update ::
    "'f batch_validation_provider \<Rightarrow> 'p next_batch_provider \<Rightarrow> ('p, 'f) batch_provider \<Rightarrow> ('p, 'f) batch_provider \<times> unit pres" where
  "batch_attempt_update F P b =
     pbind (ok_or b (batch_provider_origin F P b) (crit MissingOrigin)) (\<lambda>b origin.
       let holocene = is_holocene_active (bp_cfg b) (bi_timestamp origin) in
       case bp_prev b of
         Some prev \<Rightarrow>
           (if holocene
            then b\<lparr>bp_prev := None, bp_batch_validator := Some (batch_validator_new (bp_cfg b) prev)\<rparr>
            else b\<lparr>bp_prev := None, bp_batch_queue := Some (batch_queue_new (bp_cfg b) prev (bp_provider b))\<rparr>, Ok ())
       | None \<Rightarrow>
           if bp_batch_queue b \<noteq> None \<and> holocene then
             (case bp_batch_queue b of
                Some batch_queue \<Rightarrow>
                  (b\<lparr>bp_batch_queue := None,
                     bp_batch_validator := Some ((batch_validator_new (bp_cfg b) (bq_prev batch_queue))
                       \<lparr>bv_l1_blocks := bq_l1_blocks batch_queue\<rparr>)\<rparr>, Ok ())
              | None \<Rightarrow> (b, Panicked))
           else if bp_batch_validator b \<noteq> None \<and> \<not> holocene then
             (case bp_batch_validator b of
                Some batch_validator \<Rightarrow>
                  (b\<lparr>bp_batch_validator := None,
                     bp_batch_queue := Some ((batch_queue_new (bp_cfg b) (bv_prev batch_validator) (bp_provider b))
                       \<lparr>bq_l1_blocks := bv_l1_blocks batch_validator\<rparr>)\<rparr>, Ok ())
              | None \<Rightarrow> (b, Panicked))
           else (b, Ok ()))"

definition batch_provider_advance_origin ::
    "'f batch_validation_provider \<Rightarrow> 'p next_batch_provider \<Rightarrow> ('p, 'f) batch_provider \<Rightarrow> ('p, 'f) batch_provider \<times> unit pres" where
  "batch_provider_advance_origin F P b =
     pbind (batch_attempt_update F P b) (\<lambda>b _.
       case bp_batch_validator b of
         Some v \<Rightarrow> via (\<lambda>v. b\<lparr>bp_batch_validator := Some v\<rparr>) (stg_advance_origin (batch_validator_ops P) v)
       | None \<Rightarrow> (case bp_batch_queue b of
           Some q \<Rightarrow> via (\<lambda>q. b\<lparr>bp_batch_queue := Some q\<rparr>) (stg_advance_origin (batch_queue_ops F P) q)
         | None \<Rightarrow> (b, Err (temp NotEnoughData))))"

definition batch_provider_signal ::
    "'f batch_validation_provider \<Rightarrow> 'p next_batch_provider \<Rightarrow> ('p, 'f) batch_provider \<Rightarrow> signal \<Rightarrow>
     ('p, 'f) batch_provider \<times> unit pres" where
  "batch_provider_signal F P b sig =
     pbind (batch_attempt_update F P b) (\<lambda>b _.
       case bp_batch_validator b of
         Some v \<Rightarrow> via (\<lambda>v. b\<lparr>bp_batch_validator := Some v\<rparr>) (stg_signal (batch_validator_ops P) v sig)
       | None \<Rightarrow> (case bp_batch_queue b of
           Some q \<Rightarrow> via (\<lambda>q. b\<lparr>bp_batch_queue := Some q\<rparr>) (stg_signal (batch_queue_ops F P) q sig)
         | None \<Rightarrow> (b, Err (temp NotEnoughData))))"

definition batch_provider_is_last_in_span ::
    "'f batch_validation_provider \<Rightarrow> 'p next_batch_provider \<Rightarrow> ('p, 'f) batch_provider \<Rightarrow> bool" where
  "batch_provider_is_last_in_span F P b =
     (case bp_batch_validator b of
        None \<Rightarrow> (case bp_batch_queue b of None \<Rightarrow> False | Some q \<Rightarrow> ap_is_last_in_span (batch_queue_ops F P) q)
      | Some v \<Rightarrow> ap_is_last_in_span (batch_validator_ops P) v)"

definition batch_provider_next_batch ::
    "'f batch_validation_provider \<Rightarrow> 'p next_batch_provider \<Rightarrow> l2_block_info \<Rightarrow> ('p, 'f) batch_provider \<Rightarrow>
     ('p, 'f) batch_provider \<times> single_batch pres" where
  "batch_provider_next_batch F P parent b =
     pbind (batch_attempt_update F P b) (\<lambda>b _.
       case bp_batch_validator b of
         Some v \<Rightarrow> via (\<lambda>v. b\<lparr>bp_batch_validator := Some v\<rparr>) (ap_next_batch (batch_validator_ops P) parent v)
       | None \<Rightarrow> (case bp_batch_queue b of
           Some q \<Rightarrow> via (\<lambda>q. b\<lparr>bp_batch_queue := Some q\<rparr>) (ap_next_batch (batch_queue_ops F P) parent q)
         | None \<Rightarrow> (b, Err (temp NotEnoughData))))"

definition batch_provider_ops ::
    "'f batch_validation_provider \<Rightarrow> 'p next_batch_provider \<Rightarrow> ('p, 'f) batch_provider attributes_provider" where
  "batch_provider_ops F P =
     \<lparr>stg_origin = batch_provider_origin F P,
      stg_advance_origin = batch_provider_advance_origin F P,
      stg_signal = batch_provider_signal F P,
      ap_next_batch = batch_provider_next_batch F P,
      ap_is_last_in_span = batch_provider_is_last_in_span F P\<rparr>"

section \<open>Ownership of the previous stage\<close>

text \<open>
  Exactly one owner is set; it has the provider's config, and its previous stage is in a state of
  the invariant.
\<close>

definition batch_provider_inv :: "('p \<Rightarrow> bool) \<Rightarrow> rollup_config \<Rightarrow> ('p, 'f) batch_provider \<Rightarrow> bool" where
  "batch_provider_inv I cfg b \<longleftrightarrow> bp_cfg b = cfg \<and>
     (case (bp_prev b, bp_batch_queue b, bp_batch_validator b) of
        (Some p, None, None) \<Rightarrow> I p
      | (None, Some q, None) \<Rightarrow> I (bq_prev q) \<and> bq_cfg q = cfg
      | (None, None, Some v) \<Rightarrow> I (bv_prev v) \<and> bv_cfg v = cfg
      | _ \<Rightarrow> False)"

lemma batch_provider_inv_cases:
  assumes "batch_provider_inv I cfg b"
  obtains (prev) p where "bp_prev b = Some p" "bp_batch_queue b = None" "bp_batch_validator b = None" "I p" "bp_cfg b = cfg"
  | (queue) q where "bp_prev b = None" "bp_batch_queue b = Some q" "bp_batch_validator b = None"
      "I (bq_prev q)" "bq_cfg q = cfg" "bp_cfg b = cfg"
  | (validator) v where "bp_prev b = None" "bp_batch_queue b = None" "bp_batch_validator b = Some v"
      "I (bv_prev v)" "bv_cfg v = cfg" "bp_cfg b = cfg"
  using assms
  by (cases "bp_prev b"; cases "bp_batch_queue b"; cases "bp_batch_validator b") (auto simp: batch_provider_inv_def)

lemma batch_provider_inv_new: "I p \<Longrightarrow> batch_provider_inv I cfg (batch_provider_new cfg p f)"
  by (simp add: batch_provider_inv_def batch_provider_new_def)

lemma batch_new_fields [simp]:
  "bq_prev (batch_queue_new cfg p f) = p" "bv_prev (batch_validator_new cfg p) = p"
  "bq_cfg (batch_queue_new cfg p f) = cfg" "bv_cfg (batch_validator_new cfg p) = cfg"
  "bq_l1_blocks (batch_queue_new cfg p f) = []" "bv_l1_blocks (batch_validator_new cfg p) = []"
  "bq_batches (batch_queue_new cfg p f) = []" "bq_next_spans (batch_queue_new cfg p f) = []"
  by (simp_all add: batch_queue_new_def batch_validator_new_def)

text \<open>The previous stage and the L1 blocks, whoever holds them.\<close>

definition batch_owner :: "('p, 'f) batch_provider \<Rightarrow> 'p \<times> block_info list" where
  "batch_owner b = (case (bp_batch_queue b, bp_batch_validator b) of
     (_, Some v) \<Rightarrow> (bv_prev v, bv_l1_blocks v)
   | (Some q, None) \<Rightarrow> (bq_prev q, bq_l1_blocks q)
   | (None, None) \<Rightarrow> (the (bp_prev b), []))"

definition batch_active :: "block_info \<Rightarrow> ('p, 'f) batch_provider \<Rightarrow> bool" where
  "batch_active x b \<longleftrightarrow> bp_prev b = None \<and>
     (bp_batch_validator b \<noteq> None) = is_holocene_active (bp_cfg b) (bi_timestamp x) \<and>
     (bp_batch_queue b \<noteq> None) = (\<not> is_holocene_active (bp_cfg b) (bi_timestamp x))"

lemma batch_attempt_update_ok:
  assumes inv: "batch_provider_inv I cfg b" and origin: "batch_provider_origin F P b = Some x"
  obtains b' where "batch_attempt_update F P b = (b', Ok ())" "batch_provider_inv I cfg b'"
    "batch_owner b' = batch_owner b" "batch_provider_origin F P b' = Some x" "batch_active x b'"
    "batch_active x b \<Longrightarrow> b' = b"
proof -
  let ?h = "is_holocene_active (bp_cfg b) (bi_timestamp x)"
  note defs = batch_provider_inv_def batch_attempt_update_def batch_provider_origin_def batch_owner_def
    batch_queue_ops_def batch_validator_ops_def batch_active_def
  let ?b = "fst (batch_attempt_update F P b)"
  have "batch_attempt_update F P b = (?b, Ok ()) \<and> batch_provider_inv I cfg ?b \<and> batch_owner ?b = batch_owner b \<and>
      batch_provider_origin F P ?b = Some x \<and> batch_active x ?b \<and> (batch_active x b \<longrightarrow> ?b = b)"
    using inv
  proof (cases rule: batch_provider_inv_cases)
    case (prev p)
    with origin show ?thesis by (cases ?h) (simp_all add: defs)
  next
    case (queue q)
    with origin show ?thesis by (cases ?h) (simp_all add: defs)
  next
    case (validator v)
    with origin show ?thesis by (cases ?h) (simp_all add: defs)
  qed
  then show thesis by (intro that [of ?b]) simp_all
qed

section \<open>The stage's contract\<close>

abbreviation batch_dispatch ::
    "'f batch_validation_provider \<Rightarrow> 'p next_batch_provider \<Rightarrow> ('p batch_validator \<Rightarrow> 'p batch_validator \<times> 'r pres) \<Rightarrow>
     (('p, 'f) batch_queue \<Rightarrow> ('p, 'f) batch_queue \<times> 'r pres) \<Rightarrow> ('p, 'f) batch_provider \<Rightarrow> ('p, 'f) batch_provider \<times> 'r pres" where
  "batch_dispatch F P \<equiv> mux_dispatch (batch_attempt_update F P)
     bp_batch_validator (\<lambda>b v. b\<lparr>bp_batch_validator := Some v\<rparr>)
     bp_batch_queue (\<lambda>b q. b\<lparr>bp_batch_queue := Some q\<rparr>)"

lemma batch_provider_dispatch:
  "batch_provider_advance_origin F P =
     batch_dispatch F P (stg_advance_origin (batch_validator_ops P)) (stg_advance_origin (batch_queue_ops F P))"
  "batch_provider_signal F P b s =
     batch_dispatch F P (\<lambda>v. stg_signal (batch_validator_ops P) v s) (\<lambda>q. stg_signal (batch_queue_ops F P) q s) b"
  "batch_provider_next_batch F P parent =
     batch_dispatch F P (ap_next_batch (batch_validator_ops P) parent) (ap_next_batch (batch_queue_ops F P) parent)"
  by (simp_all add: fun_eq_iff mux_dispatch_def batch_provider_advance_origin_def
      batch_provider_signal_def batch_provider_next_batch_def)

sublocale next_batch_stage \<subseteq>
  bp: mux "batch_validator_ops P" "\<lambda>v. I (bv_prev v) \<and> bv_cfg v = cfg"
    "batch_queue_ops G P" "\<lambda>q. I (bq_prev q) \<and> bq_cfg q = cfg"
    "batch_provider_ops G P" "batch_provider_inv I cfg" "batch_attempt_update G P"
    bp_batch_validator "\<lambda>b v. b\<lparr>bp_batch_validator := Some v\<rparr>"
    bp_batch_queue "\<lambda>b q. b\<lparr>bp_batch_queue := Some q\<rparr>"
  for G :: "'g batch_validation_provider"
proof (rule mux.intro, goal_cases)
  case (4 s x)
  then obtain b' where "batch_attempt_update G P s = (b', Ok ())" "batch_provider_inv I cfg b'"
    "batch_provider_origin G P b' = Some x" "batch_active x b'"
    by (auto simp: batch_provider_ops_def elim: batch_attempt_update_ok)
  then show ?case by (auto simp: batch_provider_ops_def batch_active_def)
next
  case (9 s a)
  from 9(1) 9(2,3) show ?case by (cases rule: batch_provider_inv_cases) (auto simp: batch_provider_inv_def)
next
  case (10 s b)
  from 10(1) 10(2-4) show ?case by (cases rule: batch_provider_inv_cases) (auto simp: batch_provider_inv_def)
qed (auto intro: batch_validator_contract batch_queue_contract stage_contract_axioms
    elim!: batch_provider_inv_cases
    simp: batch_provider_ops_def batch_attempt_update_def batch_provider_origin_def batch_provider_dispatch)

sublocale next_batch_stage \<subseteq> bp: attributes_stage "batch_provider_ops G P" "batch_provider_inv I cfg"
  for G :: "'g batch_validation_provider"
  using bp.mux_pull [OF bv.stable_pull_axioms bq.stable_pull_axioms]
  by (simp add: attributes_stage_def batch_provider_ops_def batch_provider_dispatch)

section \<open>Reachable providers\<close>

inductive batch_provider_reachable ::
    "'f batch_validation_provider \<Rightarrow> 'p next_batch_provider \<Rightarrow> rollup_config \<Rightarrow> ('p, 'f) batch_provider \<Rightarrow> bool" for F P cfg where
  new: "batch_provider_reachable F P cfg (batch_provider_new cfg prev f)"
| pull: "batch_provider_reachable F P cfg b \<Longrightarrow> batch_provider_reachable F P cfg (fst (batch_provider_next_batch F P parent b))"
| signal: "batch_provider_reachable F P cfg b \<Longrightarrow> batch_provider_reachable F P cfg (fst (batch_provider_signal F P b s))"
| advance: "batch_provider_reachable F P cfg b \<Longrightarrow> batch_provider_reachable F P cfg (fst (batch_provider_advance_origin F P b))"

text \<open>The states that a given provider can get into.\<close>

inductive batch_provider_from ::
    "'f batch_validation_provider \<Rightarrow> 'p next_batch_provider \<Rightarrow> ('p, 'f) batch_provider \<Rightarrow> ('p, 'f) batch_provider \<Rightarrow> bool"
  for F P b0 where
  start: "batch_provider_from F P b0 b0"
| pull: "batch_provider_from F P b0 b \<Longrightarrow> batch_provider_from F P b0 (fst (batch_provider_next_batch F P parent b))"
| signal: "batch_provider_from F P b0 b \<Longrightarrow> batch_provider_from F P b0 (fst (batch_provider_signal F P b s))"
| advance: "batch_provider_from F P b0 b \<Longrightarrow> batch_provider_from F P b0 (fst (batch_provider_advance_origin F P b))"

lemma reachable_from:
  "batch_provider_reachable F P cfg b \<Longrightarrow> \<exists>prev f. batch_provider_from F P (batch_provider_new cfg prev f) b"
  by (induction rule: batch_provider_reachable.induct) (blast intro: batch_provider_from.intros)+

text \<open>The previous stage is in a state of an invariant, and the queue holds batches with a property only.\<close>

abbreviation queue_holds :: "('p \<Rightarrow> bool) \<Rightarrow> (batch \<Rightarrow> bool) \<Rightarrow> rollup_config \<Rightarrow> ('p, 'f) batch_queue \<Rightarrow> bool" where
  "queue_holds J B cfg q \<equiv> J (bq_prev q) \<and> bq_cfg q = cfg \<and> list_all (B \<circ> bw_batch) (bq_batches q)"

abbreviation validator_holds :: "('p \<Rightarrow> bool) \<Rightarrow> rollup_config \<Rightarrow> 'p batch_validator \<Rightarrow> bool" where
  "validator_holds J cfg v \<equiv> J (bv_prev v) \<and> bv_cfg v = cfg"

definition batches_ok :: "('p \<Rightarrow> bool) \<Rightarrow> (batch \<Rightarrow> bool) \<Rightarrow> rollup_config \<Rightarrow> ('p, 'f) batch_provider \<Rightarrow> bool" where
  "batches_ok J B cfg b \<longleftrightarrow> batch_provider_inv J cfg b \<and> (\<forall>q. bp_batch_queue b = Some q \<longrightarrow> queue_holds J B cfg q)"

lemma batches_ok_new: "J p \<Longrightarrow> batches_ok J B cfg (batch_provider_new cfg p f)"
  by (simp add: batches_ok_def batch_provider_inv_new) (simp add: batch_provider_new_def)

lemma batches_ok_update:
  assumes "batches_ok J B cfg b" and "batch_attempt_update F P b = (b', r)"
  shows "batches_ok J B cfg b'"
  using assms(1) [unfolded batches_ok_def, THEN conjunct1] assms
  by (cases rule: batch_provider_inv_cases)
    (auto simp: batches_ok_def batch_provider_inv_def batch_attempt_update_def ok_or_def Let_def split: option.splits if_splits)

lemma batches_ok_dispatch:
  assumes "batches_ok J B cfg b" and f: "\<And>v. validator_holds J cfg v \<Longrightarrow> validator_holds J cfg (fst (f v))"
    and g: "\<And>q. queue_holds J B cfg q \<Longrightarrow> queue_holds J B cfg (fst (g q))"
  shows "batches_ok J B cfg (fst (batch_dispatch F P f g b))"
proof -
  obtain b' r where update: "batch_attempt_update F P b = (b', r)" by fastforce
  have ok: "batches_ok J B cfg b'" using assms(1) update by (rule batches_ok_update)
  then have "batch_provider_inv J cfg b'" by (simp add: batches_ok_def)
  then show ?thesis
  proof (cases rule: batch_provider_inv_cases)
    case (prev p)
    with update ok show ?thesis by (cases r) (simp_all add: mux_dispatch_def)
  next
    case (queue q)
    then have "queue_holds J B cfg (fst (g q))" using g [of q] ok by (simp add: batches_ok_def)
    with queue update ok show ?thesis
      by (cases r) (simp_all add: mux_dispatch_def via_def, simp add: batches_ok_def batch_provider_inv_def)
  next
    case (validator v)
    then have "validator_holds J cfg (fst (f v))" using f [of v] by simp
    with validator update ok show ?thesis
      by (cases r) (simp_all add: mux_dispatch_def via_def, simp add: batches_ok_def batch_provider_inv_def)
  qed
qed

lemma queue_signal_batches: "list_all B (bq_batches q) \<Longrightarrow> list_all B (bq_batches (fst (queue_signal P q s)))"
  by (cases "stg_signal P (bq_prev q) s"; cases "snd (stg_signal P (bq_prev q) s)"; cases s)
    (auto simp: queue_signal_def)

lemma validator_next_batch_cfg: "bv_cfg (fst (validator_next_batch P parent v)) = bv_cfg v"
proof -
  obtain v' r where result: "validator_next_batch P parent v = (v', r)" by fastforce
  then have "bv_cfg v' = bv_cfg v"
    by (cases rule: validator_next_batch_cases)
      (force dest!: update_origins_frame try_derive_empty_batch_frame validate_batch_frame)+
  with result show ?thesis by simp
qed

context batches_from
begin

lemma validator_next_batch_keeps:
  assumes "J (bv_prev v)"
  shows "J (bv_prev (fst (validator_next_batch P parent v)))"
proof -
  obtain v' r where result: "validator_next_batch P parent v = (v', r)" by fastforce
  have p: "J p" if "nbp_next_batch P parent l1 (bv_prev v) = (p, d)" for l1 p d
    using pull_keeps [OF assms, of parent l1] that by simp
  from result have "J (bv_prev v')"
  proof (cases rule: validator_next_batch_cases)
    case (stop u e)
    with update_origins_frame [OF stop(1)] assms show ?thesis by simp
  next
    case (drain u q d)
    with p [OF drain(2)] show ?thesis by simp
  next
    case (empty u q x)
    with p [OF empty(4)] try_derive_empty_batch_frame [OF empty(5)] show ?thesis by simp
  next
    case (batch u q b x)
    with p [OF batch(4)] validate_batch_frame [OF batch(5)] flush_keeps show ?thesis by auto
  qed
  with result show ?thesis by simp
qed

lemma queue_holds_next:
  assumes "queue_holds J B cfg q"
  shows "queue_holds J B cfg (fst (queue_next_batch F P parent q))"
proof -
  obtain q' r where next': "queue_next_batch F P parent q = (q', r)" by fastforce
  note subset = queue_next_batch_subset [OF next']
  have "B (bw_batch x)" if "x \<in> set (bq_batches q')" for x
  proof -
    from that subset consider "bw_batch x \<in> bw_batch ` set (bq_batches q)"
      | l1 p where "nbp_next_batch P parent l1 (bq_prev q) = (p, Ok (bw_batch x))" by blast
    then show ?thesis
    proof cases
      case 1
      with assms show ?thesis by (auto simp: list_all_iff)
    next
      case 2
      with assms show ?thesis using pull_batch by blast
    qed
  qed
  with subset next' assms queue_next_batch_keeps [of q F parent] show ?thesis by (simp add: list_all_iff)
qed

lemma provider_batches_ok:
  assumes "batch_provider_from F P b0 b" and "batches_ok J B cfg b0"
  shows "batches_ok J B cfg b"
  using assms(1)
proof induction
  case start
  show ?case by (rule assms(2))
next
  case (pull b parent)
  from pull.IH show ?case unfolding batch_provider_dispatch
    by (rule batches_ok_dispatch)
      (simp_all add: batch_validator_ops_def batch_queue_ops_def validator_next_batch_cfg validator_next_batch_keeps queue_holds_next)
next
  case (signal b s)
  from signal.IH show ?case unfolding batch_provider_dispatch
    by (rule batches_ok_dispatch)
      (simp_all add: batch_validator_ops_def batch_queue_ops_def validator_signal_prev queue_signal_prev queue_signal_batches signal_keeps)
next
  case (advance b)
  from advance.IH show ?case unfolding batch_provider_dispatch
    by (rule batches_ok_dispatch) (simp_all add: batch_validator_ops_def batch_queue_ops_def via_def advance_keeps)
qed

text \<open>When the property is to be spaced, what comes out is the next block.\<close>

lemma provider_next:
  assumes B: "B = batch_steps cfg" and ok: "batches_ok J B cfg b"
    and "batch_provider_next_batch F P parent b = (b', Ok sb)"
    and "0 < rc_block_time cfg" and "unat (bi_timestamp (l2_info parent)) + unat (rc_block_time cfg) < 2 ^ 64"
  shows "sb_timestamp sb = bi_timestamp (l2_info parent) + rc_block_time cfg \<and> sb_parent_hash sb = bi_hash (l2_info parent)"
proof -
  from assms(3) obtain b1 where update: "batch_attempt_update F P b = (b1, Ok ())"
    and pull: "(\<exists>v v'. bp_batch_validator b1 = Some v \<and> validator_next_batch P parent v = (v', Ok sb)) \<or>
      (\<exists>q q'. bp_batch_queue b1 = Some q \<and> queue_next_batch F P parent q = (q', Ok sb))"
    by (auto simp: batch_provider_next_batch_def pbind_eq_Ok batch_validator_ops_def batch_queue_ops_def via_eq_Ok
        split: option.splits)
  have "batches_ok J B cfg b1" using ok update by (rule batches_ok_update)
  then have "batch_provider_inv J cfg b1" and steps: "\<And>q. bp_batch_queue b1 = Some q \<Longrightarrow> queue_holds J B cfg q"
    by (auto simp: batches_ok_def)
  then have cfg: "bp_batch_validator b1 = Some v \<Longrightarrow> bv_cfg v = cfg" for v
    by (cases rule: batch_provider_inv_cases) auto
  have below: "batch_steps cfg x" if "J p" "nbp_next_batch P parent l1 p = (p', Ok x)" for p l1 p' x
    using pull_batch [OF that] B by simp
  from pull show ?thesis
  proof (elim disjE exE conjE)
    fix v v' assume v: "bp_batch_validator b1 = Some v" "validator_next_batch P parent v = (v', Ok sb)"
    from validator_next_batch_next [OF v(2)] cfg [OF v(1)] show ?thesis by simp
  next
    fix q q' assume q: "bp_batch_queue b1 = Some q" "queue_next_batch F P parent q = (q', Ok sb)"
    have J: "J (bq_prev q)" and eq: "bq_cfg q = cfg" and held: "list_all (batch_steps (bq_cfg q) \<circ> bw_batch) (bq_batches q)"
      using steps [OF q(1)] B by simp_all
    have "batch_steps (bq_cfg q) x" if "nbp_next_batch P parent l1 (bq_prev q) = (p, Ok x)" for l1 p x
      using below [OF J that] by (simp only: eq)
    from queue_next_batch_next [OF q(2) held this] assms(4,5) show ?thesis by (simp only: eq)
  qed
qed

end

interpretation any_bs: batches_from P "\<lambda>_. True" "\<lambda>_. True" for P :: "'p next_batch_provider"
  by unfold_locales simp_all

lemma reachable_inv:
  assumes "batch_provider_reachable F P cfg b"
  shows "batch_provider_inv (\<lambda>_. True) cfg b"
proof -
  obtain prev f where "batch_provider_from F P (batch_provider_new cfg prev f) b"
    using reachable_from [OF assms] by blast
  then have "batches_ok (\<lambda>_. True) (\<lambda>_. True) cfg b"
    by (rule any_bs.provider_batches_ok) (rule batches_ok_new, simp)
  then show ?thesis by (simp add: batches_ok_def)
qed

section \<open>Properties\<close>

text \<open>
  C20. In every reachable state of the batch provider exactly one of the previous stage, the queue
  and the validator is set. Whenever there is an origin, the update before each call makes the
  queue active before Holocene and the validator from Holocene on; the previous stage and the known
  L1 blocks are handed over unchanged, and nothing changes if the right one was active already.
\<close>

theorem batch_provider_follows_holocene:
  assumes "batch_provider_reachable F P cfg b" and "batch_provider_origin F P b = Some x"
  shows "length (filter id [bp_prev b \<noteq> None, bp_batch_queue b \<noteq> None, bp_batch_validator b \<noteq> None]) = 1 \<and>
    (\<exists>b'. batch_attempt_update F P b = (b', Ok ()) \<and> batch_owner b' = batch_owner b \<and> batch_active x b' \<and>
      (batch_active x b \<longrightarrow> b' = b))"
proof -
  have inv: "batch_provider_inv (\<lambda>_. True) cfg b" using assms(1) by (rule reachable_inv)
  then obtain b' where "batch_attempt_update F P b = (b', Ok ())" "batch_owner b' = batch_owner b" "batch_active x b'"
      "batch_active x b \<Longrightarrow> b' = b"
    using assms(2) by (rule batch_attempt_update_ok) blast
  moreover from inv have "length (filter id [bp_prev b \<noteq> None, bp_batch_queue b \<noteq> None, bp_batch_validator b \<noteq> None]) = 1"
    by (cases rule: batch_provider_inv_cases) simp_all
  ultimately show ?thesis by blast
qed

definition single_source :: "unit next_batch_provider" where
  "single_source = \<lparr>stg_origin = (\<lambda>_. Some (example_origins ! 1)), stg_advance_origin = (\<lambda>p. (p, Ok ())),
     stg_signal = (\<lambda>p _. (p, Ok ())), nbp_next_batch = (\<lambda>_ _ p. (p, Ok (batch.Single example_single_batch))),
     nbp_span_buffer_size = (\<lambda>_. 0), nbp_flush = (\<lambda>p. p)\<rparr>"

lemma example_origin_holocene: "is_holocene_active example_config (bi_timestamp (example_origins ! 1))"
  by (simp add: example_origins_def example_config_defs cfg_defs reached_def)

theorem batch_provider_follows_holocene_witness:
  "\<exists>b'. batch_attempt_update example_fetcher single_source (batch_provider_new example_config () ()) = (b', Ok ()) \<and>
    bp_batch_validator b' \<noteq> None \<and> batch_owner b' = batch_owner (batch_provider_new example_config () ())"
  using batch_provider_follows_holocene [OF batch_provider_reachable.new, of example_fetcher single_source example_config "()" "()"
      "example_origins ! 1"] example_origin_holocene
  by (auto simp: batch_provider_origin_def batch_provider_new_def single_source_def batch_active_def batch_attempt_update_def)

text \<open>
  C21. Take a batch provider on a batch stream on a channel reader, as the pipeline sets them up, in any
  state that pulls, signals and advances of the origin can lead to, whatever the channels below hold
  and whatever the stages below do.  Every batch it hands out, before and after Holocene, is the
  next block on the parent it was asked for: its timestamp is one block time after the parent's and
  its parent hash is the parent's hash.  So the checks of the attributes queue on a fresh batch do
  not fail.  The block time is not zero, and the timestamp of the next block does not overflow.
\<close>

theorem batch_provider_batches_next:
  assumes "batch_provider_from F (batch_stream_ops G (channel_reader_ops C P))
      (batch_provider_new cfg (batch_stream_new (channel_reader_new p cfg) cfg g) f) b"
    and "batch_provider_next_batch F (batch_stream_ops G (channel_reader_ops C P)) parent b = (b', Ok sb)"
    and "0 < rc_block_time cfg" and "unat (bi_timestamp (l2_info parent)) + unat (rc_block_time cfg) < 2 ^ 64"
  shows "sb_timestamp sb = bi_timestamp (l2_info parent) + rc_block_time cfg \<and> sb_parent_hash sb = bi_hash (l2_info parent)"
proof -
  have "batches_ok (\<lambda>b. cr_cfg (bs_prev b) = cfg) (batch_steps cfg) cfg b"
    by (rule reader_bs.provider_batches_ok [OF assms(1)], rule batches_ok_new)
      (simp add: batch_stream_new_def channel_reader_new_def)
  from reader_bs.provider_next [OF refl this assms(2-4)] show ?thesis .
qed

text \<open>
  The witness is a chain before Holocene.  Its channel holds an encoded span batch of two blocks,
  which goes through the channel reader, the batch stream and the batch queue.
\<close>

definition early_config :: rollup_config where
  "early_config = example_config\<lparr>rc_hardforks := (rc_hardforks example_config)\<lparr>holocene_time := None\<rparr>\<rparr>"

definition span_bytes :: bytes where
  "span_bytes = put_word 8 (64 :: u64) @ put_word 8 (8 :: u64) @ put_word 20 (hash20 31) @ put_word 20 (hash20 22) @
     put_word 8 (2 :: u64) @ [1] @ put_word 8 (0 :: u64) @ put_word 8 (0 :: u64)"

definition early_span :: span_batch where
  "early_span = default_span_batch\<lparr>sp_parent_check := hash20 31, sp_l1_origin_check := hash20 22,
     sp_batches := [\<lparr>el_epoch_num = 8, el_timestamp = 64, el_transactions = []\<rparr>,
       \<lparr>el_epoch_num = 8, el_timestamp = 66, el_transactions = []\<rparr>]\<rparr>"

definition early_raw :: raw_span_batch where
  "early_raw = \<lparr>rw_prefix = \<lparr>px_rel_timestamp = 64, px_l1_origin_num = 8, px_parent_check = hash20 31, px_l1_origin_check = hash20 22\<rparr>,
     rw_payload = \<lparr>py_block_count = 2, py_origin_bits = [1], py_block_tx_counts = [0, 0], py_txs = default_span_batch_transactions\<rparr>\<rparr>"

lemma example_varint:
  "varint_decode example_wire e (put_word 8 n @ rest) = Good (n, rest)" "varint_decode example_wire e (put_word 8 n) = Good (n, [])"
  by (simp_all add: varint_decode_def example_wire_def put_word_def take_word_def take_bytes_def word_of_be_decode_encode)

lemma early_txs: "decode_txs example_wire [0, 0] [] = Good (default_span_batch_transactions, [])"
  by (simp add: decode_txs_def checked_add_def MAX_SPAN_BATCH_ELEMENTS_def span_txs_decode_def decode_contract_creation_bits_def
      decode_tx_sigs_def decode_tx_nonces_def decode_tx_gases_def decode_tx_tos_def decode_tx_data_def decode_protected_bits_def
      bits_decode_def bits_buffer_len_def contract_creation_count_def default_span_batch_transactions_def Let_def)

lemma early_tx_counts:
  "decode_many (decode_block_tx_count example_wire) 2 (put_word 8 (0 :: u64) @ put_word 8 (0 :: u64)) = Good ([0, 0], [])"
  by (simp add: numeral_2_eq_2 decode_block_tx_count_def example_varint)

lemma early_raw_decode: "raw_decode example_wire span_bytes = Good (early_raw, [])"
proof -
  have "leading_zeros 1 = 7" by (simp add: leading_zeros_def bit_1_iff upt_rec)
  then show ?thesis
    by (simp add: raw_decode_def span_bytes_def decode_prefix_def example_varint fixed20.dec_enc decode_payload_def
        decode_block_count_def decode_origin_bits_def MAX_SPAN_BATCH_ELEMENTS_def
        bits_decode_def bits_buffer_len_def early_tx_counts early_txs early_raw_def)
qed

lemma early_raw_derive: "raw_derive example_wire early_raw 2 0 0 = Good early_span"
proof -
  have "block_origin_nums [1] 2 8 [] = Good [8, 8]"
    by (simp only: numeral_2_eq_2 block_origin_nums.simps) (simp add: get_bit_def)
  then show ?thesis
    by (simp add: raw_derive_def early_raw_def early_span_def full_txs_def default_span_batch_transactions_def)
qed

lemma early_fields:
  "rc_block_time early_config = 2" "cg_l2_time (rc_genesis early_config) = 0" "rc_l2_chain_id early_config = 0"
  "\<not> is_holocene_active early_config t"
  by (simp_all add: early_config_def example_config_defs cfg_defs reached_def)

lemma early_batch_decode: "batch_decode example_codecs early_config (1 # span_bytes) = Good (batch.Span early_span)"
  using early_raw_decode early_raw_derive
  by (simp add: batch_decode_def batch_type_from_def SINGLE_BATCH_TYPE_def SPAN_BATCH_TYPE_def early_fields)
    (simp add: example_codecs_def)

definition early_channel :: bytes where
  "early_channel = cd_bytes_encode example_codecs (1 # span_bytes)"

definition early_reader :: "bytes channel_reader" where
  "early_reader = channel_reader_new (8 # early_channel) early_config"

lemma early_reader_next:
  "\<exists>r. channel_reader_next_batch example_codecs (channel_source (example_origins ! 1)) early_reader = (r, Ok (batch.Span early_span))"
proof -
  let ?m = "unat (rlp_limit early_config (example_origins ! 1))"
  have len: "length early_channel \<le> 100" by (simp add: early_channel_def example_codecs_def put_word_def span_bytes_def)
  have "100 \<le> ?m" by (simp add: MAX_RLP_BYTES_PER_CHANNEL_FJORD_def MAX_RLP_BYTES_PER_CHANNEL_BEDROCK_def)
  with len have "length early_channel \<le> ?m" by linarith
  then obtain b where b: "decompress example_codecs (batch_reader_new (8 # early_channel) ?m) = (b, Good ())"
      "rd_decompressed b = early_channel" "\<not> rd_brotli_used b" "rd_data b = None" "rd_cursor b = 0"
    by (simp add: decompress_def batch_reader_new_def ZLIB_DEFLATE_COMPRESSION_METHOD_def Let_def)
      (simp add: example_codecs_def)
  have "cd_bytes_decode example_codecs early_channel = Some (1 # span_bytes, [])"
    by (simp add: early_channel_def example_codecs_def put_word_def span_bytes_def be_decode_encode)
  then have "\<exists>c. reader_next_batch example_codecs early_config b = (c, Good (Some (batch.Span early_span)))"
    using b early_batch_decode by (simp add: reader_next_batch_def decompress_def)
  with b(1) show ?thesis
    by (auto simp: channel_reader_next_batch_def set_batch_reader_def early_reader_def channel_reader_new_def channel_source_def
        read_channel_def Let_def)
qed

lemma early_span_accepted:
  "snd (span_check_batch example_fetcher early_span early_config example_origins example_head (example_origins ! 1) ()) = Some Accept"
  by (simp add: span_check_batch_def check_batch_prefix_def check_prefix_parent_def check_end_origin_def check_drift_def
      origin_position_def starting_timestamp_def final_timestamp_def starting_epoch_num_def check_parent_hash_def
      check_origin_hash_def early_span_def default_span_batch_def example_batch_defs early_config_def example_config_defs Let_def
      max_sequencer_drift_def FJORD_MAX_SEQUENCER_DRIFT_def cfg_defs reached_def DEPOSIT_TX_TYPE_def EIP7702_TX_TYPE_def)

abbreviation early_ops :: "(bytes channel_reader, unit) batch_stream next_batch_provider" where
  "early_ops \<equiv> batch_stream_ops example_fetcher (channel_reader_ops example_codecs (channel_source (example_origins ! 1)))"

abbreviation early_start :: "((bytes channel_reader, unit) batch_stream, unit) batch_provider" where
  "early_start \<equiv> batch_provider_new early_config (batch_stream_new early_reader early_config ()) ()"

definition early_provider :: "((bytes channel_reader, unit) batch_stream, unit) batch_provider" where
  "early_provider = fst (batch_provider_signal example_fetcher early_ops early_start
     (signal.Reset \<lparr>rs_l2_safe_head = example_head, rs_l1_origin = example_origins ! 0, rs_system_config = None\<rparr>))"

definition early_queue :: "((bytes channel_reader, unit) batch_stream, unit) batch_queue" where
  "early_queue = (batch_queue_new early_config (batch_stream_new early_reader early_config ()) ())
     \<lparr>bq_origin := Some (example_origins ! 0), bq_l1_blocks := [example_origins ! 0]\<rparr>"

lemma early_origin: "stg_origin early_ops b = Some (example_origins ! 1)"
  by (simp add: batch_stream_ops_def channel_reader_ops_def channel_source_def)

lemma early_provider_eq:
  "early_provider = \<lparr>bp_cfg = early_config, bp_provider = (), bp_prev = None, bp_batch_queue = Some early_queue, bp_batch_validator = None\<rparr>"
  by (simp add: early_provider_def batch_provider_signal_def batch_attempt_update_def batch_provider_new_def batch_provider_origin_def
      early_origin early_fields batch_queue_ops_def queue_signal_def early_queue_def batch_queue_new_def del: One_nat_def)
    (simp add: batch_stream_ops_def channel_reader_ops_def channel_source_def stream_signal_def channel_reader_signal_def
      batch_stream_new_def early_reader_def channel_reader_new_def next_channel_def)

lemma early_queue_next:
  "\<exists>q sb. queue_next_batch example_fetcher early_ops example_head early_queue = (q, Ok sb)"
proof -
  let ?u = "early_queue\<lparr>bq_origin := Some (example_origins ! 1), bq_l1_blocks := example_origins\<rparr>"
  have "advance_epoch example_head [example_origins ! 0] = [example_origins ! 0]" "example_origins ! 0 \<noteq> example_origins ! 1"
    "\<not> origin_behind (Some (example_origins ! 1)) example_head" "[example_origins ! 0, example_origins ! 1] = example_origins"
    by (simp_all add: origin_behind_def advance_epoch_def example_batch_defs)
  then have "queue_update_origins early_ops example_head early_queue = (?u, Ok ())"
    by (simp add: queue_update_origins_def early_origin early_queue_def batch_queue_new_def Let_def del: One_nat_def)
  moreover obtain p where pull: "nbp_next_batch early_ops example_head example_origins (bq_prev early_queue) = (p, Ok (batch.Span early_span))"
    using early_reader_next early_origin [of "bq_prev early_queue"]
    by (auto simp: batch_stream_ops_def stream_next_batch_def stream_is_active_eq early_queue_def batch_queue_new_def
        batch_stream_new_def early_fields)
      (auto simp: channel_reader_ops_def)
  let ?data = "\<lparr>bw_inclusion_block = example_origins ! 1, bw_batch = batch.Span early_span\<rparr>"
  have check: "inclusion_check_batch example_fetcher ?data early_config example_origins example_head () = ((), Some Accept)"
    using early_span_accepted by (simp add: inclusion_check_batch_def prod_eq_iff)
  let ?w = "?u\<lparr>bq_prev := p, bq_batches := [?data]\<rparr>"
  have fields: "bq_cfg early_queue = early_config" "bq_fetcher early_queue = ()" "bq_batches early_queue = []" "bq_next_spans early_queue = []"
    "example_origins \<noteq> []"
    by (simp_all add: early_queue_def batch_queue_new_def example_origins_def)
  have "load_queue example_fetcher early_ops example_head False ?u = (?w, Ok False)"
    using pull check by (simp add: load_queue_def add_batch_def fields is_drop_def is_outdated_def early_fields del: One_nat_def)
  moreover have "\<not> origin_behind (Some (example_origins ! 1)) example_head" "l2_l1_origin example_head = block_id (example_origins ! 0)"
    by (simp_all add: origin_behind_def example_batch_defs block_id_def)
  moreover obtain sb sbs where "get_singular_batches early_span example_origins example_head = Good (sb # sbs)"
    by (simp add: get_singular_batches_def early_span_def example_batch_defs)
  ultimately show ?thesis
    using check
    by (simp add: queue_next_batch_def queue_find_batch_def fields early_origin derive_next_batch_def unpack_batch_def pop_next_batch_def
        del: One_nat_def)
qed

theorem batch_provider_batches_next_witness:
  "\<exists>b' sb. batch_provider_next_batch example_fetcher early_ops example_head early_provider = (b', Ok sb) \<and>
    bp_batch_queue early_provider \<noteq> None \<and> sb_timestamp sb = 64 \<and> sb_parent_hash sb = 31"
proof -
  have run: "batch_provider_from example_fetcher early_ops early_start early_provider"
    unfolding early_provider_def by (intro batch_provider_from.intros)
  have "batch_attempt_update example_fetcher early_ops early_provider = (early_provider, Ok ())"
    by (simp add: early_provider_eq batch_attempt_update_def batch_provider_origin_def batch_queue_ops_def early_origin early_fields
        del: One_nat_def)
  with early_queue_next obtain b' sb
    where pull: "batch_provider_next_batch example_fetcher early_ops example_head early_provider = (b', Ok sb)"
    by (auto simp: batch_provider_next_batch_def) (auto simp: early_provider_eq batch_queue_ops_def)
  from batch_provider_batches_next [OF run [unfolded early_reader_def] pull]
  have "sb_timestamp sb = 64 \<and> sb_parent_hash sb = 31" by (simp add: early_fields example_head_def)
  with pull show ?thesis by (simp add: early_provider_eq)
qed

end
