(* ===== verification/Attributes_Queue.thy ===== *)
theory Attributes_Queue
  imports Attributes Batch_Provider
begin

text \<open>
  The attributes queue, \<^verbatim>\<open>crates/protocol/derive/src/stages/attributes_queue.rs\<close>: it takes the next
  batch from the batch provider, checks it against the parent, lets the attributes builder prepare
  the attributes of the epoch and appends the transactions of the batch.

  Shown: the stage's contract; what the attributes consist of, and that the block they build has
  the epoch of the batch as its L1 origin.
\<close>

section \<open>The stage\<close>

type_synonym 'b builder = "l2_block_info \<Rightarrow> block_num_hash \<Rightarrow> 'b \<Rightarrow> 'b \<times> op_payload_attributes pres"

record 'p next_attributes_provider = "'p stage" +
  nap_next_attributes :: "l2_block_info \<Rightarrow> 'p \<Rightarrow> 'p \<times> op_attributes_with_parent pres"

record ('p, 'b) attributes_queue =
  aq_cfg :: rollup_config
  aq_prev :: 'p
  aq_is_last_in_span :: bool
  aq_batch :: "single_batch option"
  aq_builder :: 'b

definition attributes_queue_new :: "rollup_config \<Rightarrow> 'p \<Rightarrow> 'b \<Rightarrow> ('p, 'b) attributes_queue" where
  "attributes_queue_new cfg prev builder =
     \<lparr>aq_cfg = cfg, aq_prev = prev, aq_is_last_in_span = False, aq_batch = None, aq_builder = builder\<rparr>"

definition attributes_load_batch ::
    "'p attributes_provider \<Rightarrow> l2_block_info \<Rightarrow> ('p, 'b) attributes_queue \<Rightarrow>
     ('p, 'b) attributes_queue \<times> single_batch pres" where
  "attributes_load_batch P parent q =
     pbind (if aq_batch q = None
            then pbind (via (\<lambda>p. q\<lparr>aq_prev := p\<rparr>) (ap_next_batch P parent (aq_prev q))) (\<lambda>q batch.
              (q\<lparr>aq_batch := Some batch, aq_is_last_in_span := ap_is_last_in_span P (aq_prev q)\<rparr>, Ok ()))
            else (q, Ok ())) (\<lambda>q _.
     ok_or q (aq_batch q) (temp Eof))"

definition create_next_attributes ::
    "'b builder \<Rightarrow> single_batch \<Rightarrow> l2_block_info \<Rightarrow> ('p, 'b) attributes_queue \<Rightarrow>
     ('p, 'b) attributes_queue \<times> op_payload_attributes pres" where
  "create_next_attributes AB batch parent q =
     (if sb_parent_hash batch \<noteq> bi_hash (l2_info parent)
      then (q, Err (pipeline_error_kind.Reset (BadParentHash (sb_parent_hash batch) (bi_hash (l2_info parent)))))
      else
        let actual = bi_timestamp (l2_info parent) + rc_block_time (aq_cfg q) in
        if actual \<noteq> sb_timestamp batch
        then (q, Err (pipeline_error_kind.Reset (BadTimestamp (sb_timestamp batch) actual)))
        else pbind (via (\<lambda>b. q\<lparr>aq_builder := b\<rparr>) (AB parent (single_epoch batch) (aq_builder q))) (\<lambda>q attributes.
          let attributes = attributes\<lparr>opa_no_tx_pool := Some True\<rparr> in
          (q, Ok (case opa_transactions attributes of
                    Some txs \<Rightarrow> attributes\<lparr>opa_transactions := Some (txs @ sb_transactions batch)\<rparr>
                  | None \<Rightarrow> if sb_transactions batch \<noteq> []
                      then attributes\<lparr>opa_transactions := Some (sb_transactions batch)\<rparr> else attributes))))"

definition next_attributes ::
    "'p attributes_provider \<Rightarrow> 'b builder \<Rightarrow> l2_block_info \<Rightarrow> ('p, 'b) attributes_queue \<Rightarrow>
     ('p, 'b) attributes_queue \<times> op_attributes_with_parent pres" where
  "next_attributes P AB parent q =
     pbind (attributes_load_batch P parent q) (\<lambda>q batch.
     pbind (create_next_attributes AB batch parent q) (\<lambda>q attributes.
     pbind (ok_or q (stg_origin P (aq_prev q)) (crit MissingOrigin)) (\<lambda>q origin.
       (q\<lparr>aq_batch := None, aq_is_last_in_span := False\<rparr>,
        Ok \<lparr>oap_inner = attributes, oap_parent = parent, oap_derived_from = Some origin,
          oap_is_last_in_span = aq_is_last_in_span q\<rparr>))))"

definition attributes_queue_signal ::
    "'p attributes_provider \<Rightarrow> ('p, 'b) attributes_queue \<Rightarrow> signal \<Rightarrow> ('p, 'b) attributes_queue \<times> unit pres" where
  "attributes_queue_signal P q s =
     (let to_prev = (\<lambda>q. via (\<lambda>p. q\<lparr>aq_prev := p\<rparr>) (stg_signal P (aq_prev q) s)) in
      case s of
        signal.Reset _ \<Rightarrow> pbind (to_prev q) (\<lambda>q _. (q\<lparr>aq_batch := None, aq_is_last_in_span := False\<rparr>, Ok ()))
      | Activation _ \<Rightarrow> pbind (to_prev q) (\<lambda>q _. (q\<lparr>aq_batch := None, aq_is_last_in_span := False\<rparr>, Ok ()))
      | FlushChannel \<Rightarrow> to_prev (q\<lparr>aq_batch := None\<rparr>)
      | ProvideBlock _ \<Rightarrow> to_prev q)"

definition attributes_queue_ops ::
    "'p attributes_provider \<Rightarrow> 'b builder \<Rightarrow> ('p, 'b) attributes_queue next_attributes_provider" where
  "attributes_queue_ops P AB =
     \<lparr>stg_origin = (\<lambda>q. stg_origin P (aq_prev q)),
      stg_advance_origin = (\<lambda>q. via (\<lambda>p. q\<lparr>aq_prev := p\<rparr>) (stg_advance_origin P (aq_prev q))),
      stg_signal = attributes_queue_signal P,
      nap_next_attributes = next_attributes P AB\<rparr>"


section \<open>The stage's contract\<close>

text \<open>What the top of the pipeline promises: pulling attributes leaves the origin alone.\<close>

locale next_attributes_stage = stable_pull P I "\<lambda>parent. nap_next_attributes P parent"
  for P :: "'p next_attributes_provider" and I

lemma attributes_queue_signal_prev:
  "aq_prev (fst (attributes_queue_signal P q s)) = fst (stg_signal P (aq_prev q) s)"
  "snd (attributes_queue_signal P q s) = snd (stg_signal P (aq_prev q) s)"
  by (cases s; cases "stg_signal P (aq_prev q) s"; cases "snd (stg_signal P (aq_prev q) s)";
      force simp: attributes_queue_signal_def)+

lemma attributes_queue_contract:
  assumes "stage_contract P I"
  shows "stage_contract (attributes_queue_ops P AB) (\<lambda>q. I (aq_prev q))"
  by (rule stage_contract_lift_prev [where prev = aq_prev, OF assms])
    (simp_all add: attributes_queue_ops_def via_def attributes_queue_signal_prev)

lemma next_attributes_prev:
  "aq_prev (fst (next_attributes P AB parent q)) =
     (if aq_batch q = None then fst (ap_next_batch P parent (aq_prev q)) else aq_prev q)"
proof -
  have create: "aq_prev (fst (create_next_attributes AB b parent r)) = aq_prev r" for b and r :: "('a, 'b) attributes_queue"
    by (cases "AB parent (single_epoch b) (aq_builder r)"; cases "snd (AB parent (single_epoch b) (aq_builder r))")
      (auto simp: create_next_attributes_def Let_def)
  obtain r b where load: "attributes_load_batch P parent q = (r, b)" by fastforce
  have prev: "aq_prev r = (if aq_batch q = None then fst (ap_next_batch P parent (aq_prev q)) else aq_prev q)"
    using load by (cases "ap_next_batch P parent (aq_prev q)"; cases "snd (ap_next_batch P parent (aq_prev q))")
      (auto simp: attributes_load_batch_def split: if_splits)
  show ?thesis
  proof (cases b)
    case (Ok sb)
    obtain r' a where "create_next_attributes AB sb parent r = (r', a)" by fastforce
    moreover have "aq_prev r' = aq_prev r" using create [of sb r] calculation by simp
    ultimately show ?thesis using load Ok prev
      by (cases a; cases "stg_origin P (aq_prev r)") (simp_all add: next_attributes_def)
  qed (use load prev in \<open>simp_all add: next_attributes_def\<close>)
qed

sublocale attributes_stage \<subseteq> aq: next_attributes_stage "attributes_queue_ops P AB" "\<lambda>q. I (aq_prev q)"
  for AB :: "'b builder"
  by (rule next_attributes_stage.intro, rule stable_pull.intro, rule attributes_queue_contract, rule stage_contract_axioms)
    (unfold_locales, simp_all add: attributes_queue_ops_def next_attributes_prev pull_origin pull_inv)

section \<open>The batch behind the attributes\<close>

text \<open>The batch that the queue holds or else pulls.\<close>

definition queued_batch :: "'p attributes_provider \<Rightarrow> l2_block_info \<Rightarrow> ('p, 'b) attributes_queue \<Rightarrow> single_batch option" where
  "queued_batch P parent q =
     (case aq_batch q of
        Some b \<Rightarrow> Some b
      | None \<Rightarrow> (case ap_next_batch P parent (aq_prev q) of (_, Ok b) \<Rightarrow> Some b | _ \<Rightarrow> None))"

lemma next_attributes_Ok:
  assumes "next_attributes P AB parent q = (q', Ok a)"
  obtains sb b' inner where "queued_batch P parent q = Some sb" "AB parent (single_epoch sb) (aq_builder q) = (b', Ok inner)"
    "sb_parent_hash sb = bi_hash (l2_info parent)" "sb_timestamp sb = bi_timestamp (l2_info parent) + rc_block_time (aq_cfg q)"
    "oap_parent a = parent" "oap_derived_from a = stg_origin P (aq_prev q')" "oap_derived_from a \<noteq> None"
    "\<And>txs. opa_transactions inner = Some txs \<Longrightarrow> opa_transactions (oap_inner a) = Some (txs @ sb_transactions sb)"
    "opa_payload_attributes (oap_inner a) = opa_payload_attributes inner"
    "opa_no_tx_pool (oap_inner a) = Some True" "aq_batch q' = None"
proof -
  from assms obtain r sb r' inner where load: "attributes_load_batch P parent q = (r, Ok sb)"
    and create: "create_next_attributes AB sb parent r = (r', Ok inner)"
    and origin: "stg_origin P (aq_prev r') = oap_derived_from a" "oap_derived_from a \<noteq> None"
    and a: "oap_inner a = inner" "oap_parent a = parent" "q' = r'\<lparr>aq_batch := None, aq_is_last_in_span := False\<rparr>"
    by (auto simp: next_attributes_def pbind_eq_Ok ok_or_def split: option.splits)
  have sb: "queued_batch P parent q = Some sb" and r: "aq_builder r = aq_builder q" "aq_cfg r = aq_cfg q"
    using load
    by (cases "aq_batch q"; cases "ap_next_batch P parent (aq_prev q)"; cases "snd (ap_next_batch P parent (aq_prev q))";
        force simp: attributes_load_batch_def queued_batch_def)+
  from create have checks: "sb_parent_hash sb = bi_hash (l2_info parent)"
    "sb_timestamp sb = bi_timestamp (l2_info parent) + rc_block_time (aq_cfg r)"
    by (auto simp: create_next_attributes_def Let_def split: if_splits)
  with create obtain b' i where "AB parent (single_epoch sb) (aq_builder r) = (b', Ok i)"
    and inner: "inner = (let i = i\<lparr>opa_no_tx_pool := Some True\<rparr> in case opa_transactions i of
        Some txs \<Rightarrow> i\<lparr>opa_transactions := Some (txs @ sb_transactions sb)\<rparr>
      | None \<Rightarrow> if sb_transactions sb \<noteq> [] then i\<lparr>opa_transactions := Some (sb_transactions sb)\<rparr> else i)"
    by (auto simp: create_next_attributes_def pbind_eq_Ok via_eq_Ok Let_def)
  moreover have "\<And>txs. opa_transactions i = Some txs \<Longrightarrow> opa_transactions inner = Some (txs @ sb_transactions sb)"
    "opa_payload_attributes inner = opa_payload_attributes i" "opa_no_tx_pool inner = Some True"
    by (simp_all add: inner Let_def split: option.split)
  moreover note checks
  ultimately show thesis using sb r origin a by (intro that [of sb b' i]) simp_all
qed


section \<open>Properties\<close>

text \<open>
  C23. Attributes come from the batch that the queue holds or pulls, which is the next block on the
  parent. Their transactions are the L1 info transaction, the deposits of the epoch (in its first
  block only), the upgrades that the block activates and then the transactions of the batch, all of
  them, in this order; they are stamped with the current origin. A block built from them, past
  genesis, has the epoch of the batch as its L1 origin, and a sequence number that counts from 0 in
  each epoch. The L1 provider is assumed to return for a hash the header with that hash.
\<close>

theorem next_attributes_follow_batch:
  assumes "next_attributes P (prepare_payload_attributes E F G) parent q = (q', Ok a)"
    and "aq_cfg q = cfg" and "ab_rollup_cfg (aq_builder q) = cfg"
  shows "\<exists>sb tx deposits. queued_batch P parent q = Some sb \<and> sb_parent_hash sb = bi_hash (l2_info parent) \<and>
    sb_timestamp sb = pa_timestamp (opa_payload_attributes (oap_inner a)) \<and>
    oap_parent a = parent \<and> oap_derived_from a = stg_origin P (aq_prev q') \<and>
    opa_transactions (oap_inner a) = Some (dl_encode_2718 E tx # deposits @
      upgrade_transactions E cfg (bi_timestamp (l2_info parent)) (sb_timestamp sb) @ sb_transactions sb) \<and>
    (if bnh_number (l2_l1_origin parent) = sb_epoch_num sb then deposits = []
     else \<exists>f f' rs. cp_receipts_by_hash F f (sb_epoch_hash sb) = (f', Inr rs) \<and>
       derive_deposits E (sb_epoch_hash sb) rs (rc_deposit_contract_address cfg) = Inr deposits) \<and>
    (\<forall>block txs. header_of F (single_epoch sb) \<longrightarrow> built_from E tx txs block \<longrightarrow>
      ob_number block \<noteq> bnh_number (cg_l2 (rc_genesis cfg)) \<longrightarrow>
      from_block_and_genesis block (rc_genesis cfg) = Inr \<lparr>l2_info = block_info_from block, l2_l1_origin = single_epoch sb,
        l2_seq_num = (if bnh_number (l2_l1_origin parent) = sb_epoch_num sb then l2_seq_num parent + 1 else 0)\<rparr>)"
proof -
  obtain sb b' inner where sb: "queued_batch P parent q = Some sb"
    and build: "prepare_payload_attributes E F G parent (single_epoch sb) (aq_builder q) = (b', Ok inner)"
    and checks: "sb_parent_hash sb = bi_hash (l2_info parent)"
      "sb_timestamp sb = bi_timestamp (l2_info parent) + rc_block_time cfg"
    and a: "oap_parent a = parent" "oap_derived_from a = stg_origin P (aq_prev q')"
      "opa_payload_attributes (oap_inner a) = opa_payload_attributes inner"
    and txs: "\<And>txs. opa_transactions inner = Some txs \<Longrightarrow> opa_transactions (oap_inner a) = Some (txs @ sb_transactions sb)"
    using assms(2) by (auto intro: next_attributes_Ok [OF assms(1)])
  from prepare_payload_attributes_ok [OF build] obtain d tx
    where d: "epoch_ok E F cfg parent (single_epoch sb) d" and tx: "attributes_ok E cfg parent d tx inner"
    by (auto simp: assms(3))
  have origin: "from_block_and_genesis block (rc_genesis cfg) = Inr \<lparr>l2_info = block_info_from block, l2_l1_origin = single_epoch sb,
        l2_seq_num = (if bnh_number (l2_l1_origin parent) = sb_epoch_num sb then l2_seq_num parent + 1 else 0)\<rparr>"
    if "header_of F (single_epoch sb)" "built_from E tx txs block" "ob_number block \<noteq> bnh_number (cg_l2 (rc_genesis cfg))" for block txs
    using built_from_origin [OF d tx that] by (simp add: single_epoch_def)
  have deposits: "if bnh_number (l2_l1_origin parent) = sb_epoch_num sb then ed_deposit_transactions d = []
     else \<exists>f f' rs. cp_receipts_by_hash F f (sb_epoch_hash sb) = (f', Inr rs) \<and>
       derive_deposits E (sb_epoch_hash sb) rs (rc_deposit_contract_address cfg) = Inr (ed_deposit_transactions d)"
    using d by (auto simp: epoch_ok_def single_epoch_def split: if_splits)
  show ?thesis
    using sb checks a txs tx deposits origin
    by (intro exI [of _ sb] exI [of _ tx] exI [of _ "ed_deposit_transactions d"]) (auto simp: attributes_ok_def Let_def)
qed


text \<open>The first block of an epoch with a deposit.\<close>

definition example_builder_lib :: "unit builder_lib" where
  "example_builder_lib =
     \<lparr>dl_user_source_hash = (\<lambda>h i. h + ucast i), dl_encode_2718 = (\<lambda>tx. 0x7E # dt_input tx),
      hl_source_hash = (\<lambda>s. word_of_nat (length s)), hl_bytecode = (\<lambda>_. []), hl_create = (\<lambda>a _. a), hl_keccak256 = (\<lambda>_. []),
      bd_abi = word_abi, bd_l1_info_source_hash = (\<lambda>h n. h + ucast n),
      bd_blob = \<lparr>bl_osaka = (), bl_prague = (), bl_cancun = (), bl_blob_fee = \<lambda>_ _. None\<rparr>\<rparr>"

definition example_header :: l1_block_header where
  "example_header = \<lparr>lh_number = 8, lh_timestamp = 62, lh_base_fee_per_gas = Some 7, lh_hash = 22, lh_parent_hash = 21,
     lh_mix_hash = 5, lh_parent_beacon_block_root = None\<rparr>"

definition example_header_provider :: "unit header_provider" where
  "example_header_provider =
     \<lparr>cp_block_info_by_number = (\<lambda>f _. (f, Inl (temp Eof))),
      cp_receipts_by_hash = (\<lambda>f _. (f, Inr [\<lparr>rcpt_status = Eip658 True, rcpt_logs = [emitted_log 0 example_deposit]\<rparr>])),
      cp_header_by_hash = (\<lambda>f _. (f, Inr example_header))\<rparr>"

definition example_l2_provider :: "unit l2_chain_provider" where
  "example_l2_provider =
     \<lparr>bvp_l2_block_info_by_number = (\<lambda>f _. (f, Inl [])), bvp_block_by_number = (\<lambda>f _. (f, Inl [])),
      l2p_system_config_by_number = (\<lambda>g _ _. (g, Inr default_system_config))\<rparr>"

definition example_batch_source :: "unit attributes_provider" where
  "example_batch_source =
     \<lparr>stg_origin = (\<lambda>_. Some (example_origins ! 1)), stg_advance_origin = (\<lambda>p. (p, Ok ())),
      stg_signal = (\<lambda>p _. (p, Ok ())), ap_next_batch = (\<lambda>_ p. (p, Ok example_single_batch)), ap_is_last_in_span = (\<lambda>_. True)\<rparr>"

definition example_l1_config :: "unit l1_chain_config" where
  "example_l1_config = \<lparr>lc_active_scheduled_params = \<lambda>_. None, lc_osaka_time = None, lc_prague_time = None\<rparr>"

definition example_attributes_queue :: "(unit, (unit, unit, unit) attributes_builder) attributes_queue" where
  "example_attributes_queue = attributes_queue_new example_config () (attributes_builder_new example_config example_l1_config () ())"

abbreviation example_builder :: "(unit, unit, unit) attributes_builder builder" where
  "example_builder \<equiv> prepare_payload_attributes example_builder_lib example_header_provider example_l2_provider"

lemma example_epoch:
  "\<exists>d. first_in_epoch example_builder_lib example_header_provider example_head (single_epoch example_single_batch) default_system_config
     (attributes_builder_new example_config example_l1_config () ()) =
     (attributes_builder_new example_config example_l1_config () (), Ok d) \<and> ed_l1_header d = example_header \<and>
     ed_deposit_transactions d = [0x7E # [9]]"
proof -
  let ?rs = "[\<lparr>rcpt_status = Eip658 True, rcpt_logs = [emitted_log 0 example_deposit]\<rparr>]"
  have "derive_deposits example_builder_lib 22 ?rs 0 = Inr [0x7E # [9]]"
    using derive_deposits_block [of ?rs 0 "[Inl example_deposit]" example_builder_lib 22]
    by (simp add: block_logs_def example_deposit_def example_builder_lib_def user_deposit_tx_def)
  moreover have "update_with_receipts word_abi ?rs 0 e sys = (sys, Inr False)" for e sys
    by (simp add: update_with_receipts_def is_config_log_def emitted_log_def CONFIG_UPDATE_TOPIC_def DEPOSIT_EVENT_ABI_HASH_def)
  ultimately show ?thesis
    by (simp add: first_in_epoch_def fetch_defs example_header_provider_def attributes_builder_new_def single_epoch_def
        example_batch_defs example_header_def example_builder_lib_def example_config_defs)
qed

lemma example_parts:
  "rc_block_time example_config = 2" "bi_timestamp (l2_info example_head) = 62" "lh_timestamp example_header = 62"
  "sb_parent_hash example_single_batch = bi_hash (l2_info example_head)" "sb_timestamp example_single_batch = 64"
  by (simp_all add: example_config_defs example_batch_defs example_header_def)

lemma example_next_attributes:
  "\<exists>q' a. next_attributes example_batch_source example_builder example_head example_attributes_queue = (q', Ok a)"
proof -
  let ?b = "attributes_builder_new example_config example_l1_config () ()"
  obtain d where d: "first_in_epoch example_builder_lib example_header_provider example_head (single_epoch example_single_batch)
      default_system_config ?b = (?b, Ok d)" "ed_l1_header d = example_header"
    using example_epoch by blast
  obtain i tx where "try_new_with_deposit_tx (bd_l1_info_source_hash example_builder_lib) (bd_blob example_builder_lib) example_config
      example_l1_config (ed_sys_config d) (ed_sequence_number d) (l1_header.truncate example_header) 64 = Inr (i, tx)"
    by (rule try_new_with_deposit_tx_carried)
  then have "\<exists>a. assemble_attributes example_builder_lib example_head d ?b = (?b, Ok a)"
    using d(2) example_parts by (simp add: assemble_attributes_def attributes_builder_new_def Let_def)
  then have "\<exists>a. example_builder example_head (single_epoch example_single_batch) ?b = (?b, Ok a)"
    using d(1) by (simp add: prepare_payload_attributes_def fetch_defs example_l2_provider_def)
      (simp add: attributes_builder_new_def example_batch_defs single_epoch_def)
  then show ?thesis
    by (auto simp: next_attributes_def attributes_load_batch_def create_next_attributes_def example_attributes_queue_def
        attributes_queue_new_def example_batch_source_def example_parts Let_def)
qed

theorem next_attributes_follow_batch_witness:
  "\<exists>q' a (tx :: tx_deposit) deposit. next_attributes example_batch_source example_builder example_head example_attributes_queue = (q', Ok a) \<and>
    opa_transactions (oap_inner a) = Some [0x7E # dt_input tx, deposit, [0x02, 1, 2]] \<and>
    from_block_and_genesis \<lparr>ob_number = 31, ob_hash = 32, ob_parent_hash = 31, ob_timestamp = 64, ob_gas_limit = 0, ob_extra_data = [],
        ob_transactions = [Deposit (dt_input tx) (0x7E # dt_input tx)]\<rparr> (rc_genesis example_config) =
      Inr \<lparr>l2_info = \<lparr>bi_hash = 32, bi_number = 31, bi_parent_hash = 31, bi_timestamp = 64\<rparr>,
        l2_l1_origin = \<lparr>bnh_number = 8, bnh_hash = 22\<rparr>, l2_seq_num = 0\<rparr>"
proof -
  obtain q' a where a: "next_attributes example_batch_source example_builder example_head example_attributes_queue = (q', Ok a)"
    using example_next_attributes by blast
  have cfg: "aq_cfg example_attributes_queue = example_config" "ab_rollup_cfg (aq_builder example_attributes_queue) = example_config"
    by (simp_all add: example_attributes_queue_def attributes_queue_new_def attributes_builder_new_def)
  have batch: "queued_batch example_batch_source example_head example_attributes_queue = Some example_single_batch"
    by (simp add: queued_batch_def example_batch_source_def example_attributes_queue_def attributes_queue_new_def)
  have header: "header_of example_header_provider (single_epoch example_single_batch)"
    by (simp add: header_of_def example_header_provider_def example_header_def single_epoch_def example_single_batch_def)
  have upgrades: "upgrade_transactions example_builder_lib example_config 62 64 = []"
    by (simp add: upgrade_transactions_def cfg_defs reached_def example_config_defs)
  have deposits: "\<exists>d. deposits = [d]"
    if "\<exists>f f' rs. cp_receipts_by_hash example_header_provider f (sb_epoch_hash example_single_batch) = (f', Inr rs) \<and>
       derive_deposits example_builder_lib (sb_epoch_hash example_single_batch) rs (rc_deposit_contract_address example_config) = Inr deposits"
    for deposits
    using that derive_deposits_block [of _ 0 "[Inl example_deposit]" example_builder_lib]
    by (auto simp: example_header_provider_def example_config_defs block_logs_def example_deposit_def)
  let ?block = "\<lambda>tx. \<lparr>ob_number = 31, ob_hash = 32, ob_parent_hash = 31, ob_timestamp = 64, ob_gas_limit = 0, ob_extra_data = [],
        ob_transactions = [Deposit (dt_input tx) (0x7E # dt_input tx)]\<rparr>"
  have epochs: "bnh_number (l2_l1_origin example_head) \<noteq> sb_epoch_num example_single_batch"
    "single_epoch example_single_batch = \<lparr>bnh_number = 8, bnh_hash = 22\<rparr>" "sb_transactions example_single_batch = [[0x02, 1, 2]]"
    by (simp_all add: example_batch_defs single_epoch_def)
  have built: "built_from example_builder_lib tx [] (?block tx)" "ob_number (?block tx) \<noteq> bnh_number (cg_l2 (rc_genesis example_config))" for tx
    by (simp_all add: built_from_def example_builder_lib_def example_config_defs)
  obtain tx ds where txs: "opa_transactions (oap_inner a) = Some (dl_encode_2718 example_builder_lib tx # ds @ [[0x02, 1, 2]])" "\<exists>d. ds = [d]"
    and origin: "\<And>txs block. built_from example_builder_lib tx txs block \<Longrightarrow>
      ob_number block \<noteq> bnh_number (cg_l2 (rc_genesis example_config)) \<Longrightarrow>
      from_block_and_genesis block (rc_genesis example_config) = Inr \<lparr>l2_info = block_info_from block,
        l2_l1_origin = \<lparr>bnh_number = 8, bnh_hash = 22\<rparr>, l2_seq_num = 0\<rparr>"
    using next_attributes_follow_batch [OF a cfg] header deposits by (fastforce simp: batch upgrades example_parts epochs)
  from txs obtain d where "opa_transactions (oap_inner a) = Some [0x7E # dt_input tx, d, [0x02, 1, 2]]"
    by (auto simp: example_builder_lib_def)
  with a origin [OF built] show ?thesis
    by (intro exI [of _ q'] exI [of _ a] exI [of _ tx] exI [of _ d]) (simp add: block_info_from_def)
qed

end
