(* ===== verification/Pipeline.thy ===== *)
theory Pipeline
  imports Attributes_Queue
begin

text \<open>
  The derivation pipeline, \<^verbatim>\<open>crates/protocol/derive/src/pipeline/{core,builder,types}.rs\<close>: the stack of
  stages from the L1 traversal to the attributes queue, the queue of prepared attributes, and the
  builder that puts them together, with the polling or the indexed traversal at the bottom.

  Shown: the whole stack meets the contract of a stage, so that the origin of a pipeline only moves
  to child blocks and to the origins of resets; attributes come out in the order in which steps
  prepared them, each on the cursor of its step.
\<close>

section \<open>The stack of stages\<close>

definition validation :: "'g l2_chain_provider \<Rightarrow> 'g batch_validation_provider" where
  "validation G = batch_validation_provider.truncate G"

type_synonym ('d, 't, 'g) batch_provider_stage =
  "(('d, 't) l1_retrieval frame_queue channel_provider channel_reader, 'g) batch_stream"

type_synonym ('d, 't, 'g, 'b) attributes_queue_stage = "((('d, 't, 'g) batch_provider_stage, 'g) batch_provider, 'b) attributes_queue"

definition attributes_queue_stage ::
    "'b builder \<Rightarrow> 'g l2_chain_provider \<Rightarrow> 'c codecs \<Rightarrow> 'd data_availability_provider \<Rightarrow> 't l1_retrieval_provider \<Rightarrow>
     ('d, 't, 'g, 'b) attributes_queue_stage next_attributes_provider" where
  "attributes_queue_stage AB G C D T =
     attributes_queue_ops (batch_provider_ops (validation G) (batch_stream_ops (validation G)
       (channel_reader_ops C (channel_provider_ops (frame_queue_ops (l1_retrieval_ops D T)))))) AB"

section \<open>The pipeline\<close>

record ('s, 'g) derivation_pipeline =
  dp_attributes :: 's
  dp_prepared :: "op_attributes_with_parent list"
  dp_rollup_config :: rollup_config
  dp_l2_chain_provider :: 'g

definition pipeline_new :: "'s \<Rightarrow> rollup_config \<Rightarrow> 'g \<Rightarrow> ('s, 'g) derivation_pipeline" where
  "pipeline_new attributes rollup_config l2_chain_provider =
     \<lparr>dp_attributes = attributes, dp_prepared = [], dp_rollup_config = rollup_config,
      dp_l2_chain_provider = l2_chain_provider\<rparr>"

definition pipeline_origin :: "'s next_attributes_provider \<Rightarrow> ('s, 'g) derivation_pipeline \<Rightarrow> block_info option" where
  "pipeline_origin S p = stg_origin S (dp_attributes p)"

definition pipeline_next :: "('s, 'g) derivation_pipeline \<Rightarrow> ('s, 'g) derivation_pipeline \<times> op_attributes_with_parent option" where
  "pipeline_next p = (case dp_prepared p of [] \<Rightarrow> (p, None) | a # as \<Rightarrow> (p\<lparr>dp_prepared := as\<rparr>, Some a))"

definition pipeline_peek :: "('s, 'g) derivation_pipeline \<Rightarrow> op_attributes_with_parent option" where
  "pipeline_peek p = (case dp_prepared p of [] \<Rightarrow> None | a # _ \<Rightarrow> Some a)"

definition pipeline_system_config_by_number ::
    "'g l2_chain_provider \<Rightarrow> u64 \<Rightarrow> ('s, 'g) derivation_pipeline \<Rightarrow> ('s, 'g) derivation_pipeline \<times> system_config pres" where
  "pipeline_system_config_by_number G n p =
     via (\<lambda>g. p\<lparr>dp_l2_chain_provider := g\<rparr>)
       (of_result (l2p_system_config_by_number G (dp_l2_chain_provider p) n (dp_rollup_config p)))"

definition signal_attributes ::
    "'s next_attributes_provider \<Rightarrow> signal \<Rightarrow> ('s, 'g) derivation_pipeline \<Rightarrow> ('s, 'g) derivation_pipeline \<times> unit pres" where
  "signal_attributes S s p = via (\<lambda>a. p\<lparr>dp_attributes := a\<rparr>) (stg_signal S (dp_attributes p) s)"

text \<open>A reset or activation: the system config of the safe head is put into the signal; an \<^verbatim>\<open>Eof\<close> is ignored.\<close>

definition signal_reset ::
    "'g l2_chain_provider \<Rightarrow> 's next_attributes_provider \<Rightarrow> l2_block_info \<Rightarrow> signal \<Rightarrow> ('s, 'g) derivation_pipeline \<Rightarrow>
     ('s, 'g) derivation_pipeline \<times> unit pres" where
  "signal_reset G S l2_safe_head s p =
     pbind (pipeline_system_config_by_number G (bi_number (l2_info l2_safe_head)) p) (\<lambda>p system_config.
       case signal_attributes S (with_system_config s system_config) p of
         (p, Err e) \<Rightarrow> if e = temp Eof then (p, Ok ()) else (p, Err e)
       | r \<Rightarrow> r)"

definition pipeline_signal ::
    "'g l2_chain_provider \<Rightarrow> 's next_attributes_provider \<Rightarrow> ('s, 'g) derivation_pipeline \<Rightarrow> signal \<Rightarrow>
     ('s, 'g) derivation_pipeline \<times> unit pres" where
  "pipeline_signal G S p s =
     (case s of
        signal.Reset r \<Rightarrow> signal_reset G S (rs_l2_safe_head r) s p
      | Activation r \<Rightarrow> signal_reset G S (as_l2_safe_head r) s p
      | FlushChannel \<Rightarrow> signal_attributes S s p
      | ProvideBlock _ \<Rightarrow> signal_attributes S s p)"

text \<open>A step; \<open>None\<close> is a panic in one of the stages.\<close>

definition pipeline_step ::
    "'s next_attributes_provider \<Rightarrow> l2_block_info \<Rightarrow> ('s, 'g) derivation_pipeline \<Rightarrow>
     ('s, 'g) derivation_pipeline \<times> step_result option" where
  "pipeline_step S cursor p =
     (case nap_next_attributes S cursor (dp_attributes p) of
        (s, Ok a) \<Rightarrow> (p\<lparr>dp_attributes := s, dp_prepared := dp_prepared p @ [a]\<rparr>, Some PreparedAttributes)
      | (s, Panicked) \<Rightarrow> (p\<lparr>dp_attributes := s\<rparr>, None)
      | (s, Err e) \<Rightarrow>
          (case e of
             Temporary Eof \<Rightarrow>
               (case stg_advance_origin S s of
                  (s, Ok _) \<Rightarrow> (p\<lparr>dp_attributes := s\<rparr>, Some AdvancedOrigin)
                | (s, Err e) \<Rightarrow> (p\<lparr>dp_attributes := s\<rparr>, Some (OriginAdvanceErr e))
                | (s, Panicked) \<Rightarrow> (p\<lparr>dp_attributes := s\<rparr>, None))
           | _ \<Rightarrow> (p\<lparr>dp_attributes := s\<rparr>, Some (StepFailed e))))"

section \<open>The builder\<close>

record ('b, 'f, 'g, 'd) pipeline_builder =
  pb_l2_chain_provider :: "'g option"
  pb_dap_source :: "'d option"
  pb_chain_provider :: "'f option"
  pb_builder :: "'b option"
  pb_origin :: "block_info option"
  pb_rollup_config :: "rollup_config option"

definition pipeline_builder_new :: "('b, 'f, 'g, 'd) pipeline_builder" where
  "pipeline_builder_new =
     \<lparr>pb_l2_chain_provider = None, pb_dap_source = None, pb_chain_provider = None, pb_builder = None,
      pb_origin = None, pb_rollup_config = None\<rparr>"

text \<open>The stack on a traversal stage.\<close>

definition stack_new :: "rollup_config \<Rightarrow> 't \<Rightarrow> 'd \<Rightarrow> 'g \<Rightarrow> 'b \<Rightarrow> ('d, 't, 'g, 'b) attributes_queue_stage" where
  "stack_new cfg l1_traversal dap_source l2_chain_provider attributes_builder =
     attributes_queue_new cfg
       (batch_provider_new cfg
         (batch_stream_new
           (channel_reader_new (channel_provider_new cfg (frame_queue_new (l1_retrieval_new l1_traversal dap_source) cfg)) cfg)
           cfg l2_chain_provider)
         l2_chain_provider)
       attributes_builder"

text \<open>Building fails (\<^verbatim>\<open>expect\<close>) when a part is missing.\<close>

definition build_polled ::
    "('b, 'f, 'g, 'd) pipeline_builder \<Rightarrow>
     (('d, 'f polling_traversal, 'g, 'b) attributes_queue_stage, 'g) derivation_pipeline option" where
  "build_polled b =
     (case (pb_rollup_config b, pb_chain_provider b, pb_l2_chain_provider b, pb_dap_source b, pb_builder b, pb_origin b) of
        (Some cfg, Some chain_provider, Some l2_chain_provider, Some dap_source, Some attributes_builder, Some origin) \<Rightarrow>
          let l1_traversal = (polling_new chain_provider cfg)\<lparr>pt_block := Some origin\<rparr> in
          Some (pipeline_new (stack_new cfg l1_traversal dap_source l2_chain_provider attributes_builder) cfg l2_chain_provider)
      | _ \<Rightarrow> None)"

definition build_indexed ::
    "('b, 'f, 'g, 'd) pipeline_builder \<Rightarrow>
     (('d, 'f indexed_traversal, 'g, 'b) attributes_queue_stage, 'g) derivation_pipeline option" where
  "build_indexed b =
     (case (pb_rollup_config b, pb_chain_provider b, pb_l2_chain_provider b, pb_dap_source b, pb_builder b, pb_origin b) of
        (Some cfg, Some chain_provider, Some l2_chain_provider, Some dap_source, Some attributes_builder, Some origin) \<Rightarrow>
          let l1_traversal = (indexed_new chain_provider cfg)\<lparr>it_block := Some origin\<rparr> in
          Some (pipeline_new (stack_new cfg l1_traversal dap_source l2_chain_provider attributes_builder) cfg l2_chain_provider)
      | _ \<Rightarrow> None)"


section \<open>Calls of a pipeline\<close>

datatype call = Step l2_block_info | Signal signal | NextAttributes | SystemConfigByNumber u64

fun pipeline_call ::
    "'g l2_chain_provider \<Rightarrow> 's next_attributes_provider \<Rightarrow> call \<Rightarrow> ('s, 'g) derivation_pipeline \<Rightarrow> ('s, 'g) derivation_pipeline" where
  "pipeline_call G S (Step cursor) p = fst (pipeline_step S cursor p)"
| "pipeline_call G S (Signal s) p = fst (pipeline_signal G S p s)"
| "pipeline_call G S NextAttributes p = fst (pipeline_next p)"
| "pipeline_call G S (SystemConfigByNumber n) p = fst (pipeline_system_config_by_number G n p)"

definition pipeline_calls ::
    "'g l2_chain_provider \<Rightarrow> 's next_attributes_provider \<Rightarrow> call list \<Rightarrow> ('s, 'g) derivation_pipeline \<Rightarrow> ('s, 'g) derivation_pipeline" where
  "pipeline_calls G S cs p = fold (pipeline_call G S) cs p"

text \<open>
  What a call may do to the origin: a reset or activation moves it to the origin it carries, if the
  system config could be fetched, and then succeeds; any other call leaves it or moves it to a child.
\<close>

fun resets :: "call \<Rightarrow> block_info option" where
  "resets (Signal s) = signal_origin s"
| "resets _ = None"

definition origin_moves ::
    "'g l2_chain_provider \<Rightarrow> 's next_attributes_provider \<Rightarrow> call \<Rightarrow> ('s, 'g) derivation_pipeline \<Rightarrow> bool" where
  "origin_moves G S c p \<longleftrightarrow>
     (let old = pipeline_origin S p; new = pipeline_origin S (pipeline_call G S c p) in
      case resets c of
        None \<Rightarrow> new = old \<or> linked old new
      | Some b \<Rightarrow> (new = Some b \<and> (\<exists>s. c = Signal s \<and> snd (pipeline_signal G S p s) = Ok ())) \<or>
          (new = old \<and> (\<exists>s e. c = Signal s \<and> snd (pipeline_signal G S p s) = Err e)))"

lemma pipeline_step_attributes:
  "dp_attributes (fst (pipeline_step S cursor p)) = fst (nap_next_attributes S cursor (dp_attributes p)) \<or>
   dp_attributes (fst (pipeline_step S cursor p)) = fst (stg_advance_origin S (fst (nap_next_attributes S cursor (dp_attributes p))))"
  by (auto simp: pipeline_step_def split: prod.splits pres.splits pipeline_error_kind.splits pipeline_error.splits)

lemma pipeline_next_attributes [simp]: "dp_attributes (fst (pipeline_next p)) = dp_attributes p"
  by (simp add: pipeline_next_def split: list.split)

lemma pipeline_system_config_attributes [simp]:
  "dp_attributes (fst (pipeline_system_config_by_number G n p)) = dp_attributes p"
  by (simp add: pipeline_system_config_by_number_def via_def)

lemma system_config_with [simp]:
  "signal_origin s \<noteq> None \<Longrightarrow> signal_system_config (with_system_config s c) = Some c"
  by (cases s) simp_all

context next_attributes_stage
begin

lemma step_origin:
  assumes "I (dp_attributes p)"
  shows "I (dp_attributes (fst (pipeline_step P cursor p)))"
    and "pipeline_origin P (fst (pipeline_step P cursor p)) = pipeline_origin P p \<or>
      linked (pipeline_origin P p) (pipeline_origin P (fst (pipeline_step P cursor p)))"
  using pipeline_step_attributes [of P cursor p] pull_inv [OF assms, of cursor] pull_origin [OF assms, of cursor]
    advance_inv advance_linked [of "fst (nap_next_attributes P cursor (dp_attributes p))"]
  by (auto simp: pipeline_origin_def)

lemma signal_attributes_inv:
  "I (dp_attributes p) \<Longrightarrow> I (dp_attributes (fst (signal_attributes P s p)))"
  by (simp add: signal_attributes_def via_def signal_inv)

lemma signal_reset_origin:
  assumes inv: "I (dp_attributes p)" and old: "pipeline_origin P p = Some old" and b: "signal_origin s = Some b"
  shows "I (dp_attributes (fst (signal_reset G P h s p))) \<and>
    (pipeline_origin P (fst (signal_reset G P h s p)) = Some b \<and> snd (signal_reset G P h s p) = Ok () \<or>
     pipeline_origin P (fst (signal_reset G P h s p)) = Some old \<and> (\<exists>e. snd (signal_reset G P h s p) = Err e))"
proof -
  obtain g r where fetch: "l2p_system_config_by_number G (dp_l2_chain_provider p) (bi_number (l2_info h)) (dp_rollup_config p) = (g, r)"
    by fastforce
  show ?thesis
  proof (cases r)
    case (Inl e)
    then show ?thesis using fetch inv old
      by (simp add: signal_reset_def pipeline_system_config_by_number_def pipeline_origin_def)
  next
    case (Inr c)
    have "stg_origin P (dp_attributes p) = Some old" using old by (simp add: pipeline_origin_def)
    from reset_ok [OF inv this, of "with_system_config s c" b c] b
    obtain a where a: "stg_signal P (dp_attributes p) (with_system_config s c) = (a, Ok ())" "stg_origin P a = Some b" by auto
    moreover have "I a" using signal_inv [OF inv, of "with_system_config s c"] a(1) by simp
    ultimately show ?thesis using fetch Inr
      by (simp add: signal_reset_def pipeline_system_config_by_number_def pipeline_origin_def signal_attributes_def)
  qed
qed

lemma call_origin:
  assumes inv: "I (dp_attributes p)" and old: "pipeline_origin P p = Some old"
  shows "I (dp_attributes (pipeline_call G P c p))" and "origin_moves G P c p"
    and "pipeline_origin P (pipeline_call G P c p) \<noteq> None"
proof -
  have "I (dp_attributes (pipeline_call G P c p)) \<and> origin_moves G P c p"
  proof (cases c)
    case (Signal s)
    have origin: "stg_origin P (dp_attributes p) = Some old" using old by (simp add: pipeline_origin_def)
    show ?thesis
    proof (cases s)
      case (Reset r)
      with Signal signal_reset_origin [OF inv old, of s] show ?thesis
        by (simp add: origin_moves_def pipeline_signal_def old Let_def)
    next
      case (Activation r)
      with Signal signal_reset_origin [OF inv old, of s] show ?thesis
        by (simp add: origin_moves_def pipeline_signal_def old Let_def)
    next
      case FlushChannel
      with Signal flush_ok [OF inv origin] signal_inv [OF inv, of s] show ?thesis
        by (auto simp: origin_moves_def pipeline_signal_def signal_attributes_def pipeline_origin_def origin Let_def)
    next
      case (ProvideBlock x)
      with Signal provide_linked [OF inv, of x] signal_inv [OF inv, of s] show ?thesis
        by (simp add: origin_moves_def pipeline_signal_def signal_attributes_def pipeline_origin_def via_def Let_def)
    qed
  qed (use step_origin [OF inv] inv in \<open>simp_all add: origin_moves_def Let_def pipeline_origin_def\<close>)
  then show "I (dp_attributes (pipeline_call G P c p))" "origin_moves G P c p" by blast+
  then show "pipeline_origin P (pipeline_call G P c p) \<noteq> None"
    using old by (auto simp: origin_moves_def linked_def Let_def split: option.splits)
qed

lemma calls_origin:
  assumes "I (dp_attributes p)" and "pipeline_origin P p \<noteq> None"
  shows "I (dp_attributes (pipeline_calls G P cs p)) \<and> pipeline_origin P (pipeline_calls G P cs p) \<noteq> None"
  using assms
proof (induction cs arbitrary: p)
  case (Cons c cs)
  obtain old where "pipeline_origin P p = Some old" using Cons.prems(2) by blast
  from call_origin(1,3) [OF Cons.prems(1) this] Cons.IH show ?case by (simp add: pipeline_calls_def)
qed (simp add: pipeline_calls_def)

end


section \<open>The contract of the whole stack\<close>

definition stack_inv :: "rollup_config \<Rightarrow> ('d, 't, 'g, 'b) attributes_queue_stage \<Rightarrow> bool" where
  "stack_inv cfg q \<longleftrightarrow>
     batch_provider_inv (\<lambda>b. channel_provider_inv (\<lambda>_. True) (cr_prev (bs_prev b)) \<and> stream_inv cfg b) cfg (aq_prev q)"

interpretation polled: next_attributes_stage "attributes_queue_stage AB G C D (polling_ops A cp)" "stack_inv cfg"
  for AB :: "'b builder" and G :: "'g l2_chain_provider" and C :: "'c codecs" and D :: "'d data_availability_provider"
    and A :: abi and cp :: "'f chain_provider" and cfg
  unfolding attributes_queue_stage_def stack_inv_def [abs_def] by unfold_locales

interpretation indexed_dp: next_attributes_stage "attributes_queue_stage AB G C D (indexed_ops A cp)" "stack_inv cfg"
  for AB :: "'b builder" and G :: "'g l2_chain_provider" and C :: "'c codecs" and D :: "'d data_availability_provider"
    and A :: abi and cp :: "'f chain_provider" and cfg
  unfolding attributes_queue_stage_def stack_inv_def [abs_def] by unfold_locales


lemma stack_inv_new: "stack_inv cfg (stack_new cfg t d g ab)"
  by (simp add: stack_inv_def stack_new_def attributes_queue_new_def)
    (rule batch_provider_inv_new, simp add: batch_stream_new_def channel_reader_new_def channel_provider_new_def
      channel_provider_inv_def stream_inv_def)

lemma stack_origin_new:
  "stg_origin (attributes_queue_stage AB G C D T) (stack_new cfg t d g ab) = stg_origin T t"
  by (simp add: attributes_queue_stage_def stack_new_def attributes_queue_ops_def attributes_queue_new_def
      batch_provider_ops_def batch_provider_new_def batch_provider_origin_def batch_stream_ops_def batch_stream_new_def
      channel_reader_ops_def channel_reader_new_def channel_provider_ops_def channel_provider_new_def channel_provider_origin_def
      frame_queue_ops_def frame_queue_new_def l1_retrieval_ops_def l1_retrieval_new_def)

lemma build_polled_start:
  assumes "build_polled b = Some p"
  shows "stack_inv (dp_rollup_config p) (dp_attributes p)"
    and "pipeline_origin (attributes_queue_stage AB G C D (polling_ops A cp)) p = pb_origin b" and "pb_origin b \<noteq> None"
    and "dp_prepared p = []"
  using assms
  by (auto simp: build_polled_def pipeline_new_def pipeline_origin_def stack_origin_new polling_ops_def Let_def
      stack_inv_new split: option.splits)

lemma build_indexed_start:
  assumes "build_indexed b = Some p"
  shows "stack_inv (dp_rollup_config p) (dp_attributes p)"
    and "pipeline_origin (attributes_queue_stage AB G C D (indexed_ops A cp)) p = pb_origin b" and "pb_origin b \<noteq> None"
    and "dp_prepared p = []"
  using assms
  by (auto simp: build_indexed_def pipeline_new_def pipeline_origin_def stack_origin_new indexed_ops_def Let_def
      stack_inv_new split: option.splits)

section \<open>Attributes in and out\<close>

text \<open>The attributes that a call prepares, and those that it hands out; and both over a sequence of calls.\<close>

fun prepares :: "'s next_attributes_provider \<Rightarrow> call \<Rightarrow> ('s, 'g) derivation_pipeline \<Rightarrow> op_attributes_with_parent list" where
  "prepares S (Step cursor) p = (case nap_next_attributes S cursor (dp_attributes p) of (_, Ok a) \<Rightarrow> [a] | _ \<Rightarrow> [])"
| "prepares S _ p = []"

fun hands_out_attributes :: "'s next_attributes_provider \<Rightarrow> call \<Rightarrow> ('s, 'g) derivation_pipeline \<Rightarrow> op_attributes_with_parent list" where
  "hands_out_attributes S NextAttributes p = (case snd (pipeline_next p) of None \<Rightarrow> [] | Some a \<Rightarrow> [a])"
| "hands_out_attributes S _ p = []"

fun over_calls ::
    "('s next_attributes_provider \<Rightarrow> call \<Rightarrow> ('s, 'g) derivation_pipeline \<Rightarrow> 'r list) \<Rightarrow> 'g l2_chain_provider \<Rightarrow>
     's next_attributes_provider \<Rightarrow> call list \<Rightarrow> ('s, 'g) derivation_pipeline \<Rightarrow> 'r list" where
  "over_calls f G S [] p = []"
| "over_calls f G S (c # cs) p = f S c p @ over_calls f G S cs (pipeline_call G S c p)"

lemma signal_prepared: "dp_prepared (fst (pipeline_signal G S p s)) = dp_prepared p"
proof -
  have attributes: "dp_prepared (fst (signal_attributes S s p)) = dp_prepared p" for s and p :: "('a, 'b) derivation_pipeline"
    by (simp add: signal_attributes_def via_def)
  have "dp_prepared (fst (signal_reset G S h s p)) = dp_prepared p" for h s
  proof (cases "snd (l2p_system_config_by_number G (dp_l2_chain_provider p) (bi_number (l2_info h)) (dp_rollup_config p))")
    case (Inr c)
    then obtain p' where p': "pipeline_system_config_by_number G (bi_number (l2_info h)) p = (p', Ok c)" "dp_prepared p' = dp_prepared p"
      by (simp add: pipeline_system_config_by_number_def via_def of_result_def)
    obtain p'' r where "signal_attributes S (with_system_config s c) p' = (p'', r)" by fastforce
    with p' attributes [of "with_system_config s c" p'] show ?thesis by (cases r) (auto simp: signal_reset_def)
  qed (simp add: signal_reset_def pipeline_system_config_by_number_def via_def of_result_def)
  with attributes show ?thesis by (simp add: pipeline_signal_def split: signal.split)
qed

lemma step_prepared: "dp_prepared (fst (pipeline_step S cursor p)) = dp_prepared p @ prepares S (Step cursor) p"
  by (auto simp: pipeline_step_def split: prod.split pres.split pipeline_error_kind.split pipeline_error.split)

lemma call_prepared:
  "hands_out_attributes S c p @ dp_prepared (pipeline_call G S c p) = dp_prepared p @ prepares S c p"
  by (cases c)
    (auto simp: step_prepared signal_prepared pipeline_next_def pipeline_system_config_by_number_def via_def split: list.split)

lemma calls_prepared:
  "over_calls hands_out_attributes G S cs p @ dp_prepared (pipeline_calls G S cs p) = dp_prepared p @ over_calls prepares G S cs p"
proof (induction cs arbitrary: p)
  case (Cons c cs)
  have "over_calls hands_out_attributes G S (c # cs) p @ dp_prepared (pipeline_calls G S (c # cs) p) =
      hands_out_attributes S c p @ dp_prepared (pipeline_call G S c p) @ over_calls prepares G S cs (pipeline_call G S c p)"
    using Cons.IH [of "pipeline_call G S c p"] by (simp add: pipeline_calls_def)
  also have "\<dots> = (dp_prepared p @ prepares S c p) @ over_calls prepares G S cs (pipeline_call G S c p)"
    by (metis call_prepared append_assoc)
  finally show ?case by simp
qed (simp add: pipeline_calls_def)

lemma next_attributes_stamp:
  assumes "nap_next_attributes (attributes_queue_ops P AB) cursor q = (q', Ok a)"
  shows "oap_parent a = cursor \<and> oap_derived_from a = stg_origin (attributes_queue_ops P AB) q'"
proof -
  have "next_attributes P AB cursor q = (q', Ok a)" using assms by (simp add: attributes_queue_ops_def)
  then show ?thesis by (rule next_attributes_Ok) (simp add: attributes_queue_ops_def)
qed

section \<open>Properties\<close>

text \<open>
  C24. A pipeline that the builder puts together, with either traversal, starts at the origin it was
  given and always has an origin, whatever is called on it. A reset or an activation moves the origin
  to the block it carries and succeeds, unless the system config cannot be fetched, and then it
  reports the error and leaves the origin. Every other call, and in particular every step, leaves
  the origin or moves it to a block whose parent is the old origin.
\<close>

theorem pipeline_origin_moves:
  fixes AB :: "'b builder" and G :: "'g l2_chain_provider" and C :: "'c codecs" and D :: "'d data_availability_provider"
    and A :: abi and cp :: "'f chain_provider"
  assumes "build_polled b = Some p" and "build_indexed b = Some q"
    and S: "S = attributes_queue_stage AB G C D (polling_ops A cp)" and T: "T = attributes_queue_stage AB G C D (indexed_ops A cp)"
  shows "pipeline_origin S p = pb_origin b \<and> pipeline_origin T q = pb_origin b \<and>
    pipeline_origin S (pipeline_calls G S cs p) \<noteq> None \<and> pipeline_origin T (pipeline_calls G T cs q) \<noteq> None \<and>
    origin_moves G S c (pipeline_calls G S cs p) \<and> origin_moves G T c (pipeline_calls G T cs q)"
proof -
  note p = build_polled_start [OF assms(1)] and q = build_indexed_start [OF assms(2)]
  have "pipeline_origin S (pipeline_calls G S cs p) \<noteq> None \<and> origin_moves G S c (pipeline_calls G S cs p)"
    using polled.calls_origin [OF p(1), of AB G C D A cp] polled.call_origin(2) p(2,3) unfolding S by (metis option.exhaust)
  moreover have "pipeline_origin T (pipeline_calls G T cs q) \<noteq> None \<and> origin_moves G T c (pipeline_calls G T cs q)"
    using indexed_dp.calls_origin [OF q(1), of AB G C D A cp] indexed_dp.call_origin(2) q(2,3) unfolding T by (metis option.exhaust)
  ultimately show ?thesis by (simp add: S T p(2) q(2))
qed

definition example_pipeline_builder :: "((unit, unit, unit) attributes_builder, unit, unit, unit) pipeline_builder" where
  "example_pipeline_builder =
     \<lparr>pb_l2_chain_provider = Some (), pb_dap_source = Some (), pb_chain_provider = Some (),
      pb_builder = Some (attributes_builder_new example_config example_l1_config () ()),
      pb_origin = Some (example_origins ! 0), pb_rollup_config = Some example_config\<rparr>"

definition example_data_source :: "unit data_availability_provider" where
  "example_data_source = \<lparr>dap_next = (\<lambda>d _ _. (d, Inl (temp Eof))), dap_clear = (\<lambda>d. d)\<rparr>"

definition example_l1_provider :: "unit chain_provider" where
  "example_l1_provider = \<lparr>cp_block_info_by_number = (\<lambda>f n. (f, if n = 8 then Inr (example_origins ! 1) else Inl (temp Eof))),
     cp_receipts_by_hash = (\<lambda>f _. (f, Inr []))\<rparr>"

abbreviation example_polled :: "(unit, unit polling_traversal, unit, (unit, unit, unit) attributes_builder) attributes_queue_stage next_attributes_provider" where
  "example_polled \<equiv> attributes_queue_stage example_builder example_l2_provider example_codecs example_data_source
     (polling_ops word_abi example_l1_provider)"

abbreviation example_indexed :: "(unit, unit indexed_traversal, unit, (unit, unit, unit) attributes_builder) attributes_queue_stage next_attributes_provider" where
  "example_indexed \<equiv> attributes_queue_stage example_builder example_l2_provider example_codecs example_data_source
     (indexed_ops word_abi example_l1_provider)"

theorem pipeline_origin_moves_witness:
  "\<exists>p q. build_polled example_pipeline_builder = Some p \<and> build_indexed example_pipeline_builder = Some q \<and>
    pipeline_origin example_polled p = Some (example_origins ! 0) \<and>
    origin_moves example_l2_provider example_polled (Step example_head) p \<and>
    origin_moves example_l2_provider example_indexed (Signal (ProvideBlock (example_origins ! 1)))
      (pipeline_calls example_l2_provider example_indexed [Step example_head, Signal FlushChannel] q)"
proof -
  obtain p q where built: "build_polled example_pipeline_builder = Some p" "build_indexed example_pipeline_builder = Some q"
    by (simp add: build_polled_def build_indexed_def example_pipeline_builder_def Let_def)
  show ?thesis
    using pipeline_origin_moves [OF built refl refl, of example_builder example_l2_provider example_codecs example_data_source word_abi
        example_l1_provider "[]" "Step example_head"]
      pipeline_origin_moves [OF built refl refl, of example_builder example_l2_provider example_codecs example_data_source word_abi
        example_l1_provider "[Step example_head, Signal FlushChannel]" "Signal (ProvideBlock (example_origins ! 1))"] built
    by (simp add: pipeline_calls_def) (simp add: example_pipeline_builder_def)
qed


text \<open>
  C25. The attributes that a pipeline hands out are, in order, those that its steps prepared: none is
  lost, repeated or reordered, whatever calls are made in between, and the rest is still queued.
  Each was prepared on the cursor of its step, and is stamped with the origin of the pipeline at
  that step.
\<close>

theorem pipeline_attributes_fifo:
  fixes AB :: "'b builder" and G :: "'g l2_chain_provider" and C :: "'c codecs" and D :: "'d data_availability_provider"
    and A :: abi and cp :: "'f chain_provider"
  assumes "build_polled b = Some p" and S: "S = attributes_queue_stage AB G C D (polling_ops A cp)"
    and "p' = pipeline_calls G S cs p"
  shows "over_calls hands_out_attributes G S cs p @ dp_prepared p' = over_calls prepares G S cs p \<and>
    (\<forall>cursor. \<forall>a \<in> set (prepares S (Step cursor) p'). oap_parent a = cursor \<and> oap_derived_from a = pipeline_origin S p')"
proof -
  note p = build_polled_start [OF assms(1)]
  have inv: "stack_inv (dp_rollup_config p) (dp_attributes p')"
    using p(3) by (simp add: assms(3) S polled.calls_origin [OF p(1)] p(2))
  have "oap_parent a = cursor \<and> oap_derived_from a = pipeline_origin S p'" if "a \<in> set (prepares S (Step cursor) p')" for cursor a
  proof -
    from that obtain s where a: "nap_next_attributes S cursor (dp_attributes p') = (s, Ok a)"
      by (cases "nap_next_attributes S cursor (dp_attributes p')") (auto split: pres.splits)
    then have "stg_origin S s = pipeline_origin S p'"
      using polled.pull_origin [OF inv, of AB G C D A cp cursor] by (simp add: S pipeline_origin_def)
    with next_attributes_stamp a show ?thesis unfolding S attributes_queue_stage_def by metis
  qed
  with calls_prepared [of G S cs p] p(4) assms(3) show ?thesis by simp
qed

theorem pipeline_attributes_fifo_witness:
  "\<exists>p. build_polled example_pipeline_builder = Some p \<and>
    over_calls hands_out_attributes example_l2_provider example_polled [NextAttributes, Step example_head, NextAttributes] p @
      dp_prepared (pipeline_calls example_l2_provider example_polled [NextAttributes, Step example_head, NextAttributes] p) =
    over_calls prepares example_l2_provider example_polled [NextAttributes, Step example_head, NextAttributes] p"
proof -
  obtain p where built: "build_polled example_pipeline_builder = Some p"
    by (simp add: build_polled_def example_pipeline_builder_def Let_def)
  show ?thesis
    using pipeline_attributes_fifo [OF built refl refl, where AB = example_builder and G = example_l2_provider and C = example_codecs
        and D = example_data_source and A = word_abi and cp = example_l1_provider and cs = "[NextAttributes, Step example_head, NextAttributes]"]
      built
    by blast
qed

end
