(* ===== verification/Ordered_Map.thy ===== *)
theory Ordered_Map
  imports Prelude
begin

text \<open>
  Ordered maps, as Rust's \<^verbatim>\<open>BTreeMap\<close>: association lists that are strictly sorted by key.  The
  operations are those the components use; \<open>om_get\<close> is the abstraction to a map, and the greatest key,
  or the greatest key up to a bound, is what \<^verbatim>\<open>last_key_value\<close> and \<^verbatim>\<open>range(..=k).next_back()\<close> return.
\<close>

type_synonym ('k, 'v) omap = "('k \<times> 'v) list"

definition om_ok :: "('k::linorder, 'v) omap \<Rightarrow> bool" where
  "om_ok m \<longleftrightarrow> sorted_wrt (<) (map fst m)"

definition om_get :: "('k, 'v) omap \<Rightarrow> 'k \<Rightarrow> 'v option" where
  "om_get m k = map_of m k"

fun om_insert :: "'k::linorder \<Rightarrow> 'v \<Rightarrow> ('k, 'v) omap \<Rightarrow> ('k, 'v) omap" where
  "om_insert k v [] = [(k, v)]"
| "om_insert k v ((k', v') # m) =
     (if k < k' then (k, v) # (k', v') # m else if k = k' then (k, v) # m else (k', v') # om_insert k v m)"

definition om_remove :: "'k \<Rightarrow> ('k, 'v) omap \<Rightarrow> ('k, 'v) omap" where
  "om_remove k m = filter (\<lambda>e. fst e \<noteq> k) m"

definition om_last :: "('k, 'v) omap \<Rightarrow> ('k \<times> 'v) option" where
  "om_last m = (if m = [] then None else Some (last m))"

definition om_last_le :: "'k::linorder \<Rightarrow> ('k, 'v) omap \<Rightarrow> ('k \<times> 'v) option" where
  "om_last_le k m = om_last (filter (\<lambda>e. fst e \<le> k) m)"

definition om_first :: "('k, 'v) omap \<Rightarrow> ('k \<times> 'v) option" where
  "om_first m = (case m of [] \<Rightarrow> None | e # _ \<Rightarrow> Some e)"

section \<open>Laws\<close>

lemma om_ok_Nil [simp]: "om_ok []"
  by (simp add: om_ok_def)

lemma om_ok_Cons: "om_ok ((k, v) # m) \<longleftrightarrow> (\<forall>k' \<in> fst ` set m. k < k') \<and> om_ok m"
  by (auto simp: om_ok_def)

lemma om_insert_keys: "fst ` set (om_insert k v m) = insert k (fst ` set m)"
  by (induction m rule: om_insert.induct) auto

lemma om_insert_ok: "om_ok m \<Longrightarrow> om_ok (om_insert k v m)"
  by (induction m rule: om_insert.induct) (auto simp: om_ok_Cons om_insert_keys)

lemma om_filter_ok: "om_ok m \<Longrightarrow> om_ok (filter P m)"
  by (induction m) (auto simp: om_ok_Cons)

lemma om_remove_ok: "om_ok m \<Longrightarrow> om_ok (om_remove k m)"
  by (simp add: om_remove_def om_filter_ok)

lemma om_ok_distinct: "om_ok m \<Longrightarrow> distinct (map fst m)"
  by (simp add: om_ok_def strict_sorted_iff)

lemma om_get_insert: "om_ok m \<Longrightarrow> om_get (om_insert k v m) = (om_get m)(k \<mapsto> v)"
proof (induction m rule: om_insert.induct)
  case (2 k v k' v' m)
  then show ?case by (auto simp: om_get_def om_ok_Cons fun_eq_iff)
qed (simp add: om_get_def fun_eq_iff)

lemma om_get_remove: "om_get (om_remove k m) = (om_get m)(k := None)"
  by (induction m) (auto simp: om_get_def om_remove_def)

lemma om_get_iff: "om_ok m \<Longrightarrow> om_get m k = Some v \<longleftrightarrow> (k, v) \<in> set m"
  by (simp add: om_get_def om_ok_distinct)

lemma om_get_None: "om_get m k = None \<longleftrightarrow> k \<notin> fst ` set m"
  by (simp add: om_get_def map_of_eq_None_iff)

lemma om_last_greatest:
  assumes "om_ok m" and "om_last m = Some (k, v)"
  shows "om_get m k = Some v \<and> (\<forall>k' v'. om_get m k' = Some v' \<longrightarrow> k' \<le> k)"
proof -
  from assms(2) obtain m' where m: "m = m' @ [(k, v)]"
    by (auto simp: om_last_def split: if_splits) (metis append_butlast_last_id)
  with assms(1) have "k' < k" if "(k', v') \<in> set m'" for k' v'
    using that by (force simp: om_ok_def sorted_wrt_append)
  with assms(1) m show ?thesis by (fastforce simp: om_get_iff)
qed

lemma om_last_None: "om_last m = None \<longleftrightarrow> m = []"
  by (simp add: om_last_def)

lemma om_last_le_greatest:
  assumes "om_ok m" and "om_last_le b m = Some (k, v)"
  shows "om_get m k = Some v \<and> k \<le> b \<and> (\<forall>k' v'. om_get m k' = Some v' \<and> k' \<le> b \<longrightarrow> k' \<le> k)"
proof -
  let ?f = "filter (\<lambda>e. fst e \<le> b) m"
  have "om_ok ?f" using assms(1) by (rule om_filter_ok)
  from om_last_greatest [OF this, of k v] assms show ?thesis
    by (auto simp: om_last_le_def om_get_iff om_filter_ok)
qed

lemma om_last_le_None: "om_ok m \<Longrightarrow> om_last_le b m = None \<longleftrightarrow> (\<forall>k v. om_get m k = Some v \<longrightarrow> b < k)"
  by (auto simp: om_last_le_def om_last_None om_get_iff filter_empty_conv not_le)

lemma length_om_insert:
  "om_ok m \<Longrightarrow> length (om_insert k v m) = (if om_get m k = None then Suc (length m) else length m)"
  by (induction m rule: om_insert.induct) (auto simp: om_get_def om_ok_Cons map_of_eq_None_iff)

lemma om_remove_notin: "k \<notin> fst ` set m \<Longrightarrow> om_remove k m = m"
  by (induction m) (auto simp: om_remove_def)

lemma length_om_remove:
  "om_ok m \<Longrightarrow> length (om_remove k m) = (if om_get m k = None then length m else length m - 1)"
proof (induction m)
  case (Cons e m)
  then have "k \<notin> fst ` set m" if "fst e = k" using that by (cases e) (auto simp: om_ok_Cons)
  then have "om_remove k m = m" if "fst e = k" using that by (intro om_remove_notin)
  with Cons show ?case
    by (cases e; cases m) (auto simp: om_remove_def om_get_def om_ok_Cons)
qed (simp add: om_remove_def om_get_def)

end
