(* ===== verification/Driver.thy ===== *)
theory Driver
  imports Pipeline Ordered_Map
begin

text \<open>
  The rollup driver of the proof program, \<^verbatim>\<open>crates/proof/driver/src/{cursor,tip,pipeline,core}.rs\<close>, and
  its starting cursor, \<^verbatim>\<open>crates/proof/proof/src/sync.rs\<close>: the cursor with the tips of recent L1 origins,
  the loop that steps a pipeline until it hands out attributes, and the loop that executes attributes
  until the safe head reaches the target.

  The executor, the decoding of transactions and the \<^verbatim>\<open>flush\<close> of the provider's cache are parameters.
  Both loops may run forever: they are partial functions, and \<open>None\<close> stands for not returning.

  Shown: what the cursor resets to and where its bounds fail; what the driver returns, and when it
  does not return.
\<close>

section \<open>The cursor\<close>

text \<open>A sealed header, by the fields that are looked at.\<close>

record sealed_header =
  sh_number :: u64
  sh_hash :: b256
  sh_parent_hash :: b256
  sh_timestamp :: u64
  sh_gas_limit :: u64
  sh_extra_data :: bytes

record tip_cursor =
  tc_l2_safe_head :: l2_block_info
  tc_l2_safe_head_header :: sealed_header
  tc_l2_safe_head_output_root :: b256

record pipeline_cursor =
  pc_capacity :: u64
  pc_channel_timeout :: u64
  pc_origin :: block_info
  pc_origins :: "u64 list"
  pc_origin_infos :: "u64 \<rightharpoonup> block_info"
  pc_tips :: "(u64, tip_cursor) omap"

definition cursor_new :: "u64 \<Rightarrow> block_info \<Rightarrow> pipeline_cursor" where
  "cursor_new timeout origin =
     \<lparr>pc_capacity = timeout + 5, pc_channel_timeout = timeout, pc_origin = origin,
      pc_origins = [bi_number origin], pc_origin_infos = [bi_number origin \<mapsto> origin], pc_tips = []\<rparr>"

text \<open>\<open>None\<close> is the \<^verbatim>\<open>unreachable!\<close> of a cursor without tips.\<close>

definition cursor_tip :: "pipeline_cursor \<Rightarrow> tip_cursor option" where
  "cursor_tip c = map_option snd (om_last (pc_tips c))"

text \<open>\<open>None\<close> is the failing \<^verbatim>\<open>unwrap\<close>.\<close>

definition cursor_advance :: "block_info \<Rightarrow> tip_cursor \<Rightarrow> pipeline_cursor \<Rightarrow> pipeline_cursor option" where
  "cursor_advance origin l2_tip_block c =
     Option.bind
       (if unat (pc_capacity c) \<le> length (pc_tips c)
        then (case pc_origins c of
                [] \<Rightarrow> None
              | key # origins \<Rightarrow> Some (c\<lparr>pc_origins := origins, pc_tips := om_remove key (pc_tips c)\<rparr>))
        else Some c) (\<lambda>c.
     Some (c\<lparr>pc_origin := origin, pc_origins := pc_origins c @ [bi_number origin],
       pc_origin_infos := (pc_origin_infos c)(bi_number origin \<mapsto> origin),
       pc_tips := om_insert (bi_number origin) l2_tip_block (pc_tips c)\<rparr>))"

text \<open>\<open>None\<close> is a failing \<^verbatim>\<open>expect\<close> or index.\<close>

definition cursor_reset :: "u64 \<Rightarrow> pipeline_cursor \<Rightarrow> (tip_cursor \<times> block_info) option" where
  "cursor_reset fork_block c =
     (let channel_start = fork_block - pc_channel_timeout c in
      case om_get (pc_tips c) channel_start of
        Some l2_safe_tip \<Rightarrow> map_option (Pair l2_safe_tip) (pc_origin_infos c channel_start)
      | None \<Rightarrow> Option.bind (om_last_le channel_start (pc_tips c)) (\<lambda>(last_l1_known_tip, l2_known_tip).
          map_option (Pair l2_known_tip) (pc_origin_infos c last_l1_known_tip)))"

text \<open>
  The starting cursor; the providers' errors are those of the oracle provider, their messages stand
  for them.  The outer \<open>None\<close> is a panic of \<^verbatim>\<open>advance\<close>.
\<close>

definition new_oracle_pipeline_cursor ::
    "'f chain_provider \<Rightarrow> 'g batch_validation_provider \<Rightarrow> rollup_config \<Rightarrow> sealed_header \<Rightarrow> 'f \<Rightarrow> 'g \<Rightarrow>
     ('f \<times> 'g) \<times> ((pipeline_error_kind + string) + pipeline_cursor) option" where
  "new_oracle_pipeline_cursor F G cfg safe_header f g =
     (case bvp_l2_block_info_by_number G g (sh_number safe_header) of
        (g, Inl e) \<Rightarrow> ((f, g), Some (Inl (Inr e)))
      | (g, Inr safe_head_info) \<Rightarrow>
     (case cp_block_info_by_number F f (bnh_number (l2_l1_origin safe_head_info)) of
        (f, Inl e) \<Rightarrow> ((f, g), Some (Inl (Inl e)))
      | (f, Inr l1_origin) \<Rightarrow>
     (let timeout = channel_timeout cfg (bi_timestamp (l2_info safe_head_info));
          l1_origin_number = saturating_sub (bi_number l1_origin) timeout;
          l1_origin_number = (if l1_origin_number < bnh_number (cg_l1 (rc_genesis cfg))
                              then bnh_number (cg_l1 (rc_genesis cfg)) else l1_origin_number) in
      case cp_block_info_by_number F f l1_origin_number of
        (f, Inl e) \<Rightarrow> ((f, g), Some (Inl (Inl e)))
      | (f, Inr origin) \<Rightarrow>
          ((f, g), map_option Inr (cursor_advance origin
             \<lparr>tc_l2_safe_head = safe_head_info, tc_l2_safe_head_header = safe_header, tc_l2_safe_head_output_root = 0\<rparr>
             (cursor_new timeout origin))))))"

section \<open>Producing a payload\<close>

record 'p driver_pipeline =
  drp_step :: "l2_block_info \<Rightarrow> 'p \<Rightarrow> 'p \<times> step_result option"
  drp_origin :: "'p \<Rightarrow> block_info option"
  drp_next :: "'p \<Rightarrow> 'p \<times> op_attributes_with_parent option"
  drp_system_config_by_number :: "u64 \<Rightarrow> 'p \<Rightarrow> 'p \<times> system_config pres"
  drp_signal :: "'p \<Rightarrow> signal \<Rightarrow> 'p \<times> unit pres"
  drp_flush :: "'p \<Rightarrow> 'p"
  drp_rollup_config :: "'p \<Rightarrow> rollup_config"

text \<open>The pipeline of the derivation crate as a driver pipeline, with a \<^verbatim>\<open>flush\<close> of its providers.\<close>

definition driver_pipeline_of ::
    "'g l2_chain_provider \<Rightarrow> 's next_attributes_provider \<Rightarrow> (('s, 'g) derivation_pipeline \<Rightarrow> ('s, 'g) derivation_pipeline) \<Rightarrow>
     ('s, 'g) derivation_pipeline driver_pipeline" where
  "driver_pipeline_of G S flush =
     \<lparr>drp_step = pipeline_step S, drp_origin = pipeline_origin S, drp_next = pipeline_next,
      drp_system_config_by_number = pipeline_system_config_by_number G, drp_signal = pipeline_signal G S,
      drp_flush = flush, drp_rollup_config = dp_rollup_config\<rparr>"

text \<open>The reset of the pipeline to the safe head, on a reset error.\<close>

definition handle_reset ::
    "'p driver_pipeline \<Rightarrow> l2_block_info \<Rightarrow> reset_error \<Rightarrow> 'p \<Rightarrow> 'p \<times> unit pres" where
  "handle_reset P l2_safe_head e p =
     pbind (drp_system_config_by_number P (bi_number (l2_info l2_safe_head)) p) (\<lambda>p system_config.
       if e = HoloceneActivation
       then pbind (ok_or p (drp_origin P p) (crit MissingOrigin)) (\<lambda>p l1_origin.
         drp_signal P p (Activation \<lparr>as_l2_safe_head = l2_safe_head, as_l1_origin = l1_origin, as_system_config = Some system_config\<rparr>))
       else
         let p = (case e of ReorgDetected _ _ \<Rightarrow> drp_flush P p | _ \<Rightarrow> p) in
         pbind (ok_or p (drp_origin P p) (crit MissingOrigin)) (\<lambda>p l1_origin.
           drp_signal P p (signal.Reset \<lparr>rs_l2_safe_head = l2_safe_head, rs_l1_origin = l1_origin, rs_system_config = Some system_config\<rparr>)))"

text \<open>After a step: whether to look for attributes (\<open>True\<close>) or to step again at once.\<close>

definition after_step :: "'p driver_pipeline \<Rightarrow> l2_block_info \<Rightarrow> step_result \<Rightarrow> 'p \<Rightarrow> 'p \<times> bool pres" where
  "after_step P l2_safe_head r p =
     (let failed = (\<lambda>e. case e of
            Temporary _ \<Rightarrow> (p, Ok False)
          | pipeline_error_kind.Reset e \<Rightarrow> pbind (handle_reset P l2_safe_head e p) (\<lambda>p _. (p, Ok True))
          | Critical _ \<Rightarrow> (p, Err e)) in
      case r of
        PreparedAttributes \<Rightarrow> (p, Ok True)
      | AdvancedOrigin \<Rightarrow> pbind (ok_or p (drp_origin P p) (crit MissingOrigin)) (\<lambda>p _. (p, Ok True))
      | OriginAdvanceErr e \<Rightarrow> failed e
      | StepFailed e \<Rightarrow> failed e)"

partial_function (option) produce_payload ::
    "'p driver_pipeline \<Rightarrow> l2_block_info \<Rightarrow> 'p \<Rightarrow> ('p \<times> op_attributes_with_parent pres) option" where
  "produce_payload P l2_safe_head p =
     (case drp_step P l2_safe_head p of
        (p, None) \<Rightarrow> Some (p, Panicked)
      | (p, Some r) \<Rightarrow>
          (case after_step P l2_safe_head r p of
             (p, Panicked) \<Rightarrow> Some (p, Panicked)
           | (p, Err e) \<Rightarrow> Some (p, Err e)
           | (p, Ok look) \<Rightarrow>
               if look
               then (case drp_next P p of
                       (p, Some attrs) \<Rightarrow> Some (p, Ok attrs)
                     | (p, None) \<Rightarrow> produce_payload P l2_safe_head p)
               else produce_payload P l2_safe_head p))"

section \<open>The driver\<close>

record 'x block_building_outcome =
  bbo_header :: sealed_header
  bbo_execution_result :: 'x

record ('e, 'x, 'err) executor =
  ex_wait_until_ready :: "'e \<Rightarrow> 'e"
  ex_update_safe_head :: "sealed_header \<Rightarrow> 'e \<Rightarrow> 'e"
  ex_execute_payload :: "op_payload_attributes \<Rightarrow> 'e \<Rightarrow> 'e \<times> ('err + 'x block_building_outcome)"
  ex_compute_output_root :: "'e \<Rightarrow> 'e \<times> ('err + b256)"

datatype 'err driver_error = Pipeline pipeline_error_kind | Executor 'err | FromBlock from_block_error | Rlp string

record ('e, 'x, 'p) driver =
  dr_cursor :: pipeline_cursor
  dr_executor :: 'e
  dr_pipeline :: 'p
  dr_safe_head_artifacts :: "('x block_building_outcome \<times> bytes list) option"

definition driver_new :: "pipeline_cursor \<Rightarrow> 'e \<Rightarrow> 'p \<Rightarrow> ('e, 'x, 'p) driver" where
  "driver_new cursor executor pipeline =
     \<lparr>dr_cursor = cursor, dr_executor = executor, dr_pipeline = pipeline, dr_safe_head_artifacts = None\<rparr>"

definition wait_for_executor :: "('e, 'x, 'err) executor \<Rightarrow> ('e, 'x, 'p) driver \<Rightarrow> ('e, 'x, 'p) driver" where
  "wait_for_executor E d = d\<lparr>dr_executor := ex_wait_until_ready E (dr_executor d)\<rparr>"

text \<open>What an iteration of the loop ends with; a panic is the third case.\<close>

datatype ('d, 'r, 'err) iteration = Return 'd "'err driver_error + 'r" | Continue 'd "u64 option" | Crash 'd

definition deposits_only :: "bytes list \<Rightarrow> bytes list" where
  "deposits_only txs = filter (\<lambda>tx. tx \<noteq> [] \<and> tx ! 0 = DEPOSIT_TX_TYPE) txs"

definition execute_on_head ::
    "('e, 'x, 'err) executor \<Rightarrow> tip_cursor \<Rightarrow> op_payload_attributes \<Rightarrow> ('e, 'x, 'p) driver \<Rightarrow>
     ('e, 'x, 'p) driver \<times> ('err + 'x block_building_outcome)" where
  "execute_on_head E tip attributes d =
     (let e = ex_update_safe_head E (tc_l2_safe_head_header tip) (dr_executor d);
          (e, r) = ex_execute_payload E attributes e in (d\<lparr>dr_executor := e\<rparr>, r))"

text \<open>
  Executing the attributes, with the retry on deposits alone under Holocene; the attributes that were
  executed come along.  The inner \<open>None\<close> means that the block is discarded.
\<close>

definition execute_attributes ::
    "('e, 'x, 'err) executor \<Rightarrow> 'p driver_pipeline \<Rightarrow> rollup_config \<Rightarrow> tip_cursor \<Rightarrow> op_payload_attributes \<Rightarrow> ('e, 'x, 'p) driver \<Rightarrow>
     ('e, 'x, 'p) driver \<times> ('err driver_error + (op_payload_attributes \<times> 'x block_building_outcome) option) option" where
  "execute_attributes E P cfg tip attributes d =
     (case execute_on_head E tip attributes d of
        (d, Inr block_outcome) \<Rightarrow> (d, Some (Inr (Some (attributes, block_outcome))))
      | (d, Inl _) \<Rightarrow>
          if is_holocene_active cfg (pa_timestamp (opa_payload_attributes attributes)) then
            (case drp_signal P (dr_pipeline d) FlushChannel of
               (p, Panicked) \<Rightarrow> (d\<lparr>dr_pipeline := p\<rparr>, None)
             | (p, Err e) \<Rightarrow> (d\<lparr>dr_pipeline := p\<rparr>, Some (Inl (Pipeline e)))
             | (p, Ok _) \<Rightarrow>
                 let attributes = attributes\<lparr>opa_transactions := map_option deposits_only (opa_transactions attributes)\<rparr> in
                 (case execute_on_head E tip attributes (d\<lparr>dr_pipeline := p\<rparr>) of
                    (d, Inr block_outcome) \<Rightarrow> (d, Some (Inr (Some (attributes, block_outcome))))
                  | (d, Inl e) \<Rightarrow> (d, Some (Inl (Executor e)))))
          else (d, Some (Inr None)))"

fun decode_all :: "(bytes \<Rightarrow> string + op_tx) \<Rightarrow> bytes list \<Rightarrow> string + op_tx list" where
  "decode_all decode [] = Inr []"
| "decode_all decode (tx # txs) =
     (case decode tx of
        Inl e \<Rightarrow> Inl e
      | Inr t \<Rightarrow> (case decode_all decode txs of Inl e \<Rightarrow> Inl e | Inr ts \<Rightarrow> Inr (t # ts)))"

definition op_block_of :: "sealed_header \<Rightarrow> op_tx list \<Rightarrow> op_block" where
  "op_block_of h txs = \<lparr>ob_number = sh_number h, ob_hash = sh_hash h, ob_parent_hash = sh_parent_hash h,
     ob_timestamp = sh_timestamp h, ob_gas_limit = sh_gas_limit h, ob_extra_data = sh_extra_data h, ob_transactions = txs\<rparr>"

text \<open>Putting the executed block into the cursor.\<close>

definition accept_block ::
    "(bytes \<Rightarrow> string + op_tx) \<Rightarrow> ('e, 'x, 'err) executor \<Rightarrow> 'p driver_pipeline \<Rightarrow> u64 option \<Rightarrow> op_payload_attributes \<Rightarrow>
     'x block_building_outcome \<Rightarrow> ('e, 'x, 'p) driver \<Rightarrow> (('e, 'x, 'p) driver, l2_block_info \<times> b256, 'err) iteration" where
  "accept_block decode E P goal_block attributes block_outcome d =
     (let txs = unwrap_or (opa_transactions attributes) [] in
      case decode_all decode txs of
        Inl e \<Rightarrow> Return d (Inl (Rlp e))
      | Inr decoded \<Rightarrow>
     (case drp_origin P (dr_pipeline d) of
        None \<Rightarrow> Return d (Inl (Pipeline (crit MissingOrigin)))
      | Some origin \<Rightarrow>
     (case from_block_and_genesis (op_block_of (bbo_header block_outcome) decoded) (rc_genesis (drp_rollup_config P (dr_pipeline d))) of
        Inl e \<Rightarrow> Return d (Inl (FromBlock e))
      | Inr new_head \<Rightarrow>
     (case ex_compute_output_root E (dr_executor d) of
        (e, Inl err) \<Rightarrow> Return (d\<lparr>dr_executor := e\<rparr>) (Inl (Executor err))
      | (e, Inr root) \<Rightarrow>
     (case cursor_advance origin \<lparr>tc_l2_safe_head = new_head, tc_l2_safe_head_header = bbo_header block_outcome,
             tc_l2_safe_head_output_root = root\<rparr> (dr_cursor d) of
        None \<Rightarrow> Crash (d\<lparr>dr_executor := e\<rparr>)
      | Some c \<Rightarrow> Continue (d\<lparr>dr_executor := e, dr_cursor := c, dr_safe_head_artifacts := Some (block_outcome, txs)\<rparr>) goal_block)))))"

text \<open>One iteration of the loop; the outer \<open>None\<close> is a payload that is never produced.\<close>

definition driver_iteration ::
    "(bytes \<Rightarrow> string + op_tx) \<Rightarrow> ('e, 'x, 'err) executor \<Rightarrow> 'p driver_pipeline \<Rightarrow> rollup_config \<Rightarrow> u64 option \<Rightarrow> ('e, 'x, 'p) driver \<Rightarrow>
     (('e, 'x, 'p) driver, l2_block_info \<times> b256, 'err) iteration option" where
  "driver_iteration decode E P cfg goal_block d =
     (case cursor_tip (dr_cursor d) of
        None \<Rightarrow> Some (Crash d)
      | Some tip \<Rightarrow>
          let head = tc_l2_safe_head tip; number = bi_number (l2_info head) in
          if (case goal_block of None \<Rightarrow> False | Some tb \<Rightarrow> tb \<le> number)
          then Some (Return d (Inr (head, tc_l2_safe_head_output_root tip)))
          else
            Option.bind (produce_payload P head (dr_pipeline d)) (\<lambda>(p, r).
              let d = d\<lparr>dr_pipeline := p\<rparr> in
              case r of
                Panicked \<Rightarrow> Some (Crash d)
              | Err e \<Rightarrow>
                  if e = crit EndOfSource
                  then let goal_block = (if goal_block = None then None else Some number) in
                    if is_interop_active cfg number then Some (Return d (Inl (Pipeline (crit EndOfSource))))
                    else Some (Continue d goal_block)
                  else Some (Return d (Inl (Pipeline e)))
              | Ok attrs \<Rightarrow>
                  (case execute_attributes E P cfg tip (oap_inner attrs) d of
                     (d, None) \<Rightarrow> Some (Crash d)
                   | (d, Some (Inl e)) \<Rightarrow> Some (Return d (Inl e))
                   | (d, Some (Inr None)) \<Rightarrow> Some (Continue d goal_block)
                   | (d, Some (Inr (Some (attributes, block_outcome)))) \<Rightarrow>
                       Some (accept_block decode E P goal_block attributes block_outcome d))))"

text \<open>The loop; the inner \<open>None\<close> is a panic.\<close>

partial_function (option) advance_to_target ::
    "(bytes \<Rightarrow> string + op_tx) \<Rightarrow> ('e, 'x, 'err) executor \<Rightarrow> 'p driver_pipeline \<Rightarrow> rollup_config \<Rightarrow> u64 option \<Rightarrow> ('e, 'x, 'p) driver \<Rightarrow>
     (('e, 'x, 'p) driver \<times> ('err driver_error + l2_block_info \<times> b256) option) option" where
  "advance_to_target decode E P cfg goal_block d =
     Option.bind (driver_iteration decode E P cfg goal_block d) (\<lambda>it.
       case it of
         Return d r \<Rightarrow> Some (d, Some r)
       | Crash d \<Rightarrow> Some (d, None)
       | Continue d goal_block \<Rightarrow> advance_to_target decode E P cfg goal_block d)"


section \<open>Laws of the cursor\<close>

definition cursor_inv :: "pipeline_cursor \<Rightarrow> bool" where
  "cursor_inv c \<longleftrightarrow> om_ok (pc_tips c) \<and> pc_origins c \<noteq> [] \<and> fst ` set (pc_tips c) \<subseteq> dom (pc_origin_infos c) \<and>
     (\<forall>k b. pc_origin_infos c k = Some b \<longrightarrow> bi_number b = k)"

lemma cursor_inv_new: "cursor_inv (cursor_new t b)"
  by (simp add: cursor_inv_def cursor_new_def)

lemma cursor_advance_ok:
  assumes "cursor_inv c"
  obtains c' where "cursor_advance b t c = Some c'" "cursor_inv c'" "pc_origin c' = b"
    "om_get (pc_tips c') (bi_number b) = Some t" "pc_channel_timeout c' = pc_channel_timeout c" "pc_capacity c' = pc_capacity c"
proof -
  obtain key origins where origins: "pc_origins c = key # origins"
    using assms by (cases "pc_origins c") (auto simp: cursor_inv_def)
  have ok: "om_ok (pc_tips c)" "om_ok (om_remove key (pc_tips c))"
    using assms by (simp_all add: cursor_inv_def om_remove_ok)
  then have "om_ok (om_insert (bi_number b) t (pc_tips c))" "om_ok (om_insert (bi_number b) t (om_remove key (pc_tips c)))"
    by (simp_all add: om_insert_ok)
  moreover have "fst ` set (om_remove key (pc_tips c)) \<subseteq> fst ` set (pc_tips c)" by (auto simp: om_remove_def)
  ultimately show thesis
    using assms origins ok
    by (intro that [of "the (cursor_advance b t c)"])
      (auto simp: cursor_inv_def cursor_advance_def om_insert_keys om_get_insert)
qed

lemma cursor_tip_newest:
  assumes "cursor_inv c" and "cursor_advance b t c = Some c'" and "\<forall>k \<in> fst ` set (pc_tips c). k \<le> bi_number b"
  shows "cursor_tip c' = Some t"
proof -
  obtain c'' where c'': "cursor_advance b t c = Some c''" "cursor_inv c''" "om_get (pc_tips c'') (bi_number b) = Some t"
    using assms(1) by (rule cursor_advance_ok)
  obtain m where m: "pc_tips c' = om_insert (bi_number b) t m" "set m \<subseteq> set (pc_tips c)"
    using assms(1,2)
    by (cases "pc_origins c") (auto simp: cursor_advance_def cursor_inv_def om_remove_def split: if_splits)
  then have keys: "fst ` set (pc_tips c') \<subseteq> insert (bi_number b) (fst ` set (pc_tips c))"
    using om_insert_keys [of "bi_number b" t m] by auto
  from c'' assms(2) have ok: "om_ok (pc_tips c')" and t: "om_get (pc_tips c') (bi_number b) = Some t" by (simp_all add: cursor_inv_def)
  then have "pc_tips c' \<noteq> []" by (auto simp: om_get_def)
  then obtain k v where last: "om_last (pc_tips c') = Some (k, v)" by (auto simp: om_last_def) (metis surj_pair)
  from om_last_greatest [OF ok last] t have k: "om_get (pc_tips c') k = Some v" "bi_number b \<le> k" by blast+
  then have "k \<in> fst ` set (pc_tips c')" using om_get_None [of "pc_tips c'" k] by simp
  with keys have "k = bi_number b \<or> k \<in> fst ` set (pc_tips c)" by blast
  with assms(3) k(2) have "k = bi_number b" by (blast intro: antisym)
  with k t last show ?thesis by (simp add: cursor_tip_def)
qed

inductive cursor_reachable :: "u64 \<Rightarrow> pipeline_cursor \<Rightarrow> bool" for timeout where
  new: "cursor_reachable timeout (cursor_new timeout b)"
| advance: "cursor_reachable timeout c \<Longrightarrow> cursor_advance b t c = Some c' \<Longrightarrow> cursor_reachable timeout c'"

lemma cursor_reachable_inv: "cursor_reachable timeout c \<Longrightarrow> cursor_inv c \<and> pc_channel_timeout c = timeout \<and> pc_capacity c = timeout + 5"
proof (induction rule: cursor_reachable.induct)
  case (new b)
  then show ?case using cursor_inv_new [of timeout b] by (simp add: cursor_new_def)
next
  case (advance c b t c')
  then show ?case by (metis cursor_advance_ok option.inject)
qed

lemma cursor_reset_spec:
  assumes "cursor_inv c" and start: "start = fork_block - pc_channel_timeout c"
  shows "case cursor_reset fork_block c of
      None \<Rightarrow> \<forall>k v. om_get (pc_tips c) k = Some v \<longrightarrow> start < k
    | Some (t, b) \<Rightarrow> om_get (pc_tips c) (bi_number b) = Some t \<and> bi_number b \<le> start \<and>
        (\<forall>k v. om_get (pc_tips c) k = Some v \<and> k \<le> start \<longrightarrow> k \<le> bi_number b)"
proof -
  have info: "\<exists>b. pc_origin_infos c k = Some b \<and> bi_number b = k"
    if "om_get (pc_tips c) k = Some v" for k v
    using assms(1) that om_get_None [of "pc_tips c" k] by (auto simp: cursor_inv_def)
  have ok: "om_ok (pc_tips c)" using assms(1) by (simp add: cursor_inv_def)
  have reset: "cursor_reset fork_block c =
     (case om_get (pc_tips c) start of
        Some l2_safe_tip \<Rightarrow> map_option (Pair l2_safe_tip) (pc_origin_infos c start)
      | None \<Rightarrow> Option.bind (om_last_le start (pc_tips c)) (\<lambda>(k, t). map_option (Pair t) (pc_origin_infos c k)))"
    by (simp only: cursor_reset_def start Let_def)
  show ?thesis
  proof (cases "om_get (pc_tips c) start")
    case (Some t)
    with info [OF Some] show ?thesis by (auto simp: reset)
  next
    case None
    show ?thesis
    proof (cases "om_last_le start (pc_tips c)")
      case None
      then have "\<forall>k v. om_get (pc_tips c) k = Some v \<longrightarrow> start < k" by (simp only: om_last_le_None [OF ok])
      moreover have "cursor_reset fork_block c = None" using None \<open>om_get (pc_tips c) start = None\<close> by (simp add: reset)
      ultimately show ?thesis by simp
    next
      case (Some e)
      obtain k t where e: "e = (k, t)" by fastforce
      with om_last_le_greatest [OF ok Some [unfolded e]] info [of k t] \<open>om_get (pc_tips c) start = None\<close> Some
      show ?thesis by (auto simp: reset)
    qed
  qed
qed

section \<open>The loops\<close>

lemma iteration_Return:
  assumes "driver_iteration decode E P cfg goal_block d = Some (Return d' (Inr (head, root)))"
  shows "\<exists>tip t. d' = d \<and> cursor_tip (dr_cursor d) = Some tip \<and> head = tc_l2_safe_head tip \<and>
    root = tc_l2_safe_head_output_root tip \<and> goal_block = Some t \<and> t \<le> bi_number (l2_info head)"
proof -
  have accept: "accept_block decode E P g a o' d \<noteq> Return d' (Inr r)" for g a o' d d' r
    by (auto simp: accept_block_def Let_def split: sum.splits option.splits prod.splits)
  from assms show ?thesis
    by (auto simp: driver_iteration_def Let_def accept split: option.splits if_splits bind_splits pres.splits prod.splits sum.splits)
qed


text \<open>
  The iterations of one run of the loop that keep its target.  An iteration that goes on otherwise
  is one in which the pipeline, asked for a payload on the head of the cursor, reported the end of
  its source; it lowers the target to that head.
\<close>

inductive driver_steps ::
    "(bytes \<Rightarrow> string + op_tx) \<Rightarrow> ('e, 'x, 'err) executor \<Rightarrow> 'p driver_pipeline \<Rightarrow> rollup_config \<Rightarrow> u64 option \<Rightarrow>
     ('e, 'x, 'p) driver \<Rightarrow> ('e, 'x, 'p) driver \<Rightarrow> bool"
  for decode E P cfg goal_block where
  refl: "driver_steps decode E P cfg goal_block d d"
| step: "driver_steps decode E P cfg goal_block d d''"
  if "driver_iteration decode E P cfg goal_block d = Some (Continue d' goal_block)"
    and "driver_steps decode E P cfg goal_block d' d''"

lemma iteration_Continue:
  assumes "driver_iteration decode E P cfg goal_block d = Some (Continue d' goal')"
  shows "goal' = goal_block \<or>
    (\<exists>tip t p. cursor_tip (dr_cursor d) = Some tip \<and> goal_block = Some t \<and>
      bi_number (l2_info (tc_l2_safe_head tip)) < t \<and> goal' = Some (bi_number (l2_info (tc_l2_safe_head tip))) \<and>
      produce_payload P (tc_l2_safe_head tip) (dr_pipeline d) = Some (p, Err (crit EndOfSource)) \<and>
      d' = d\<lparr>dr_pipeline := p\<rparr>)"
proof -
  have accept: "accept_block decode E P g a o' d = Continue d' g' \<Longrightarrow> g' = g" for g g' a o' d d'
    by (auto simp: accept_block_def Let_def split: sum.splits option.splits prod.splits)
  from assms show ?thesis
    by (auto simp: driver_iteration_def Let_def not_le dest: accept
        split: option.splits if_splits bind_splits pres.splits prod.splits sum.splits)
qed

lemma advance_at_target:
  assumes "cursor_tip (dr_cursor d) = Some tip" and "t \<le> bi_number (l2_info (tc_l2_safe_head tip))"
  shows "advance_to_target decode E P cfg (Some t) d =
    Some (d, Some (Inr (tc_l2_safe_head tip, tc_l2_safe_head_output_root tip)))"
  using assms by (subst advance_to_target.simps) (simp add: driver_iteration_def Let_def)

text \<open>Induction over the iterations of a run that returns.\<close>

lemma advance_to_target_induct [consumes 1, case_names Return Crash Continue]:
  assumes run: "advance_to_target decode E P cfg goal_block d = Some r"
    and ret: "\<And>g d d' x. driver_iteration decode E P cfg g d = Some (Return d' x) \<Longrightarrow> Q g d (d', Some x)"
    and crash: "\<And>g d d'. driver_iteration decode E P cfg g d = Some (Crash d') \<Longrightarrow> Q g d (d', None)"
    and cont: "\<And>g d g' d' r. driver_iteration decode E P cfg g d = Some (Continue d' g') \<Longrightarrow> Q g' d' r \<Longrightarrow> Q g d r"
  shows "Q goal_block d r"
proof -
  let ?Q = "\<lambda>(((((decode', E'), P'), cfg'), g), d) r. decode' = decode \<and> E' = E \<and> P' = P \<and> cfg' = cfg \<longrightarrow> Q g d r"
  have "?Q (((((decode, E), P), cfg), goal_block), d) r"
  proof (rule advance_to_target.raw_induct [where Pa = ?Q, OF _ run], clarify, goal_cases)
    case (1 f _ _ _ _ g d r')
    then show ?case
      by (cases "driver_iteration decode E P cfg g d")
        (auto split: iteration.splits intro: ret crash cont)
  qed
  then show ?thesis by simp
qed

text \<open>How a run that returns a head came to it.\<close>

definition driver_ends ::
    "(bytes \<Rightarrow> string + op_tx) \<Rightarrow> ('e, 'x, 'err) executor \<Rightarrow> 'p driver_pipeline \<Rightarrow> rollup_config \<Rightarrow> u64 option \<Rightarrow>
     ('e, 'x, 'p) driver \<Rightarrow> ('e, 'x, 'p) driver \<Rightarrow> l2_block_info \<Rightarrow> b256 \<Rightarrow> bool" where
  "driver_ends decode E P cfg goal_block d d' head root \<longleftrightarrow>
     (\<exists>tip t d1. goal_block = Some t \<and> driver_steps decode E P cfg (Some t) d d1 \<and>
        cursor_tip (dr_cursor d1) = Some tip \<and> head = tc_l2_safe_head tip \<and> root = tc_l2_safe_head_output_root tip \<and>
        (t \<le> bi_number (l2_info head) \<and> d' = d1 \<or>
         bi_number (l2_info head) < t \<and>
         (\<exists>p. produce_payload P head (dr_pipeline d1) = Some (p, Err (crit EndOfSource)) \<and> d' = d1\<lparr>dr_pipeline := p\<rparr>)))"

lemma driver_ends_step:
  assumes "driver_iteration decode E P cfg goal_block d = Some (Continue d1 goal_block)"
    and "driver_ends decode E P cfg goal_block d1 d' head root"
  shows "driver_ends decode E P cfg goal_block d d' head root"
  using assms unfolding driver_ends_def by (blast intro: driver_steps.step)

lemma driver_ends_exhausted:
  assumes "cursor_tip (dr_cursor d) = Some tip" and "bi_number (l2_info (tc_l2_safe_head tip)) < t"
    and "produce_payload P (tc_l2_safe_head tip) (dr_pipeline d) = Some (p, Err (crit EndOfSource))"
  shows "driver_ends decode E P cfg (Some t) d (d\<lparr>dr_pipeline := p\<rparr>) (tc_l2_safe_head tip) (tc_l2_safe_head_output_root tip)"
  using assms unfolding driver_ends_def by (blast intro: driver_steps.refl)

lemma advance_to_target_Ok:
  assumes "advance_to_target decode E P cfg goal_block d = Some (d', Some (Inr (head, root)))"
  shows "driver_ends decode E P cfg goal_block d d' head root"
proof -
  define ok where "ok goal_block d r \<longleftrightarrow> advance_to_target decode E P cfg goal_block d = Some r \<and>
      (\<forall>d' head root. r = (d', Some (Inr (head, root))) \<longrightarrow> driver_ends decode E P cfg goal_block d d' head root)"
    for goal_block d r
  from assms have "ok goal_block d (d', Some (Inr (head, root)))"
  proof (induction rule: advance_to_target_induct)
    case (Return g d d' x)
    then have "advance_to_target decode E P cfg g d = Some (d', Some x)"
      by (subst advance_to_target.simps) simp
    with Return show ?case
      by (auto simp: ok_def driver_ends_def intro: driver_steps.refl dest!: iteration_Return)
  next
    case (Crash g d d')
    then show ?case unfolding ok_def by (subst advance_to_target.simps) simp
  next
    case (Continue g d g' d' r)
    have run: "advance_to_target decode E P cfg g d = Some r"
      using Continue unfolding ok_def by (subst advance_to_target.simps) simp
    from iteration_Continue [OF Continue(1)] show ?case
    proof (elim disjE exE conjE)
      assume "g' = g"
      with Continue run show ?case by (auto simp: ok_def intro: driver_ends_step)
    next
      fix tip t p
      assume end': "cursor_tip (dr_cursor d) = Some tip" "bi_number (l2_info (tc_l2_safe_head tip)) < t"
          "produce_payload P (tc_l2_safe_head tip) (dr_pipeline d) = Some (p, Err (crit EndOfSource))"
        and next': "g = Some t" "g' = Some (bi_number (l2_info (tc_l2_safe_head tip)))" "d' = d\<lparr>dr_pipeline := p\<rparr>"
      have "advance_to_target decode E P cfg g' d' = Some (d', Some (Inr (tc_l2_safe_head tip, tc_l2_safe_head_output_root tip)))"
        using advance_at_target [of d' tip _ decode E P cfg] end'(1) next' by simp
      then have "r = (d', Some (Inr (tc_l2_safe_head tip, tc_l2_safe_head_output_root tip)))"
        using Continue(2) by (simp add: ok_def)
      with run driver_ends_exhausted [OF end'] next' show ?case by (simp add: ok_def)
    qed
  qed
  then show ?thesis by (simp add: ok_def)
qed

text \<open>What is executed in the end: the attributes, or under Holocene their deposits alone.\<close>

lemma execute_attributes_executed:
  assumes "execute_attributes E P cfg tip attributes d = (d', Some (Inr (Some (executed, block_outcome))))"
  shows "executed = attributes \<or> is_holocene_active cfg (pa_timestamp (opa_payload_attributes attributes)) \<and>
    executed = attributes\<lparr>opa_transactions := map_option deposits_only (opa_transactions attributes)\<rparr>"
  using assms
  by (auto simp: execute_attributes_def Let_def split: sum.splits prod.splits pres.splits if_splits)

text \<open>A drained pipeline reports the end of its source whenever it is asked, on the given head.\<close>

definition drained :: "'p driver_pipeline \<Rightarrow> l2_block_info \<Rightarrow> ('p \<Rightarrow> bool) \<Rightarrow> bool" where
  "drained P head J \<longleftrightarrow> (\<forall>p. J p \<longrightarrow> (\<exists>p'. produce_payload P head p = Some (p', Err (crit EndOfSource)) \<and> J p'))"

lemma drained_iteration:
  assumes "drained P (tc_l2_safe_head tip) J" and "J (dr_pipeline d)" and "cursor_tip (dr_cursor d) = Some tip"
    and "\<not> is_interop_active cfg (bi_number (l2_info (tc_l2_safe_head tip)))"
    and "case goal_block of None \<Rightarrow> True | Some t \<Rightarrow> \<not> t \<le> bi_number (l2_info (tc_l2_safe_head tip))"
  obtains p where "J p"
    "driver_iteration decode E P cfg goal_block d = Some (Continue (d\<lparr>dr_pipeline := p\<rparr>)
      (if goal_block = None then None else Some (bi_number (l2_info (tc_l2_safe_head tip)))))"
proof -
  obtain p where p: "produce_payload P (tc_l2_safe_head tip) (dr_pipeline d) = Some (p, Err (crit EndOfSource))" "J p"
    using assms(1,2) by (auto simp: drained_def)
  then show thesis
    using assms(3-5) by (intro that [of p]) (auto simp: driver_iteration_def Let_def split: option.splits)
qed

lemma drained_forever:
  assumes "drained P (tc_l2_safe_head tip) J" and "J (dr_pipeline d)" and "cursor_tip (dr_cursor d) = Some tip"
    and "\<not> is_interop_active cfg (bi_number (l2_info (tc_l2_safe_head tip)))"
  shows "advance_to_target decode E P cfg None d = None"
proof (rule ccontr)
  assume "advance_to_target decode E P cfg None d \<noteq> None"
  then obtain r where "advance_to_target decode E P cfg None d = Some r" by blast
  then have "J (dr_pipeline d) \<longrightarrow> cursor_tip (dr_cursor d) = Some tip \<longrightarrow> (None :: u64 option) \<noteq> None"
  proof (induction "None :: u64 option" d r rule: advance_to_target_induct)
    case (Return d d' x)
    then show ?case using drained_iteration [OF assms(1) _ _ assms(4), of d None decode E] by fastforce
  next
    case (Crash d d')
    then show ?case using drained_iteration [OF assms(1) _ _ assms(4), of d None decode E] by fastforce
  next
    case (Continue d g' d' r)
    then show ?case using drained_iteration [OF assms(1) _ _ assms(4), of d None decode E] by fastforce
  qed
  with assms(2,3) show False by simp
qed


lemma drained_halts:
  assumes "drained P (tc_l2_safe_head tip) J" and "J (dr_pipeline d)" and "cursor_tip (dr_cursor d) = Some tip"
    and "\<not> is_interop_active cfg (bi_number (l2_info (tc_l2_safe_head tip)))"
  shows "\<exists>d'. advance_to_target decode E P cfg (Some t) d =
    Some (d', Some (Inr (tc_l2_safe_head tip, tc_l2_safe_head_output_root tip)))"
proof (cases "t \<le> bi_number (l2_info (tc_l2_safe_head tip))")
  case True
  with assms(3) show ?thesis
    by (subst advance_to_target.simps) (simp add: driver_iteration_def Let_def)
next
  case False
  then have goal: "case Some t of None \<Rightarrow> True | Some t \<Rightarrow> \<not> t \<le> bi_number (l2_info (tc_l2_safe_head tip))" by simp
  obtain p where "driver_iteration decode E P cfg (Some t) d =
      Some (Continue (d\<lparr>dr_pipeline := p\<rparr>) (Some (bi_number (l2_info (tc_l2_safe_head tip)))))"
    using drained_iteration [OF assms goal, of decode E] by auto
  moreover have "driver_iteration decode E P cfg (Some (bi_number (l2_info (tc_l2_safe_head tip)))) (d\<lparr>dr_pipeline := p\<rparr>) =
      Some (Return (d\<lparr>dr_pipeline := p\<rparr>) (Inr (tc_l2_safe_head tip, tc_l2_safe_head_output_root tip)))"
    using assms(3) by (simp add: driver_iteration_def Let_def)
  ultimately show ?thesis
    by (subst advance_to_target.simps, simp, subst advance_to_target.simps, simp)
qed

text \<open>
  The capacity does not bound the cursor: an origin with several L2 blocks is queued once for each of
  them, and evicting it again later removes no tip.
\<close>

fun cursor_run :: "block_info list \<Rightarrow> tip_cursor \<Rightarrow> pipeline_cursor \<Rightarrow> pipeline_cursor option" where
  "cursor_run [] t c = Some c"
| "cursor_run (b # bs) t c = Option.bind (cursor_advance b t c) (cursor_run bs t)"

lemma cursor_run_reachable: "cursor_reachable timeout c \<Longrightarrow> cursor_run bs t c = Some c' \<Longrightarrow> cursor_reachable timeout c'"
  by (induction bs arbitrary: c) (auto split: bind_splits intro: cursor_reachable.advance)

lemma cursor_exceeds_capacity:
  "\<exists>c. cursor_reachable 0 c \<and> unat (pc_capacity c) < length (pc_tips c)"
proof -
  let ?b = "\<lambda>n. default_block_info\<lparr>bi_number := n\<rparr>"
  have "\<exists>c. cursor_run (map ?b [1, 1, 2, 3, 4, 5, 6, 7]) t (cursor_new 0 (?b 1)) = Some c \<and> unat (pc_capacity c) < length (pc_tips c)" for t
    by (simp add: cursor_advance_def cursor_new_def om_remove_def)
  then show ?thesis using cursor_run_reachable [OF cursor_reachable.new] by blast
qed

section \<open>Properties\<close>

text \<open>
  C26. When the driver returns a safe head, a target was given, and the run consists of iterations that
  keep that target and end in a state whose cursor's tip is the returned head, with its output root.
  Either the target is reached there, or it is not and in that very state the pipeline, asked for a
  payload on the returned head, reported the end of its source. In particular the driver never
  returns a safe head without a target, and never stops short of it for any other reason.
\<close>

theorem driver_reaches_target:
  assumes "advance_to_target decode E P cfg goal_block d = Some (d', Some (Inr (head, root)))"
  shows "\<exists>tip t d1. goal_block = Some t \<and> driver_steps decode E P cfg (Some t) d d1 \<and>
    cursor_tip (dr_cursor d1) = Some tip \<and> head = tc_l2_safe_head tip \<and> root = tc_l2_safe_head_output_root tip \<and>
    (t \<le> bi_number (l2_info head) \<and> d' = d1 \<or>
     bi_number (l2_info head) < t \<and>
     (\<exists>p. produce_payload P head (dr_pipeline d1) = Some (p, Err (crit EndOfSource)) \<and> d' = d1\<lparr>dr_pipeline := p\<rparr>))"
  using advance_to_target_Ok [OF assms] unfolding driver_ends_def .

definition dry_pipeline :: "unit driver_pipeline" where
  "dry_pipeline =
     \<lparr>drp_step = (\<lambda>_ p. (p, Some (StepFailed (crit EndOfSource)))), drp_origin = (\<lambda>_. Some (example_origins ! 1)),
      drp_next = (\<lambda>p. (p, None)), drp_system_config_by_number = (\<lambda>_ p. (p, Ok default_system_config)),
      drp_signal = (\<lambda>p _. (p, Ok ())), drp_flush = (\<lambda>p. p), drp_rollup_config = (\<lambda>_. example_config)\<rparr>"

definition example_tip :: tip_cursor where
  "example_tip = \<lparr>tc_l2_safe_head = example_head,
     tc_l2_safe_head_header = \<lparr>sh_number = 30, sh_hash = 31, sh_parent_hash = 30, sh_timestamp = 62, sh_gas_limit = 0, sh_extra_data = []\<rparr>,
     tc_l2_safe_head_output_root = 77\<rparr>"

definition example_executor :: "(unit, unit, string) executor" where
  "example_executor =
     \<lparr>ex_wait_until_ready = (\<lambda>e. e), ex_update_safe_head = (\<lambda>_ e. e), ex_execute_payload = (\<lambda>_ e. (e, Inl [])),
      ex_compute_output_root = (\<lambda>e. (e, Inl []))\<rparr>"

definition example_driver :: "(unit, unit, unit) driver" where
  "example_driver = driver_new ((cursor_new 10 (example_origins ! 0))\<lparr>pc_tips := [(7, example_tip)]\<rparr>) () ()"

lemma dry_pipeline_drained: "drained dry_pipeline head (\<lambda>_. True)"
  by (simp add: drained_def) (subst produce_payload.simps, simp add: dry_pipeline_def after_step_def Let_def)

lemma example_driver_tip: "cursor_tip (dr_cursor example_driver) = Some example_tip"
  by (simp add: example_driver_def driver_new_def cursor_tip_def om_last_def)

lemma example_tip_parts [simp]: "tc_l2_safe_head example_tip = example_head" "tc_l2_safe_head_output_root example_tip = 77"
  by (simp_all add: example_tip_def)

theorem driver_reaches_target_witness:
  "\<exists>d' d1 p. advance_to_target (\<lambda>_. Inl []) example_executor dry_pipeline example_config (Some 40) example_driver =
      Some (d', Some (Inr (example_head, 77))) \<and>
    driver_steps (\<lambda>_. Inl []) example_executor dry_pipeline example_config (Some 40) example_driver d1 \<and>
    produce_payload dry_pipeline example_head (dr_pipeline d1) = Some (p, Err (crit EndOfSource)) \<and> d' = d1\<lparr>dr_pipeline := p\<rparr>"
proof -
  have "\<not> is_interop_active example_config (bi_number (l2_info (tc_l2_safe_head example_tip)))"
    by (simp add: cfg_defs reached_def example_config_defs)
  from drained_halts [OF dry_pipeline_drained _ example_driver_tip this, of "\<lambda>_. Inl []" example_executor 40]
  obtain d' where run: "advance_to_target (\<lambda>_. Inl []) example_executor dry_pipeline example_config (Some 40) example_driver =
      Some (d', Some (Inr (example_head, 77)))" by auto
  have "\<not> (40 :: u64) \<le> bi_number (l2_info example_head)" by (simp add: example_head_def)
  with driver_reaches_target [OF run] run show ?thesis by blast
qed

text \<open>
  C27. On a pipeline that keeps reporting the end of its source, the driver returns the safe head when
  it has a target, whatever the target, and never returns when it has none. The only way out is
  the error that interop callers wait for, and that is not raised as long as the number of the
  head, taken as a timestamp, is before the activation of interop.
\<close>

theorem driver_on_drained_source:
  assumes "drained P (tc_l2_safe_head tip) J" and "J (dr_pipeline d)" and "cursor_tip (dr_cursor d) = Some tip"
    and "\<not> is_interop_active cfg (bi_number (l2_info (tc_l2_safe_head tip)))"
  shows "advance_to_target decode E P cfg None d = None \<and>
    (\<exists>d'. advance_to_target decode E P cfg (Some t) d = Some (d', Some (Inr (tc_l2_safe_head tip, tc_l2_safe_head_output_root tip))))"
  using drained_forever [OF assms] drained_halts [OF assms] by blast

text \<open>The witness is a chain on which interop is active at the safe head.\<close>

theorem driver_on_drained_source_witness:
  "is_interop_active (example_config\<lparr>rc_hardforks := (rc_hardforks example_config)\<lparr>interop_time := Some 61\<rparr>\<rparr>)
     (bi_timestamp (l2_info example_head)) \<and>
   advance_to_target (\<lambda>_. Inl []) example_executor dry_pipeline
     (example_config\<lparr>rc_hardforks := (rc_hardforks example_config)\<lparr>interop_time := Some 61\<rparr>\<rparr>) None example_driver = None \<and>
   (\<exists>d'. advance_to_target (\<lambda>_. Inl []) example_executor dry_pipeline
     (example_config\<lparr>rc_hardforks := (rc_hardforks example_config)\<lparr>interop_time := Some 61\<rparr>\<rparr>) (Some 40) example_driver =
       Some (d', Some (Inr (example_head, 77))))"
  (is "is_interop_active ?cfg _ \<and> _")
proof -
  have "is_interop_active ?cfg (bi_timestamp (l2_info example_head))"
    "\<not> is_interop_active ?cfg (bi_number (l2_info (tc_l2_safe_head example_tip)))"
    by (simp_all add: cfg_defs reached_def example_config_defs example_head_def)
  with driver_on_drained_source [OF dry_pipeline_drained _ example_driver_tip this(2), of "\<lambda>_. Inl []" example_executor 40]
  show ?thesis by simp
qed

text \<open>
  C28. A cursor that was only ever advanced never panics when it is advanced again, and a reset goes back to
  the latest tip that is at least the channel timeout before the fork block, with the L1 block of
  that tip; it fails only if there is none. The fork block is assumed not to be among the first
  blocks, so that the subtraction of the timeout does not wrap around.
\<close>

theorem cursor_reset_nearest:
  assumes "cursor_reachable timeout c" and "unat timeout \<le> unat fork_block"
  shows "(\<exists>c'. cursor_advance b' t' c = Some c' \<and> pc_origin c' = b' \<and> om_get (pc_tips c') (bi_number b') = Some t') \<and>
    (case cursor_reset fork_block c of
      None \<Rightarrow> \<forall>k v. om_get (pc_tips c) k = Some v \<longrightarrow> unat fork_block < unat k + unat timeout
    | Some (t, b) \<Rightarrow> om_get (pc_tips c) (bi_number b) = Some t \<and> unat (bi_number b) + unat timeout \<le> unat fork_block \<and>
        (\<forall>k v. om_get (pc_tips c) k = Some v \<and> unat k + unat timeout \<le> unat fork_block \<longrightarrow> k \<le> bi_number b))"
proof -
  note c = cursor_reachable_inv [OF assms(1)]
  have "unat (fork_block - timeout) = unat fork_block - unat timeout" using assms(2) by (simp add: unat_sub word_le_nat_alt)
  then have before: "k \<le> fork_block - timeout \<longleftrightarrow> unat k + unat timeout \<le> unat fork_block" for k
    using assms(2) by (simp add: word_le_nat_alt) linarith
  have after: "fork_block - timeout < k \<longleftrightarrow> unat fork_block < unat k + unat timeout" for k
    using before [of k] by (simp flip: not_le)
  from cursor_reset_spec [of c "fork_block - timeout" fork_block] c
  have "case cursor_reset fork_block c of
      None \<Rightarrow> \<forall>k v. om_get (pc_tips c) k = Some v \<longrightarrow> unat fork_block < unat k + unat timeout
    | Some (t, b) \<Rightarrow> om_get (pc_tips c) (bi_number b) = Some t \<and> unat (bi_number b) + unat timeout \<le> unat fork_block \<and>
        (\<forall>k v. om_get (pc_tips c) k = Some v \<and> unat k + unat timeout \<le> unat fork_block \<longrightarrow> k \<le> bi_number b)"
    by (cases "cursor_reset fork_block c") (auto simp: before after)
  then show ?thesis using c by (metis cursor_advance_ok)
qed


theorem cursor_reset_nearest_witness:
  "\<exists>c t b. cursor_reachable 2 c \<and> cursor_reset 9 c = Some (t, b) \<and> bi_number b = 7 \<and> om_get (pc_tips c) 7 = Some t"
proof -
  obtain c where c: "cursor_run [example_origins ! 0, example_origins ! 1] example_tip (cursor_new 2 (example_origins ! 0)) = Some c"
    "cursor_reset 9 c = Some (example_tip, example_origins ! 0)"
    by (simp add: cursor_advance_def cursor_new_def cursor_reset_def om_get_def example_origins_def)
  have "cursor_reachable 2 c" using cursor_run_reachable [OF cursor_reachable.new c(1)] .
  from cursor_reset_nearest [OF this, of 9] c(2) this show ?thesis
    by (auto simp: example_origins_def)
qed

end
