(* ===== verification/Blob_Data.thy ===== *)
theory Blob_Data
  imports Decoding
begin

text \<open>
  The contents of blobs, \<^verbatim>\<open>crates/protocol/derive/src/sources/blob_data.rs\<close>: 1024 rounds of four
  field elements of 32 bytes, of which 31 hold data and the first holds six bits; the four times
  six bits of a round are three more bytes.  The data so stored is a version byte, a length of
  three bytes and the payload, followed by zeroes.

  Shown: decoding never reads or writes out of range, and it accepts exactly the encodings of
  payloads of at most \<open>BLOB_MAX_DATA_SIZE\<close> bytes, up to the two high bits of the first byte,
  which it does not look at.
\<close>

unbundle bit_operations_syntax

section \<open>Decoding\<close>

definition BLOB_ENCODING_VERSION :: u8 where "BLOB_ENCODING_VERSION = 0"

definition BLOB_MAX_DATA_SIZE :: nat where "BLOB_MAX_DATA_SIZE = (4 * 31 + 3) * 1024 - 4"

definition BLOB_ENCODING_ROUNDS :: nat where "BLOB_ENCODING_ROUNDS = 1024"

text \<open>\<^verbatim>\<open>Blob\<close>, \<^verbatim>\<open>BYTES_PER_BLOB\<close> and \<^verbatim>\<open>VERSIONED_HASH_VERSION_KZG\<close> of EIP-4844.\<close>

definition BYTES_PER_BLOB :: nat where "BYTES_PER_BLOB = 131072"

definition VERSIONED_HASH_VERSION_KZG :: nat where "VERSIONED_HASH_VERSION_KZG = 1"

typedef blob = "{bs :: bytes. length bs = BYTES_PER_BLOB}"
  by (rule exI [of _ "replicate BYTES_PER_BLOB 0"]) simp

datatype blob_decoding_error = InvalidFieldElement | InvalidEncodingVersion | InvalidLength | MissingData

text \<open>The data of a \<open>blob_data\<close> is written by \<open>fill\<close> only, from a \<open>blob\<close>.\<close>

record blob_data =
  bld_data :: "blob option"
  bld_calldata :: "bytes option"

definition default_blob_data :: blob_data where
  "default_blob_data = \<lparr>bld_data = None, bld_calldata = None\<rparr>"

text \<open>Indexing, slicing and \<^verbatim>\<open>copy_from_slice\<close>, which panic out of range.\<close>

definition byte_at :: "bytes \<Rightarrow> nat \<Rightarrow> ('e, u8) outcome" where
  "byte_at xs i = (if i < length xs then Good (xs ! i) else Panic)"

definition slice_at :: "bytes \<Rightarrow> nat \<Rightarrow> nat \<Rightarrow> ('e, bytes) outcome" where
  "slice_at xs i j = (if i \<le> j \<and> j \<le> length xs then Good (take (j - i) (drop i xs)) else Panic)"

definition copy_at :: "nat \<Rightarrow> bytes \<Rightarrow> bytes \<Rightarrow> ('e, bytes) outcome" where
  "copy_at i src xs =
     (if i + length src \<le> length xs then Good (take i xs @ src @ drop (i + length src) xs) else Panic)"

definition decode_field_element ::
    "bytes \<Rightarrow> nat \<Rightarrow> nat \<Rightarrow> bytes \<Rightarrow> (blob_decoding_error, u8 \<times> nat \<times> nat \<times> bytes) outcome" where
  "decode_field_element data output_pos input_pos output =
     obind (byte_at data input_pos) (\<lambda>b.
       if b AND 0xC0 \<noteq> 0 then Bad InvalidFieldElement
       else obind (slice_at data (input_pos + 1) (input_pos + 32)) (\<lambda>src.
         obind (copy_at output_pos src output) (\<lambda>output.
           Good (b, output_pos + 32, input_pos + 32, output))))"

text \<open>The loops over the encoded bytes of a round.\<close>

fun decode_elements ::
    "nat \<Rightarrow> bytes \<Rightarrow> nat \<Rightarrow> nat \<Rightarrow> bytes \<Rightarrow> (blob_decoding_error, bytes \<times> nat \<times> nat \<times> bytes) outcome" where
  "decode_elements 0 data output_pos input_pos output = Good ([], output_pos, input_pos, output)"
| "decode_elements (Suc n) data output_pos input_pos output =
     obind (decode_field_element data output_pos input_pos output) (\<lambda>(enc, output_pos, input_pos, output).
       obind (decode_elements n data output_pos input_pos output) (\<lambda>(encs, output_pos, input_pos, output).
         Good (enc # encs, output_pos, input_pos, output)))"

text \<open>A position below 97 wraps around to an index out of range.\<close>

definition reassemble_bytes :: "nat \<Rightarrow> bytes \<Rightarrow> bytes \<Rightarrow> ('e, nat \<times> bytes) outcome" where
  "reassemble_bytes output_pos encoded_byte output =
     (let e0 = encoded_byte ! 0; e1 = encoded_byte ! 1; e2 = encoded_byte ! 2; e3 = encoded_byte ! 3;
          x = (e0 AND 0x3F) OR push_bit 2 (e1 AND 0x30);
          y = (e1 AND 0x0F) OR push_bit 4 (e3 AND 0x0F);
          z = (e2 AND 0x3F) OR push_bit 2 (e3 AND 0x30);
          p = output_pos - 1
      in if output_pos < 97 then Panic
         else obind (copy_at (p - 32) [z] output) (\<lambda>output.
              obind (copy_at (p - 64) [y] output) (\<lambda>output.
              obind (copy_at (p - 96) [x] output) (\<lambda>output. Good (p, output)))))"

fun decode_rounds ::
    "nat \<Rightarrow> nat \<Rightarrow> bytes \<Rightarrow> nat \<Rightarrow> nat \<Rightarrow> bytes \<Rightarrow> (blob_decoding_error, nat \<times> bytes) outcome" where
  "decode_rounds 0 len data output_pos input_pos output = Good (input_pos, output)"
| "decode_rounds (Suc n) len data output_pos input_pos output =
     (if output_pos \<ge> len then Good (input_pos, output)
      else obind (decode_elements 4 data output_pos input_pos output) (\<lambda>(encoded_byte, output_pos, input_pos, output).
        obind (reassemble_bytes output_pos encoded_byte output) (\<lambda>(output_pos, output).
          decode_rounds n len data output_pos input_pos output)))"

text \<open>The checks after the rounds: what is left of the output and of the input is zero.\<close>

definition decode_finish :: "nat \<Rightarrow> bytes \<Rightarrow> nat \<Rightarrow> bytes \<Rightarrow> (blob_decoding_error, bytes) outcome" where
  "decode_finish len data input_pos output =
     (if \<exists>b\<in>set (drop len output). b \<noteq> 0 then Bad InvalidFieldElement
      else obind (slice_at data input_pos BYTES_PER_BLOB) (\<lambda>rest.
        if \<exists>b\<in>set rest. b \<noteq> 0 then Bad InvalidFieldElement else Good (take len output)))"

definition decode_blob :: "bytes \<Rightarrow> (blob_decoding_error, bytes) outcome" where
  "decode_blob data =
     obind (byte_at data VERSIONED_HASH_VERSION_KZG) (\<lambda>version.
       if version \<noteq> BLOB_ENCODING_VERSION then Bad InvalidEncodingVersion
       else obind (slice_at data 2 5) (\<lambda>len_bytes.
         let len = be_decode len_bytes in
         if len > BLOB_MAX_DATA_SIZE then Bad InvalidLength
         else obind (slice_at data 5 32) (\<lambda>src.
           obind (copy_at 0 src (replicate BLOB_MAX_DATA_SIZE 0)) (\<lambda>output.
           obind (byte_at data 0) (\<lambda>enc.
           obind (decode_elements 3 data 28 32 output) (\<lambda>(encs, output_pos, input_pos, output).
           obind (reassemble_bytes output_pos (enc # encs) output) (\<lambda>(output_pos, output).
           obind (decode_rounds (BLOB_ENCODING_ROUNDS - 1) len data output_pos input_pos output) (\<lambda>(input_pos, output).
             decode_finish len data input_pos output))))))))"

definition blob_data_decode :: "blob_data \<Rightarrow> (blob_decoding_error, bytes) outcome" where
  "blob_data_decode d = obind (good_or (bld_data d) MissingData) (\<lambda>b. decode_blob (Rep_blob b))"

definition blob_data_fill ::
    "blob_data \<Rightarrow> blob list \<Rightarrow> nat \<Rightarrow> blob_decoding_error + (bool \<times> blob_data)" where
  "blob_data_fill d blobs index =
     (if bld_calldata d \<noteq> None then Inr (False, d)
      else if index \<ge> length blobs then Inl InvalidLength
      else if (\<forall>b\<in>set (Rep_blob (blobs ! index)). b = 0) then Inl MissingData
      else Inr (True, d\<lparr>bld_data := Some (blobs ! index)\<rparr>))"

section \<open>The encoding\<close>

text \<open>
  The format of the rollup specification, as the reference for the decoder: a stream of 127 bytes
  per round.
\<close>

definition header_bytes :: "u8 \<Rightarrow> u8 \<Rightarrow> u8 \<Rightarrow> bytes" where
  "header_bytes x y z =
     [x AND 0x3F, (y AND 0x0F) OR drop_bit 2 (x AND 0xC0), z AND 0x3F, drop_bit 4 y OR drop_bit 2 (z AND 0xC0)]"

definition pack_round :: "bytes \<Rightarrow> bytes" where
  "pack_round s =
     (let h = header_bytes (s ! 31) (s ! 63) (s ! 95) in
      h ! 0 # take 31 s @ h ! 1 # take 31 (drop 32 s) @ h ! 2 # take 31 (drop 64 s) @ h ! 3 # take 31 (drop 96 s))"

fun pack :: "nat \<Rightarrow> bytes \<Rightarrow> bytes" where
  "pack 0 s = []"
| "pack (Suc n) s = pack_round (take 127 s) @ pack n (drop 127 s)"

definition blob_encode :: "bytes \<Rightarrow> bytes" where
  "blob_encode ds = pack BLOB_ENCODING_ROUNDS
     (BLOB_ENCODING_VERSION # be_encode 3 (length ds) @ ds @ replicate (BLOB_MAX_DATA_SIZE - length ds) 0)"

section \<open>One round\<close>

definition round_ok :: "bytes \<Rightarrow> bool" where
  "round_ok r \<longleftrightarrow> (\<forall>i\<in>{0, 32, 64, 96}. r ! i AND 0xC0 = 0)"

definition unheader :: "u8 \<Rightarrow> u8 \<Rightarrow> u8 \<Rightarrow> u8 \<Rightarrow> u8 \<times> u8 \<times> u8" where
  "unheader e0 e1 e2 e3 =
     ((e0 AND 0x3F) OR push_bit 2 (e1 AND 0x30), (e1 AND 0x0F) OR push_bit 4 (e3 AND 0x0F),
      (e2 AND 0x3F) OR push_bit 2 (e3 AND 0x30))"

definition unpack_round :: "bytes \<Rightarrow> bytes" where
  "unpack_round r =
     (let (x, y, z) = unheader (r ! 0) (r ! 32) (r ! 64) (r ! 96) in
      take 31 (drop 1 r) @ x # take 31 (drop 33 r) @ y # take 31 (drop 65 r) @ z # take 31 (drop 97 r))"

lemma u8_eqI: "(\<And>n. n \<in> {0, 1, 2, 3, 4, 5, 6, 7} \<Longrightarrow> bit a n = bit b n) \<Longrightarrow> a = (b :: u8)"
proof (rule bit_word_eqI)
  fix n assume *: "\<And>n. n \<in> {0, 1, 2, 3, 4, 5, 6, 7} \<Longrightarrow> bit a n = bit b n" and "n < LENGTH(8)"
  then have "n < 8" by simp
  then have "n \<in> {0, 1, 2, 3, 4, 5, 6, 7}" unfolding insert_iff by arith
  then show "bit a n = bit b n" by (rule *)
qed

lemma u8_no_bit [simp]: "8 \<le> n \<Longrightarrow> \<not> bit (w :: u8) n"
  using bit_imp_le_length [of w n] by auto

lemma unheader_header:
  "header_bytes x y z = [e0, e1, e2, e3] \<Longrightarrow> unheader e0 e1 e2 e3 = (x, y, z)"
  by (auto simp: header_bytes_def unheader_def intro!: u8_eqI simp: bit_simps)

lemma header_ok: "header_bytes x y z = [e0, e1, e2, e3] \<Longrightarrow> \<forall>e\<in>{e0, e1, e2, e3}. e AND 0xC0 = 0"
  by (auto simp: header_bytes_def intro!: u8_eqI simp: bit_simps)

lemma header_unheader:
  assumes "\<forall>e\<in>{e0, e1, e2, e3}. e AND 0xC0 = 0"
  shows "(case unheader e0 e1 e2 e3 of (x, y, z) \<Rightarrow> header_bytes x y z) = [e0, e1, e2, e3]"
proof -
  have "\<not> bit e 6 \<and> \<not> bit e 7" if "e \<in> {e0, e1, e2, e3}" for e
  proof -
    have "\<not> bit (e AND 0xC0) 6" "\<not> bit (e AND 0xC0) 7" using that assms by auto
    then show ?thesis by (simp add: bit_simps)
  qed
  then have e: "\<not> bit e0 6" "\<not> bit e0 7" "\<not> bit e1 6" "\<not> bit e1 7" "\<not> bit e2 6" "\<not> bit e2 7"
      "\<not> bit e3 6" "\<not> bit e3 7"
    by simp_all
  show ?thesis unfolding header_bytes_def unheader_def prod.case list.inject
    by (intro conjI refl u8_eqI; elim insertE emptyE; hypsubst; simp add: bit_simps e)
qed

lemma round_split:
  assumes "length (r :: bytes) = 128"
  obtains e0 p0 e1 p1 e2 p2 e3 p3 where "r = e0 # p0 @ e1 # p1 @ e2 # p2 @ e3 # p3"
    "length p0 = 31" "length p1 = 31" "length p2 = 31" "length p3 = 31"
proof -
  have k: "take 32 (drop i r) @ drop (32 + i) r = drop i r" for i
    using append_take_drop_id [of 32 "drop i r"] by simp
  have r: "r = take 32 r @ take 32 (drop 32 r) @ take 32 (drop 64 r) @ drop 96 r"
    using k [of 64] k [of 32] by simp
  have c: "\<exists>e p. c = e # p \<and> length p = 31" if "length c = 32" for c :: bytes
    using that by (cases c) simp_all
  from assms c [of "take 32 r"] c [of "take 32 (drop 32 r)"] c [of "take 32 (drop 64 r)"] c [of "drop 96 r"]
  obtain e0 p0 e1 p1 e2 p2 e3 p3 where *: "take 32 r = e0 # p0" "take 32 (drop 32 r) = e1 # p1"
      "take 32 (drop 64 r) = e2 # p2" "drop 96 r = e3 # p3"
      "length p0 = 31" "length p1 = 31" "length p2 = 31" "length p3 = 31"
    by auto
  have "r = e0 # p0 @ e1 # p1 @ e2 # p2 @ e3 # p3"
    by (subst r, unfold *) simp
  with * that show thesis by blast
qed

lemma stream_split:
  assumes "length (s :: bytes) = 127"
  obtains p0 x p1 y p2 z p3 where "s = p0 @ x # p1 @ y # p2 @ z # p3"
    "length p0 = 31" "length p1 = 31" "length p2 = 31" "length p3 = 31"
proof -
  from assms obtain e0 p0 e1 p1 e2 p2 e3 p3 where "0 # s = e0 # p0 @ e1 # p1 @ e2 # p2 @ e3 # p3"
      "length p0 = 31" "length p1 = 31" "length p2 = 31" "length p3 = 31"
    by (elim round_split [of "0 # s", rotated]) simp
  with that show thesis by simp
qed

lemma round_simps:
  assumes "length p0 = 31" "length p1 = 31" "length p2 = 31" "length p3 = 31"
  shows "round_ok (e0 # p0 @ e1 # p1 @ e2 # p2 @ e3 # p3) \<longleftrightarrow> (\<forall>e\<in>{e0, e1, e2, e3}. e AND 0xC0 = 0)"
    "unpack_round (e0 # p0 @ e1 # p1 @ e2 # p2 @ e3 # p3) =
       (case unheader e0 e1 e2 e3 of (x, y, z) \<Rightarrow> p0 @ x # p1 @ y # p2 @ z # p3)"
    "pack_round (p0 @ x # p1 @ y # p2 @ z # p3) =
       (let h = header_bytes x y z in h ! 0 # p0 @ h ! 1 # p1 @ h ! 2 # p2 @ h ! 3 # p3)"
  using assms by (simp_all add: round_ok_def unpack_round_def pack_round_def nth_append nth_Cons')

lemma pack_unpack_round:
  assumes "length r = 128" "round_ok r"
  shows "length (unpack_round r) = 127" "pack_round (unpack_round r) = r"
proof -
  from assms(1) obtain e0 p0 e1 p1 e2 p2 e3 p3 where r: "r = e0 # p0 @ e1 # p1 @ e2 # p2 @ e3 # p3"
      "length p0 = 31" "length p1 = 31" "length p2 = 31" "length p3 = 31"
    by (rule round_split)
  with assms(2) have "(case unheader e0 e1 e2 e3 of (x, y, z) \<Rightarrow> header_bytes x y z) = [e0, e1, e2, e3]"
    by (intro header_unheader) (simp add: round_simps)
  with r show "length (unpack_round r) = 127" "pack_round (unpack_round r) = r"
    by (simp_all add: round_simps split: prod.splits)
qed

lemma unpack_pack_round:
  assumes "length s = 127"
  shows "length (pack_round s) = 128" "round_ok (pack_round s)" "unpack_round (pack_round s) = s"
proof -
  from assms obtain p0 x p1 y p2 z p3 where s: "s = p0 @ x # p1 @ y # p2 @ z # p3"
      "length p0 = 31" "length p1 = 31" "length p2 = 31" "length p3 = 31"
    by (rule stream_split)
  obtain e0 e1 e2 e3 where h: "header_bytes x y z = [e0, e1, e2, e3]"
    by (simp add: header_bytes_def)
  from s h header_ok [OF h] unheader_header [OF h]
  show "length (pack_round s) = 128" "round_ok (pack_round s)" "unpack_round (pack_round s) = s"
    by (simp_all add: round_simps)
qed

section \<open>The decoder round by round\<close>

lemma decode_field_element_eq:
  assumes "data = dpre @ e # p @ dpost" "output = pre @ q @ post" "length p = 31" "length q = 31"
    "input_pos = length dpre" "output_pos = length pre"
  shows "decode_field_element data output_pos input_pos output =
    (if e AND 0xC0 \<noteq> 0 then Bad InvalidFieldElement else Good (e, output_pos + 32, input_pos + 32, pre @ p @ post))"
  using assms by (simp add: decode_field_element_def byte_at_def slice_at_def copy_at_def)

lemma decode_elements_3:
  assumes "data = dpre @ e1 # p1 @ e2 # p2 @ e3 # p3 @ dpost" "output = pre @ q1 @ c1 # q2 @ c2 # q3 @ post"
    "length p1 = 31" "length p2 = 31" "length p3 = 31" "length q1 = 31" "length q2 = 31" "length q3 = 31"
    "input_pos = length dpre" "output_pos = length pre"
  shows "decode_elements 3 data output_pos input_pos output =
    (if \<forall>e\<in>{e1, e2, e3}. e AND 0xC0 = 0
     then Good ([e1, e2, e3], output_pos + 96, input_pos + 96, pre @ p1 @ c1 # p2 @ c2 # p3 @ post)
     else Bad InvalidFieldElement)"
proof -
  have 1: "decode_field_element data output_pos input_pos output = (if e1 AND 0xC0 \<noteq> 0 then Bad InvalidFieldElement
      else Good (e1, output_pos + 32, input_pos + 32, pre @ p1 @ c1 # q2 @ c2 # q3 @ post))"
    by (rule decode_field_element_eq [where dpre = dpre and pre = pre and q = q1]) (use assms in simp_all)
  have 2: "decode_field_element data (output_pos + 32) (input_pos + 32) (pre @ p1 @ c1 # q2 @ c2 # q3 @ post) =
      (if e2 AND 0xC0 \<noteq> 0 then Bad InvalidFieldElement
       else Good (e2, output_pos + 32 + 32, input_pos + 32 + 32, (pre @ p1 @ [c1]) @ p2 @ c2 # q3 @ post))"
    by (rule decode_field_element_eq [where dpre = "dpre @ e1 # p1" and q = q2]) (use assms in simp_all)
  have 3: "decode_field_element data (output_pos + 32 + 32) (input_pos + 32 + 32) ((pre @ p1 @ [c1]) @ p2 @ c2 # q3 @ post) =
      (if e3 AND 0xC0 \<noteq> 0 then Bad InvalidFieldElement
       else Good (e3, output_pos + 32 + 32 + 32, input_pos + 32 + 32 + 32, (pre @ p1 @ [c1] @ p2 @ [c2]) @ p3 @ post))"
    by (rule decode_field_element_eq [where dpre = "dpre @ e1 # p1 @ e2 # p2" and q = q3]) (use assms in simp_all)
  show ?thesis by (simp add: numeral_3_eq_3 1 2 [simplified] 3 [simplified])
qed

lemma reassemble_bytes_eq:
  assumes "output = pre @ c0 # p1 @ c1 # p2 @ c2 # p3 @ post" "length p1 = 31" "length p2 = 31" "length p3 = 31"
    "output_pos = length pre + 97"
  shows "reassemble_bytes output_pos [e0, e1, e2, e3] output =
    Good (output_pos - 1, case unheader e0 e1 e2 e3 of (x, y, z) \<Rightarrow> pre @ x # p1 @ y # p2 @ z # p3 @ post)"
  using assms by (simp add: reassemble_bytes_def copy_at_def unheader_def Let_def)

definition decode_round :: "bytes \<Rightarrow> nat \<Rightarrow> nat \<Rightarrow> bytes \<Rightarrow> (blob_decoding_error, nat \<times> nat \<times> bytes) outcome" where
  "decode_round data output_pos input_pos output =
     obind (decode_elements 4 data output_pos input_pos output) (\<lambda>(encoded_byte, output_pos, input_pos, output).
       obind (reassemble_bytes output_pos encoded_byte output) (\<lambda>(output_pos, output).
         Good (output_pos, input_pos, output)))"

lemma obind_assoc: "obind (obind m f) g = obind m (\<lambda>x. obind (f x) g)"
  by (cases m) simp_all

lemma decode_rounds_Suc:
  "decode_rounds (Suc n) len data output_pos input_pos output =
     (if output_pos \<ge> len then Good (input_pos, output)
      else obind (decode_round data output_pos input_pos output) (\<lambda>(output_pos, input_pos, output).
        decode_rounds n len data output_pos input_pos output))"
  by (simp add: decode_round_def obind_assoc case_prod_unfold)

lemma decode_round_eq:
  assumes "data = dpre @ r @ dpost" "output = pre @ m @ post" "length r = 128" "length m = 127"
    "input_pos = length dpre" "output_pos = length pre"
  shows "decode_round data output_pos input_pos output =
    (if round_ok r then Good (output_pos + 127, input_pos + 128, pre @ unpack_round r @ post)
     else Bad InvalidFieldElement)"
proof -
  from assms(3) obtain e0 p0 e1 p1 e2 p2 e3 p3 where r: "r = e0 # p0 @ e1 # p1 @ e2 # p2 @ e3 # p3"
      "length p0 = 31" "length p1 = 31" "length p2 = 31" "length p3 = 31"
    by (rule round_split)
  from assms(4) obtain q0 c0 q1 c1 q2 c2 q3 where m: "m = q0 @ c0 # q1 @ c1 # q2 @ c2 # q3"
      "length q0 = 31" "length q1 = 31" "length q2 = 31" "length q3 = 31"
    by (rule stream_split)
  have 1: "decode_field_element data output_pos input_pos output = (if e0 AND 0xC0 \<noteq> 0 then Bad InvalidFieldElement
      else Good (e0, output_pos + 32, input_pos + 32, pre @ p0 @ c0 # q1 @ c1 # q2 @ c2 # q3 @ post))"
    by (rule decode_field_element_eq [where dpre = dpre and pre = pre and q = q0]) (use assms r m in simp_all)
  have 2: "decode_elements 3 data (output_pos + 32) (input_pos + 32) (pre @ p0 @ c0 # q1 @ c1 # q2 @ c2 # q3 @ post) =
      (if \<forall>e\<in>{e1, e2, e3}. e AND 0xC0 = 0
       then Good ([e1, e2, e3], output_pos + 32 + 96, input_pos + 32 + 96, (pre @ p0 @ [c0]) @ p1 @ c1 # p2 @ c2 # p3 @ post)
       else Bad InvalidFieldElement)"
    by (rule decode_elements_3 [where dpre = "dpre @ e0 # p0" and ?q1.0 = q1 and ?q2.0 = q2 and ?q3.0 = q3]) (use assms r m in simp_all)
  have 3: "reassemble_bytes (128 + output_pos) [e0, e1, e2, e3] (pre @ p0 @ c0 # p1 @ c1 # p2 @ c2 # p3 @ post) =
      Good (128 + output_pos - 1, case unheader e0 e1 e2 e3 of (x, y, z) \<Rightarrow> (pre @ p0) @ x # p1 @ y # p2 @ z # p3 @ post)"
    by (rule reassemble_bytes_eq) (use assms r m in simp_all)
  have 4: "decode_elements 4 data output_pos input_pos output =
      obind (decode_field_element data output_pos input_pos output) (\<lambda>(enc, output_pos, input_pos, output).
        obind (decode_elements 3 data output_pos input_pos output) (\<lambda>(encs, output_pos, input_pos, output).
          Good (enc # encs, output_pos, input_pos, output)))"
    by (simp add: numeral_eq_Suc)
  show ?thesis
    using r by (simp add: decode_round_def 4 1 2 [simplified] 3 [simplified] round_simps split: prod.splits)
qed

section \<open>The whole blob\<close>

fun unpack :: "nat \<Rightarrow> bytes \<Rightarrow> bytes option" where
  "unpack 0 d = Some []"
| "unpack (Suc n) d =
     (if round_ok (take 128 d) then map_option ((@) (unpack_round (take 128 d))) (unpack n (drop 128 d)) else None)"

lemma unpack_Some:
  assumes "length d = 128 * n"
  shows "unpack n d = Some s \<longleftrightarrow> length s = 127 * n \<and> pack n s = d"
  using assms
proof (induction n arbitrary: d s)
  case (Suc n)
  let ?r = "take 128 d"
  have r: "length ?r = 128" and d: "d = ?r @ drop 128 d" using Suc.prems by simp_all
  have IH: "unpack n (drop 128 d) = Some t \<longleftrightarrow> length t = 127 * n \<and> pack n t = drop 128 d" for t
    using Suc.prems by (intro Suc.IH) simp
  show ?case
  proof
    assume "unpack (Suc n) d = Some s"
    then obtain t where "round_ok ?r" "unpack n (drop 128 d) = Some t" "s = unpack_round ?r @ t"
      by (auto split: if_splits)
    moreover have "length t = 127 * n" "pack n t = drop 128 d" using calculation(2) unfolding IH by simp_all
    ultimately show "length s = 127 * Suc n \<and> pack (Suc n) s = d" using pack_unpack_round [OF r] by simp
  next
    assume *: "length s = 127 * Suc n \<and> pack (Suc n) s = d"
    then have t: "length (take 127 s) = 127" by simp
    from * unpack_pack_round(1) [OF t] have "?r = pack_round (take 127 s)" "drop 128 d = pack n (drop 127 s)"
      by auto
    with IH [of "drop 127 s"] unpack_pack_round [OF t] * show "unpack (Suc n) d = Some s" by simp
  qed
qed auto

lemma pack_zero: "pack n (replicate (127 * n) 0) = replicate (128 * n) 0"
proof (induction n)
  case (Suc n)
  have "pack_round (replicate 127 0) = replicate 128 0"
    by (simp add: pack_round_def header_bytes_def flip: replicate_Suc replicate_add)
  with Suc show ?case
    by (simp flip: replicate_add)
qed simp

lemma unpack_zeroes: "unpack n (replicate (128 * n) 0) = Some (replicate (127 * n) 0)"
  by (simp add: unpack_Some pack_zero)

lemma unpack_zero:
  assumes "length d = 128 * n" "unpack n d = Some s"
  shows "(\<forall>b\<in>set s. b = 0) \<longleftrightarrow> (\<forall>b\<in>set d. b = 0)"
proof -
  have z: "(\<forall>b\<in>set xs. b = 0) \<longleftrightarrow> xs = replicate (length xs) 0" for xs :: bytes
    by (metis in_set_replicate replicate_length_same)
  have "length s = 127 * n" "pack n s = d" using assms unpack_Some by auto
  then show ?thesis
    unfolding z using assms pack_zero [of n] unpack_zeroes [of n] by auto
qed

definition accepts :: "nat \<Rightarrow> bytes option \<Rightarrow> (blob_decoding_error, bytes) outcome \<Rightarrow> bool" where
  "accepts len s r \<longleftrightarrow> (case s of
     Some s \<Rightarrow> r = (if \<forall>b\<in>set (drop len s). b = 0 then Good (take len s) else Bad InvalidFieldElement)
   | None \<Rightarrow> r = Bad InvalidFieldElement)"

lemma append_comp: "(@) (xs @ ys) = (\<lambda>zs. xs @ ys @ zs)"
  by (simp add: fun_eq_iff)

lemma decode_rounds_accepts:
  assumes "data = dpre @ d" "length d = 128 * n" "length data = BYTES_PER_BLOB" "output = pre @ replicate (127 * n) 0"
    "input_pos = length dpre" "output_pos = length pre"
  shows "accepts len (map_option ((@) pre) (unpack n d))
    (obind (decode_rounds n len data output_pos input_pos output) (\<lambda>(input_pos, output). decode_finish len data input_pos output))"
  using assms
proof (induction n arbitrary: dpre d pre "output" input_pos output_pos)
  case 0
  then show ?case by (simp add: accepts_def decode_finish_def slice_at_def)
next
  case (Suc n)
  show ?case
  proof (cases "len \<le> output_pos")
    case True
    have "drop len output = drop len pre @ replicate (127 * Suc n) 0" using Suc.prems True by simp
    moreover have "slice_at data input_pos BYTES_PER_BLOB = (Good d :: (blob_decoding_error, bytes) outcome)" using Suc.prems by (auto simp: slice_at_def)
    ultimately have "decode_finish len data input_pos output =
        (if (\<forall>b\<in>set (drop len pre). b = 0) \<and> (\<forall>b\<in>set d. b = 0) then Good (take len pre) else Bad InvalidFieldElement)"
      using Suc.prems(4,6) True by (auto simp: decode_finish_def)
    moreover have "\<exists>s. unpack (Suc n) d = Some s" if "\<forall>b\<in>set d. b = 0"
    proof -
      have "d = replicate (128 * Suc n) 0" using that Suc.prems(2) by (metis replicate_length_same)
      then show ?thesis using unpack_zeroes by blast
    qed
    ultimately show ?thesis
      using True Suc.prems(6) unpack_zero [OF Suc.prems(2)]
      by (cases "unpack (Suc n) d") (auto simp: accepts_def simp del: unpack.simps)
  next
    case False
    let ?r = "take 128 d" and ?d = "drop 128 d"
    have round: "decode_round data output_pos input_pos output =
        (if round_ok ?r then Good (output_pos + 127, input_pos + 128, pre @ unpack_round ?r @ replicate (127 * n) 0)
         else Bad InvalidFieldElement)"
      by (rule decode_round_eq [where dpre = dpre and dpost = ?d and m = "replicate 127 0"])
        (use Suc.prems in \<open>simp_all flip: replicate_add\<close>)
    show ?thesis
    proof (cases "round_ok ?r")
      case True
      have "length (unpack_round ?r) = 127" using True Suc.prems(2) by (intro pack_unpack_round) simp_all
      then have "accepts len (map_option ((@) (pre @ unpack_round ?r)) (unpack n ?d))
        (obind (decode_rounds n len data (output_pos + 127) (input_pos + 128) ((pre @ unpack_round ?r) @ replicate (127 * n) 0))
           (\<lambda>(input_pos, output). decode_finish len data input_pos output))"
        using Suc.prems by (intro Suc.IH [where dpre = "dpre @ ?r"]) simp_all
      with True False round show ?thesis
        by (simp add: decode_rounds_Suc option.map_comp comp_def append_comp del: decode_rounds.simps)
    next
      case bad: False
      with False round show ?thesis by (simp add: decode_rounds_Suc accepts_def del: decode_rounds.simps)
    qed
  qed
qed

text \<open>The first round: the first field element starts with the version and the length.\<close>

lemma first_round:
  assumes "data = r @ d" "length r = 128" "output = take 27 (drop 5 r) @ replicate (100 + m) 0"
    "r' = r[0 := r ! 0 AND 0x3F]"
  shows "obind (decode_elements 3 data 28 32 output) (\<lambda>(encs, output_pos, input_pos, output).
      obind (reassemble_bytes output_pos (r ! 0 # encs) output) (\<lambda>(output_pos, output). k output_pos input_pos output)) =
    (if round_ok r' then k 123 128 (drop 4 (unpack_round r') @ replicate (4 + m) 0) else Bad InvalidFieldElement)"
proof -
  from assms(2) obtain e0 p0 e1 p1 e2 p2 e3 p3 where r: "r = e0 # p0 @ e1 # p1 @ e2 # p2 @ e3 # p3"
      "length p0 = 31" "length p1 = 31" "length p2 = 31" "length p3 = 31"
    by (rule round_split)
  have p0: "take 27 (drop 5 r) = drop 4 p0" using r by simp
  have z: "replicate (100 + m) (0 :: u8) =
      [0] @ replicate 31 0 @ 0 # replicate 31 0 @ 0 # replicate 31 0 @ replicate (4 + m) 0"
    by (simp flip: replicate_add replicate_Suc)
  have 1: "decode_elements 3 data 28 32 output =
      (if \<forall>e\<in>{e1, e2, e3}. e AND 0xC0 = 0
       then Good ([e1, e2, e3], 28 + 96, 32 + 96, (drop 4 p0 @ [0]) @ p1 @ 0 # p2 @ 0 # p3 @ replicate (4 + m) 0)
       else Bad InvalidFieldElement)"
    by (rule decode_elements_3 [where dpre = "e0 # p0" and ?q1.0 = "replicate 31 0" and ?q2.0 = "replicate 31 0" and ?q3.0 = "replicate 31 0"]) (use assms(1,3) r p0 z in simp_all)
  have 2: "reassemble_bytes 124 [e0, e1, e2, e3] (drop 4 p0 @ 0 # p1 @ 0 # p2 @ 0 # p3 @ replicate (4 + m) 0) =
      Good (124 - 1, case unheader e0 e1 e2 e3 of (x, y, z) \<Rightarrow> drop 4 p0 @ x # p1 @ y # p2 @ z # p3 @ replicate (4 + m) 0)"
    by (rule reassemble_bytes_eq) (use r in simp_all)
  have mask: "unheader (e0 AND 0x3F) e1 e2 e3 = unheader e0 e1 e2 e3" "(e0 AND 0x3F) AND 0xC0 = 0"
    by (simp_all add: unheader_def and.assoc)
  have "round_ok r' \<longleftrightarrow> (\<forall>e\<in>{e1, e2, e3}. e AND 0xC0 = 0)"
      "unpack_round r' = (case unheader e0 e1 e2 e3 of (x, y, z) \<Rightarrow> p0 @ x # p1 @ y # p2 @ z # p3)"
    using r assms(4) by (simp_all add: round_simps mask)
  then show ?thesis
    using r by (simp add: 1 2 [simplified] split: prod.splits)
qed

definition masked :: "bytes \<Rightarrow> bytes" where
  "masked data = data[0 := data ! 0 AND 0x3F]"

lemma decode_blob_accepts:
  assumes data: "length data = BYTES_PER_BLOB" and version: "data ! 1 = 0"
    and len: "len = be_decode (take 3 (drop 2 data))" "len \<le> BLOB_MAX_DATA_SIZE"
  shows "accepts len (map_option (drop 4) (unpack BLOB_ENCODING_ROUNDS (masked data))) (decode_blob data)"
proof -
  let ?r = "take 128 data" and ?d = "drop 128 data" and ?k = "\<lambda>output_pos input_pos output.
    obind (decode_rounds 1023 len data output_pos input_pos output) (\<lambda>(input_pos, output). decode_finish len data input_pos output)"
  let ?r' = "?r[0 := ?r ! 0 AND 0x3F]"
  have r: "length ?r = 128" using data by (simp add: BYTES_PER_BLOB_def)
  have m: "masked data = ?r' @ ?d"
    using data by (cases data) (simp_all add: masked_def BYTES_PER_BLOB_def take_Cons')
  have slices: "byte_at data VERSIONED_HASH_VERSION_KZG = Good 0" "slice_at data 2 5 = Good (take 3 (drop 2 data))"
      "slice_at data 5 32 = Good (take 27 (drop 5 data))" "byte_at data 0 = Good (?r ! 0)"
    using data version by (simp_all add: byte_at_def slice_at_def VERSIONED_HASH_VERSION_KZG_def BYTES_PER_BLOB_def)
  have copy: "copy_at 0 (take 27 (drop 5 data)) (replicate BLOB_MAX_DATA_SIZE 0) =
      Good (take 27 (drop 5 ?r) @ replicate (100 + (127 * 1023 - 4)) 0)"
    using data by (simp add: copy_at_def BLOB_MAX_DATA_SIZE_def BYTES_PER_BLOB_def drop_take min_def)
  note r0 = first_round [where r = ?r and d = ?d and k = ?k and m = "127 * 1023 - 4", OF _ r refl refl]
  have "decode_blob data = (if round_ok ?r' then ?k 123 128 (drop 4 (unpack_round ?r') @ replicate (127 * 1023) 0)
      else Bad InvalidFieldElement)"
    using r0 len by (simp add: decode_blob_def slices copy BLOB_ENCODING_VERSION_def BLOB_ENCODING_ROUNDS_def)
  moreover have "accepts len (map_option ((@) (drop 4 (unpack_round ?r'))) (unpack 1023 ?d))
      (?k 123 128 (drop 4 (unpack_round ?r') @ replicate (127 * 1023) 0))" if "round_ok ?r'"
    using that data r pack_unpack_round(1) [of ?r']
    by (intro decode_rounds_accepts [where dpre = ?r]) (simp_all add: BYTES_PER_BLOB_def)
  moreover have "unpack BLOB_ENCODING_ROUNDS (masked data) =
      (if round_ok ?r' then map_option ((@) (unpack_round ?r')) (unpack 1023 ?d) else None)"
  proof -
    have "unpack (Suc 1023) (?r' @ ?d) = (if round_ok ?r' then map_option ((@) (unpack_round ?r')) (unpack 1023 ?d) else None)"
      unfolding unpack.simps using r by simp
    then show ?thesis by (simp add: m BLOB_ENCODING_ROUNDS_def)
  qed
  ultimately show ?thesis
    using r pack_unpack_round(1) [of ?r']
    by (simp add: accepts_def [of _ None] option.map_comp comp_def)
qed

lemma pack_stream:
  assumes "127 \<le> length s"
  shows "take 31 (drop 1 (pack (Suc n) s)) = take 31 s"
  using assms by (simp add: pack_round_def Let_def)

lemma blob_encode_stream:
  assumes "length ds \<le> BLOB_MAX_DATA_SIZE" and "length data = BYTES_PER_BLOB"
  shows "masked data = blob_encode ds \<longleftrightarrow> unpack BLOB_ENCODING_ROUNDS (masked data) =
    Some (BLOB_ENCODING_VERSION # be_encode 3 (length ds) @ ds @ replicate (BLOB_MAX_DATA_SIZE - length ds) 0)"
proof -
  have "length (masked data) = 128 * BLOB_ENCODING_ROUNDS"
    using assms(2) by (simp add: masked_def BYTES_PER_BLOB_def BLOB_ENCODING_ROUNDS_def)
  then show ?thesis
    using assms(1) by (auto simp: unpack_Some blob_encode_def BLOB_ENCODING_ROUNDS_def BLOB_MAX_DATA_SIZE_def)
qed

text \<open>The version and the length are the first four bytes of the stream.\<close>

lemma unpack_header:
  assumes "length data = BYTES_PER_BLOB" "unpack BLOB_ENCODING_ROUNDS (masked data) = Some s"
  shows "length s = BLOB_MAX_DATA_SIZE + 4" "s = data ! 1 # take 3 (drop 2 data) @ drop 4 s"
proof -
  have len: "length (masked data) = 128 * BLOB_ENCODING_ROUNDS"
    using assms(1) by (simp add: masked_def BYTES_PER_BLOB_def BLOB_ENCODING_ROUNDS_def)
  then have s: "length s = 127 * BLOB_ENCODING_ROUNDS" "pack (Suc 1023) s = masked data"
    using assms(2) unpack_Some [OF len] by (auto simp: BLOB_ENCODING_ROUNDS_def)
  then show "length s = BLOB_MAX_DATA_SIZE + 4" by (simp add: BLOB_ENCODING_ROUNDS_def BLOB_MAX_DATA_SIZE_def)
  have "take 31 s = take 31 (drop 1 data)"
    using pack_stream [of s 1023] s by (simp add: masked_def BLOB_ENCODING_ROUNDS_def)
  then have "take 4 (take 31 s) = take 4 (take 31 (drop 1 data))" by simp
  then have t: "take 4 s = take 4 (drop 1 data)" by (simp add: min_def)
  have "drop 1 data = data ! 1 # drop 2 data"
    using assms(1) Cons_nth_drop_Suc [of 1 data] by (simp add: BYTES_PER_BLOB_def numeral_2_eq_2)
  with t have "take 4 s = data ! 1 # take 3 (drop 2 data)" by (simp add: numeral_eq_Suc)
  then show "s = data ! 1 # take 3 (drop 2 data) @ drop 4 s"
    using append_take_drop_id [of 4 s] by simp
qed

lemma decode_blob_guards:
  assumes "length data = BYTES_PER_BLOB"
  shows "data ! 1 \<noteq> 0 \<Longrightarrow> decode_blob data = Bad InvalidEncodingVersion"
    "data ! 1 = 0 \<Longrightarrow> BLOB_MAX_DATA_SIZE < be_decode (take 3 (drop 2 data)) \<Longrightarrow> decode_blob data = Bad InvalidLength"
  using assms
  by (simp_all add: decode_blob_def byte_at_def slice_at_def VERSIONED_HASH_VERSION_KZG_def BYTES_PER_BLOB_def
      BLOB_ENCODING_VERSION_def)

lemma decode_blob_cases:
  assumes "length data = BYTES_PER_BLOB"
  obtains (guard) e where "decode_blob data = Bad e" "data ! 1 \<noteq> 0 \<or> BLOB_MAX_DATA_SIZE < be_decode (take 3 (drop 2 data))"
  | (decoded) "data ! 1 = 0" "be_decode (take 3 (drop 2 data)) \<le> BLOB_MAX_DATA_SIZE"
      "accepts (be_decode (take 3 (drop 2 data))) (map_option (drop 4) (unpack BLOB_ENCODING_ROUNDS (masked data)))
        (decode_blob data)"
  using decode_blob_guards [OF assms] decode_blob_accepts [OF assms _ refl] by force

lemma decode_blob_no_panic: "length data = BYTES_PER_BLOB \<Longrightarrow> decode_blob data \<noteq> Panic"
  by (erule decode_blob_cases) (auto simp: accepts_def split: option.splits if_splits)

lemma decode_blob_encoded:
  assumes data: "length data = BYTES_PER_BLOB" and ds: "length ds \<le> BLOB_MAX_DATA_SIZE" and enc: "masked data = blob_encode ds"
  shows "data ! 1 = 0" "be_decode (take 3 (drop 2 data)) = length ds" "decode_blob data = Good ds"
proof -
  let ?s = "BLOB_ENCODING_VERSION # be_encode 3 (length ds) @ ds @ replicate (BLOB_MAX_DATA_SIZE - length ds) 0"
  have s: "unpack BLOB_ENCODING_ROUNDS (masked data) = Some ?s"
    using blob_encode_stream [OF ds data] enc by blast
  have d: "be_decode (be_encode 3 (length ds)) = length ds"
    using ds by (simp add: be_decode_encode BLOB_MAX_DATA_SIZE_def del: be_encode.simps)
  have "drop 4 ?s = ds @ replicate (BLOB_MAX_DATA_SIZE - length ds) 0" by simp
  with unpack_header(2) [OF data s] show v: "data ! 1 = 0" and "be_decode (take 3 (drop 2 data)) = length ds"
    using ds d by (auto simp: BLOB_ENCODING_VERSION_def simp del: be_encode.simps)
  then show "decode_blob data = Good ds"
    using decode_blob_accepts [OF data v refl] ds s by (simp add: accepts_def)
qed

lemma decode_blob_decoded:
  assumes data: "length data = BYTES_PER_BLOB" and good: "decode_blob data = Good ds"
  shows "length ds \<le> BLOB_MAX_DATA_SIZE" "masked data = blob_encode ds"
proof -
  let ?len = "be_decode (take 3 (drop 2 data))"
  from data have "\<exists>s. data ! 1 = 0 \<and> ?len \<le> BLOB_MAX_DATA_SIZE \<and> unpack BLOB_ENCODING_ROUNDS (masked data) = Some s \<and>
      (\<forall>b\<in>set (drop ?len (drop 4 s)). b = 0) \<and> ds = take ?len (drop 4 s)"
    by (cases rule: decode_blob_cases) (use good in \<open>auto simp: accepts_def split: option.splits if_splits\<close>)
  then obtain s where s: "data ! 1 = 0" "?len \<le> BLOB_MAX_DATA_SIZE" "unpack BLOB_ENCODING_ROUNDS (masked data) = Some s"
      "\<forall>b\<in>set (drop ?len (drop 4 s)). b = 0" "ds = take ?len (drop 4 s)"
    by blast
  note h = unpack_header [OF data s(3)]
  have len: "length ds = ?len" using s(2,5) h(1) by simp
  then show ds: "length ds \<le> BLOB_MAX_DATA_SIZE" using s(2) by simp
  have "drop ?len (drop 4 s) = replicate (BLOB_MAX_DATA_SIZE - length ds) 0"
    using s(4) h(1) len by (intro replicate_eqI) simp_all
  then have "drop 4 s = ds @ replicate (BLOB_MAX_DATA_SIZE - length ds) 0"
    using append_take_drop_id [of ?len "drop 4 s"] s(5) by simp
  moreover have "take 3 (drop 2 data) = be_encode 3 (length ds)"
    using be_encode_decode [of "take 3 (drop 2 data)"] data len by (simp add: BYTES_PER_BLOB_def)
  ultimately have "s = BLOB_ENCODING_VERSION # be_encode 3 (length ds) @ ds @ replicate (BLOB_MAX_DATA_SIZE - length ds) 0"
    using h(2) s(1) by (simp add: BLOB_ENCODING_VERSION_def)
  with s(3) blob_encode_stream [OF ds data] show "masked data = blob_encode ds" by blast
qed

lemma length_pack: "127 * n \<le> length s \<Longrightarrow> length (pack n s) = 128 * n"
  by (induction n arbitrary: s) (simp_all add: unpack_pack_round(1))

lemma length_blob_encode: "length ds \<le> BLOB_MAX_DATA_SIZE \<Longrightarrow> length (blob_encode ds) = BYTES_PER_BLOB"
  by (simp add: blob_encode_def length_pack BLOB_ENCODING_ROUNDS_def BLOB_MAX_DATA_SIZE_def BYTES_PER_BLOB_def)

lemma masked_blob_encode: "length ds \<le> BLOB_MAX_DATA_SIZE \<Longrightarrow> masked (blob_encode ds) = blob_encode ds"
proof -
  have "masked (pack (Suc n) s) = pack (Suc n) s" for n s
    by (simp add: masked_def pack_round_def header_bytes_def and.assoc)
  from this [of 1023] show ?thesis by (simp add: blob_encode_def BLOB_ENCODING_ROUNDS_def del: pack.simps)
qed

lemma blob_roundtrip: "length ds \<le> BLOB_MAX_DATA_SIZE \<Longrightarrow> decode_blob (blob_encode ds) = Good ds"
  by (rule decode_blob_encoded(3)) (simp_all add: length_blob_encode masked_blob_encode)

lemma blob_encode_nonzero:
  assumes "length ds \<le> BLOB_MAX_DATA_SIZE" "ds \<noteq> []"
  shows "\<not> (\<forall>x\<in>set (blob_encode ds). x = 0)"
proof
  let ?z = "replicate (127 * BLOB_ENCODING_ROUNDS) (0 :: u8)"
  have z: "replicate (4 + n) (0 :: u8) = 0 # 0 # 0 # 0 # replicate n 0" for n by (simp add: numeral_eq_Suc)
  have be: "be_encode 3 0 = [0, 0, 0]" by (simp add: numeral_3_eq_3)
  assume "\<forall>x\<in>set (blob_encode ds). x = 0"
  then have "blob_encode ds = pack BLOB_ENCODING_ROUNDS ?z"
    unfolding pack_zero using length_blob_encode [OF assms(1)]
    by (intro replicate_eqI) (simp_all add: BYTES_PER_BLOB_def BLOB_ENCODING_ROUNDS_def)
  also have "?z = BLOB_ENCODING_VERSION # be_encode 3 (length []) @ [] @ replicate (BLOB_MAX_DATA_SIZE - length []) 0"
    using z [of 130044] by (simp add: be BLOB_ENCODING_ROUNDS_def BLOB_ENCODING_VERSION_def BLOB_MAX_DATA_SIZE_def)
  finally have "blob_encode ds = blob_encode []" by (simp add: blob_encode_def)
  with blob_roundtrip [OF assms(1)] blob_roundtrip [of "[]"] assms(2) show False by simp
qed

text \<open>
  C29. Decoding a blob never panics.  It succeeds with a payload exactly when the payload has at
  most 130044 bytes and the blob, with the two high bits of its first byte cleared, is the
  encoding of that payload: every payload is read back, and nothing but an encoding is accepted.
\<close>

theorem blob_decode_exact:
  "decode_blob (Rep_blob b) \<noteq> Panic \<and>
   (decode_blob (Rep_blob b) = Good ds \<longleftrightarrow> length ds \<le> BLOB_MAX_DATA_SIZE \<and> masked (Rep_blob b) = blob_encode ds)"
proof -
  have "length (Rep_blob b) = BYTES_PER_BLOB" using Rep_blob by simp
  then show ?thesis
    using decode_blob_no_panic decode_blob_encoded(3) decode_blob_decoded by blast
qed

end
