(* ===== verification/Data_Sources.thy ===== *)
theory Data_Sources
  imports Blob_Data L1_Retrieval
begin

text \<open>
  The data sources, \<^verbatim>\<open>crates/protocol/derive/src/sources/{blobs,calldata,ethereum}.rs\<close>: they read the
  batcher's data out of the transactions of an L1 block, from calldata and, once Ecotone is
  active, from blobs.  \<open>ethereum_source_provider\<close> is the data availability provider of L1
  retrieval.

  The chain provider and the blob provider are parameters, as is the recovery of the sender of a
  transaction.

  Shown: the sources never panic; on a block, after being cleared, they hand out exactly the
  data the batcher sent to the inbox, in the order of the transactions and of the blobs in them,
  then report the end of the data.
\<close>

section \<open>Transactions and providers\<close>

record l1_tx_body =
  ltx_to :: "address option"
  ltx_input :: bytes
  ltx_rest :: bytes

record l1_blob_tx =
  lbx_to :: address
  lbx_input :: bytes
  lbx_blob_versioned_hashes :: "b256 list"
  lbx_rest :: bytes

datatype l1_envelope =
    Legacy l1_tx_body
  | Eip2930 l1_tx_body
  | Eip1559 l1_tx_body
  | Eip4844 l1_blob_tx
  | Eip4844_with_sidecar l1_blob_tx
  | Eip7702 l1_tx_body

record indexed_blob_hash =
  ibh_hash :: b256
  ibh_index :: u64

text \<open>An error of a provider, with its display and its conversion to a pipeline error.\<close>

record provider_error =
  pe_display :: string
  pe_kind :: pipeline_error_kind

record 'f tx_provider = "'f chain_provider" +
  cp_block_info_and_transactions_by_hash ::
    "'f \<Rightarrow> b256 \<Rightarrow> 'f \<times> (provider_error + block_info \<times> l1_envelope list)"

record 'b blob_provider =
  blp_get_and_validate_blobs ::
    "'b \<Rightarrow> block_info \<Rightarrow> indexed_blob_hash list \<Rightarrow> 'b \<times> (provider_error + blob list)"

datatype blob_provider_error = SidecarLengthMismatch nat nat | SlotDerivation
  | BlobDecoding blob_decoding_error | Backend string

fun blob_decoding_error_string :: "blob_decoding_error \<Rightarrow> string" where
  "blob_decoding_error_string InvalidFieldElement = ''Invalid field element''"
| "blob_decoding_error_string InvalidEncodingVersion = ''Invalid encoding version''"
| "blob_decoding_error_string InvalidLength = ''Invalid length''"
| "blob_decoding_error_string MissingData = ''Missing data''"

text \<open>\<^verbatim>\<open>usize\<close> in decimal.\<close>

fun decimal :: "nat \<Rightarrow> string" where
  "decimal n = (if n < 10 then [] else decimal (n div 10)) @ [char_of (48 + n mod 10)]"

declare decimal.simps [simp del]

fun blob_provider_error_string :: "blob_provider_error \<Rightarrow> string" where
  "blob_provider_error_string (SidecarLengthMismatch n m) =
     ''Blob sidecar length mismatch: expected '' @ decimal n @ '', got '' @ decimal m"
| "blob_provider_error_string SlotDerivation = ''Failed to derive slot''"
| "blob_provider_error_string (BlobDecoding e) = ''Blob decoding error: '' @ blob_decoding_error_string e"
| "blob_provider_error_string (Backend s) = s"

fun of_blob_provider_error :: "blob_provider_error \<Rightarrow> pipeline_error_kind" where
  "of_blob_provider_error (Backend s) = temp (Provider (blob_provider_error_string (Backend s)))"
| "of_blob_provider_error e = crit (Provider (blob_provider_error_string e))"

section \<open>The blob source\<close>

record ('f, 'b) blob_source =
  bls_chain_provider :: 'f
  bls_blob_fetcher :: 'b
  bls_batcher_address :: address
  bls_data :: "blob_data list"
  bls_open :: bool

definition blob_source_new :: "'f \<Rightarrow> 'b \<Rightarrow> address \<Rightarrow> ('f, 'b) blob_source" where
  "blob_source_new chain_provider blob_fetcher batcher_address =
     \<lparr>bls_chain_provider = chain_provider, bls_blob_fetcher = blob_fetcher,
      bls_batcher_address = batcher_address, bls_data = [], bls_open = False\<rparr>"

fun blob_tx_parts :: "l1_envelope \<Rightarrow> (address option \<times> bytes \<times> b256 list option) option" where
  "blob_tx_parts (Legacy tx) = Some (ltx_to tx, ltx_input tx, None)"
| "blob_tx_parts (Eip2930 tx) = Some (ltx_to tx, ltx_input tx, None)"
| "blob_tx_parts (Eip1559 tx) = Some (ltx_to tx, ltx_input tx, None)"
| "blob_tx_parts (Eip4844 tx) = Some (Some (lbx_to tx), lbx_input tx, Some (lbx_blob_versioned_hashes tx))"
| "blob_tx_parts (Eip4844_with_sidecar tx) = Some (Some (lbx_to tx), lbx_input tx, Some (lbx_blob_versioned_hashes tx))"
| "blob_tx_parts (Eip7702 tx) = None"

fun is_eip4844 :: "l1_envelope \<Rightarrow> bool" where
  "is_eip4844 (Eip4844 _) = True"
| "is_eip4844 (Eip4844_with_sidecar _) = True"
| "is_eip4844 _ = False"

text \<open>The loop over the hashes of a transaction, then the loop over the transactions.\<close>

fun index_hashes :: "b256 list \<Rightarrow> u64 \<Rightarrow> indexed_blob_hash list" where
  "index_hashes [] index = []"
| "index_hashes (h # hs) index = \<lparr>ibh_hash = h, ibh_index = index\<rparr> # index_hashes hs (index + 1)"

fun extract_blob_data ::
    "(l1_envelope \<Rightarrow> address option) \<Rightarrow> address \<Rightarrow> address \<Rightarrow> l1_envelope list \<Rightarrow> u64 \<Rightarrow>
     blob_data list \<times> indexed_blob_hash list" where
  "extract_blob_data recover_signer inbox batcher_address [] index = ([], [])"
| "extract_blob_data recover_signer inbox batcher_address (tx # txs) index =
     (let extract = extract_blob_data recover_signer inbox batcher_address txs in
      case blob_tx_parts tx of
        None \<Rightarrow> extract index
      | Some (None, calldata, blob_hashes) \<Rightarrow> extract index
      | Some (Some to, calldata, blob_hashes) \<Rightarrow>
          let skipped = index + (case blob_hashes of None \<Rightarrow> 0 | Some h \<Rightarrow> word_of_nat (length h)) in
          if to \<noteq> inbox then extract skipped
          else if (case recover_signer tx of Some a \<Rightarrow> a | None \<Rightarrow> 0) \<noteq> batcher_address then extract skipped
          else if \<not> is_eip4844 tx then
            (case extract index of (data, hashes) \<Rightarrow>
               (\<lparr>bld_data = None, bld_calldata = Some calldata\<rparr> # data, hashes))
          else (case blob_hashes of
             None \<Rightarrow> extract index
           | Some blob_hashes \<Rightarrow>
               (case extract (index + word_of_nat (length blob_hashes)) of (data, hashes) \<Rightarrow>
                  (replicate (length blob_hashes) default_blob_data @ data, index_hashes blob_hashes index @ hashes))))"

fun fill_all :: "blob list \<Rightarrow> nat \<Rightarrow> blob_data list \<Rightarrow> blob_decoding_error + blob_data list" where
  "fill_all blobs blob_index [] = Inr []"
| "fill_all blobs blob_index (d # ds) =
     (case blob_data_fill d blobs blob_index of
        Inl e \<Rightarrow> Inl e
      | Inr (should_increment, d) \<Rightarrow>
          (case fill_all blobs (if should_increment then blob_index + 1 else blob_index) ds of
             Inl e \<Rightarrow> Inl e
           | Inr ds \<Rightarrow> Inr (d # ds)))"

definition load_blobs ::
    "(l1_envelope \<Rightarrow> address option) \<Rightarrow> 'f tx_provider \<Rightarrow> 'b blob_provider \<Rightarrow> block_info \<Rightarrow> address \<Rightarrow>
     ('f, 'b) blob_source \<Rightarrow> ('f, 'b) blob_source \<times> (blob_provider_error + unit)" where
  "load_blobs recover_signer F B block_ref batcher_address s =
     (if bls_open s then (s, Inr ())
      else case cp_block_info_and_transactions_by_hash F (bls_chain_provider s) (bi_hash block_ref) of
        (f, Inl e) \<Rightarrow> (s\<lparr>bls_chain_provider := f\<rparr>, Inl (Backend (pe_display e)))
      | (f, Inr (_, txs)) \<Rightarrow>
          let s = s\<lparr>bls_chain_provider := f\<rparr>;
              (data, blob_hashes) = extract_blob_data recover_signer (bls_batcher_address s) batcher_address txs 0 in
          if blob_hashes = [] then (s\<lparr>bls_open := True, bls_data := data\<rparr>, Inr ())
          else case blp_get_and_validate_blobs B (bls_blob_fetcher s) block_ref blob_hashes of
            (b, Inl e) \<Rightarrow> (s\<lparr>bls_blob_fetcher := b\<rparr>, Inl (Backend (pe_display e)))
          | (b, Inr blobs) \<Rightarrow>
              let s = s\<lparr>bls_blob_fetcher := b\<rparr> in
              (case fill_all blobs 0 data of
                 Inl e \<Rightarrow> (s, Inl (BlobDecoding e))
               | Inr data \<Rightarrow> (s\<lparr>bls_open := True, bls_data := data\<rparr>, Inr ())))"

definition blob_source_next_data :: "('f, 'b) blob_source \<Rightarrow> ('f, 'b) blob_source \<times> blob_data pres" where
  "blob_source_next_data s =
     (case bls_data s of [] \<Rightarrow> (s, Err (temp Eof)) | d # ds \<Rightarrow> (s\<lparr>bls_data := ds\<rparr>, Ok d))"

lemma load_blobs_open:
  "load_blobs R F B block a s = (s1, Inr u) \<Longrightarrow> bls_open s1 \<and> (bls_open s \<longrightarrow> s1 = s)"
  by (auto simp: load_blobs_def Let_def split: if_splits prod.splits sum.splits)

function blob_source_next ::
    "(l1_envelope \<Rightarrow> address option) \<Rightarrow> 'f tx_provider \<Rightarrow> 'b blob_provider \<Rightarrow> block_info \<Rightarrow> address \<Rightarrow>
     ('f, 'b) blob_source \<Rightarrow> ('f, 'b) blob_source \<times> bytes pres" where
  "blob_source_next recover_signer F B block_ref batcher_address s =
     (case load_blobs recover_signer F B block_ref batcher_address s of
        (s, Inl e) \<Rightarrow> (s, Err (of_blob_provider_error e))
      | (s, Inr _) \<Rightarrow>
          (case blob_source_next_data s of
             (s, Err e) \<Rightarrow> (s, Err e)
           | (s, Panicked) \<Rightarrow> (s, Panicked)
           | (s, Ok next_data) \<Rightarrow>
               (case bld_calldata next_data of
                  Some c \<Rightarrow> (s, Ok c)
                | None \<Rightarrow>
                    (case blob_data_decode next_data of
                       Good d \<Rightarrow> (s, Ok d)
                     | Bad _ \<Rightarrow> blob_source_next recover_signer F B block_ref batcher_address s
                     | Panic \<Rightarrow> (s, Panicked)))))"
  by pat_completeness auto
termination
proof (relation "measures [\<lambda>(_, _, _, _, _, s). if bls_open s then 0 else 1, \<lambda>(_, _, _, _, _, s). length (bls_data s)]", goal_cases)
  case 2
  then show ?case
    by (auto simp: blob_source_next_data_def split: list.splits if_splits dest!: sym [of _ "load_blobs _ _ _ _ _ _"] load_blobs_open)
qed simp

declare blob_source_next.simps [simp del]

definition blob_source_clear :: "('f, 'b) blob_source \<Rightarrow> ('f, 'b) blob_source" where
  "blob_source_clear s = s\<lparr>bls_data := [], bls_open := False\<rparr>"

section \<open>The calldata source\<close>

record 'f calldata_source =
  cds_chain_provider :: 'f
  cds_batch_inbox_address :: address
  cds_calldata :: "bytes list"
  cds_open :: bool

definition calldata_source_new :: "'f \<Rightarrow> address \<Rightarrow> 'f calldata_source" where
  "calldata_source_new chain_provider batch_inbox_address =
     \<lparr>cds_chain_provider = chain_provider, cds_batch_inbox_address = batch_inbox_address, cds_calldata = [],
      cds_open = False\<rparr>"

fun calldata_tx_parts :: "l1_envelope \<Rightarrow> (address option \<times> bytes) option" where
  "calldata_tx_parts (Legacy tx) = Some (ltx_to tx, ltx_input tx)"
| "calldata_tx_parts (Eip2930 tx) = Some (ltx_to tx, ltx_input tx)"
| "calldata_tx_parts (Eip1559 tx) = Some (ltx_to tx, ltx_input tx)"
| "calldata_tx_parts _ = None"

definition batcher_calldata :: "(l1_envelope \<Rightarrow> address option) \<Rightarrow> address \<Rightarrow> address \<Rightarrow> l1_envelope \<Rightarrow> bytes option" where
  "batcher_calldata recover_signer inbox batcher_address tx =
     (case calldata_tx_parts tx of
        Some (Some to, data) \<Rightarrow>
          if to \<noteq> inbox then None
          else if recover_signer tx \<noteq> Some batcher_address then None
          else Some data
      | _ \<Rightarrow> None)"

definition load_calldata ::
    "(l1_envelope \<Rightarrow> address option) \<Rightarrow> 'f tx_provider \<Rightarrow> block_info \<Rightarrow> address \<Rightarrow>
     'f calldata_source \<Rightarrow> 'f calldata_source \<times> unit pres" where
  "load_calldata recover_signer F block_ref batcher_address s =
     (if cds_open s then (s, Ok ())
      else case cp_block_info_and_transactions_by_hash F (cds_chain_provider s) (bi_hash block_ref) of
        (f, Inl e) \<Rightarrow> (s\<lparr>cds_chain_provider := f\<rparr>, Err (pe_kind e))
      | (f, Inr (_, txs)) \<Rightarrow>
          (s\<lparr>cds_chain_provider := f,
             cds_calldata := List.map_filter (batcher_calldata recover_signer (cds_batch_inbox_address s) batcher_address) txs,
             cds_open := True\<rparr>, Ok ()))"

definition calldata_source_next ::
    "(l1_envelope \<Rightarrow> address option) \<Rightarrow> 'f tx_provider \<Rightarrow> block_info \<Rightarrow> address \<Rightarrow>
     'f calldata_source \<Rightarrow> 'f calldata_source \<times> bytes pres" where
  "calldata_source_next recover_signer F block_ref batcher_address s =
     pbind (load_calldata recover_signer F block_ref batcher_address s) (\<lambda>s _.
       case cds_calldata s of
         [] \<Rightarrow> (s, Err (temp Eof))
       | data # calldata \<Rightarrow> (s\<lparr>cds_calldata := calldata\<rparr>, Ok data))"

definition calldata_source_clear :: "'f calldata_source \<Rightarrow> 'f calldata_source" where
  "calldata_source_clear s = s\<lparr>cds_calldata := [], cds_open := False\<rparr>"

section \<open>The Ethereum source\<close>

record ('f, 'b) ethereum_data_source =
  eds_ecotone_timestamp :: "u64 option"
  eds_blob_source :: "('f, 'b) blob_source"
  eds_calldata_source :: "'f calldata_source"

definition ethereum_data_source_new ::
    "('f, 'b) blob_source \<Rightarrow> 'f calldata_source \<Rightarrow> rollup_config \<Rightarrow> ('f, 'b) ethereum_data_source" where
  "ethereum_data_source_new blob_source calldata_source cfg =
     \<lparr>eds_ecotone_timestamp = ecotone_time (rc_hardforks cfg), eds_blob_source = blob_source,
      eds_calldata_source = calldata_source\<rparr>"

definition ethereum_data_source_from_parts ::
    "'f \<Rightarrow> 'b \<Rightarrow> rollup_config \<Rightarrow> ('f, 'b) ethereum_data_source" where
  "ethereum_data_source_from_parts provider blobs cfg =
     \<lparr>eds_ecotone_timestamp = ecotone_time (rc_hardforks cfg),
      eds_blob_source = blob_source_new provider blobs (rc_batch_inbox_address cfg),
      eds_calldata_source = calldata_source_new provider (rc_batch_inbox_address cfg)\<rparr>"

definition ecotone_enabled :: "u64 option \<Rightarrow> block_info \<Rightarrow> bool" where
  "ecotone_enabled ecotone_timestamp block_ref =
     (case ecotone_timestamp of Some e \<Rightarrow> bi_timestamp block_ref \<ge> e | None \<Rightarrow> False)"

definition ethereum_source_next ::
    "(l1_envelope \<Rightarrow> address option) \<Rightarrow> 'f tx_provider \<Rightarrow> 'b blob_provider \<Rightarrow> block_info \<Rightarrow> address \<Rightarrow>
     ('f, 'b) ethereum_data_source \<Rightarrow> ('f, 'b) ethereum_data_source \<times> bytes pres" where
  "ethereum_source_next recover_signer F B block_ref batcher_address s =
     (if ecotone_enabled (eds_ecotone_timestamp s) block_ref
      then via (\<lambda>b. s\<lparr>eds_blob_source := b\<rparr>) (blob_source_next recover_signer F B block_ref batcher_address (eds_blob_source s))
      else via (\<lambda>c. s\<lparr>eds_calldata_source := c\<rparr>)
             (calldata_source_next recover_signer F block_ref batcher_address (eds_calldata_source s)))"

definition ethereum_source_clear :: "('f, 'b) ethereum_data_source \<Rightarrow> ('f, 'b) ethereum_data_source" where
  "ethereum_source_clear s =
     s\<lparr>eds_blob_source := blob_source_clear (eds_blob_source s),
       eds_calldata_source := calldata_source_clear (eds_calldata_source s)\<rparr>"

section \<open>Draining a source\<close>

fun calls :: "('s \<Rightarrow> 's \<times> 'a) \<Rightarrow> nat \<Rightarrow> 's \<Rightarrow> 'a list" where
  "calls f 0 s = []"
| "calls f (Suc n) s = (case f s of (s, r) \<Rightarrow> r # calls f n s)"

text \<open>What a source promises: it hands out a queue of data and then reports its end.\<close>

locale data_source =
  fixes pull :: "'s \<Rightarrow> 's \<times> bytes pres" and ready :: "'s \<Rightarrow> bool" and queue :: "'s \<Rightarrow> bytes list"
  assumes pull_empty: "ready s \<Longrightarrow> queue s = [] \<Longrightarrow> \<exists>t. pull s = (t, Err (temp Eof)) \<and> ready t \<and> queue t = []"
    and pull_data: "ready s \<Longrightarrow> queue s = d # ds \<Longrightarrow> \<exists>t. pull s = (t, Ok d) \<and> ready t \<and> queue t = ds"
begin

lemma calls_queue:
  "ready s \<Longrightarrow> calls pull n s = map Ok (take n (queue s)) @ replicate (n - length (queue s)) (Err (temp Eof))"
proof (induction n arbitrary: s)
  case (Suc n)
  show ?case
  proof (cases "queue s")
    case Nil
    with Suc pull_empty [of s] show ?thesis by auto
  next
    case (Cons d ds)
    with Suc pull_data [of s d ds] show ?thesis by auto
  qed
qed simp

end

definition blob_item :: "blob_data \<Rightarrow> bytes list" where
  "blob_item d = (case bld_calldata d of
     Some c \<Rightarrow> [c]
   | None \<Rightarrow> (case blob_data_decode d of Good x \<Rightarrow> [x] | _ \<Rightarrow> []))"

lemma blob_data_decode_no_panic [simp]: "blob_data_decode d \<noteq> Panic"
  using Rep_blob decode_blob_no_panic by (auto simp: blob_data_decode_def obind_eq_Panic)

lemma blob_item_cases: obtains "blob_item d = []" | c where "blob_item d = [c]"
  by (cases "bld_calldata d"; cases "blob_data_decode d"; simp add: blob_item_def)

lemma blob_source_next_step:
  assumes "bls_open s" "bls_data s = d # ds"
  shows "blob_source_next R F B block a s =
    (case blob_item d of [] \<Rightarrow> blob_source_next R F B block a (s\<lparr>bls_data := ds\<rparr>) | c # _ \<Rightarrow> (s\<lparr>bls_data := ds\<rparr>, Ok c))"
  using assms
  by (subst blob_source_next.simps)
    (simp add: load_blobs_def blob_source_next_data_def blob_item_def split: option.splits outcome.splits)

lemma blob_source_next_open:
  assumes "bls_open s"
  shows "blob_source_next R F B block a (s\<lparr>bls_data := data\<rparr>) =
    (case dropWhile (\<lambda>d. blob_item d = []) data of
       [] \<Rightarrow> (s\<lparr>bls_data := []\<rparr>, Err (temp Eof))
     | d # ds \<Rightarrow> (s\<lparr>bls_data := ds\<rparr>, Ok (hd (blob_item d))))"
proof (induction data)
  case Nil
  show ?case
    using assms by (subst blob_source_next.simps) (simp add: load_blobs_def blob_source_next_data_def)
next
  case (Cons d ds)
  then show ?case
    using assms by (cases d rule: blob_item_cases) (simp_all add: blob_source_next_step [where d = d and ds = ds])
qed

lemma blob_items_dropWhile:
  "concat (map blob_item data) = (case dropWhile (\<lambda>d. blob_item d = []) data of
     [] \<Rightarrow> [] | d # ds \<Rightarrow> hd (blob_item d) # concat (map blob_item ds))"
proof (induction data)
  case (Cons d ds)
  then show ?case by (cases d rule: blob_item_cases) simp_all
qed simp

lemma blob_source_next_load:
  "blob_source_next R F B block a s = (case load_blobs R F B block a s of
     (s, Inl e) \<Rightarrow> (s, Err (of_blob_provider_error e))
   | (s, Inr _) \<Rightarrow> blob_source_next R F B block a s)"
proof (cases "load_blobs R F B block a s")
  case (Pair s1 r)
  show ?thesis
  proof (cases r)
    case (Inr u)
    with Pair have "load_blobs R F B block a s1 = (s1, Inr ())"
      using load_blobs_open [of R F B block a s s1 u] by (simp add: load_blobs_def)
    with Pair Inr show ?thesis
      by (subst (1 2) blob_source_next.simps) simp
  qed (use Pair in \<open>subst blob_source_next.simps, simp\<close>)
qed

text \<open>What is queued in a source for a block: its data, or the data it loads.\<close>

definition blob_queue ::
    "(l1_envelope \<Rightarrow> address option) \<Rightarrow> 'f tx_provider \<Rightarrow> 'b blob_provider \<Rightarrow> block_info \<Rightarrow> address \<Rightarrow>
     ('f, 'b) blob_source \<Rightarrow> bytes list option" where
  "blob_queue R F B block a s = (case load_blobs R F B block a s of
     (s, Inl e) \<Rightarrow> None | (s, Inr _) \<Rightarrow> Some (concat (map blob_item (bls_data s))))"

lemma blob_queue_open: "bls_open s \<Longrightarrow> blob_queue R F B block a s = Some (concat (map blob_item (bls_data s)))"
  by (simp add: blob_queue_def load_blobs_def)

lemma blob_queue_next:
  assumes "blob_queue R F B block a s = Some q"
  shows "\<exists>t. blob_source_next R F B block a s = (t, case q of [] \<Rightarrow> Err (temp Eof) | d # _ \<Rightarrow> Ok d) \<and>
    blob_queue R F B block a t = Some (tl q)"
proof -
  from assms obtain s1 where s1: "load_blobs R F B block a s = (s1, Inr ())" "q = concat (map blob_item (bls_data s1))"
    by (auto simp: blob_queue_def split: prod.splits sum.splits)
  then have "bls_open s1" using load_blobs_open by blast
  then have "blob_source_next R F B block a s = (case dropWhile (\<lambda>d. blob_item d = []) (bls_data s1) of
       [] \<Rightarrow> (s1\<lparr>bls_data := []\<rparr>, Err (temp Eof))
     | d # ds \<Rightarrow> (s1\<lparr>bls_data := ds\<rparr>, Ok (hd (blob_item d))))"
    using blob_source_next_open [of s1 R F B block a "bls_data s1"] s1(1)
    by (simp add: blob_source_next_load [of R F B block a s])
  with s1(2) \<open>bls_open s1\<close> blob_items_dropWhile [of "bls_data s1"] show ?thesis
    by (cases "dropWhile (\<lambda>d. blob_item d = []) (bls_data s1)") (simp_all add: blob_queue_open)
qed

interpretation blobs: data_source "blob_source_next R F B block a" "\<lambda>s. blob_queue R F B block a s \<noteq> None"
    "\<lambda>s. the (blob_queue R F B block a s)"
  for R and F :: "'f tx_provider" and B :: "'b blob_provider" and block a
  by unfold_locales (use blob_queue_next [of R F B block a] in fastforce)+

definition calldata_queue ::
    "(l1_envelope \<Rightarrow> address option) \<Rightarrow> 'f tx_provider \<Rightarrow> block_info \<Rightarrow> address \<Rightarrow> 'f calldata_source \<Rightarrow> bytes list option" where
  "calldata_queue R F block a s = (case load_calldata R F block a s of (s, Ok _) \<Rightarrow> Some (cds_calldata s) | _ \<Rightarrow> None)"

lemma calldata_queue_next:
  assumes "calldata_queue R F block a s = Some q"
  shows "\<exists>t. calldata_source_next R F block a s = (t, case q of [] \<Rightarrow> Err (temp Eof) | d # _ \<Rightarrow> Ok d) \<and>
    calldata_queue R F block a t = Some (tl q)"
proof -
  from assms obtain s1 where s1: "load_calldata R F block a s = (s1, Ok ())" "q = cds_calldata s1"
    by (auto simp: calldata_queue_def split: prod.splits pres.splits)
  then have "cds_open s1"
    by (auto simp: load_calldata_def split: if_splits prod.splits sum.splits)
  with s1 show ?thesis
    by (auto simp: calldata_source_next_def calldata_queue_def load_calldata_def split: list.splits)
qed

interpretation calldata: data_source "calldata_source_next R F block a" "\<lambda>s. calldata_queue R F block a s \<noteq> None"
    "\<lambda>s. the (calldata_queue R F block a s)"
  for R and F :: "'f tx_provider" and block a
  by unfold_locales (use calldata_queue_next [of R F block a] in fastforce)+

section \<open>The batcher's data in a block\<close>

text \<open>
  The reference: the transactions sent by the batcher to the inbox, with the position of their
  first blob among the blobs of the block.
\<close>

fun blob_hashes_of :: "l1_envelope \<Rightarrow> b256 list" where
  "blob_hashes_of (Eip4844 tx) = lbx_blob_versioned_hashes tx"
| "blob_hashes_of (Eip4844_with_sidecar tx) = lbx_blob_versioned_hashes tx"
| "blob_hashes_of _ = []"

fun blob_starts :: "l1_envelope list \<Rightarrow> u64 \<Rightarrow> (l1_envelope \<times> u64) list" where
  "blob_starts [] i = []"
| "blob_starts (tx # txs) i = (tx, i) # blob_starts txs (i + word_of_nat (length (blob_hashes_of tx)))"

definition from_batcher :: "(l1_envelope \<Rightarrow> address option) \<Rightarrow> address \<Rightarrow> address \<Rightarrow> l1_envelope \<Rightarrow> bool" where
  "from_batcher R inbox batcher tx = (case blob_tx_parts tx of
     Some (Some to, _) \<Rightarrow> to = inbox \<and> (case R tx of Some a \<Rightarrow> a | None \<Rightarrow> 0) = batcher
   | _ \<Rightarrow> False)"

definition decoded :: "blob \<Rightarrow> bytes list" where
  "decoded b = (case decode_blob (Rep_blob b) of Good d \<Rightarrow> [d] | _ \<Rightarrow> [])"

definition tx_data :: "(indexed_blob_hash \<Rightarrow> blob) \<Rightarrow> l1_envelope \<times> u64 \<Rightarrow> bytes list" where
  "tx_data content = (\<lambda>(tx, i).
     if is_eip4844 tx then concat (map (decoded \<circ> content) (index_hashes (blob_hashes_of tx) i))
     else case blob_tx_parts tx of Some (_, input, _) \<Rightarrow> [input] | None \<Rightarrow> [])"

definition batcher_txs :: "(l1_envelope \<Rightarrow> address option) \<Rightarrow> address \<Rightarrow> address \<Rightarrow> l1_envelope list \<Rightarrow> u64 \<Rightarrow> (l1_envelope \<times> u64) list" where
  "batcher_txs R inbox batcher txs i = filter (\<lambda>(tx, _). from_batcher R inbox batcher tx) (blob_starts txs i)"

definition batcher_data ::
    "(l1_envelope \<Rightarrow> address option) \<Rightarrow> address \<Rightarrow> address \<Rightarrow> (indexed_blob_hash \<Rightarrow> blob) \<Rightarrow> l1_envelope list \<Rightarrow> bytes list" where
  "batcher_data R inbox batcher content txs = concat (map (tx_data content) (batcher_txs R inbox batcher txs 0))"

definition batcher_hashes :: "(l1_envelope \<Rightarrow> address option) \<Rightarrow> address \<Rightarrow> address \<Rightarrow> l1_envelope list \<Rightarrow> u64 \<Rightarrow> indexed_blob_hash list" where
  "batcher_hashes R inbox batcher txs i =
     concat (map (\<lambda>(tx, i). index_hashes (blob_hashes_of tx) i) (batcher_txs R inbox batcher txs i))"

definition tx_slots :: "l1_envelope \<Rightarrow> blob_data list" where
  "tx_slots tx = (if is_eip4844 tx then replicate (length (blob_hashes_of tx)) default_blob_data
     else case blob_tx_parts tx of Some (_, input, _) \<Rightarrow> [\<lparr>bld_data = None, bld_calldata = Some input\<rparr>] | None \<Rightarrow> [])"

lemma extract_blob_data_eq:
  "extract_blob_data R inbox batcher txs i =
     (concat (map (\<lambda>t. tx_slots (fst t)) (batcher_txs R inbox batcher txs i)), batcher_hashes R inbox batcher txs i)"
proof (induction txs arbitrary: i)
  case Nil
  then show ?case by (simp add: batcher_txs_def batcher_hashes_def)
next
  case (Cons tx txs)
  then show ?case
    by (cases tx) (simp_all add: batcher_txs_def batcher_hashes_def from_batcher_def tx_slots_def Let_def
        split: option.splits)
qed

definition zero_blob :: "blob \<Rightarrow> bool" where
  "zero_blob b \<longleftrightarrow> (\<forall>x\<in>set (Rep_blob b). x = 0)"

lemma fill_all_append:
  "fill_all blobs n (ds @ es) =
     (case fill_all blobs n ds of
        Inl e \<Rightarrow> Inl e
      | Inr ds' \<Rightarrow> (case fill_all blobs (n + length (filter (\<lambda>d. bld_calldata d = None) ds)) es of
            Inl e \<Rightarrow> Inl e | Inr es' \<Rightarrow> Inr (ds' @ es')))"
  by (induction ds arbitrary: n) (auto simp: blob_data_fill_def split: sum.splits)

lemma fill_all_slots:
  assumes "\<forall>b\<in>set bs. \<not> zero_blob b"
  shows "fill_all (pre @ bs @ post) (length pre) (replicate (length bs) default_blob_data) =
    Inr (map (\<lambda>b. \<lparr>bld_data = Some b, bld_calldata = None\<rparr>) bs)"
  using assms
proof (induction bs arbitrary: pre)
  case (Cons b bs)
  then show ?case
    using Cons.IH [of "pre @ [b]"] by (simp add: blob_data_fill_def default_blob_data_def zero_blob_def nth_append)
qed simp

lemma length_index_hashes [simp]: "length (index_hashes hs i) = length hs"
  by (induction hs arbitrary: i) simp_all

lemma fill_all_tx:
  assumes "\<forall>h\<in>set (index_hashes (blob_hashes_of tx) i). \<not> zero_blob (content h)" "length pre = n"
  shows "\<exists>ds. fill_all (pre @ map content (index_hashes (blob_hashes_of tx) i) @ post) n (tx_slots tx) = Inr ds \<and>
    concat (map blob_item ds) = tx_data content (tx, i) \<and>
    length (filter (\<lambda>d. bld_calldata d = None) (tx_slots tx)) = length (blob_hashes_of tx)"
proof (cases "is_eip4844 tx")
  case True
  have item: "blob_item \<lparr>bld_data = Some b, bld_calldata = None\<rparr> = decoded b" for b
    by (simp add: blob_item_def blob_data_decode_def decoded_def)
  show ?thesis
    using assms True fill_all_slots [of "map content (index_hashes (blob_hashes_of tx) i)" pre post]
    by (simp add: tx_slots_def tx_data_def item comp_def default_blob_data_def)
next
  case False
  then show ?thesis
    by (cases tx) (simp_all add: tx_slots_def tx_data_def blob_item_def blob_data_fill_def)
qed

lemma fill_all_txs:
  assumes "\<forall>(tx, i)\<in>set ts. \<forall>h\<in>set (index_hashes (blob_hashes_of tx) i). \<not> zero_blob (content h)"
  shows "\<exists>ds. fill_all (pre @ map content (concat (map (\<lambda>(tx, i). index_hashes (blob_hashes_of tx) i) ts))) (length pre)
      (concat (map (\<lambda>t. tx_slots (fst t)) ts)) = Inr ds \<and> concat (map blob_item ds) = concat (map (tx_data content) ts)"
  using assms
proof (induction ts arbitrary: pre)
  case (Cons t ts)
  obtain tx i where t: "t = (tx, i)" by (cases t)
  let ?hs = "index_hashes (blob_hashes_of tx) i" and ?rest = "map content (concat (map (\<lambda>(tx, i). index_hashes (blob_hashes_of tx) i) ts))"
  obtain ds where ds: "fill_all (pre @ map content ?hs @ ?rest) (length pre) (tx_slots tx) = Inr ds"
      "concat (map blob_item ds) = tx_data content (tx, i)"
      "length (filter (\<lambda>d. bld_calldata d = None) (tx_slots tx)) = length (blob_hashes_of tx)"
    using fill_all_tx [of tx i content pre "length pre" ?rest] Cons.prems t by auto
  obtain es where "fill_all ((pre @ map content ?hs) @ ?rest) (length (pre @ map content ?hs)) (concat (map (\<lambda>t. tx_slots (fst t)) ts)) = Inr es"
      "concat (map blob_item es) = concat (map (tx_data content) ts)"
    using Cons.IH [of "pre @ map content ?hs"] Cons.prems by auto
  with ds t show ?case by (simp add: fill_all_append)
qed simp

lemma load_blobs_ok:
  assumes txs: "cp_block_info_and_transactions_by_hash F (bls_chain_provider s) (bi_hash block) = (f, Inr (b, txs))"
    and blobs: "\<And>g hs. \<exists>g'. blp_get_and_validate_blobs B g block hs = (g', Inr (map content hs))"
    and nz: "\<forall>h\<in>set (batcher_hashes R (bls_batcher_address s) a txs 0). \<not> zero_blob (content h)"
  shows "blob_queue R F B block a (blob_source_clear s) = Some (batcher_data R (bls_batcher_address s) a content txs)"
proof -
  let ?inbox = "bls_batcher_address s" and ?hs = "batcher_hashes R (bls_batcher_address s) a txs 0"
  let ?slots = "concat (map (\<lambda>t. tx_slots (fst t)) (batcher_txs R (bls_batcher_address s) a txs 0))"
  have "\<forall>(tx, i)\<in>set (batcher_txs R ?inbox a txs 0). \<forall>h\<in>set (index_hashes (blob_hashes_of tx) i). \<not> zero_blob (content h)"
    using nz by (fastforce simp: batcher_hashes_def)
  from fill_all_txs [OF this, of "[]"] obtain ds where ds: "fill_all (map content ?hs) 0 ?slots = Inr ds"
      "concat (map blob_item ds) = batcher_data R ?inbox a content txs"
    by (auto simp: batcher_hashes_def batcher_data_def)
  obtain g where g: "blp_get_and_validate_blobs B (bls_blob_fetcher s) block ?hs = (g, Inr (map content ?hs))"
    using blobs by blast
  have "ds = ?slots" if "?hs = []"
  proof -
    have "fill_all [] 0 es = Inr es' \<Longrightarrow> es' = es" for es es'
      by (induction es arbitrary: es') (auto simp: blob_data_fill_def split: if_splits sum.splits)
    with that ds(1) show ?thesis by simp
  qed
  with txs ds g show ?thesis
    by (cases "?hs = []") (simp_all add: blob_queue_def load_blobs_def blob_source_clear_def extract_blob_data_eq Let_def)
qed

lemma load_calldata_ok:
  assumes "cp_block_info_and_transactions_by_hash F (cds_chain_provider s) (bi_hash block) = (f, Inr (b, txs))"
  shows "calldata_queue R F block a (calldata_source_clear s) =
    Some (List.map_filter (batcher_calldata R (cds_batch_inbox_address s) a) txs)"
  using assms by (simp add: calldata_queue_def load_calldata_def calldata_source_clear_def)

definition ethereum_queue ::
    "(l1_envelope \<Rightarrow> address option) \<Rightarrow> 'f tx_provider \<Rightarrow> 'b blob_provider \<Rightarrow> block_info \<Rightarrow> address \<Rightarrow>
     ('f, 'b) ethereum_data_source \<Rightarrow> bytes list option" where
  "ethereum_queue R F B block a s =
     (if ecotone_enabled (eds_ecotone_timestamp s) block then blob_queue R F B block a (eds_blob_source s)
      else calldata_queue R F block a (eds_calldata_source s))"

lemma ethereum_queue_next:
  assumes "ethereum_queue R F B block a s = Some q"
  shows "\<exists>t. ethereum_source_next R F B block a s = (t, case q of [] \<Rightarrow> Err (temp Eof) | d # _ \<Rightarrow> Ok d) \<and>
    ethereum_queue R F B block a t = Some (tl q)"
  using assms blob_queue_next [of R F B block a "eds_blob_source s" q]
    calldata_queue_next [of R F block a "eds_calldata_source s" q]
  by (cases "ecotone_enabled (eds_ecotone_timestamp s) block") (auto simp: ethereum_queue_def ethereum_source_next_def)

interpretation ethereum: data_source "ethereum_source_next R F B block a" "\<lambda>s. ethereum_queue R F B block a s \<noteq> None"
    "\<lambda>s. the (ethereum_queue R F B block a s)"
  for R and F :: "'f tx_provider" and B :: "'b blob_provider" and block a
  by unfold_locales (use ethereum_queue_next [of R F B block a] in fastforce)+

lemma blob_source_next_no_panic: "snd (blob_source_next R F B block a s) \<noteq> Panicked"
proof (cases "load_blobs R F B block a s")
  case (Pair s1 r)
  show ?thesis
  proof (cases r)
    case (Inr u)
    with Pair have "bls_open s1" using load_blobs_open by blast
    then show ?thesis
      using Pair Inr blob_source_next_open [of s1 R F B block a "bls_data s1"]
      by (simp add: blob_source_next_load [of R F B block a s] split: list.splits)
  qed (use Pair in \<open>simp add: blob_source_next_load [of R F B block a s]\<close>)
qed

lemma ethereum_source_next_no_panic: "snd (ethereum_source_next R F B block a s) \<noteq> Panicked"
  using blob_source_next_no_panic [of R F B block a "eds_blob_source s"]
  by (auto simp: ethereum_source_next_def via_def calldata_source_next_def load_calldata_def pbind_def
      split: prod.splits sum.splits list.splits)

text \<open>The source as the data availability provider of L1 retrieval; it has no panic to report.\<close>

fun panic_free :: "'a pres \<Rightarrow> pipeline_error_kind + 'a" where
  "panic_free (Ok a) = Inr a"
| "panic_free (Err e) = Inl e"

definition ethereum_source_provider ::
    "(l1_envelope \<Rightarrow> address option) \<Rightarrow> 'f tx_provider \<Rightarrow> 'b blob_provider \<Rightarrow>
     ('f, 'b) ethereum_data_source data_availability_provider" where
  "ethereum_source_provider R F B =
     \<lparr>dap_next = (\<lambda>s block a. map_prod id panic_free (ethereum_source_next R F B block a s)),
      dap_clear = ethereum_source_clear\<rparr>"

text \<open>
  C30. On an L1 block, a cleared Ethereum source hands out, one per call, the data that the batcher
  sent to the inbox in this block, in order, and then the end of data for good: with Ecotone
  active, the calldata of its ordinary transactions and the decoded blobs of its blob
  transactions, leaving out blobs that do not decode; before, the calldata alone.
\<close>

theorem ethereum_source_data:
  assumes "\<And>f. \<exists>f' b. cp_block_info_and_transactions_by_hash F f (bi_hash block) = (f', Inr (b, txs))"
    and "\<And>g hs. \<exists>g'. blp_get_and_validate_blobs B g block hs = (g', Inr (map content hs))"
    and "\<forall>h\<in>set (batcher_hashes R inbox a txs 0). \<not> zero_blob (content h)"
    and "bls_batcher_address (eds_blob_source s) = inbox" "cds_batch_inbox_address (eds_calldata_source s) = inbox"
    and "q = (if ecotone_enabled (eds_ecotone_timestamp s) block then batcher_data R inbox a content txs
          else List.map_filter (batcher_calldata R inbox a) txs)"
  shows "calls (ethereum_source_next R F B block a) n (ethereum_source_clear s) =
    map Ok (take n q) @ replicate (n - length q) (Err (temp Eof))"
proof -
  obtain f b where f: "cp_block_info_and_transactions_by_hash F (bls_chain_provider (eds_blob_source s)) (bi_hash block) = (f, Inr (b, txs))"
    using assms(1) by blast
  obtain f' b' where f': "cp_block_info_and_transactions_by_hash F (cds_chain_provider (eds_calldata_source s)) (bi_hash block) = (f', Inr (b', txs))"
    using assms(1) by blast
  have "ethereum_queue R F B block a (ethereum_source_clear s) = Some q"
    using load_blobs_ok [OF f assms(2)] load_calldata_ok [OF f'] assms(3-)
    by (simp add: ethereum_queue_def ethereum_source_clear_def)
  then show ?thesis
    using ethereum.calls_queue [of R F B block a "ethereum_source_clear s" n] by simp
qed

definition example_content :: "indexed_blob_hash \<Rightarrow> blob" where
  "example_content h = Abs_blob (blob_encode [1, 2, 3])"

definition example_txs :: "l1_envelope list" where
  "example_txs =
     [Legacy \<lparr>ltx_to = Some 7, ltx_input = [9], ltx_rest = []\<rparr>,
      Eip4844 \<lparr>lbx_to = 8, lbx_input = [], lbx_blob_versioned_hashes = [30], lbx_rest = []\<rparr>,
      Eip4844 \<lparr>lbx_to = 7, lbx_input = [], lbx_blob_versioned_hashes = [31], lbx_rest = []\<rparr>]"

definition example_tx_provider :: "unit tx_provider" where
  "example_tx_provider =
     \<lparr>cp_block_info_by_number = (\<lambda>f n. (f, Inr default_block_info)), cp_receipts_by_hash = (\<lambda>f h. (f, Inr [])),
      cp_block_info_and_transactions_by_hash = (\<lambda>f h. (f, Inr (default_block_info, example_txs)))\<rparr>"

definition example_blob_provider :: "unit blob_provider" where
  "example_blob_provider = \<lparr>blp_get_and_validate_blobs = (\<lambda>g block hs. (g, Inr (map example_content hs)))\<rparr>"

definition example_source :: "(unit, unit) ethereum_data_source" where
  "example_source = \<lparr>eds_ecotone_timestamp = Some 0, eds_blob_source = blob_source_new () () 7,
     eds_calldata_source = calldata_source_new () 7\<rparr>"

lemma example_content_decoded: "decoded (example_content h) = [[1, 2, 3]]" "\<not> zero_blob (example_content h)"
proof -
  have b: "Rep_blob (example_content h) = blob_encode [1, 2, 3]"
    by (simp add: example_content_def Abs_blob_inverse length_blob_encode BLOB_MAX_DATA_SIZE_def)
  have "decode_blob (blob_encode [1, 2, 3]) = Good [1, 2, 3]"
    by (rule blob_roundtrip) (simp add: BLOB_MAX_DATA_SIZE_def)
  with b show "decoded (example_content h) = [[1, 2, 3]]" by (simp add: decoded_def)
  show "\<not> zero_blob (example_content h)"
    unfolding zero_blob_def b by (rule blob_encode_nonzero) (simp_all add: BLOB_MAX_DATA_SIZE_def)
qed

lemmas example_source_defs = example_tx_provider_def example_blob_provider_def example_source_def

theorem ethereum_source_data_witness:
  "calls (ethereum_source_next (\<lambda>_. Some 5) example_tx_provider example_blob_provider default_block_info 5) 3
     (ethereum_source_clear example_source) = [Ok [9], Ok [1, 2, 3], Err (temp Eof)]"
proof -
  have q: "batcher_data (\<lambda>_. Some 5) 7 5 example_content example_txs = [[9], [1, 2, 3]]"
    by (simp add: batcher_data_def batcher_txs_def from_batcher_def tx_data_def example_txs_def example_content_decoded)
  have "calls (ethereum_source_next (\<lambda>_. Some 5) example_tx_provider example_blob_provider default_block_info 5) 3
      (ethereum_source_clear example_source) =
    map Ok (take 3 [[9], [1, 2, 3]]) @ replicate (3 - length [[9 :: u8], [1, 2, 3]]) (Err (temp Eof))"
    by (rule ethereum_source_data [where txs = example_txs and content = example_content and inbox = 7])
      (simp_all add: example_source_defs example_content_decoded q blob_source_new_def
        calldata_source_new_def ecotone_enabled_def)
  then show ?thesis by simp
qed

text \<open>
  The source looks at the Ecotone time alone, where the configuration also counts Ecotone as active
  from a later fork: without an Ecotone time, blobs are never read.
\<close>

lemma ecotone_enabled_without_time:
  assumes "ecotone_time (rc_hardforks cfg) = None" "is_fjord_active cfg (bi_timestamp block)"
  shows "is_ecotone_active cfg (bi_timestamp block)"
    "\<not> ecotone_enabled (eds_ecotone_timestamp (ethereum_data_source_from_parts f b cfg)) block"
  using assms by (simp_all add: is_ecotone_active_def ecotone_enabled_def ethereum_data_source_from_parts_def)

end
