(* ===== verification/Consolidation.thy ===== *)
theory Consolidation
  imports Attributes
begin

text \<open>
  Matching payload attributes against a block of the execution layer,
  \<^verbatim>\<open>crates/node/engine/src/attributes.rs\<close>.  When derived attributes match the unsafe block at their
  height, the node makes that block safe instead of building it again.

  The decoding and hashing of transactions, of the EIP-1559 parameters of the attributes and of
  the extra data of a header, and the root of the empty trie are library code, the record
  \<open>match_lib\<close>.

  Shown: exactly when the check succeeds, that it accepts the combination of fee parameters it
  documents as invalid, and that it does not look at the minimum base fee of Jovian.
\<close>

section \<open>Blocks of the execution layer\<close>

datatype block_transactions = Hashes "b256 list" | Full "op_tx list" | Uncle

record rpc_block =
  rb_hash :: b256
  rb_number :: u64
  rb_parent_hash :: b256
  rb_timestamp :: u64
  rb_mix_hash :: b256
  rb_gas_limit :: u64
  rb_beneficiary :: address
  rb_extra_data :: bytes
  rb_withdrawals_root :: "b256 option"
  rb_parent_beacon_block_root :: "b256 option"
  rb_withdrawals :: "withdrawal list option"
  rb_transactions :: block_transactions

record base_fee_params =
  bfp_max_change_denominator :: u128
  bfp_elasticity_multiplier :: u128

datatype eip1559_param_error = NoEIP1559Params | InvalidVersion u8 | OtherParamError string

record match_lib =
  ml_decode_2718 :: "bytes \<Rightarrow> op_tx option"
  ml_tx_hash :: "op_tx \<Rightarrow> b256"
  ml_decode_eip_1559_params :: "op_payload_attributes \<Rightarrow> (u32 \<times> u32) option"
  ml_decode_jovian_extra_data :: "bytes \<Rightarrow> eip1559_param_error + (u32 \<times> u32 \<times> u64)"
  ml_decode_holocene_extra_data :: "bytes \<Rightarrow> eip1559_param_error + (u32 \<times> u32)"
  ml_empty_root_hash :: b256

definition as_canyon_base_fee_params :: "base_fee_config \<Rightarrow> base_fee_params" where
  "as_canyon_base_fee_params c =
     \<lparr>bfp_max_change_denominator = ucast (bfc_eip1559_denominator_canyon c),
      bfp_elasticity_multiplier = ucast (bfc_eip1559_elasticity c)\<rparr>"

section \<open>The check\<close>

datatype attributes_mismatch = ParentHash b256 b256 | Timestamp u64 u64 | PrevRandao b256 b256
  | MalformedBlockTransactions | MalformedAttributesTransaction | TransactionLen nat nat
  | TransactionContent b256 b256 | MissingAttributesEIP1559 | MissingBlockEIP1559 | InvalidExtraDataVersion
  | UnknownExtraDataDecodingError eip1559_param_error | InvalidEIP1559ParamsCombination
  | EIP1559Parameters base_fee_params base_fee_params | Transactions u64 u64 | GasLimit u64 u64
  | MissingAttributesGasLimit | FeeRecipient address address | ParentBeaconBlockRoot "b256 option" "b256 option"
  | CanyonWithdrawalsNotEmpty | CanyonNotEmptyHash | BedrockWithdrawals | IsthmusMissingWithdrawalsRoot

datatype attributes_match = Match | Mismatch attributes_mismatch

fun is_match :: "attributes_match \<Rightarrow> bool" where
  "is_match Match = True"
| "is_match (Mismatch _) = False"

definition none_or_nonempty :: "'a list option \<Rightarrow> bool" where
  "none_or_nonempty w = (case w of None \<Rightarrow> True | Some w \<Rightarrow> w \<noteq> [])"

definition check_withdrawals ::
    "match_lib \<Rightarrow> rollup_config \<Rightarrow> op_attributes_with_parent \<Rightarrow> rpc_block \<Rightarrow> attributes_match" where
  "check_withdrawals M config attributes block =
     (let attr_withdrawals = pa_withdrawals (opa_payload_attributes (oap_inner attributes));
          block_withdrawals = rb_withdrawals block;
          isthmus = (if is_isthmus_active config (rb_timestamp block)
            then if rb_withdrawals_root block = None then Mismatch IsthmusMissingWithdrawalsRoot else Match
            else Match) in
      if is_canyon_active config (rb_timestamp block) then
        if none_or_nonempty attr_withdrawals then Mismatch CanyonWithdrawalsNotEmpty
        else if none_or_nonempty block_withdrawals then Mismatch CanyonWithdrawalsNotEmpty
        else if \<not> is_isthmus_active config (rb_timestamp block) \<and> rb_withdrawals_root block \<noteq> Some (ml_empty_root_hash M)
        then Mismatch CanyonNotEmptyHash
        else isthmus
      else if attr_withdrawals \<noteq> None then Mismatch BedrockWithdrawals
      else isthmus)"

fun check_tx_contents :: "match_lib \<Rightarrow> bytes list \<Rightarrow> op_tx list \<Rightarrow> attributes_match" where
  "check_tx_contents M (attr_tx_bytes # attributes_txs) (block_tx # block_txs) =
     (case ml_decode_2718 M attr_tx_bytes of
        None \<Rightarrow> Mismatch MalformedAttributesTransaction
      | Some attr_tx \<Rightarrow>
          if attr_tx \<noteq> block_tx then Mismatch (TransactionContent (ml_tx_hash M attr_tx) (ml_tx_hash M block_tx))
          else check_tx_contents M attributes_txs block_txs)"
| "check_tx_contents M _ _ = Match"

fun block_transactions_empty :: "block_transactions \<Rightarrow> bool" where
  "block_transactions_empty (Hashes hs) = (hs = [])"
| "block_transactions_empty (Full txs) = (txs = [])"
| "block_transactions_empty Uncle = True"

definition check_block_transactions :: "match_lib \<Rightarrow> bytes list \<Rightarrow> rpc_block \<Rightarrow> attributes_match" where
  "check_block_transactions M attributes_txs block =
     (case rb_transactions block of
        Uncle \<Rightarrow> Mismatch MalformedBlockTransactions
      | Hashes hs \<Rightarrow>
          if attributes_txs = [] \<and> block_transactions_empty (Hashes hs) then Match
          else Mismatch MalformedBlockTransactions
      | Full block_txs \<Rightarrow>
          if attributes_txs = [] \<and> block_transactions_empty (Full block_txs) then Match
          else if length attributes_txs \<noteq> length block_txs
          then Mismatch (TransactionLen (length attributes_txs) (length block_txs))
          else check_tx_contents M attributes_txs block_txs)"

definition compare_eip1559 ::
    "match_lib \<Rightarrow> rollup_config \<Rightarrow> rpc_block \<Rightarrow> u128 \<Rightarrow> u128 \<Rightarrow> attributes_match" where
  "compare_eip1559 M config block ae ad =
     (let extra_data_decoded =
        (if is_jovian_active config (rb_timestamp block)
         then Some (case ml_decode_jovian_extra_data M (rb_extra_data block) of
                      Inl e \<Rightarrow> Inl e | Inr (be, bd, _) \<Rightarrow> Inr (be, bd))
         else if is_holocene_active config (rb_timestamp block)
         then Some (ml_decode_holocene_extra_data M (rb_extra_data block))
         else None) in
      case extra_data_decoded of
        None \<Rightarrow> Mismatch MissingBlockEIP1559
      | Some (Inl NoEIP1559Params) \<Rightarrow> Mismatch MissingBlockEIP1559
      | Some (Inl (InvalidVersion v)) \<Rightarrow> Mismatch InvalidExtraDataVersion
      | Some (Inl e) \<Rightarrow> Mismatch (UnknownExtraDataDecodingError e)
      | Some (Inr (be, bd)) \<Rightarrow>
          if ae \<noteq> ucast be \<or> ad \<noteq> ucast bd
          then Mismatch (EIP1559Parameters
            \<lparr>bfp_max_change_denominator = ad, bfp_elasticity_multiplier = ae\<rparr>
            \<lparr>bfp_max_change_denominator = ucast bd, bfp_elasticity_multiplier = ucast be\<rparr>)
          else Match)"

definition check_eip1559 ::
    "match_lib \<Rightarrow> rollup_config \<Rightarrow> op_attributes_with_parent \<Rightarrow> rpc_block \<Rightarrow> attributes_match" where
  "check_eip1559 M config attributes block =
     (case ml_decode_eip_1559_params M (oap_inner attributes) of
        None \<Rightarrow> if is_holocene_active config (rb_timestamp block) then Mismatch MissingAttributesEIP1559 else Match
      | Some (ae, ad) \<Rightarrow>
          if ae = 0 \<and> ad \<noteq> 0 then Mismatch InvalidEIP1559ParamsCombination
          else if ae = 0 \<and> ad = 0 then
            let p = as_canyon_base_fee_params (rc_chain_op_config config) in
            compare_eip1559 M config block (bfp_elasticity_multiplier p) (bfp_max_change_denominator p)
          else compare_eip1559 M config block (ucast ae) (ucast ad))"

definition attributes_check ::
    "match_lib \<Rightarrow> rollup_config \<Rightarrow> op_attributes_with_parent \<Rightarrow> rpc_block \<Rightarrow> attributes_match" where
  "attributes_check M config attributes block =
     (let inner = oap_inner attributes; pa = opa_payload_attributes inner;
          parent_hash = bi_hash (l2_info (oap_parent attributes)) in
      if parent_hash \<noteq> rb_parent_hash block then Mismatch (ParentHash parent_hash (rb_parent_hash block))
      else if pa_timestamp pa \<noteq> rb_timestamp block then Mismatch (Timestamp (pa_timestamp pa) (rb_timestamp block))
      else if pa_prev_randao pa \<noteq> rb_mix_hash block then Mismatch (PrevRandao (pa_prev_randao pa) (rb_mix_hash block))
      else case check_block_transactions M (case opa_transactions inner of None \<Rightarrow> [] | Some txs \<Rightarrow> txs) block of
        Mismatch m \<Rightarrow> Mismatch m
      | Match \<Rightarrow>
      (case opa_gas_limit inner of
        None \<Rightarrow> Mismatch MissingAttributesGasLimit
      | Some gas_limit \<Rightarrow>
          if gas_limit \<noteq> rb_gas_limit block then Mismatch (GasLimit gas_limit (rb_gas_limit block))
          else case check_withdrawals M config attributes block of
            Mismatch m \<Rightarrow> Mismatch m
          | Match \<Rightarrow>
              if pa_parent_beacon_block_root pa \<noteq> rb_parent_beacon_block_root block
              then Mismatch (ParentBeaconBlockRoot (pa_parent_beacon_block_root pa) (rb_parent_beacon_block_root block))
              else if pa_suggested_fee_recipient pa \<noteq> rb_beneficiary block
              then Mismatch (FeeRecipient (pa_suggested_fee_recipient pa) (rb_beneficiary block))
              else check_eip1559 M config attributes block))"

section \<open>What a match means\<close>

definition same_transactions :: "match_lib \<Rightarrow> bytes list \<Rightarrow> block_transactions \<Rightarrow> bool" where
  "same_transactions M txs b \<longleftrightarrow>
     (case b of Full block_txs \<Rightarrow> map (ml_decode_2718 M) txs = map Some block_txs
      | Hashes hs \<Rightarrow> txs = [] \<and> hs = [] | Uncle \<Rightarrow> False)"

definition withdrawals_agree :: "match_lib \<Rightarrow> rollup_config \<Rightarrow> withdrawal list option \<Rightarrow> rpc_block \<Rightarrow> bool" where
  "withdrawals_agree M config w block \<longleftrightarrow>
     (if is_canyon_active config (rb_timestamp block) then w = Some [] \<and> rb_withdrawals block = Some [] else w = None) \<and>
     (if is_isthmus_active config (rb_timestamp block) then rb_withdrawals_root block \<noteq> None
      else is_canyon_active config (rb_timestamp block) \<longrightarrow> rb_withdrawals_root block = Some (ml_empty_root_hash M))"

text \<open>The parameters a block of its fork carries, and those the attributes ask for.\<close>

definition block_params :: "match_lib \<Rightarrow> rollup_config \<Rightarrow> rpc_block \<Rightarrow> (u32 \<times> u32) option" where
  "block_params M config block =
     (if is_jovian_active config (rb_timestamp block) then
        (case ml_decode_jovian_extra_data M (rb_extra_data block) of Inl _ \<Rightarrow> None | Inr (e, d, _) \<Rightarrow> Some (e, d))
      else if is_holocene_active config (rb_timestamp block) then
        (case ml_decode_holocene_extra_data M (rb_extra_data block) of Inl _ \<Rightarrow> None | Inr p \<Rightarrow> Some p)
      else None)"

definition wanted_params :: "rollup_config \<Rightarrow> u32 \<times> u32 \<Rightarrow> u128 \<times> u128" where
  "wanted_params config = (\<lambda>(e, d).
     if e = 0 \<and> d = 0
     then (ucast (bfc_eip1559_elasticity (rc_chain_op_config config)),
           ucast (bfc_eip1559_denominator_canyon (rc_chain_op_config config)))
     else (ucast e, ucast d))"

definition params_agree :: "match_lib \<Rightarrow> rollup_config \<Rightarrow> op_payload_attributes \<Rightarrow> rpc_block \<Rightarrow> bool" where
  "params_agree M config inner block \<longleftrightarrow>
     (case ml_decode_eip_1559_params M inner of
        None \<Rightarrow> \<not> is_holocene_active config (rb_timestamp block)
      | Some p \<Rightarrow>
          map_option (\<lambda>(e, d). (ucast e, ucast d)) (block_params M config block) = Some (wanted_params config p))"

text \<open>A zero elasticity with a denominator, which the check refuses.\<close>

definition zero_elasticity :: "match_lib \<Rightarrow> op_payload_attributes \<Rightarrow> bool" where
  "zero_elasticity M inner \<longleftrightarrow> (\<exists>d. ml_decode_eip_1559_params M inner = Some (0, d) \<and> d \<noteq> 0)"

text \<open>
  The combination the error \<open>InvalidEIP1559ParamsCombination\<close> is documented for: a zero denominator
  with an elasticity.
\<close>

definition zero_denominator :: "match_lib \<Rightarrow> op_payload_attributes \<Rightarrow> bool" where
  "zero_denominator M inner \<longleftrightarrow> (\<exists>e. ml_decode_eip_1559_params M inner = Some (e, 0) \<and> e \<noteq> 0)"

lemma check_tx_contents_Match:
  "length txs = length block_txs \<Longrightarrow>
   check_tx_contents M txs block_txs = Match \<longleftrightarrow> map (ml_decode_2718 M) txs = map Some block_txs"
  by (induction txs block_txs rule: list_induct2) (auto split: option.splits)

lemma check_block_transactions_Match:
  "check_block_transactions M txs block = Match \<longleftrightarrow> same_transactions M txs (rb_transactions block)"
proof (cases "rb_transactions block")
  case (Full block_txs)
  have "length txs = length block_txs" if "map (ml_decode_2718 M) txs = map Some block_txs"
    using arg_cong [OF that, of length] by simp
  with Full show ?thesis
    by (auto simp: check_block_transactions_def same_transactions_def check_tx_contents_Match)
qed (auto simp: check_block_transactions_def same_transactions_def)

lemma check_withdrawals_Match:
  "check_withdrawals M config attributes block = Match \<longleftrightarrow>
   withdrawals_agree M config (pa_withdrawals (opa_payload_attributes (oap_inner attributes))) block"
  by (auto simp: check_withdrawals_def withdrawals_agree_def none_or_nonempty_def Let_def split: option.splits if_splits)

lemma compare_eip1559_Match:
  "compare_eip1559 M config block ae ad = Match \<longleftrightarrow>
   map_option (\<lambda>(e, d). (ucast e, ucast d)) (block_params M config block) = Some (ae, ad)"
  by (auto simp: compare_eip1559_def block_params_def Let_def split: sum.splits eip1559_param_error.splits prod.splits)

lemma check_eip1559_Match:
  "check_eip1559 M config attributes block = Match \<longleftrightarrow>
   params_agree M config (oap_inner attributes) block \<and> \<not> zero_elasticity M (oap_inner attributes)"
  by (auto simp: check_eip1559_def params_agree_def zero_elasticity_def wanted_params_def compare_eip1559_Match
      as_canyon_base_fee_params_def Let_def split: option.splits)

lemma no_invalid_combination:
  "check_tx_contents M txs block_txs \<noteq> Mismatch InvalidEIP1559ParamsCombination"
  "check_block_transactions M txs block \<noteq> Mismatch InvalidEIP1559ParamsCombination"
  "check_withdrawals M config attributes block \<noteq> Mismatch InvalidEIP1559ParamsCombination"
  "compare_eip1559 M config block ae ad \<noteq> Mismatch InvalidEIP1559ParamsCombination"
proof -
  show contents: "check_tx_contents M txs block_txs \<noteq> Mismatch InvalidEIP1559ParamsCombination" for txs block_txs
    by (induction M txs block_txs rule: check_tx_contents.induct) (auto split: option.splits)
  then show "check_block_transactions M txs block \<noteq> Mismatch InvalidEIP1559ParamsCombination"
    by (simp add: check_block_transactions_def split: block_transactions.splits)
qed (auto simp: check_withdrawals_def compare_eip1559_def Let_def
    split: if_splits sum.splits prod.splits eip1559_param_error.splits)

lemma attributes_check_combination:
  "attributes_check M config attributes block = Mismatch InvalidEIP1559ParamsCombination \<Longrightarrow>
   zero_elasticity M (oap_inner attributes)"
  by (auto simp: attributes_check_def check_eip1559_def zero_elasticity_def Let_def no_invalid_combination
      split: if_splits option.splits attributes_match.splits prod.splits)

lemma attributes_check_extra_data:
  assumes "is_jovian_active config (rb_timestamp block)"
    and "ml_decode_jovian_extra_data M x = Inr (e, d, m)" and "ml_decode_jovian_extra_data M x' = Inr (e, d, m')"
  shows "attributes_check M config attributes (block\<lparr>rb_extra_data := x\<rparr>) =
    attributes_check M config attributes (block\<lparr>rb_extra_data := x'\<rparr>)"
proof -
  have "compare_eip1559 M config (block\<lparr>rb_extra_data := x\<rparr>) = compare_eip1559 M config (block\<lparr>rb_extra_data := x'\<rparr>)"
    using assms by (simp add: fun_eq_iff compare_eip1559_def)
  then have "check_eip1559 M config attributes (block\<lparr>rb_extra_data := x\<rparr>) =
      check_eip1559 M config attributes (block\<lparr>rb_extra_data := x'\<rparr>)"
    by (cases "ml_decode_eip_1559_params M (oap_inner attributes)") (auto simp: check_eip1559_def Let_def)
  moreover have "check_block_transactions M txs (block\<lparr>rb_extra_data := y\<rparr>) = check_block_transactions M txs block"
    "check_withdrawals M config attributes (block\<lparr>rb_extra_data := y\<rparr>) = check_withdrawals M config attributes block" for txs y
    by (simp_all add: check_block_transactions_def check_withdrawals_def Let_def cong: if_cong block_transactions.case_cong)
  ultimately show ?thesis
    by (simp add: attributes_check_def Let_def cong: if_cong option.case_cong attributes_match.case_cong)
qed

lemma attributes_check_agrees:
  "attributes_check M config attributes block = Match \<longleftrightarrow>
   (let inner = oap_inner attributes; pa = opa_payload_attributes inner in
    rb_parent_hash block = bi_hash (l2_info (oap_parent attributes)) \<and>
    rb_timestamp block = pa_timestamp pa \<and> rb_mix_hash block = pa_prev_randao pa \<and>
    opa_gas_limit inner = Some (rb_gas_limit block) \<and>
    rb_parent_beacon_block_root block = pa_parent_beacon_block_root pa \<and>
    rb_beneficiary block = pa_suggested_fee_recipient pa \<and>
    same_transactions M (case opa_transactions inner of None \<Rightarrow> [] | Some txs \<Rightarrow> txs) (rb_transactions block) \<and>
    withdrawals_agree M config (pa_withdrawals pa) block \<and> params_agree M config inner block \<and>
    \<not> zero_elasticity M inner)"
proof -
  have "(case m of Mismatch e \<Rightarrow> Mismatch e | Match \<Rightarrow> r) = Match \<longleftrightarrow> m = Match \<and> r = Match" for m r
    by (cases m) simp_all
  moreover have "(case g of None \<Rightarrow> Mismatch MissingAttributesGasLimit
      | Some l \<Rightarrow> if l \<noteq> rb_gas_limit block then Mismatch (GasLimit l (rb_gas_limit block)) else r) = Match \<longleftrightarrow>
      g = Some (rb_gas_limit block) \<and> r = Match" for g r
    by (cases g) auto
  ultimately show ?thesis
    by (auto simp: attributes_check_def Let_def check_block_transactions_Match check_withdrawals_Match check_eip1559_Match)
qed

section \<open>Properties\<close>

text \<open>
  C31. Attributes match a block exactly when the block has the parent, timestamp, randomness, gas
  limit, beacon root and fee recipient the attributes ask for, its transactions are those the
  attributes encode, its withdrawals are those of its fork, its elasticity and denominator are
  those of the attributes, with zeroes for both standing for the Canyon constants, and the
  attributes do not ask for a zero elasticity with a denominator.  This is not all that the
  attributes describe.  The combination documented as invalid, a zero denominator with an
  elasticity, is never reported as such, so it matches a block with the same parameters.  Under
  Jovian the minimum base fee is not compared: two blocks that differ in it alone get the same
  answer.
\<close>

theorem attributes_check_Match:
  "(attributes_check M config attributes block = Match \<longleftrightarrow>
    (let inner = oap_inner attributes; pa = opa_payload_attributes inner in
     rb_parent_hash block = bi_hash (l2_info (oap_parent attributes)) \<and>
     rb_timestamp block = pa_timestamp pa \<and> rb_mix_hash block = pa_prev_randao pa \<and>
     opa_gas_limit inner = Some (rb_gas_limit block) \<and>
     rb_parent_beacon_block_root block = pa_parent_beacon_block_root pa \<and>
     rb_beneficiary block = pa_suggested_fee_recipient pa \<and>
     same_transactions M (case opa_transactions inner of None \<Rightarrow> [] | Some txs \<Rightarrow> txs) (rb_transactions block) \<and>
     withdrawals_agree M config (pa_withdrawals pa) block \<and> params_agree M config inner block \<and>
     \<not> zero_elasticity M inner)) \<and>
   (zero_denominator M (oap_inner attributes) \<longrightarrow>
     attributes_check M config attributes block \<noteq> Mismatch InvalidEIP1559ParamsCombination) \<and>
   (\<forall>x x' e d m m'. is_jovian_active config (rb_timestamp block) \<and>
      ml_decode_jovian_extra_data M x = Inr (e, d, m) \<and> ml_decode_jovian_extra_data M x' = Inr (e, d, m') \<longrightarrow>
      attributes_check M config attributes (block\<lparr>rb_extra_data := x\<rparr>) =
      attributes_check M config attributes (block\<lparr>rb_extra_data := x'\<rparr>))"
proof (intro conjI impI allI; (elim conjE)?)
  assume "zero_denominator M (oap_inner attributes)"
  then have "\<not> zero_elasticity M (oap_inner attributes)"
    by (auto simp: zero_denominator_def zero_elasticity_def)
  then show "attributes_check M config attributes block \<noteq> Mismatch InvalidEIP1559ParamsCombination"
    using attributes_check_combination by blast
qed (rule attributes_check_agrees, rule attributes_check_extra_data)

text \<open>
  A Jovian block with a zero denominator that matches, and still does with another minimum base fee.
\<close>

definition jovian_config :: rollup_config where
  "jovian_config = example_config\<lparr>rc_hardforks := (rc_hardforks example_config)
     \<lparr>canyon_time := Some 0, holocene_time := Some 0, isthmus_time := Some 0, jovian_time := Some 0\<rparr>\<rparr>"

definition jovian_lib :: match_lib where
  "jovian_lib = \<lparr>ml_decode_2718 = (\<lambda>_. None), ml_tx_hash = (\<lambda>_. 0),
     ml_decode_eip_1559_params = (\<lambda>a. map_option (\<lambda>p. (ucast p, ucast (drop_bit 32 p))) (opa_eip_1559_params a)),
     ml_decode_jovian_extra_data = (\<lambda>x. case x of [d, e, m] \<Rightarrow> Inr (ucast e, ucast d, ucast m) | _ \<Rightarrow> Inl NoEIP1559Params),
     ml_decode_holocene_extra_data = (\<lambda>_. Inl NoEIP1559Params), ml_empty_root_hash = 5\<rparr>"

definition jovian_attributes :: op_attributes_with_parent where
  "jovian_attributes = \<lparr>oap_inner =
     \<lparr>opa_payload_attributes = \<lparr>pa_timestamp = 64, pa_prev_randao = 9, pa_suggested_fee_recipient = 3,
        pa_withdrawals = Some [], pa_parent_beacon_block_root = Some 4\<rparr>,
      opa_transactions = Some [], opa_no_tx_pool = None, opa_gas_limit = Some 30, opa_eip_1559_params = Some 6,
      opa_min_base_fee = Some 1\<rparr>,
     oap_parent = example_head, oap_derived_from = None, oap_is_last_in_span = False\<rparr>"

definition jovian_block :: rpc_block where
  "jovian_block = \<lparr>rb_hash = 40, rb_number = 31, rb_parent_hash = 31, rb_timestamp = 64, rb_mix_hash = 9,
     rb_gas_limit = 30, rb_beneficiary = 3, rb_extra_data = [0, 6, 1], rb_withdrawals_root = Some 8,
     rb_parent_beacon_block_root = Some 4, rb_withdrawals = Some [], rb_transactions = Full []\<rparr>"

theorem attributes_check_Match_witness:
  "zero_denominator jovian_lib (oap_inner jovian_attributes) \<and>
   attributes_check jovian_lib jovian_config jovian_attributes jovian_block = Match \<and>
   attributes_check jovian_lib jovian_config jovian_attributes (jovian_block\<lparr>rb_extra_data := [0, 6, 2]\<rparr>) = Match"
proof -
  let ?check = "attributes_check jovian_lib jovian_config jovian_attributes"
  have forks: "is_jovian_active jovian_config t" "is_isthmus_active jovian_config t" "is_canyon_active jovian_config t" for t
    by (simp_all add: jovian_config_def cfg_defs reached_def)
  note ex = jovian_lib_def jovian_attributes_def
  have zero: "zero_denominator jovian_lib (oap_inner jovian_attributes)"
    by (simp add: zero_denominator_def ex)
  have same: "jovian_block\<lparr>rb_extra_data := [0, 6, 1]\<rparr> = jovian_block" by (simp add: jovian_block_def)
  have jovian: "is_jovian_active jovian_config (rb_timestamp jovian_block)" by (rule forks)
  note spec = attributes_check_Match [of jovian_lib jovian_config jovian_attributes jovian_block]
  have "?check jovian_block = Match"
    by (subst spec [THEN conjunct1])
      (simp add: Let_def same_transactions_def withdrawals_agree_def params_agree_def wanted_params_def block_params_def
        zero_elasticity_def forks ex jovian_block_def example_head_def)
  moreover have "?check (jovian_block\<lparr>rb_extra_data := [0, 6, 1]\<rparr>) = ?check (jovian_block\<lparr>rb_extra_data := [0, 6, 2]\<rparr>)"
    using spec [THEN conjunct2, THEN conjunct2, rule_format, of "[0, 6, 1]" 6 0 1 "[0, 6, 2]" 2] jovian by (simp add: ex)
  ultimately show ?thesis using zero same by simp
qed

end
