(* ===== verification/Sync_Start.thy ===== *)
theory Sync_Start
  imports L2_Blocks Consolidation
begin

text \<open>
  The sync start of the node, \<^verbatim>\<open>crates/node/sources/src/sync\<close>: where to start deriving from after a
  reset.  From the unsafe head of the execution layer it walks back to a block whose L1 origin the
  L1 node knows, and from there to a block that is out of the sequencing window, finalized or the
  genesis.

  The two RPC providers and the conversion of an RPC block are a parameter, the record
  \<open>rpc_client\<close>.  The walks may not end on a provider that keeps answering with blocks that are
  no ancestors: they are partial.

  Shown: on a provider that serves a chain of L2 blocks the search returns, and its result is the
  highest suitable block at each step.
\<close>

section \<open>Providers\<close>

datatype block_id = ByHash b256 | ByNumber u64 | Finalized | Safe | Latest

record rpc_error =
  re_code :: "int option"
  re_display :: string

record 'e rpc_client =
  cl_l1_get_block :: "'e \<Rightarrow> block_id \<Rightarrow> 'e \<times> (rpc_error + block_info option)"
  cl_l2_get_block :: "'e \<Rightarrow> block_id \<Rightarrow> 'e \<times> (rpc_error + rpc_block option)"
  cl_into_consensus :: "rpc_block \<Rightarrow> op_block"

datatype sync_start_error = RpcError rpc_error | FromBlock from_block_error | BlockNotFound block_id
  | InvalidL1GenesisHash b256 b256 | InvalidL2GenesisHash b256 b256 | MismatchedFinalizedBlock b256 b256
  | L1OriginMismatch | NonZeroSequenceNumber | InconsistentSequenceNumber

definition sbind :: "'s \<times> ('x + 'a) \<Rightarrow> ('s \<Rightarrow> 'a \<Rightarrow> 's \<times> ('x + 'b)) \<Rightarrow> 's \<times> ('x + 'b)" where
  "sbind r k = (case r of (s, Inr a) \<Rightarrow> k s a | (s, Inl e) \<Rightarrow> (s, Inl e))"

lemma sbind_simps [simp]: "sbind (s, Inr a) k = k s a" "sbind (s, Inl e) k = (s, Inl e)"
  by (simp_all add: sbind_def)

section \<open>The current forkchoice\<close>

record l2_forkchoice_state =
  fcs_un_safe :: l2_block_info
  fcs_safe :: l2_block_info
  fcs_finalized :: l2_block_info

text \<open>\<^verbatim>\<open>str::contains\<close>.\<close>

fun starts_with :: "string \<Rightarrow> string \<Rightarrow> bool" where
  "starts_with [] s = True"
| "starts_with (p # ps) (c # cs) = (p = c \<and> starts_with ps cs)"
| "starts_with (p # ps) [] = False"

fun contains :: "string \<Rightarrow> string \<Rightarrow> bool" where
  "contains p [] = (p = [])"
| "contains p (c # cs) = (starts_with p (c # cs) \<or> contains p cs)"

definition get_block_compat :: "'e rpc_client \<Rightarrow> 'e \<Rightarrow> block_id \<Rightarrow> 'e \<times> (rpc_error + rpc_block option)" where
  "get_block_compat C e bid =
     (case cl_l2_get_block C e bid of
        (e, Inl err) \<Rightarrow>
          (e, if contains ''block not found'' (re_display err) \<or> contains ''Unknown block'' (re_display err)
              then Inr None else Inl err)
      | r \<Rightarrow> r)"

definition block_to_info :: "'e rpc_client \<Rightarrow> rollup_config \<Rightarrow> rpc_block \<Rightarrow> sync_start_error + l2_block_info" where
  "block_to_info C cfg block =
     (case from_block_and_genesis (cl_into_consensus C block) (rc_genesis cfg) of
        Inl err \<Rightarrow> Inl (FromBlock err) | Inr info \<Rightarrow> Inr info)"

definition fetch_l2 :: "'e rpc_client \<Rightarrow> 'e \<Rightarrow> block_id \<Rightarrow> 'e \<times> (sync_start_error + rpc_block)" where
  "fetch_l2 C e bid =
     (case cl_l2_get_block C e bid of
        (e, Inl err) \<Rightarrow> (e, Inl (RpcError err))
      | (e, Inr None) \<Rightarrow> (e, Inl (BlockNotFound bid))
      | (e, Inr (Some block)) \<Rightarrow> (e, Inr block))"

definition current_finalized :: "'e rpc_client \<Rightarrow> rollup_config \<Rightarrow> 'e \<Rightarrow> 'e \<times> (sync_start_error + l2_block_info)" where
  "current_finalized C cfg e =
     sbind (case get_block_compat C e Finalized of
              (e, Inr (Some block)) \<Rightarrow> (e, Inr block)
            | (e, Inr None) \<Rightarrow> fetch_l2 C e (ByNumber (bnh_number (cg_l2 (rc_genesis cfg))))
            | (e, Inl err) \<Rightarrow> (e, Inl (RpcError err)))
       (\<lambda>e rpc_block. (e, block_to_info C cfg rpc_block))"

definition forkchoice_current ::
    "'e rpc_client \<Rightarrow> rollup_config \<Rightarrow> 'e \<Rightarrow> 'e \<times> (sync_start_error + l2_forkchoice_state)" where
  "forkchoice_current C cfg e =
     sbind (current_finalized C cfg e) (\<lambda>e finalized.
     sbind (case get_block_compat C e Safe of
              (e, Inr (Some block)) \<Rightarrow> (e, block_to_info C cfg block)
            | (e, Inr None) \<Rightarrow> (e, Inr finalized)
            | (e, Inl err) \<Rightarrow> (e, Inl (RpcError err))) (\<lambda>e safe.
     sbind (case get_block_compat C e Latest of
              (e, Inr (Some block)) \<Rightarrow> (e, block_to_info C cfg block)
            | (e, Inr None) \<Rightarrow> (e, Inl (BlockNotFound Latest))
            | (e, Inl err) \<Rightarrow> (e, Inl (RpcError err))) (\<lambda>e un_safe.
       (e, Inr \<lparr>fcs_un_safe = un_safe, fcs_safe = safe, fcs_finalized = finalized\<rparr>))))"

section \<open>The search\<close>

definition fetch_parent ::
    "'e rpc_client \<Rightarrow> rollup_config \<Rightarrow> 'e \<Rightarrow> l2_block_info \<Rightarrow> 'e \<times> (sync_start_error + l2_block_info)" where
  "fetch_parent C cfg e b =
     sbind (fetch_l2 C e (ByHash (bi_parent_hash (l2_info b)))) (\<lambda>e block. (e, block_to_info C cfg block))"

partial_function (option) search_unsafe ::
    "'e rpc_client \<Rightarrow> rollup_config \<Rightarrow> 'e \<Rightarrow> l2_block_info \<Rightarrow> ('e \<times> (sync_start_error + l2_block_info)) option" where
  "search_unsafe C cfg e un_safe =
     (case cl_l1_get_block C e (ByHash (bnh_hash (l2_l1_origin un_safe))) of
        (e, Inl err) \<Rightarrow> Some (e, Inl (RpcError err))
      | (e, Inr (Some _)) \<Rightarrow> Some (e, Inr un_safe)
      | (e, Inr None) \<Rightarrow>
          (case fetch_parent C cfg e un_safe of
             (e, Inl err) \<Rightarrow> Some (e, Inl err)
           | (e, Inr parent) \<Rightarrow> search_unsafe C cfg e parent))"

definition safe_stop :: "rollup_config \<Rightarrow> l2_forkchoice_state \<Rightarrow> l2_block_info \<Rightarrow> bool" where
  "safe_stop cfg fc safe_cursor =
     (let is_behind_sequence_window =
            saturating_sub (bnh_number (l2_l1_origin (fcs_un_safe fc))) (rc_seq_window_size cfg) >
              bnh_number (l2_l1_origin safe_cursor);
          is_finalized = (bi_hash (l2_info safe_cursor) = bi_hash (l2_info (fcs_finalized fc)));
          is_genesis = (bi_hash (l2_info safe_cursor) = bnh_hash (cg_l2 (rc_genesis cfg)))
      in is_behind_sequence_window \<or> is_finalized \<or> is_genesis)"

partial_function (option) search_safe ::
    "'e rpc_client \<Rightarrow> rollup_config \<Rightarrow> l2_forkchoice_state \<Rightarrow> 'e \<Rightarrow> l2_block_info \<Rightarrow>
     ('e \<times> (sync_start_error + l2_block_info)) option" where
  "search_safe C cfg fc e safe_cursor =
     (if safe_stop cfg fc safe_cursor then Some (e, Inr safe_cursor)
      else case fetch_parent C cfg e safe_cursor of
             (e, Inl err) \<Rightarrow> Some (e, Inl err)
           | (e, Inr parent) \<Rightarrow> search_safe C cfg fc e parent)"

definition find_starting_forkchoice ::
    "'e rpc_client \<Rightarrow> rollup_config \<Rightarrow> 'e \<Rightarrow> ('e \<times> (sync_start_error + l2_forkchoice_state)) option" where
  "find_starting_forkchoice C cfg e =
     (case forkchoice_current C cfg e of
        (e, Inl err) \<Rightarrow> Some (e, Inl err)
      | (e, Inr fc) \<Rightarrow>
          Option.bind (search_unsafe C cfg e (fcs_un_safe fc)) (\<lambda>(e, r).
            case r of
              Inl err \<Rightarrow> Some (e, Inl err)
            | Inr un_safe \<Rightarrow>
                let fc = fc\<lparr>fcs_un_safe := un_safe\<rparr> in
                Option.bind (search_safe C cfg fc e un_safe) (\<lambda>(e, r).
                  case r of
                    Inl err \<Rightarrow> Some (e, Inl err)
                  | Inr safe \<Rightarrow> Some (e, Inr (fc\<lparr>fcs_safe := safe\<rparr>)))))"

section \<open>Searching a chain\<close>

text \<open>The provider serves a chain, newest block first, whatever its state.\<close>

fun serves_chain :: "'e rpc_client \<Rightarrow> rollup_config \<Rightarrow> l2_block_info list \<Rightarrow> bool" where
  "serves_chain C cfg (b # p # bs) \<longleftrightarrow>
     (\<forall>e. \<exists>e'. fetch_parent C cfg e b = (e', Inr p)) \<and> serves_chain C cfg (p # bs)"
| "serves_chain C cfg _ \<longleftrightarrow> True"

definition knows_l1 :: "'e rpc_client \<Rightarrow> (b256 \<Rightarrow> bool) \<Rightarrow> bool" where
  "knows_l1 C known \<longleftrightarrow>
     (\<forall>e h. \<exists>e' b. cl_l1_get_block C e (ByHash h) = (e', Inr b) \<and> (b \<noteq> None \<longleftrightarrow> known h))"

lemma search_unsafe_finds:
  assumes "serves_chain C cfg (b # bs)" "knows_l1 C known"
    "dropWhile (\<lambda>b. \<not> known (bnh_hash (l2_l1_origin b))) (b # bs) = u # us"
  shows "\<exists>e'. search_unsafe C cfg e b = Some (e', Inr u)"
  using assms
proof (induction bs arbitrary: b e)
  case Nil
  obtain e' x where l1: "cl_l1_get_block C e (ByHash (bnh_hash (l2_l1_origin b))) = (e', Inr x)"
      "x \<noteq> None \<longleftrightarrow> known (bnh_hash (l2_l1_origin b))"
    using Nil.prems(2) unfolding knows_l1_def by blast
  with Nil.prems(3) show ?case by (subst search_unsafe.simps) (auto split: if_splits)
next
  case (Cons p bs)
  obtain e' x where l1: "cl_l1_get_block C e (ByHash (bnh_hash (l2_l1_origin b))) = (e', Inr x)"
      "x \<noteq> None \<longleftrightarrow> known (bnh_hash (l2_l1_origin b))"
    using Cons.prems(2) unfolding knows_l1_def by blast
  obtain e2 where p: "fetch_parent C cfg e' b = (e2, Inr p)"
    using Cons.prems(1) by auto
  show ?case
  proof (cases "known (bnh_hash (l2_l1_origin b))")
    case True
    with l1 Cons.prems(3) show ?thesis by (subst search_unsafe.simps) auto
  next
    case False
    with Cons.prems obtain e3 where "search_unsafe C cfg e2 p = Some (e3, Inr u)"
      using Cons.IH [of p e2] by auto
    with False l1 p show ?thesis by (subst search_unsafe.simps) auto
  qed
qed

lemma search_safe_finds:
  assumes "serves_chain C cfg (b # bs)" "dropWhile (\<lambda>b. \<not> safe_stop cfg fc b) (b # bs) = s # ss"
  shows "\<exists>e'. search_safe C cfg fc e b = Some (e', Inr s)"
  using assms
proof (induction bs arbitrary: b e)
  case Nil
  then show ?case by (subst search_safe.simps) (auto split: if_splits)
next
  case (Cons p bs)
  obtain e2 where p: "fetch_parent C cfg e b = (e2, Inr p)"
    using Cons.prems(1) by auto
  show ?case
  proof (cases "safe_stop cfg fc b")
    case True
    with Cons.prems(2) show ?thesis by (subst search_safe.simps) auto
  next
    case False
    with Cons.prems obtain e3 where "search_safe C cfg fc e2 p = Some (e3, Inr s)"
      using Cons.IH [of p e2] by auto
    with False p show ?thesis by (subst search_safe.simps) auto
  qed
qed

lemma serves_chain_dropWhile: "serves_chain C cfg bs \<Longrightarrow> dropWhile P bs = cs \<Longrightarrow> serves_chain C cfg cs"
  by (induction C cfg bs arbitrary: cs rule: serves_chain.induct) (auto split: if_splits)

text \<open>
  C32. On a provider that serves the chain of the unsafe head, sync start returns: the unsafe head
  becomes the highest block of the chain whose L1 origin the L1 node knows, the safe head the
  highest block from there down that is behind the sequencing window, finalized or the genesis,
  and the finalized head stays.
\<close>

theorem find_starting_forkchoice_highest:
  assumes "forkchoice_current C cfg e = (e1, Inr fc)" "chain = fcs_un_safe fc # rest"
    and "serves_chain C cfg chain" "knows_l1 C known"
    and "dropWhile (\<lambda>b. \<not> known (bnh_hash (l2_l1_origin b))) chain = u # us"
    and "dropWhile (\<lambda>b. \<not> safe_stop cfg (fc\<lparr>fcs_un_safe := u\<rparr>) b) (u # us) = s # ss"
  shows "\<exists>e'. find_starting_forkchoice C cfg e =
    Some (e', Inr \<lparr>fcs_un_safe = u, fcs_safe = s, fcs_finalized = fcs_finalized fc\<rparr>)"
proof -
  obtain e2 where u: "search_unsafe C cfg e1 (fcs_un_safe fc) = Some (e2, Inr u)"
    using search_unsafe_finds [of C cfg "fcs_un_safe fc" rest known u us e1] assms(2-5) by blast
  have "serves_chain C cfg (u # us)" using assms(3,5) by (rule serves_chain_dropWhile)
  then obtain e3 where s: "search_safe C cfg (fc\<lparr>fcs_un_safe := u\<rparr>) e2 u = Some (e3, Inr s)"
    using search_safe_finds [OF _ assms(6), of C e2] by blast
  show ?thesis by (simp add: find_starting_forkchoice_def assms(1) u s)
qed

definition example_into_consensus :: "rpc_block \<Rightarrow> op_block" where
  "example_into_consensus b =
     \<lparr>ob_number = rb_number b, ob_hash = rb_hash b, ob_parent_hash = rb_parent_hash b, ob_timestamp = rb_timestamp b,
      ob_gas_limit = rb_gas_limit b, ob_extra_data = rb_extra_data b,
      ob_transactions = (case rb_transactions b of Full txs \<Rightarrow> txs | _ \<Rightarrow> [])\<rparr>"

definition example_rpc_block :: "u64 \<Rightarrow> b256 \<Rightarrow> b256 \<Rightarrow> op_tx list \<Rightarrow> rpc_block" where
  "example_rpc_block number h parent_hash txs =
     \<lparr>rb_hash = h, rb_number = number, rb_parent_hash = parent_hash, rb_timestamp = 61, rb_mix_hash = 0, rb_gas_limit = 0,
      rb_beneficiary = 0, rb_extra_data = [], rb_withdrawals_root = None, rb_parent_beacon_block_root = None,
      rb_withdrawals = None, rb_transactions = Full txs\<rparr>"

text \<open>An execution layer with a block 31 on the genesis, and an L1 node that knows the origin of the genesis only.\<close>

definition example_rpc_client :: "bytes \<Rightarrow> unit rpc_client" where
  "example_rpc_client input =
     (let g = rc_genesis example_config;
          genesis = example_rpc_block (bnh_number (cg_l2 g)) (bnh_hash (cg_l2 g)) 0 [];
          latest = example_rpc_block 31 505 404 [Deposit input []] in
      \<lparr>cl_l1_get_block = (\<lambda>e bid. (e, Inr (if bid = ByHash (bnh_hash (cg_l1 g)) then Some default_block_info else None))),
       cl_l2_get_block = (\<lambda>e bid. (e, Inr (Some (if bid = Latest then latest else genesis)))),
       cl_into_consensus = example_into_consensus\<rparr>)"

lemma example_rpc_client_chain:
  fixes u g :: l2_block_info
  assumes "l1_info_decode_calldata input = Inr i" "l1_info_id i = \<lparr>bnh_number = 9, bnh_hash = 111\<rparr>" "l1_info_sequence_number i = 3"
    and u: "u = \<lparr>l2_info = \<lparr>bi_hash = 505, bi_number = 31, bi_parent_hash = 404, bi_timestamp = 61\<rparr>,
       l2_l1_origin = \<lparr>bnh_number = 9, bnh_hash = 111\<rparr>, l2_seq_num = 3\<rparr>"
    and g: "g = \<lparr>l2_info = \<lparr>bi_hash = bnh_hash (cg_l2 (rc_genesis example_config)), bi_number = bnh_number (cg_l2 (rc_genesis example_config)),
         bi_parent_hash = 0, bi_timestamp = 61\<rparr>,
       l2_l1_origin = cg_l1 (rc_genesis example_config), l2_seq_num = 0\<rparr>"
  shows "forkchoice_current (example_rpc_client input) example_config () =
      ((), Inr \<lparr>fcs_un_safe = u, fcs_safe = g, fcs_finalized = g\<rparr>)"
    "serves_chain (example_rpc_client input) example_config [u, g]"
    "knows_l1 (example_rpc_client input) (\<lambda>h. h = bnh_hash (cg_l1 (rc_genesis example_config)))"
proof -
  have n: "(31 :: u64) \<noteq> bnh_number (cg_l2 (rc_genesis example_config))"
    by (simp add: example_config_defs)
  note defs = example_rpc_client_def Let_def get_block_compat_def block_to_info_def fetch_l2_def fetch_parent_def
    from_block_and_genesis_def block_info_from_def example_into_consensus_def example_rpc_block_def
  show "forkchoice_current (example_rpc_client input) example_config () =
      ((), Inr \<lparr>fcs_un_safe = u, fcs_safe = g, fcs_finalized = g\<rparr>)"
    using assms n by (simp add: forkchoice_current_def current_finalized_def defs)
  show "serves_chain (example_rpc_client input) example_config [u, g]"
    using assms n by (simp add: defs)
  show "knows_l1 (example_rpc_client input) (\<lambda>h. h = bnh_hash (cg_l1 (rc_genesis example_config)))"
    by (simp add: knows_l1_def defs)
qed

theorem find_starting_forkchoice_highest_witness:
  "\<exists>input. \<exists>fc. find_starting_forkchoice (example_rpc_client input) example_config () = Some ((), Inr fc) \<and>
     l2_l1_origin (fcs_un_safe fc) = cg_l1 (rc_genesis example_config) \<and> fcs_safe fc = fcs_un_safe fc"
proof -
  let ?h = "\<lparr>lh_number = 9, lh_timestamp = 50, lh_base_fee_per_gas = Some 7, lh_hash = 111\<rparr> :: l1_header"
  obtain i tx where "try_new_with_deposit_tx (\<lambda>_ _. 0) \<lparr>bl_osaka = (), bl_prague = (), bl_cancun = (), bl_blob_fee = \<lambda>_ _. None\<rparr>
      example_config \<lparr>lc_active_scheduled_params = \<lambda>_. None, lc_osaka_time = None, lc_prague_time = None\<rparr>
      default_system_config 3 ?h 61 = Inr (i, tx)" and i: "l1_info_decode_calldata (dt_input tx) = Inr i"
      "l1_info_id i = \<lparr>bnh_number = lh_number ?h, bnh_hash = lh_hash ?h\<rparr>" "l1_info_sequence_number i = 3"
    by (rule try_new_with_deposit_tx_carried)
  from i have tx: "l1_info_decode_calldata (dt_input tx) = Inr i" "l1_info_id i = \<lparr>bnh_number = 9, bnh_hash = 111\<rparr>"
      "l1_info_sequence_number i = 3"
    by simp_all
  note c = example_rpc_client_chain [OF tx refl refl]
  have k: "bnh_hash (cg_l1 (rc_genesis example_config)) \<noteq> 111" by (simp add: example_config_defs)
  show ?thesis
    using find_starting_forkchoice_highest [OF c(1) _ c(2,3)] k by (fastforce simp: safe_stop_def)
qed

end
