(* ===== verification/Engine.thy ===== *)
theory Engine
  imports Sync_Start "HOL-Library.Multiset"
begin

text \<open>
  The engine controller of the node, \<^verbatim>\<open>crates/node/engine/src\<close>: the state of the heads
  (\<^verbatim>\<open>state/core.rs\<close>), the tasks that change it by calls to the execution layer
  (\<^verbatim>\<open>task_queue/tasks/*\<close>) and the priority queue of tasks (\<^verbatim>\<open>task_queue/core.rs\<close>).

  The engine API is a parameter, the record \<open>engine_client\<close>, whose state is threaded through.  The
  clock and the channel a built payload is sent to belong to it as well; sleeping has no effect.
  Results are \<open>Good\<close>, \<open>Bad\<close> with the task's error, or \<open>Panic\<close>.  Loops that repeat a call until it
  succeeds are partial, and so is the repeated build with deposits only.

  Which of several tasks of one priority a \<^verbatim>\<open>BinaryHeap\<close> gives first is not specified by the
  standard library, so the choice is a parameter.

  Shown: which heads each task may change; the finalized head never gets ahead of the unsafe
  head; the queue is drained by priority.
\<close>

section \<open>The state\<close>

record engine_sync_state =
  ess_unsafe_head :: l2_block_info
  ess_cross_unsafe_head :: l2_block_info
  ess_local_safe_head :: l2_block_info
  ess_safe_head :: l2_block_info
  ess_finalized_head :: l2_block_info

record engine_sync_state_update =
  esu_unsafe_head :: "l2_block_info option"
  esu_cross_unsafe_head :: "l2_block_info option"
  esu_local_safe_head :: "l2_block_info option"
  esu_safe_head :: "l2_block_info option"
  esu_finalized_head :: "l2_block_info option"

definition default_l2_block_info :: l2_block_info where
  "default_l2_block_info = \<lparr>l2_info = default_block_info, l2_l1_origin = default_block_num_hash, l2_seq_num = 0\<rparr>"

definition default_sync_state :: engine_sync_state where
  "default_sync_state =
     \<lparr>ess_unsafe_head = default_l2_block_info, ess_cross_unsafe_head = default_l2_block_info,
      ess_local_safe_head = default_l2_block_info, ess_safe_head = default_l2_block_info,
      ess_finalized_head = default_l2_block_info\<rparr>"

definition no_update :: engine_sync_state_update where
  "no_update =
     \<lparr>esu_unsafe_head = None, esu_cross_unsafe_head = None, esu_local_safe_head = None, esu_safe_head = None,
      esu_finalized_head = None\<rparr>"

definition apply_update :: "engine_sync_state \<Rightarrow> engine_sync_state_update \<Rightarrow> engine_sync_state" where
  "apply_update s u =
     \<lparr>ess_unsafe_head = unwrap_or (esu_unsafe_head u) (ess_unsafe_head s),
      ess_cross_unsafe_head = unwrap_or (esu_cross_unsafe_head u) (ess_cross_unsafe_head s),
      ess_local_safe_head = unwrap_or (esu_local_safe_head u) (ess_local_safe_head s),
      ess_safe_head = unwrap_or (esu_safe_head u) (ess_safe_head s),
      ess_finalized_head = unwrap_or (esu_finalized_head u) (ess_finalized_head s)\<rparr>"

record forkchoice_state =
  fc_head_block_hash :: b256
  fc_safe_block_hash :: b256
  fc_finalized_block_hash :: b256

definition create_forkchoice_state :: "engine_sync_state \<Rightarrow> forkchoice_state" where
  "create_forkchoice_state s =
     \<lparr>fc_head_block_hash = bi_hash (l2_info (ess_unsafe_head s)), fc_safe_block_hash = bi_hash (l2_info (ess_safe_head s)),
      fc_finalized_block_hash = bi_hash (l2_info (ess_finalized_head s))\<rparr>"

record engine_state =
  es_sync_state :: engine_sync_state
  es_el_sync_finished :: bool
  es_need_fcu_call_backup_unsafe_reorg :: bool

definition needs_consolidation :: "engine_state \<Rightarrow> bool" where
  "needs_consolidation s \<longleftrightarrow> ess_safe_head (es_sync_state s) \<noteq> ess_unsafe_head (es_sync_state s)"

section \<open>The execution layer\<close>

datatype payload_status = Valid | Invalid string | Syncing | Accepted

definition INVALID_FORK_CHOICE_STATE_ERROR :: int where "INVALID_FORK_CHOICE_STATE_ERROR = - 38002"

record 'p payload_envelope =
  env_parent_beacon_block_root :: "b256 option"
  env_execution_payload :: 'p

record ('e, 'p) engine_client = "'e rpc_client" +
  ec_cfg :: rollup_config
  ec_fork_choice_updated_v2 :: "'e \<Rightarrow> forkchoice_state \<Rightarrow> op_payload_attributes option \<Rightarrow>
    'e \<times> (rpc_error + payload_status \<times> u64 option)"
  ec_fork_choice_updated_v3 :: "'e \<Rightarrow> forkchoice_state \<Rightarrow> op_payload_attributes option \<Rightarrow>
    'e \<times> (rpc_error + payload_status \<times> u64 option)"
  ec_new_payload_v1 :: "'e \<Rightarrow> 'p \<Rightarrow> 'e \<times> (rpc_error + payload_status)"
  ec_new_payload_v2 :: "'e \<Rightarrow> 'p \<Rightarrow> 'e \<times> (rpc_error + payload_status)"
  ec_new_payload_v3 :: "'e \<Rightarrow> 'p \<Rightarrow> b256 \<Rightarrow> 'e \<times> (rpc_error + payload_status)"
  ec_new_payload_v4 :: "'e \<Rightarrow> 'p \<Rightarrow> b256 \<Rightarrow> 'e \<times> (rpc_error + payload_status)"
  ec_get_payload_v2 :: "'e \<Rightarrow> u64 \<Rightarrow> 'e \<times> (rpc_error + 'p)"
  ec_get_payload_v3 :: "'e \<Rightarrow> u64 \<Rightarrow> 'e \<times> (rpc_error + b256 \<times> 'p)"
  ec_get_payload_v4 :: "'e \<Rightarrow> u64 \<Rightarrow> 'e \<times> (rpc_error + b256 \<times> 'p)"
  ec_now :: "'e \<Rightarrow> 'e \<times> u64 option"
  ec_send :: "'e \<Rightarrow> 'p payload_envelope \<Rightarrow> 'e \<times> bool"
  ec_payload :: "'p payload_lib"
  ec_match :: match_lib

text \<open>\<^verbatim>\<open>versions.rs\<close>.\<close>

datatype engine_version = EV2 | EV3 | EV4

definition forkchoice_version :: "rollup_config \<Rightarrow> u64 \<Rightarrow> engine_version" where
  "forkchoice_version cfg timestamp = (if is_ecotone_active cfg timestamp then EV3 else EV2)"

definition new_payload_version :: "rollup_config \<Rightarrow> u64 \<Rightarrow> engine_version" where
  "new_payload_version cfg timestamp =
     (if is_isthmus_active cfg timestamp then EV4 else if is_ecotone_active cfg timestamp then EV3 else EV2)"

definition get_payload_version :: "rollup_config \<Rightarrow> u64 \<Rightarrow> engine_version" where
  "get_payload_version cfg timestamp =
     (if is_isthmus_active cfg timestamp then EV4 else if is_ecotone_active cfg timestamp then EV3 else EV2)"

section \<open>Errors and their severity\<close>

datatype task_severity = Temporary | Critical | Reset | Flush

datatype synchronize_error = ForkchoiceUpdateFailed rpc_error | FinalizedAheadOfUnsafe u64 u64
  | InvalidForkchoiceState | UnexpectedPayloadStatus payload_status

fun synchronize_severity :: "synchronize_error \<Rightarrow> task_severity" where
  "synchronize_severity (FinalizedAheadOfUnsafe _ _) = Critical"
| "synchronize_severity (ForkchoiceUpdateFailed _) = Temporary"
| "synchronize_severity (UnexpectedPayloadStatus _) = Temporary"
| "synchronize_severity InvalidForkchoiceState = Reset"

datatype insert_error = FromBlockError string | InsertFailed rpc_error | UnexpectedPayloadStatus payload_status
  | InconsistentForkchoiceState | L2BlockInfoConstruction from_block_error | ForkchoiceUpdateFailed synchronize_error

fun insert_severity :: "insert_error \<Rightarrow> task_severity" where
  "insert_severity (FromBlockError _) = Critical"
| "insert_severity (InsertFailed _) = Temporary"
| "insert_severity (insert_error.UnexpectedPayloadStatus _) = Temporary"
| "insert_severity (L2BlockInfoConstruction _) = Critical"
| "insert_severity InconsistentForkchoiceState = Reset"
| "insert_severity (insert_error.ForkchoiceUpdateFailed inner) = synchronize_severity inner"

datatype engine_build_error = FinalizedAheadOfUnsafe u64 u64 | AttributesInsertionFailed rpc_error
  | InvalidPayload string | UnexpectedPayloadStatus payload_status | MissingPayloadId | EngineSyncing

datatype build_error = EngineBuildError engine_build_error | ForkchoiceUpdateFailed synchronize_error
  | PayloadInsertionFailed insert_error | GetPayloadFailed rpc_error | DepositOnlyPayloadFailed
  | DepositOnlyPayloadReattemptFailed | HoloceneInvalidFlush | FromBlock from_block_error | MpscSend
  | ClockWentBackwards

fun build_severity :: "build_error \<Rightarrow> task_severity" where
  "build_severity (build_error.ForkchoiceUpdateFailed inner) = synchronize_severity inner"
| "build_severity (PayloadInsertionFailed inner) = insert_severity inner"
| "build_severity (EngineBuildError (engine_build_error.FinalizedAheadOfUnsafe _ _)) = Critical"
| "build_severity (EngineBuildError (AttributesInsertionFailed _)) = Temporary"
| "build_severity (EngineBuildError (InvalidPayload _)) = Temporary"
| "build_severity (EngineBuildError (engine_build_error.UnexpectedPayloadStatus _)) = Temporary"
| "build_severity (EngineBuildError MissingPayloadId) = Temporary"
| "build_severity (EngineBuildError EngineSyncing) = Temporary"
| "build_severity (GetPayloadFailed _) = Temporary"
| "build_severity HoloceneInvalidFlush = Flush"
| "build_severity DepositOnlyPayloadReattemptFailed = Critical"
| "build_severity DepositOnlyPayloadFailed = Critical"
| "build_severity (build_error.FromBlock _) = Critical"
| "build_severity MpscSend = Critical"
| "build_severity ClockWentBackwards = Critical"

datatype consolidate_error = MissingUnsafeL2Block u64 | FailedToFetchUnsafeL2Block | BuildTaskFailed build_error
  | ForkchoiceUpdateFailed synchronize_error

fun consolidate_severity :: "consolidate_error \<Rightarrow> task_severity" where
  "consolidate_severity (MissingUnsafeL2Block _) = Reset"
| "consolidate_severity FailedToFetchUnsafeL2Block = Temporary"
| "consolidate_severity (BuildTaskFailed inner) = build_severity inner"
| "consolidate_severity (consolidate_error.ForkchoiceUpdateFailed inner) = synchronize_severity inner"

datatype finalize_error = BlockNotSafe | BlockNotFound u64 | FromBlock from_block_error | TransportError rpc_error
  | ForkchoiceUpdateFailed synchronize_error

fun finalize_severity :: "finalize_error \<Rightarrow> task_severity" where
  "finalize_severity BlockNotSafe = Critical"
| "finalize_severity (finalize_error.BlockNotFound _) = Critical"
| "finalize_severity (finalize_error.FromBlock _) = Critical"
| "finalize_severity (TransportError _) = Temporary"
| "finalize_severity (finalize_error.ForkchoiceUpdateFailed inner) = synchronize_severity inner"

datatype task_error = InsertError insert_error | BuildError build_error | ConsolidateError consolidate_error
  | FinalizeError finalize_error

fun severity :: "task_error \<Rightarrow> task_severity" where
  "severity (InsertError inner) = insert_severity inner"
| "severity (BuildError inner) = build_severity inner"
| "severity (ConsolidateError inner) = consolidate_severity inner"
| "severity (FinalizeError inner) = finalize_severity inner"

section \<open>Tasks\<close>

type_synonym ('e, 'x) run = "('e \<times> engine_state) \<times> ('x, unit) outcome"

definition rbind :: "'s \<times> ('x, 'a) outcome \<Rightarrow> ('s \<Rightarrow> 'a \<Rightarrow> 's \<times> ('y, 'b) outcome) \<Rightarrow> ('x \<Rightarrow> 'y) \<Rightarrow> 's \<times> ('y, 'b) outcome" where
  "rbind r k f = (case r of (s, Good a) \<Rightarrow> k s a | (s, Bad e) \<Rightarrow> (s, Bad (f e)) | (s, Panic) \<Rightarrow> (s, Panic))"

lemma rbind_simps [simp]:
  "rbind (s, Good a) k f = k s a" "rbind (s, Bad e) k f = (s, Bad (f e))" "rbind (s, Panic) k f = (s, Panic)"
  by (simp_all add: rbind_def)

definition check_forkchoice_updated_status ::
    "engine_state \<Rightarrow> payload_status \<Rightarrow> engine_state \<times> (synchronize_error, unit) outcome" where
  "check_forkchoice_updated_status st status =
     (case status of
        Valid \<Rightarrow> (if \<not> es_el_sync_finished st then st\<lparr>es_el_sync_finished := True\<rparr> else st, Good ())
      | Syncing \<Rightarrow> (st, Good ())
      | s \<Rightarrow> (st, Bad (synchronize_error.UnexpectedPayloadStatus s)))"

fun synchronize_execute ::
    "('e, 'p) engine_client \<Rightarrow> engine_sync_state_update \<Rightarrow> 'e \<times> engine_state \<Rightarrow> ('e, synchronize_error) run" where
  "synchronize_execute C state_update (e, st) =
     (let new_sync_state = apply_update (es_sync_state st) state_update;
          unsafe_number = bi_number (l2_info (ess_unsafe_head new_sync_state));
          finalized_number = bi_number (l2_info (ess_finalized_head new_sync_state)) in
      if es_sync_state st \<noteq> default_sync_state \<and> es_sync_state st = new_sync_state then ((e, st), Good ())
      else if unsafe_number < finalized_number
      then ((e, st), Bad (synchronize_error.FinalizedAheadOfUnsafe unsafe_number finalized_number))
      else case ec_fork_choice_updated_v3 C e (create_forkchoice_state new_sync_state) None of
        (e, Inl err) \<Rightarrow>
          ((e, st), Bad (if re_code err = Some INVALID_FORK_CHOICE_STATE_ERROR then InvalidForkchoiceState
                         else synchronize_error.ForkchoiceUpdateFailed err))
      | (e, Inr (status, _)) \<Rightarrow>
          (case check_forkchoice_updated_status st status of
             (st, Good _) \<Rightarrow> ((e, st\<lparr>es_sync_state := new_sync_state\<rparr>), Good ())
           | (st, r) \<Rightarrow> ((e, st), r)))"

definition call_new_payload ::
    "('e, 'p) engine_client \<Rightarrow> 'e \<Rightarrow> 'p \<Rightarrow> b256 \<Rightarrow> 'e \<times> (rpc_error + payload_status) \<times> (string + op_block)" where
  "call_new_payload C e payload root =
     (let P = ec_payload C in
      case pl_version P payload of
        V1 \<Rightarrow> (case ec_new_payload_v1 C e payload of (e, r) \<Rightarrow> (e, r, pl_try_into_block P payload))
      | V2 \<Rightarrow> (case ec_new_payload_v2 C e payload of (e, r) \<Rightarrow> (e, r, pl_try_into_block P payload))
      | V3 \<Rightarrow> (case ec_new_payload_v3 C e payload root of
                 (e, r) \<Rightarrow> (e, r, pl_try_into_block_with_sidecar P payload (Sidecar_V3 root [])))
      | V4 \<Rightarrow> (case ec_new_payload_v4 C e payload root of
                 (e, r) \<Rightarrow> (e, r, pl_try_into_block_with_sidecar P payload (Sidecar_V4 root [] (pl_empty_requests_hash P)))))"

fun insert_execute ::
    "('e, 'p) engine_client \<Rightarrow> rollup_config \<Rightarrow> 'p payload_envelope \<Rightarrow> bool \<Rightarrow> 'e \<times> engine_state \<Rightarrow> ('e, insert_error) run" where
  "insert_execute C cfg envelope is_payload_safe (e, st) =
     (case call_new_payload C e (env_execution_payload envelope) (unwrap_or (env_parent_beacon_block_root envelope) 0) of
        (e, _, Inl err) \<Rightarrow> ((e, st), Bad (FromBlockError err))
      | (e, Inl err, Inr _) \<Rightarrow> ((e, st), Bad (InsertFailed err))
      | (e, Inr status, Inr block) \<Rightarrow>
          if status \<noteq> Valid \<and> status \<noteq> Syncing then ((e, st), Bad (insert_error.UnexpectedPayloadStatus status))
          else case from_block_and_genesis block (rc_genesis cfg) of
            Inl err \<Rightarrow> ((e, st), Bad (L2BlockInfoConstruction err))
          | Inr new_unsafe_ref \<Rightarrow>
              rbind (synchronize_execute C
                       (no_update\<lparr>esu_cross_unsafe_head := Some new_unsafe_ref, esu_unsafe_head := Some new_unsafe_ref,
                          esu_local_safe_head := (if is_payload_safe then Some new_unsafe_ref else None),
                          esu_safe_head := (if is_payload_safe then Some new_unsafe_ref else None)\<rparr>) (e, st))
                (\<lambda>s _. (s, Good ())) insert_error.ForkchoiceUpdateFailed)"

text \<open>\<^verbatim>\<open>BuildTask\<close>.\<close>

fun start_build ::
    "('e, 'p) engine_client \<Rightarrow> rollup_config \<Rightarrow> op_attributes_with_parent \<Rightarrow> 'e \<times> engine_state \<Rightarrow>
     ('e \<times> engine_state) \<times> (build_error, u64) outcome" where
  "start_build C cfg attributes (e, st) =
     (let sync = es_sync_state st; unsafe_number = bi_number (l2_info (ess_unsafe_head sync));
          finalized_number = bi_number (l2_info (ess_finalized_head sync)) in
      if unsafe_number < finalized_number
      then ((e, st), Bad (EngineBuildError (engine_build_error.FinalizedAheadOfUnsafe unsafe_number finalized_number)))
      else
        let new_forkchoice = create_forkchoice_state (apply_update sync (no_update\<lparr>esu_unsafe_head := Some (oap_parent attributes)\<rparr>));
            inner = oap_inner attributes;
            update = (if forkchoice_version cfg (pa_timestamp (opa_payload_attributes inner)) = EV3
              then ec_fork_choice_updated_v3 C e new_forkchoice (Some inner)
              else ec_fork_choice_updated_v2 C e new_forkchoice (Some inner)) in
        case update of
          (e, Inl err) \<Rightarrow> ((e, st), Bad (EngineBuildError (AttributesInsertionFailed err)))
        | (e, Inr (Invalid err, _)) \<Rightarrow> ((e, st), Bad (EngineBuildError (InvalidPayload err)))
        | (e, Inr (Syncing, _)) \<Rightarrow> ((e, st), Bad (EngineBuildError EngineSyncing))
        | (e, Inr (Accepted, _)) \<Rightarrow> ((e, st), Bad (EngineBuildError (engine_build_error.UnexpectedPayloadStatus Accepted)))
        | (e, Inr (Valid, None)) \<Rightarrow> ((e, st), Bad (EngineBuildError MissingPayloadId))
        | (e, Inr (Valid, Some payload_id)) \<Rightarrow> ((e, st), Good payload_id))"

fun fetch_payload ::
    "('e, 'p) engine_client \<Rightarrow> rollup_config \<Rightarrow> u64 \<Rightarrow> op_attributes_with_parent \<Rightarrow> 'e \<times> engine_state \<Rightarrow>
     ('e \<times> engine_state) \<times> (build_error, 'p payload_envelope) outcome" where
  "fetch_payload C cfg payload_id attributes (e, st) =
     (case get_payload_version cfg (pa_timestamp (opa_payload_attributes (oap_inner attributes))) of
        EV4 \<Rightarrow> (case ec_get_payload_v4 C e payload_id of
            (e, Inl err) \<Rightarrow> ((e, st), Bad (GetPayloadFailed err))
          | (e, Inr (root, payload)) \<Rightarrow> ((e, st), Good \<lparr>env_parent_beacon_block_root = Some root, env_execution_payload = payload\<rparr>))
      | EV3 \<Rightarrow> (case ec_get_payload_v3 C e payload_id of
            (e, Inl err) \<Rightarrow> ((e, st), Bad (GetPayloadFailed err))
          | (e, Inr (root, payload)) \<Rightarrow> ((e, st), Good \<lparr>env_parent_beacon_block_root = Some root, env_execution_payload = payload\<rparr>))
      | EV2 \<Rightarrow> (case ec_get_payload_v2 C e payload_id of
            (e, Inl err) \<Rightarrow> ((e, st), Bad (GetPayloadFailed err))
          | (e, Inr payload) \<Rightarrow>
              ((e, st), if pl_version (ec_payload C) payload \<in> {V1, V2}
                        then Good \<lparr>env_parent_beacon_block_root = None, env_execution_payload = payload\<rparr> else Panic)))"

text \<open>Up to the import of the payload: the payload built, and the result of importing it.\<close>

definition build_and_insert ::
    "('e, 'p) engine_client \<Rightarrow> rollup_config \<Rightarrow> op_attributes_with_parent \<Rightarrow> bool \<Rightarrow> 'e \<times> engine_state \<Rightarrow>
     ('e \<times> engine_state) \<times> (build_error, 'p payload_envelope \<times> (insert_error, unit) outcome) outcome" where
  "build_and_insert C cfg attributes is_attributes_derived s =
     rbind (start_build C cfg attributes s) (\<lambda>(e, st) payload_id.
       case ec_now C e of
         (e, None) \<Rightarrow> ((e, st), Bad ClockWentBackwards)
       | (e, Some _) \<Rightarrow>
           rbind (fetch_payload C cfg payload_id attributes (e, st)) (\<lambda>s new_payload.
             case from_payload_and_genesis (ec_payload C) (env_execution_payload new_payload)
                    (pa_parent_beacon_block_root (opa_payload_attributes (oap_inner attributes))) (rc_genesis cfg) of
               Inl err \<Rightarrow> (s, Bad (build_error.FromBlock err))
             | Inr _ \<Rightarrow> (case insert_execute C cfg new_payload is_attributes_derived s of (s, r) \<Rightarrow> (s, Good (new_payload, r))))
             id)
       id"

fun send_payload :: "('e, 'p) engine_client \<Rightarrow> bool \<Rightarrow> 'p payload_envelope \<Rightarrow> 'e \<times> engine_state \<Rightarrow> ('e, build_error) run" where
  "send_payload C payload_tx new_payload (e, st) =
     (if payload_tx then case ec_send C e new_payload of (e, ok) \<Rightarrow> ((e, st), if ok then Good () else Bad MpscSend)
      else ((e, st), Good ()))"

text \<open>One attempt: its result, or the state from which the build is repeated with deposits only.\<close>

definition build_attempt ::
    "('e, 'p) engine_client \<Rightarrow> rollup_config \<Rightarrow> op_attributes_with_parent \<Rightarrow> bool \<Rightarrow> bool \<Rightarrow> 'e \<times> engine_state \<Rightarrow>
     ('e, build_error) run + ('e \<times> engine_state)" where
  "build_attempt C cfg attributes is_attributes_derived payload_tx s =
     (case build_and_insert C cfg attributes is_attributes_derived s of
        (s, Bad err) \<Rightarrow> Inl (s, Bad err)
      | (s, Panic) \<Rightarrow> Inl (s, Panic)
      | (s, Good (new_payload, Good _)) \<Rightarrow> Inl (send_payload C payload_tx new_payload s)
      | (s, Good (new_payload, Panic)) \<Rightarrow> Inl (s, Panic)
      | (s, Good (new_payload, Bad (insert_error.UnexpectedPayloadStatus status))) \<Rightarrow>
          (case is_deposits_only attributes of
             None \<Rightarrow> Inl (s, Panic)
           | Some deposits_only \<Rightarrow>
               if deposits_only then Inl (s, Bad DepositOnlyPayloadFailed)
               else if is_holocene_active cfg (pa_timestamp (opa_payload_attributes (oap_inner attributes))) then Inr s
               else Inl (s, Bad (PayloadInsertionFailed (insert_error.UnexpectedPayloadStatus status))))
      | (s, Good (new_payload, Bad err)) \<Rightarrow> Inl (s, Bad (PayloadInsertionFailed err)))"

fun after_reattempt :: "('e, build_error) run \<Rightarrow> ('e, build_error) run" where
  "after_reattempt (s, Good _) = (s, Bad HoloceneInvalidFlush)"
| "after_reattempt (s, Bad _) = (s, Bad DepositOnlyPayloadReattemptFailed)"
| "after_reattempt (s, Panic) = (s, Panic)"

partial_function (option) build_execute ::
    "('e, 'p) engine_client \<Rightarrow> rollup_config \<Rightarrow> op_attributes_with_parent \<Rightarrow> bool \<Rightarrow> bool \<Rightarrow> 'e \<times> engine_state \<Rightarrow>
     ('e, build_error) run option" where
  "build_execute C cfg attributes is_attributes_derived payload_tx s =
     (case build_attempt C cfg attributes is_attributes_derived payload_tx s of
        Inl r \<Rightarrow> Some r
      | Inr s \<Rightarrow>
          Option.bind (build_execute C cfg (as_deposits_only attributes) is_attributes_derived payload_tx s)
            (\<lambda>r. Some (after_reattempt r)))"

definition map_run :: "('x \<Rightarrow> 'y) \<Rightarrow> 's \<times> ('x, 'a) outcome \<Rightarrow> 's \<times> ('y, 'a) outcome" where
  "map_run f r = (fst r, map_err f (snd r))"

fun consolidate ::
    "('e, 'p) engine_client \<Rightarrow> rollup_config \<Rightarrow> op_attributes_with_parent \<Rightarrow> bool \<Rightarrow> 'e \<times> engine_state \<Rightarrow>
     ('e, consolidate_error) run option" where
  "consolidate C cfg attributes is_attributes_derived (e, st) =
     (let block_num = attributes_block_number attributes;
          build = (\<lambda>s. map_option (map_run BuildTaskFailed) (build_execute C cfg attributes is_attributes_derived False s)) in
      case cl_l2_get_block C e (ByNumber block_num) of
        (e, Inl _) \<Rightarrow> Some ((e, st), Bad FailedToFetchUnsafeL2Block)
      | (e, Inr None) \<Rightarrow> Some ((e, st), Bad (MissingUnsafeL2Block block_num))
      | (e, Inr (Some block)) \<Rightarrow>
          if is_match (attributes_check (ec_match C) cfg attributes block) then
            (case from_block_and_genesis (cl_into_consensus C block) (rc_genesis cfg) of
               Inr block_info \<Rightarrow>
                 let state_update = no_update\<lparr>esu_safe_head := Some block_info, esu_local_safe_head := Some block_info\<rparr> in
                 if \<not> oap_is_last_in_span attributes
                 then Some ((e, st\<lparr>es_sync_state := apply_update (es_sync_state st) state_update\<rparr>), Good ())
                 else Some (map_run consolidate_error.ForkchoiceUpdateFailed (synchronize_execute C state_update (e, st)))
             | Inl _ \<Rightarrow> build (e, st))
          else build (e, st))"

fun consolidate_execute ::
    "('e, 'p) engine_client \<Rightarrow> rollup_config \<Rightarrow> op_attributes_with_parent \<Rightarrow> bool \<Rightarrow> 'e \<times> engine_state \<Rightarrow>
     ('e, consolidate_error) run option" where
  "consolidate_execute C cfg attributes is_attributes_derived (e, st) =
     (if bi_number (l2_info (ess_safe_head (es_sync_state st))) < bi_number (l2_info (ess_unsafe_head (es_sync_state st)))
      then consolidate C cfg attributes is_attributes_derived (e, st)
      else map_option (map_run BuildTaskFailed) (build_execute C cfg attributes is_attributes_derived False (e, st)))"

fun finalize_execute ::
    "('e, 'p) engine_client \<Rightarrow> u64 \<Rightarrow> 'e \<times> engine_state \<Rightarrow> ('e, finalize_error) run" where
  "finalize_execute C block_number (e, st) =
     (if bi_number (l2_info (ess_safe_head (es_sync_state st))) < block_number then ((e, st), Bad BlockNotSafe)
      else case cl_l2_get_block C e (ByNumber block_number) of
        (e, Inl err) \<Rightarrow> ((e, st), Bad (TransportError err))
      | (e, Inr None) \<Rightarrow> ((e, st), Bad (finalize_error.BlockNotFound block_number))
      | (e, Inr (Some block)) \<Rightarrow>
          (case from_block_and_genesis (cl_into_consensus C block) (rc_genesis (ec_cfg C)) of
             Inl err \<Rightarrow> ((e, st), Bad (finalize_error.FromBlock err))
           | Inr block_info \<Rightarrow>
               map_run finalize_error.ForkchoiceUpdateFailed
                 (synchronize_execute C (no_update\<lparr>esu_finalized_head := Some block_info\<rparr>) (e, st))))"

section \<open>The task queue\<close>

datatype 'p engine_task = Insert "'p payload_envelope" bool | Build op_attributes_with_parent bool bool
  | Consolidate op_attributes_with_parent bool | Finalize u64

fun execute_inner ::
    "('e, 'p) engine_client \<Rightarrow> rollup_config \<Rightarrow> 'p engine_task \<Rightarrow> 'e \<times> engine_state \<Rightarrow> ('e, task_error) run option" where
  "execute_inner C cfg (Insert envelope is_safe) s = Some (map_run InsertError (insert_execute C cfg envelope is_safe s))"
| "execute_inner C cfg (Build attributes derived tx) s = map_option (map_run BuildError) (build_execute C cfg attributes derived tx s)"
| "execute_inner C cfg (Consolidate attributes derived) s =
     map_option (map_run ConsolidateError) (consolidate_execute C cfg attributes derived s)"
| "execute_inner C cfg (Finalize block_number) s = Some (map_run FinalizeError (finalize_execute C block_number s))"

definition repeats :: "('e, task_error) run \<Rightarrow> bool" where
  "repeats r = (case snd r of Bad err \<Rightarrow> severity err = Temporary | _ \<Rightarrow> False)"

partial_function (option) task_execute ::
    "('e, 'p) engine_client \<Rightarrow> rollup_config \<Rightarrow> 'p engine_task \<Rightarrow> 'e \<times> engine_state \<Rightarrow> ('e, task_error) run option" where
  "task_execute C cfg task s =
     Option.bind (execute_inner C cfg task s) (\<lambda>r. if repeats r then task_execute C cfg task (fst r) else Some r)"

datatype ordering = Less | Equal | Greater

fun task_cmp :: "'p engine_task \<Rightarrow> 'p engine_task \<Rightarrow> ordering" where
  "task_cmp (Insert _ _) (Insert _ _) = Equal"
| "task_cmp (Consolidate _ _) (Consolidate _ _) = Equal"
| "task_cmp (Build _ _ _) (Build _ _ _) = Equal"
| "task_cmp (Finalize _) (Finalize _) = Equal"
| "task_cmp (Build _ _ _) _ = Greater"
| "task_cmp _ (Build _ _ _) = Less"
| "task_cmp (Insert _ _) _ = Greater"
| "task_cmp _ (Insert _ _) = Less"
| "task_cmp (Consolidate _ _) _ = Greater"
| "task_cmp _ (Consolidate _ _) = Less"

text \<open>The senders of the two watch channels hold the last value sent.\<close>

record 'p engine =
  en_state :: engine_state
  en_state_sender :: engine_state
  en_task_queue_length :: nat
  en_tasks :: "'p engine_task list"

definition engine_new :: "engine_state \<Rightarrow> 'p engine" where
  "engine_new initial_state =
     \<lparr>en_state = initial_state, en_state_sender = initial_state, en_task_queue_length = 0, en_tasks = []\<rparr>"

definition engine_enqueue :: "'p engine \<Rightarrow> 'p engine_task \<Rightarrow> 'p engine" where
  "engine_enqueue en task =
     en\<lparr>en_tasks := en_tasks en @ [task], en_task_queue_length := length (en_tasks en @ [task])\<rparr>"

definition engine_clear :: "'p engine \<Rightarrow> 'p engine" where
  "engine_clear en = en\<lparr>en_tasks := []\<rparr>"

definition remove_nth :: "nat \<Rightarrow> 'a list \<Rightarrow> 'a list" where
  "remove_nth i xs = take i xs @ drop (Suc i) xs"

definition task_done :: "'p engine \<Rightarrow> nat \<Rightarrow> engine_state \<Rightarrow> 'p engine" where
  "task_done en i st =
     en\<lparr>en_state := st, en_state_sender := st, en_tasks := remove_nth i (en_tasks en),
        en_task_queue_length := length (remove_nth i (en_tasks en))\<rparr>"

partial_function (option) engine_drain ::
    "('p engine_task list \<Rightarrow> nat) \<Rightarrow> ('e, 'p) engine_client \<Rightarrow> rollup_config \<Rightarrow> 'e \<times> 'p engine \<Rightarrow>
     (('e \<times> 'p engine) \<times> (task_error, unit) outcome) option" where
  "engine_drain heap_peek C cfg s =
     (if en_tasks (snd s) = [] then Some (s, Good ())
      else Option.bind (task_execute C cfg (en_tasks (snd s) ! heap_peek (en_tasks (snd s))) (fst s, en_state (snd s))) (\<lambda>r.
        if snd r = Good () then engine_drain heap_peek C cfg (fst (fst r), task_done (snd s) (heap_peek (en_tasks (snd s))) (snd (fst r)))
        else Some ((fst (fst r), (snd s)\<lparr>en_state := snd (fst r)\<rparr>), snd r)))"

datatype engine_reset_error = Forkchoice synchronize_error | SyncStart sync_start_error
  | SystemConfigConversion op_block_conversion_error

partial_function (option) reset_synchronize ::
    "('e, 'p) engine_client \<Rightarrow> engine_sync_state_update \<Rightarrow> 'e \<times> engine_state \<Rightarrow> ('e, synchronize_error) run option" where
  "reset_synchronize C state_update s =
     (case synchronize_execute C state_update s of (s, r) \<Rightarrow>
        case r of
          Bad err \<Rightarrow> if synchronize_severity err = Critical then Some (s, Bad err) else reset_synchronize C state_update s
        | _ \<Rightarrow> Some (s, r))"

fun reset_lookups ::
    "('e, 'p) engine_client \<Rightarrow> extra_data \<Rightarrow> rollup_config \<Rightarrow> l2_forkchoice_state \<Rightarrow> 'e \<Rightarrow>
     'e \<times> (engine_reset_error + l2_block_info \<times> block_info \<times> system_config)" where
  "reset_lookups C X config start e =
     (let origin_block = saturating_sub (bnh_number (l2_l1_origin (fcs_safe start)))
            (channel_timeout config (bi_timestamp (l2_info (fcs_safe start)))) in
      case cl_l1_get_block C e (ByNumber origin_block) of
        (e, Inl err) \<Rightarrow> (e, Inl (SyncStart (RpcError err)))
      | (e, Inr None) \<Rightarrow> (e, Inl (SyncStart (sync_start_error.BlockNotFound (ByNumber origin_block))))
      | (e, Inr (Some l1_origin_info)) \<Rightarrow>
          (case cl_l2_get_block C e (ByHash (bi_hash (l2_info (fcs_safe start)))) of
             (e, Inl err) \<Rightarrow> (e, Inl (SyncStart (RpcError err)))
           | (e, Inr None) \<Rightarrow> (e, Inl (SyncStart (sync_start_error.BlockNotFound (ByNumber origin_block))))
           | (e, Inr (Some block)) \<Rightarrow>
               (case to_system_config X (cl_into_consensus C block) config of
                  Inl err \<Rightarrow> (e, Inl (SystemConfigConversion err))
                | Inr system_config \<Rightarrow> (e, Inr (fcs_safe start, l1_origin_info, system_config)))))"

definition start_update :: "l2_forkchoice_state \<Rightarrow> engine_sync_state_update" where
  "start_update start =
     \<lparr>esu_unsafe_head = Some (fcs_un_safe start), esu_cross_unsafe_head = Some (fcs_un_safe start),
      esu_local_safe_head = Some (fcs_safe start), esu_safe_head = Some (fcs_safe start),
      esu_finalized_head = Some (fcs_finalized start)\<rparr>"

fun engine_reset ::
    "('e, 'p) engine_client \<Rightarrow> extra_data \<Rightarrow> rollup_config \<Rightarrow> 'e \<times> 'p engine \<Rightarrow>
     (('e \<times> 'p engine) \<times> (engine_reset_error, l2_block_info \<times> block_info \<times> system_config) outcome) option" where
  "engine_reset C X config (e, en) =
     (let en = engine_clear en in
      Option.bind (find_starting_forkchoice (rpc_client.truncate C) config e) (\<lambda>(e, r).
        case r of
          Inl err \<Rightarrow> Some ((e, en), Bad (SyncStart err))
        | Inr start \<Rightarrow>
            Option.bind (reset_synchronize C (start_update start) (e, en_state en)) (\<lambda>((e, st), r).
              let en = en\<lparr>en_state := st\<rparr> in
              case r of
                Bad err \<Rightarrow> Some ((e, en), Bad (Forkchoice err))
              | Panic \<Rightarrow> Some ((e, en), Panic)
              | Good _ \<Rightarrow>
                  (case reset_lookups C X config start e of
                     (e, Inl err) \<Rightarrow> Some ((e, en), Bad err)
                   | (e, Inr res) \<Rightarrow> Some ((e, en), Good res)))))"

section \<open>What tasks do to the heads\<close>

definition with_unsafe :: "l2_block_info \<Rightarrow> bool \<Rightarrow> engine_sync_state \<Rightarrow> engine_sync_state" where
  "with_unsafe b safe s = (if safe
     then s\<lparr>ess_unsafe_head := b, ess_cross_unsafe_head := b, ess_local_safe_head := b, ess_safe_head := b\<rparr>
     else s\<lparr>ess_unsafe_head := b, ess_cross_unsafe_head := b\<rparr>)"

definition with_safe :: "l2_block_info \<Rightarrow> engine_sync_state \<Rightarrow> engine_sync_state" where
  "with_safe b s = s\<lparr>ess_local_safe_head := b, ess_safe_head := b\<rparr>"

text \<open>Where a new head comes from: a payload the execution layer took, or a block it has.\<close>

definition imported :: "('e, 'p) engine_client \<Rightarrow> rollup_config \<Rightarrow> l2_block_info \<Rightarrow> bool" where
  "imported C cfg b \<longleftrightarrow> (\<exists>e e' payload root status block.
     call_new_payload C e payload root = (e', Inr status, Inr block) \<and> status \<in> {Valid, Syncing} \<and>
     from_block_and_genesis block (rc_genesis cfg) = Inr b)"

definition stored :: "('e, 'p) engine_client \<Rightarrow> chain_genesis \<Rightarrow> u64 \<Rightarrow> (rpc_block \<Rightarrow> bool) \<Rightarrow> l2_block_info \<Rightarrow> bool" where
  "stored C genesis n ok b \<longleftrightarrow> (\<exists>e e' block.
     cl_l2_get_block C e (ByNumber n) = (e', Inr (Some block)) \<and> ok block \<and>
     from_block_and_genesis (cl_into_consensus C block) genesis = Inr b)"

definition import_effect :: "('e, 'p) engine_client \<Rightarrow> rollup_config \<Rightarrow> bool \<Rightarrow> engine_sync_state \<Rightarrow> engine_sync_state \<Rightarrow> bool" where
  "import_effect C cfg safe s s' \<longleftrightarrow> s' = s \<or> (\<exists>b. imported C cfg b \<and> s' = with_unsafe b safe s)"

fun task_effect ::
    "('e, 'p) engine_client \<Rightarrow> rollup_config \<Rightarrow> 'p engine_task \<Rightarrow> engine_sync_state \<Rightarrow> engine_sync_state \<Rightarrow> bool" where
  "task_effect C cfg (Insert envelope safe) s s' \<longleftrightarrow> import_effect C cfg safe s s'"
| "task_effect C cfg (Build attributes derived tx) s s' \<longleftrightarrow> import_effect C cfg derived s s'"
| "task_effect C cfg (Consolidate attributes derived) s s' \<longleftrightarrow> import_effect C cfg derived s s' \<or>
     (\<exists>b. stored C (rc_genesis cfg) (attributes_block_number attributes)
        (\<lambda>block. attributes_check (ec_match C) cfg attributes block = Match) b \<and> s' = with_safe b s)"
| "task_effect C cfg (Finalize n) s s' \<longleftrightarrow> s' = s \<or>
     (\<exists>b. stored C (rc_genesis (ec_cfg C)) n (\<lambda>_. True) b \<and> n \<le> bi_number (l2_info (ess_safe_head s)) \<and>
        s' = s\<lparr>ess_finalized_head := b\<rparr>)"

definition heads_ok :: "engine_sync_state \<Rightarrow> bool" where
  "heads_ok s \<longleftrightarrow> bi_number (l2_info (ess_finalized_head s)) \<le> bi_number (l2_info (ess_unsafe_head s))"

lemma synchronize_effect:
  assumes "synchronize_execute C u (e, st) = ((e', st'), r)"
  shows "es_sync_state st' = es_sync_state st \<or> r = Good () \<and> es_sync_state st' = apply_update (es_sync_state st) u"
    "heads_ok (es_sync_state st) \<Longrightarrow> heads_ok (es_sync_state st')" "r \<noteq> Panic"
  using assms
  by (auto simp: Let_def check_forkchoice_updated_status_def heads_ok_def
      split: if_splits prod.splits sum.splits payload_status.splits outcome.splits)

lemma apply_updates:
  "apply_update s (no_update\<lparr>esu_cross_unsafe_head := Some b, esu_unsafe_head := Some b,
     esu_local_safe_head := (if safe then Some b else None), esu_safe_head := (if safe then Some b else None)\<rparr>) = with_unsafe b safe s"
  "apply_update s (no_update\<lparr>esu_safe_head := Some b, esu_local_safe_head := Some b\<rparr>) = with_safe b s"
  "apply_update s (no_update\<lparr>esu_finalized_head := Some b\<rparr>) = s\<lparr>ess_finalized_head := b\<rparr>"
  by (simp_all add: apply_update_def no_update_def with_unsafe_def with_safe_def unwrap_or_def)

lemma map_run_eq: "map_run f r = (s, q) \<longleftrightarrow> fst r = s \<and> map_err f (snd r) = q"
  by (cases r) (simp add: map_run_def)

lemma insert_effect:
  assumes "insert_execute C cfg envelope safe (e, st) = ((e', st'), r)"
  shows "import_effect C cfg safe (es_sync_state st) (es_sync_state st')"
    "r \<noteq> Good () \<Longrightarrow> es_sync_state st' = es_sync_state st" "heads_ok (es_sync_state st) \<Longrightarrow> heads_ok (es_sync_state st')"
    "r \<noteq> Panic"
proof -
  obtain e1 resp block where call: "call_new_payload C e (env_execution_payload envelope)
      (unwrap_or (env_parent_beacon_block_root envelope) 0) = (e1, resp, block)"
    by (metis prod.exhaust)
  have "(es_sync_state st' = es_sync_state st \<or> r = Good () \<and> (\<exists>b. imported C cfg b \<and> es_sync_state st' = with_unsafe b safe (es_sync_state st))) \<and>
      (heads_ok (es_sync_state st) \<longrightarrow> heads_ok (es_sync_state st')) \<and> r \<noteq> Panic"
  proof (cases block)
    case (Inr bl)
    show ?thesis
    proof (cases resp)
      case (Inr status)
      show ?thesis
      proof (cases "status \<in> {Valid, Syncing}")
        case ok: True
        show ?thesis
        proof (cases "from_block_and_genesis bl (rc_genesis cfg)")
          case info: (Inr b)
          let ?u = "no_update\<lparr>esu_cross_unsafe_head := Some b, esu_unsafe_head := Some b,
            esu_local_safe_head := (if safe then Some b else None), esu_safe_head := (if safe then Some b else None)\<rparr>"
          obtain e2 st2 q where sync: "synchronize_execute C ?u (e1, st) = ((e2, st2), q)" by (metis prod.exhaust)
          have "imported C cfg b" using call \<open>block = Inr bl\<close> Inr ok info unfolding imported_def by blast
          moreover have "st' = st2" "r = Good () \<longleftrightarrow> q = Good ()" "r = Panic \<longleftrightarrow> q = Panic"
            using assms call \<open>block = Inr bl\<close> Inr ok info sync
            by (cases q; auto simp del: synchronize_execute.simps split: if_splits)+
          ultimately show ?thesis using synchronize_effect [OF sync] unfolding apply_updates by blast
        qed (use assms call \<open>block = Inr bl\<close> Inr ok in \<open>auto\<close>)
      qed (use assms call \<open>block = Inr bl\<close> Inr in \<open>auto split: if_splits\<close>)
    qed (use assms call Inr in auto)
  qed (use assms call in \<open>auto split: sum.splits\<close>)
  then show "import_effect C cfg safe (es_sync_state st) (es_sync_state st')"
    "r \<noteq> Good () \<Longrightarrow> es_sync_state st' = es_sync_state st" "heads_ok (es_sync_state st) \<Longrightarrow> heads_ok (es_sync_state st')"
    "r \<noteq> Panic"
    by (auto simp: import_effect_def)
qed

lemma start_build_state: "start_build C cfg attributes (e, st) = ((e', st'), r) \<Longrightarrow> st' = st"
  by (auto simp: Let_def split: if_splits prod.splits sum.splits payload_status.splits option.splits)

lemma fetch_payload_state: "fetch_payload C cfg i attributes (e, st) = ((e', st'), r) \<Longrightarrow> st' = st"
  by (auto split: engine_version.splits prod.splits sum.splits)

lemma build_and_insert_effect:
  assumes "build_and_insert C cfg attributes derived (e, st) = ((e', st'), r)"
  shows "import_effect C cfg derived (es_sync_state st) (es_sync_state st')"
    "(\<nexists>p. r = Good (p, Good ())) \<Longrightarrow> es_sync_state st' = es_sync_state st"
    "heads_ok (es_sync_state st) \<Longrightarrow> heads_ok (es_sync_state st')"
proof -
  obtain e1 st1 i where sb: "start_build C cfg attributes (e, st) = ((e1, st1), i)" by (metis prod.exhaust)
  have st1: "st1 = st" using sb by (rule start_build_state)
  have "st' = st \<and> (\<nexists>p. r = Good (p, Good ())) \<or> (\<exists>e2 env q. insert_execute C cfg env derived (e2, st) = ((e', st'), q) \<and> r = Good (env, q))"
  proof (cases i)
    case (Good pid)
    obtain e2 now where now: "ec_now C e1 = (e2, now)" by (metis prod.exhaust)
    show ?thesis
    proof (cases now)
      case (Some t)
      obtain e3 st3 f where fp: "fetch_payload C cfg pid attributes (e2, st) = ((e3, st3), f)" by (metis prod.exhaust)
      then have "st3 = st" by (rule fetch_payload_state)
      with assms sb st1 Good now Some fp show ?thesis
        by (cases f) (auto simp: build_and_insert_def simp del: start_build.simps fetch_payload.simps insert_execute.simps
            split: sum.splits prod.splits)
    qed (use assms sb st1 Good now in \<open>auto simp: build_and_insert_def simp del: start_build.simps\<close>)
  qed (use assms sb st1 in \<open>auto simp: build_and_insert_def simp del: start_build.simps\<close>)
  then have "import_effect C cfg derived (es_sync_state st) (es_sync_state st') \<and>
      ((\<nexists>p. r = Good (p, Good ())) \<longrightarrow> es_sync_state st' = es_sync_state st) \<and>
      (heads_ok (es_sync_state st) \<longrightarrow> heads_ok (es_sync_state st'))"
  proof (elim disjE exE conjE)
    fix e2 env q
    assume i: "insert_execute C cfg env derived (e2, st) = ((e', st'), q)" and "r = Good (env, q)"
    with insert_effect [OF i] show ?thesis by blast
  qed (simp add: import_effect_def)
  then show "import_effect C cfg derived (es_sync_state st) (es_sync_state st')"
    "(\<nexists>p. r = Good (p, Good ())) \<Longrightarrow> es_sync_state st' = es_sync_state st"
    "heads_ok (es_sync_state st) \<Longrightarrow> heads_ok (es_sync_state st')"
    by blast+
qed

text \<open>An attempt that is repeated, or fails with a temporary error, leaves the heads alone.\<close>

lemma build_attempt_effect:
  assumes "build_attempt C cfg attributes derived tx (e, st) = r"
  shows "r = Inr (e', st') \<Longrightarrow> es_sync_state st' = es_sync_state st"
    "r = Inl ((e', st'), q) \<Longrightarrow> import_effect C cfg derived (es_sync_state st) (es_sync_state st') \<and>
      (heads_ok (es_sync_state st) \<longrightarrow> heads_ok (es_sync_state st')) \<and>
      (\<forall>err. q = Bad err \<longrightarrow> build_severity err = Temporary \<longrightarrow> es_sync_state st' = es_sync_state st)"
proof -
  obtain e1 st1 b where bi: "build_and_insert C cfg attributes derived (e, st) = ((e1, st1), b)" by (metis prod.exhaust)
  note eff = build_and_insert_effect [OF bi]
  show "r = Inr (e', st') \<Longrightarrow> es_sync_state st' = es_sync_state st"
    using assms bi eff(2) by (auto simp: build_attempt_def split: outcome.splits insert_error.splits option.splits if_splits)
  have "\<not> (\<exists>p. b = Good (p, Good ())) \<Longrightarrow> r = Inl ((e', st'), q) \<Longrightarrow> st' = st1"
    using assms bi by (auto simp: build_attempt_def split: outcome.splits insert_error.splits option.splits if_splits)
  moreover have "r = Inl ((e', st'), q) \<Longrightarrow> st' = st1 \<and> (\<forall>err. q = Bad err \<longrightarrow> err = MpscSend)"
    if "b = Good (p, Good ())" for p
    using assms bi that by (auto simp: build_attempt_def split: if_splits prod.splits)
  ultimately show "r = Inl ((e', st'), q) \<Longrightarrow> import_effect C cfg derived (es_sync_state st) (es_sync_state st') \<and>
      (heads_ok (es_sync_state st) \<longrightarrow> heads_ok (es_sync_state st')) \<and>
      (\<forall>err. q = Bad err \<longrightarrow> build_severity err = Temporary \<longrightarrow> es_sync_state st' = es_sync_state st)"
    using eff by (cases "\<exists>p. b = Good (p, Good ())") auto
qed

text \<open>Induction over the runs of the partial loops that return.\<close>

lemma build_execute_induct [consumes 1, case_names Result Reattempt]:
  assumes run: "build_execute C cfg attributes derived tx s = Some r"
    and result: "\<And>attributes s r. build_attempt C cfg attributes derived tx s = Inl r \<Longrightarrow> Q attributes s r"
    and again: "\<And>attributes s s' r. build_attempt C cfg attributes derived tx s = Inr s' \<Longrightarrow>
      Q (as_deposits_only attributes) s' r \<Longrightarrow> Q attributes s (after_reattempt r)"
  shows "Q attributes s r"
proof -
  have "C = C \<and> cfg = cfg \<and> derived = derived \<and> tx = tx \<longrightarrow> Q attributes s r"
  proof (rule build_execute.raw_induct [where P = "\<lambda>C' cfg' a d t s r. C' = C \<and> cfg' = cfg \<and> d = derived \<and> t = tx \<longrightarrow> Q a s r", OF _ run],
      goal_cases)
    case (1 f C' cfg' a d t s r)
    show ?case
    proof (intro impI, elim conjE)
      assume eqs: "C' = C" "cfg' = cfg" "d = derived" "t = tx"
      show "Q a s r"
      proof (cases "build_attempt C cfg a derived tx s")
        case (Inl q)
        with 1(2) eqs show ?thesis using result by simp
      next
        case (Inr s')
        with 1(2) eqs obtain q where q: "f C cfg (as_deposits_only a) derived tx s' = Some q" "r = after_reattempt q"
          by (auto simp: bind_eq_Some_conv)
        with 1(1) have "Q (as_deposits_only a) s' q" by blast
        with Inr q(2) show ?thesis using again by blast
      qed
    qed
  qed
  then show ?thesis by simp
qed

lemma task_execute_induct [consumes 1, case_names Result Repeat]:
  assumes run: "task_execute C cfg task s = Some r"
    and result: "\<And>s r. execute_inner C cfg task s = Some r \<Longrightarrow> \<not> repeats r \<Longrightarrow> Q s r"
    and again: "\<And>s r r'. execute_inner C cfg task s = Some r \<Longrightarrow> repeats r \<Longrightarrow> Q (fst r) r' \<Longrightarrow> Q s r'"
  shows "Q s r"
proof -
  have "C = C \<and> cfg = cfg \<and> task = task \<longrightarrow> Q s r"
  proof (rule task_execute.raw_induct [where P = "\<lambda>C' cfg' t s r. C' = C \<and> cfg' = cfg \<and> t = task \<longrightarrow> Q s r", OF _ run],
      clarify, goal_cases)
    case (1 f _ _ _ e st r')
    then show ?case
      by (cases "execute_inner C cfg task (e, st)") (auto intro: result again split: if_splits)
  qed
  then show ?thesis by simp
qed

definition build_ok :: "('e, 'p) engine_client \<Rightarrow> rollup_config \<Rightarrow> bool \<Rightarrow> 'e \<times> engine_state \<Rightarrow> ('e, build_error) run \<Rightarrow> bool" where
  "build_ok C cfg derived s r \<longleftrightarrow>
     (let old = es_sync_state (snd s); new = es_sync_state (snd (fst r)) in
      import_effect C cfg derived old new \<and> (heads_ok old \<longrightarrow> heads_ok new) \<and>
      (\<forall>err. snd r = Bad err \<longrightarrow> build_severity err = Temporary \<longrightarrow> new = old))"

lemma after_reattempt_state [simp]: "fst (after_reattempt r) = fst r"
  by (cases r rule: after_reattempt.cases) simp_all

lemma after_reattempt_severity: "snd (after_reattempt r) = Bad err \<Longrightarrow> build_severity err \<noteq> Temporary"
  by (cases r rule: after_reattempt.cases) auto

lemma build_execute_effect: "build_execute C cfg attributes derived tx s = Some r \<Longrightarrow> build_ok C cfg derived s r"
proof (induction rule: build_execute_induct)
  case (Result attributes s r)
  obtain e st e' st' q where "s = (e, st)" "r = ((e', st'), q)" by (metis prod.exhaust)
  with build_attempt_effect(2) [OF Result [unfolded this]] show ?case by (simp add: build_ok_def)
next
  case (Reattempt attributes s s' r)
  obtain e st e' st' where s: "s = (e, st)" "s' = (e', st')" by (metis prod.exhaust)
  from build_attempt_effect(1) [OF Reattempt(1) [unfolded s]] have "es_sync_state st' = es_sync_state st" by simp
  with Reattempt(2) s show ?case
    using after_reattempt_severity [of r] by (simp add: build_ok_def Let_def)
qed

definition task_ok :: "('e, 'p) engine_client \<Rightarrow> rollup_config \<Rightarrow> 'p engine_task \<Rightarrow> 'e \<times> engine_state \<Rightarrow> ('e, task_error) run \<Rightarrow> bool" where
  "task_ok C cfg task s r \<longleftrightarrow>
     (let old = es_sync_state (snd s); new = es_sync_state (snd (fst r)) in
      task_effect C cfg task old new \<and> (heads_ok old \<longrightarrow> heads_ok new) \<and>
      (\<forall>err. snd r = Bad err \<longrightarrow> severity err = Temporary \<longrightarrow> new = old))"

lemma map_err_eq_Bad: "map_err f q = Bad y \<longleftrightarrow> (\<exists>x. q = Bad x \<and> y = f x)"
  by (cases q) auto

lemma with_safe_heads_ok [simp]: "heads_ok (with_safe b s) = heads_ok s"
  by (simp add: with_safe_def heads_ok_def)

lemma consolidate_effect:
  assumes "consolidate C cfg attributes derived (e, st) = Some r"
  shows "task_ok C cfg (Consolidate attributes derived) (e, st) (map_run ConsolidateError r)"
proof -
  let ?t = "Consolidate attributes derived :: 'b engine_task"
  let ?ok = "\<lambda>r. task_ok C cfg ?t (e, st) (map_run ConsolidateError r)"
  have build: "?ok (map_run BuildTaskFailed q)" if "build_execute C cfg attributes derived False (e', st) = Some q" for e' q
    using build_execute_effect [OF that] by (auto simp: build_ok_def task_ok_def map_run_def map_err_eq_Bad Let_def)
  have same: "?ok ((e', st), x)" for e' x
    by (cases x) (auto simp: task_ok_def map_run_def import_effect_def)
  obtain e1 b where fetch: "cl_l2_get_block C e (ByNumber (attributes_block_number attributes)) = (e1, b)" by (metis prod.exhaust)
  show ?thesis
  proof (cases "\<exists>block info. b = Inr (Some block) \<and> attributes_check (ec_match C) cfg attributes block = Match \<and>
      from_block_and_genesis (cl_into_consensus C block) (rc_genesis cfg) = Inr info")
    case True
    then obtain block info where block: "b = Inr (Some block)" "attributes_check (ec_match C) cfg attributes block = Match"
        "from_block_and_genesis (cl_into_consensus C block) (rc_genesis cfg) = Inr info"
      by blast
    then have "stored C (rc_genesis cfg) (attributes_block_number attributes)
        (\<lambda>block. attributes_check (ec_match C) cfg attributes block = Match) info"
      using fetch unfolding stored_def by blast
    moreover obtain e2 st2 q where sync: "synchronize_execute C
        (no_update\<lparr>esu_safe_head := Some info, esu_local_safe_head := Some info\<rparr>) (e1, st) = ((e2, st2), q)"
      by (metis prod.exhaust)
    ultimately show ?thesis
      using assms fetch block synchronize_effect [OF sync] sync
      by (auto simp: apply_updates task_ok_def map_run_def map_err_eq_Bad import_effect_def Let_def
          simp del: synchronize_execute.simps split: if_splits)
  next
    case False
    then show ?thesis
      using assms fetch same build
      by (cases b) (auto simp: Let_def split: option.splits if_splits sum.splits elim!: is_match.elims)
  qed
qed

lemma finalize_effect:
  "task_ok C cfg (Finalize n) (e, st) (map_run FinalizeError (finalize_execute C n (e, st)))"
proof -
  have same: "task_ok C cfg (Finalize n) (e, st) (map_run FinalizeError ((e', st), x))" for e' x
    by (cases x) (auto simp: task_ok_def map_run_def)
  obtain e1 b where fetch: "cl_l2_get_block C e (ByNumber n) = (e1, b)" by (metis prod.exhaust)
  show ?thesis
  proof (cases "n \<le> bi_number (l2_info (ess_safe_head (es_sync_state st))) \<and> (\<exists>block info. b = Inr (Some block) \<and>
      from_block_and_genesis (cl_into_consensus C block) (rc_genesis (ec_cfg C)) = Inr info)")
    case True
    then obtain block info where block: "b = Inr (Some block)"
        "from_block_and_genesis (cl_into_consensus C block) (rc_genesis (ec_cfg C)) = Inr info"
      by blast
    then have "stored C (rc_genesis (ec_cfg C)) n (\<lambda>_. True) info" using fetch unfolding stored_def by blast
    moreover obtain e2 st2 q where sync: "synchronize_execute C (no_update\<lparr>esu_finalized_head := Some info\<rparr>) (e1, st) = ((e2, st2), q)"
      by (metis prod.exhaust)
    ultimately show ?thesis
      using True fetch block synchronize_effect [OF sync] sync
      by (auto simp: apply_updates task_ok_def map_run_def map_err_eq_Bad Let_def not_less simp del: synchronize_execute.simps)
  next
    case False
    then show ?thesis
      using fetch same by (cases b) (auto simp: not_less split: option.splits sum.splits)
  qed
qed

lemma execute_inner_ok:
  assumes "execute_inner C cfg task s = Some r"
  shows "task_ok C cfg task s r"
proof -
  obtain e st where s: "s = (e, st)" by (cases s)
  show ?thesis
  proof (cases task)
    case (Insert envelope safe)
    obtain e' st' q where i: "insert_execute C cfg envelope safe (e, st) = ((e', st'), q)" by (metis prod.exhaust)
    show ?thesis
      using assms s Insert i insert_effect [OF i]
      by (auto simp: task_ok_def map_run_def map_err_eq_Bad Let_def simp del: insert_execute.simps)
  next
    case (Build attributes derived tx)
    then obtain q where q: "build_execute C cfg attributes derived tx s = Some q" "r = map_run BuildError q"
      using assms by auto
    with build_execute_effect [OF q(1)] Build show ?thesis
      by (auto simp: task_ok_def build_ok_def map_run_def map_err_eq_Bad Let_def)
  next
    case (Consolidate attributes derived)
    then obtain q where q: "consolidate_execute C cfg attributes derived (e, st) = Some q" "r = map_run ConsolidateError q"
      using assms s by (auto simp del: consolidate_execute.simps)
    have build: "task_ok C cfg task s (map_run ConsolidateError (map_run BuildTaskFailed b))"
      if "build_execute C cfg attributes derived False (e, st) = Some b" for b
      using build_execute_effect [OF that] s Consolidate
      by (auto simp: task_ok_def build_ok_def map_run_def map_err_eq_Bad Let_def)
    from q show ?thesis
      using consolidate_effect [of C cfg attributes derived e st q] build s Consolidate
      by (auto simp del: consolidate.simps split: if_splits)
  next
    case (Finalize n)
    with assms s finalize_effect [of C cfg n e st] show ?thesis by (auto simp del: finalize_execute.simps)
  qed
qed

lemma task_execute_ok: "task_execute C cfg task s = Some r \<Longrightarrow> task_ok C cfg task s r"
proof (induction rule: task_execute_induct)
  case (Repeat s r r')
  have "es_sync_state (snd (fst r)) = es_sync_state (snd s)"
    using execute_inner_ok [OF Repeat(1)] Repeat(2) by (auto simp: task_ok_def repeats_def Let_def split: outcome.splits)
  with Repeat(3) show ?case by (simp add: task_ok_def)
qed (rule execute_inner_ok)

text \<open>
  C33. What a task of the engine may do to the heads, whatever the execution layer answers and
  however often the task is repeated: an insert moves the unsafe heads to a payload the execution
  layer took, and the safe heads with them only if the payload was derived; a build likewise; a
  consolidation may instead move the safe heads alone, to the stored block at the height of the
  attributes that matches them; a finalization moves the finalized head alone, to a stored block at
  the requested height, which is not above the safe head.  The finalized head stays behind the
  unsafe head.
\<close>

theorem task_effects:
  assumes "task_execute C cfg task (e, st) = Some ((e', st'), r)"
  shows "task_effect C cfg task (es_sync_state st) (es_sync_state st') \<and>
    (heads_ok (es_sync_state st) \<longrightarrow> heads_ok (es_sync_state st'))"
  using task_execute_ok [OF assms] by (simp add: task_ok_def Let_def)

definition example_genesis_block :: op_block where
  "example_genesis_block = \<lparr>ob_number = 0, ob_hash = 0, ob_parent_hash = 0, ob_timestamp = 61, ob_gas_limit = 0,
     ob_extra_data = [], ob_transactions = []\<rparr>"

definition example_payload_lib :: "op_block payload_lib" where
  "example_payload_lib = \<lparr>pl_version = (\<lambda>_. V3), pl_try_into_block = Inr, pl_try_into_block_with_sidecar = (\<lambda>b _. Inr b),
     pl_empty_requests_hash = 0\<rparr>"

definition example_match_lib :: match_lib where
  "example_match_lib = \<lparr>ml_decode_2718 = (\<lambda>_. None), ml_tx_hash = (\<lambda>_. 0), ml_decode_eip_1559_params = (\<lambda>_. None),
     ml_decode_jovian_extra_data = (\<lambda>_. Inl NoEIP1559Params), ml_decode_holocene_extra_data = (\<lambda>_. Inl NoEIP1559Params),
     ml_empty_root_hash = 0\<rparr>"

text \<open>An execution layer that has the genesis only and answers a new payload with the given status.\<close>

definition example_engine_client :: "payload_status \<Rightarrow> (unit, op_block) engine_client" where
  "example_engine_client status =
     \<lparr>cl_l1_get_block = (\<lambda>e _. (e, Inr None)),
      cl_l2_get_block = (\<lambda>e _. (e, Inr (Some (example_rpc_block 0 0 0 [])))),
      cl_into_consensus = example_into_consensus, ec_cfg = example_config,
      ec_fork_choice_updated_v2 = (\<lambda>e _ _. (e, Inr (Valid, Some 1))),
      ec_fork_choice_updated_v3 = (\<lambda>e _ _. (e, Inr (Valid, Some 1))),
      ec_new_payload_v1 = (\<lambda>e _. (e, Inr status)), ec_new_payload_v2 = (\<lambda>e _. (e, Inr status)),
      ec_new_payload_v3 = (\<lambda>e _ _. (e, Inr status)), ec_new_payload_v4 = (\<lambda>e _ _. (e, Inr status)),
      ec_get_payload_v2 = (\<lambda>e _. (e, Inr example_genesis_block)),
      ec_get_payload_v3 = (\<lambda>e _. (e, Inr (0, example_genesis_block))),
      ec_get_payload_v4 = (\<lambda>e _. (e, Inr (0, example_genesis_block))),
      ec_now = (\<lambda>e. (e, Some 0)), ec_send = (\<lambda>e _. (e, True)), ec_payload = example_payload_lib,
      ec_match = example_match_lib\<rparr>"

definition initial_state :: engine_state where
  "initial_state =
     \<lparr>es_sync_state = default_sync_state, es_el_sync_finished = False, es_need_fcu_call_backup_unsafe_reorg = False\<rparr>"

definition example_genesis_info :: l2_block_info where
  "example_genesis_info = \<lparr>l2_info = block_info_from example_genesis_block,
     l2_l1_origin = cg_l1 (rc_genesis example_config), l2_seq_num = 0\<rparr>"

lemmas example_engine_defs = example_engine_client_def example_payload_lib_def initial_state_def example_rpc_block_def
  example_into_consensus_def

lemma example_genesis_infos:
  "from_block_and_genesis example_genesis_block (rc_genesis example_config) = Inr example_genesis_info"
  "cl_into_consensus (example_engine_client status) (example_rpc_block 0 0 0 []) = example_genesis_block"
  "default_l2_block_info \<noteq> example_genesis_info" "bi_number (l2_info example_genesis_info) = 0"
  "bi_number (l2_info default_l2_block_info) = 0"
  by (simp_all add: example_genesis_info_def example_genesis_block_def from_block_and_genesis_def block_info_from_def
      example_config_defs example_engine_defs default_l2_block_info_def default_block_info_def)

lemma example_finalize:
  assumes "bi_number (l2_info (ess_unsafe_head (es_sync_state st))) = 0" "ess_finalized_head (es_sync_state st) \<noteq> example_genesis_info"
  shows "task_execute (example_engine_client status) example_config (Finalize 0) ((), st) =
    Some (((), st\<lparr>es_sync_state := (es_sync_state st)\<lparr>ess_finalized_head := example_genesis_info\<rparr>, es_el_sync_finished := True\<rparr>), Good ())"
proof -
  let ?s = "es_sync_state st"
  have "?s \<noteq> ?s\<lparr>ess_finalized_head := example_genesis_info\<rparr>"
    using assms(2) by (metis engine_sync_state.select_convs(5) engine_sync_state.surjective engine_sync_state.update_convs(5))
  moreover have "cl_l2_get_block (example_engine_client status) () (ByNumber 0) = ((), Inr (Some (example_rpc_block 0 0 0 [])))"
      "ec_cfg (example_engine_client status) = example_config"
      "ec_fork_choice_updated_v3 (example_engine_client status) () f a = ((), Inr (Valid, Some 1))" for f a
    by (simp_all add: example_engine_client_def)
  ultimately show ?thesis
    using assms(1)
    by (subst task_execute.simps)
      (simp add: apply_updates example_genesis_infos check_forkchoice_updated_status_def map_run_def repeats_def)
qed

theorem task_effects_witness:
  "\<exists>st'. task_execute (example_engine_client Valid) example_config (Finalize 0) ((), initial_state) = Some (((), st'), Good ()) \<and>
     task_effect (example_engine_client Valid) example_config (Finalize 0) default_sync_state (es_sync_state st') \<and>
     ess_finalized_head (es_sync_state st') = example_genesis_info"
proof -
  have "task_execute (example_engine_client Valid) example_config (Finalize 0) ((), initial_state) =
    Some (((), initial_state\<lparr>es_sync_state := default_sync_state\<lparr>ess_finalized_head := example_genesis_info\<rparr>,
      es_el_sync_finished := True\<rparr>), Good ())"
    using example_finalize [of initial_state Valid] example_genesis_infos(3,5)
    by (simp add: initial_state_def default_sync_state_def)
  with task_effects [OF this] show ?thesis by (simp add: initial_state_def)
qed

section \<open>Draining the queue\<close>

fun priority :: "'p engine_task \<Rightarrow> nat" where
  "priority (Build _ _ _) = 3"
| "priority (Insert _ _) = 2"
| "priority (Consolidate _ _) = 1"
| "priority (Finalize _) = 0"

lemma task_cmp_priority:
  "task_cmp t u = (if priority t < priority u then Less else if priority t = priority u then Equal else Greater)"
  by (cases t; cases u) simp_all

text \<open>What \<^verbatim>\<open>BinaryHeap::peek\<close> promises: a greatest element.\<close>

definition heap_ok :: "('p engine_task list \<Rightarrow> nat) \<Rightarrow> bool" where
  "heap_ok heap_peek \<longleftrightarrow> (\<forall>ts. ts \<noteq> [] \<longrightarrow>
     heap_peek ts < length ts \<and> (\<forall>t\<in>set ts. task_cmp (ts ! heap_peek ts) t \<noteq> Less))"

fun run_tasks :: "('e, 'p) engine_client \<Rightarrow> rollup_config \<Rightarrow> 'p engine_task list \<Rightarrow> 'e \<times> engine_state \<Rightarrow> ('e \<times> engine_state) option" where
  "run_tasks C cfg [] s = Some s"
| "run_tasks C cfg (t # ts) s =
     (case task_execute C cfg t s of Some (s, Good _) \<Rightarrow> run_tasks C cfg ts s | _ \<Rightarrow> None)"

lemma engine_drain_induct [consumes 1, case_names Empty Next Stop]:
  assumes run: "engine_drain heap_peek C cfg s = Some r"
    and empty: "\<And>s. en_tasks (snd s) = [] \<Longrightarrow> Q s (s, Good ())"
    and step: "\<And>e en i e' st r. en_tasks en \<noteq> [] \<Longrightarrow> i = heap_peek (en_tasks en) \<Longrightarrow>
      task_execute C cfg (en_tasks en ! i) (e, en_state en) = Some ((e', st), Good ()) \<Longrightarrow>
      Q (e', task_done en i st) r \<Longrightarrow> Q (e, en) r"
    and stop: "\<And>e en i e' st x. en_tasks en \<noteq> [] \<Longrightarrow> i = heap_peek (en_tasks en) \<Longrightarrow>
      task_execute C cfg (en_tasks en ! i) (e, en_state en) = Some ((e', st), x) \<Longrightarrow> x \<noteq> Good () \<Longrightarrow>
      Q (e, en) ((e', en\<lparr>en_state := st\<rparr>), x)"
  shows "Q s r"
proof -
  have "heap_peek = heap_peek \<and> C = C \<and> cfg = cfg \<longrightarrow> Q s r"
  proof (rule engine_drain.raw_induct [where P = "\<lambda>p C' cfg' s r. p = heap_peek \<and> C' = C \<and> cfg' = cfg \<longrightarrow> Q s r", OF _ run], goal_cases)
    case (1 f p C' cfg' s r)
    obtain e en where s: "s = (e, en)" by (cases s)
    let ?i = "heap_peek (en_tasks en)"
    show ?case
    proof (intro impI, elim conjE)
      assume eqs: "p = heap_peek" "C' = C" "cfg' = cfg"
      show "Q s r"
      proof (cases "en_tasks en = []")
        case True
        with 1(2) s empty [of s] show ?thesis by simp
      next
        case False
        with 1(2) s eqs obtain e' st x where x: "task_execute C cfg (en_tasks en ! ?i) (e, en_state en) = Some ((e', st), x)"
            "(if x = Good () then f heap_peek C cfg (e', task_done en ?i st) else Some ((e', en\<lparr>en_state := st\<rparr>), x)) = Some r"
          by (auto simp: bind_eq_Some_conv cong: if_cong)
        show ?thesis
        proof (cases "x = Good ()")
          case True
          with x 1(1) have "Q (e', task_done en ?i st) r" by simp
          with step False x True s show ?thesis by blast
        next
          case bad: False
          with stop False x s show ?thesis by auto
        qed
      qed
    qed
  qed
  then show ?thesis by simp
qed

definition drained_by ::
    "('e, 'p) engine_client \<Rightarrow> rollup_config \<Rightarrow> 'e \<times> 'p engine \<Rightarrow> ('e \<times> 'p engine) \<times> (task_error, unit) outcome \<Rightarrow>
     'p engine_task list \<Rightarrow> bool" where
  "drained_by C cfg s r executed \<longleftrightarrow>
     (case (s, r) of ((e, en), ((e', en'), x)) \<Rightarrow>
        mset (en_tasks en) = mset executed + mset (en_tasks en') \<and>
        sorted_wrt (\<lambda>t u. priority u \<le> priority t) executed \<and>
        (\<forall>t\<in>set executed. \<forall>u\<in>set (en_tasks en'). priority u \<le> priority t) \<and>
        (\<exists>s1. run_tasks C cfg executed (e, en_state en) = Some s1 \<and>
          (if x = Good () then en_tasks en' = [] \<and> s1 = (e', en_state en')
           else \<exists>t\<in>set (en_tasks en'). (\<forall>u\<in>set (en_tasks en'). priority u \<le> priority t) \<and>
             task_execute C cfg t s1 = Some ((e', en_state en'), x))))"

lemma mset_remove_nth: "i < length xs \<Longrightarrow> mset xs = add_mset (xs ! i) (mset (remove_nth i xs))"
  using id_take_nth_drop [of i xs] by (metis remove_nth_def mset_append mset.simps(2) union_mset_add_mset_right)

lemma drain_drained_by:
  assumes heap: "heap_ok heap_peek" and "engine_drain heap_peek C cfg s = Some r"
  shows "\<exists>executed. drained_by C cfg s r executed"
  using assms(2)
proof (induction rule: engine_drain_induct)
  case (Empty s)
  then show ?case by (intro exI [of _ "[]"]) (auto simp: drained_by_def split: prod.splits)
next
  case (Next e en i e' st r)
  let ?t = "en_tasks en ! i"
  from Next.IH obtain ex where ex: "drained_by C cfg (e', task_done en i st) r ex" by blast
  have i: "i < length (en_tasks en)" "\<forall>u\<in>set (en_tasks en). priority u \<le> priority ?t"
    using heap Next(1,2) by (auto simp: heap_ok_def task_cmp_priority not_less split: if_splits)
  note m = mset_remove_nth [OF i(1)]
  obtain e2 en2 x where r: "r = ((e2, en2), x)" by (metis prod.exhaust)
  have all: "mset (en_tasks en) = mset (?t # ex) + mset (en_tasks en2)"
    using ex r m by (simp add: drained_by_def task_done_def)
  then have "set ex \<subseteq> set (en_tasks en)" "set (en_tasks en2) \<subseteq> set (en_tasks en)"
    by (metis UnCI set_mset_mset set_mset_union subsetI set_subset_Cons subsetD)+
  with i(2) have le: "\<forall>u\<in>set ex. priority u \<le> priority ?t" "\<forall>u\<in>set (en_tasks en2). priority u \<le> priority ?t" by auto
  have "drained_by C cfg (e, en) r (?t # ex)"
    using ex all le r Next(3) by (auto simp: drained_by_def task_done_def)
  then show ?case by blast
next
  case (Stop e en i e' st x)
  have i: "i < length (en_tasks en)" "\<forall>u\<in>set (en_tasks en). priority u \<le> priority (en_tasks en ! i)"
    using heap Stop(1,2) by (auto simp: heap_ok_def task_cmp_priority not_less split: if_splits)
  then have "drained_by C cfg (e, en) ((e', en\<lparr>en_state := st\<rparr>), x) []"
    using Stop by (auto simp: drained_by_def intro!: bexI [of _ "en_tasks en ! i"])
  then show ?case by blast
qed

text \<open>
  C34. Draining executes tasks by descending priority (builds, inserts, consolidations,
  finalizations), each until it no longer fails temporarily.  When it succeeds, the queue is
  empty and every task was executed; when it fails, the failed task and those not executed are
  still queued, and none of them has a higher priority than an executed one.
\<close>

theorem drain_by_priority:
  assumes "heap_ok heap_peek" and "engine_drain heap_peek C cfg (e, en) = Some ((e', en'), x)"
  shows "\<exists>executed s1. mset (en_tasks en) = mset executed + mset (en_tasks en') \<and>
    sorted_wrt (\<lambda>t u. priority u \<le> priority t) executed \<and>
    (\<forall>t\<in>set executed. \<forall>u\<in>set (en_tasks en'). priority u \<le> priority t) \<and>
    run_tasks C cfg executed (e, en_state en) = Some s1 \<and>
    (if x = Good () then en_tasks en' = [] \<and> s1 = (e', en_state en')
     else \<exists>t\<in>set (en_tasks en'). task_execute C cfg t s1 = Some ((e', en_state en'), x))"
  using drain_drained_by [OF assms] by (auto simp: drained_by_def split: if_splits)

definition example_peek :: "'p engine_task list \<Rightarrow> nat" where
  "example_peek ts = length (takeWhile (\<lambda>t. \<exists>u\<in>set ts. priority t < priority u) ts)"

lemma example_peek_ok: "heap_ok example_peek"
  unfolding heap_ok_def
proof (intro allI impI)
  fix ts :: "'p engine_task list"
  assume "ts \<noteq> []"
  then have "Max (priority ` set ts) \<in> priority ` set ts" by (intro Max_in) auto
  then obtain m where m: "m \<in> set ts" "Max (priority ` set ts) = priority m" by auto
  then have le: "\<forall>u\<in>set ts. priority u \<le> priority m"
    using Max_ge [of "priority ` set ts"] by fastforce
  let ?P = "\<lambda>t. \<exists>u\<in>set ts. priority t < priority u"
  have "\<not> ?P m" using le by auto
  with m(1) have "dropWhile ?P ts \<noteq> []" by (auto simp: dropWhile_eq_Nil_conv)
  then have "0 < length (dropWhile ?P ts)" unfolding length_greater_0_conv .
  moreover have "length ts = length (takeWhile ?P ts) + length (dropWhile ?P ts)"
    unfolding length_append [symmetric] takeWhile_dropWhile_id ..
  ultimately have l: "example_peek ts < length ts" unfolding example_peek_def by linarith
  then have "\<not> ?P (ts ! example_peek ts)"
    unfolding example_peek_def by (rule nth_length_takeWhile)
  with l show "example_peek ts < length ts \<and> (\<forall>t\<in>set ts. task_cmp (ts ! example_peek ts) t \<noteq> Less)"
    by (auto simp: task_cmp_priority)
qed

definition example_envelope :: "op_block payload_envelope" where
  "example_envelope = \<lparr>env_parent_beacon_block_root = None, env_execution_payload = example_genesis_block\<rparr>"

definition example_engine :: "op_block engine" where
  "example_engine = engine_enqueue (engine_enqueue (engine_new initial_state) (Finalize 0)) (Insert example_envelope False)"

lemma example_insert:
  "task_execute (example_engine_client Valid) example_config (Insert example_envelope False) ((), initial_state) =
   Some (((), initial_state\<lparr>es_sync_state := with_unsafe example_genesis_info False default_sync_state, es_el_sync_finished := True\<rparr>), Good ())"
proof -
  let ?C = "example_engine_client Valid"
  have call: "call_new_payload ?C () (env_execution_payload example_envelope) r = ((), Inr Valid, Inr example_genesis_block)" for r
    by (simp add: call_new_payload_def example_engine_defs example_envelope_def)
  have fcu: "ec_fork_choice_updated_v3 ?C () f a = ((), Inr (Valid, Some 1))" for f a
    by (simp add: example_engine_client_def)
  have ne: "default_sync_state \<noteq> with_unsafe example_genesis_info False default_sync_state"
    using example_genesis_infos(3) by (simp add: with_unsafe_def default_sync_state_def)
  have "synchronize_execute ?C (no_update\<lparr>esu_cross_unsafe_head := Some example_genesis_info, esu_unsafe_head := Some example_genesis_info,
      esu_local_safe_head := (if False then Some example_genesis_info else None), esu_safe_head := (if False then Some example_genesis_info else None)\<rparr>)
      ((), initial_state) =
    (((), initial_state\<lparr>es_sync_state := with_unsafe example_genesis_info False default_sync_state, es_el_sync_finished := True\<rparr>), Good ())"
    unfolding synchronize_execute.simps apply_updates
    using ne by (simp add: fcu initial_state_def check_forkchoice_updated_status_def with_unsafe_def default_sync_state_def example_genesis_infos)
  then show ?thesis
    by (subst task_execute.simps) (simp add: call example_genesis_infos map_run_def repeats_def del: synchronize_execute.simps)
qed

lemma example_drain:
  "\<exists>en'. engine_drain example_peek (example_engine_client Valid) example_config ((), example_engine) = Some (((), en'), Good ()) \<and>
     en_tasks en' = [] \<and> ess_finalized_head (es_sync_state (en_state en')) = example_genesis_info"
proof -
  let ?st = "initial_state\<lparr>es_sync_state := with_unsafe example_genesis_info False default_sync_state, es_el_sync_finished := True\<rparr>"
  have p: "en_tasks example_engine = [Finalize 0, Insert example_envelope False]" "en_state example_engine = initial_state"
      "example_peek [Finalize 0, Insert example_envelope False] = 1" "example_peek [Finalize 0 :: op_block engine_task] = 0"
    by (simp_all add: example_engine_def engine_enqueue_def engine_new_def example_peek_def)
  have f: "task_execute (example_engine_client Valid) example_config (Finalize 0) ((), ?st) =
      Some (((), ?st\<lparr>es_sync_state := (es_sync_state ?st)\<lparr>ess_finalized_head := example_genesis_info\<rparr>, es_el_sync_finished := True\<rparr>), Good ())"
    using example_genesis_infos(3,4) by (intro example_finalize) (simp_all add: with_unsafe_def default_sync_state_def)
  have d: "en_tasks (task_done example_engine 1 ?st) = [Finalize 0]" "en_state (task_done example_engine 1 ?st) = ?st"
    by (simp_all add: task_done_def p(1) remove_nth_def)
  let ?en = "task_done (task_done example_engine 1 ?st) 0 (?st\<lparr>es_sync_state := (es_sync_state ?st)\<lparr>ess_finalized_head := example_genesis_info\<rparr>, es_el_sync_finished := True\<rparr>)"
  have "engine_drain example_peek (example_engine_client Valid) example_config ((), example_engine) = Some (((), ?en), Good ())"
    apply (subst engine_drain.simps)
    apply (simp add: p example_insert del: One_nat_def)
    apply (subst engine_drain.simps)
    apply (simp add: d p(4) f del: One_nat_def)
    apply (subst engine_drain.simps)
    apply (simp add: task_done_def p(1) remove_nth_def)
    done
  then show ?thesis by (simp add: task_done_def p(1) remove_nth_def)
qed

theorem drain_by_priority_witness:
  "\<exists>en' executed. engine_drain example_peek (example_engine_client Valid) example_config ((), example_engine) = Some (((), en'), Good ()) \<and>
     mset executed = {#Finalize 0, Insert example_envelope False#} \<and>
     sorted_wrt (\<lambda>t u. priority u \<le> priority t) executed \<and>
     run_tasks (example_engine_client Valid) example_config executed ((), initial_state) = Some ((), en_state en')"
proof -
  obtain en' where en': "engine_drain example_peek (example_engine_client Valid) example_config ((), example_engine) = Some (((), en'), Good ())"
    using example_drain by blast
  have e: "en_tasks example_engine = [Finalize 0, Insert example_envelope False]" "en_state example_engine = initial_state"
    by (simp_all add: example_engine_def engine_enqueue_def engine_new_def)
  show ?thesis
    using drain_by_priority [OF example_peek_ok en'] en' e by auto
qed

section \<open>Reachable states\<close>

text \<open>
  The engine of an actor: tasks come in, the queue is drained, cleared or reset, and the
  execution layer may change by itself in between.
\<close>

inductive engine_reaches ::
    "('p engine_task list \<Rightarrow> nat) \<Rightarrow> ('e, 'p) engine_client \<Rightarrow> extra_data \<Rightarrow> rollup_config \<Rightarrow> 'e \<times> 'p engine \<Rightarrow> bool"
  for heap_peek C X cfg where
  New: "engine_reaches heap_peek C X cfg (e, engine_new initial_state)"
| Outside: "engine_reaches heap_peek C X cfg (e, en) \<Longrightarrow> engine_reaches heap_peek C X cfg (e', en)"
| Enqueue: "engine_reaches heap_peek C X cfg (e, en) \<Longrightarrow> engine_reaches heap_peek C X cfg (e, engine_enqueue en task)"
| Clear: "engine_reaches heap_peek C X cfg (e, en) \<Longrightarrow> engine_reaches heap_peek C X cfg (e, engine_clear en)"
| Drain: "engine_reaches heap_peek C X cfg s \<Longrightarrow> engine_drain heap_peek C cfg s = Some (s', x) \<Longrightarrow>
    engine_reaches heap_peek C X cfg s'"
| Reset: "engine_reaches heap_peek C X cfg s \<Longrightarrow> engine_reset C X cfg s = Some (s', y) \<Longrightarrow>
    engine_reaches heap_peek C X cfg s'"

lemma drain_heads_ok:
  "engine_drain heap_peek C cfg s = Some r \<Longrightarrow> heads_ok (es_sync_state (en_state (snd s))) \<Longrightarrow>
   heads_ok (es_sync_state (en_state (snd (fst r))))"
proof (induction rule: engine_drain_induct)
  case (Next e en i e' st r)
  with task_execute_ok [OF Next(3)] show ?case by (simp add: task_ok_def task_done_def Let_def)
next
  case (Stop e en i e' st x)
  with task_execute_ok [OF Stop(3)] show ?case by (simp add: task_ok_def Let_def)
qed simp

lemma reset_synchronize_heads_ok:
  assumes "reset_synchronize C u s = Some r" "heads_ok (es_sync_state (snd s))"
  shows "heads_ok (es_sync_state (snd (fst r)))"
proof -
  have "C = C \<and> u = u \<longrightarrow> heads_ok (es_sync_state (snd s)) \<longrightarrow> heads_ok (es_sync_state (snd (fst r)))"
  proof (rule reset_synchronize.raw_induct [where P = "\<lambda>C' u' s r. C' = C \<and> u' = u \<longrightarrow> heads_ok (es_sync_state (snd s)) \<longrightarrow>
      heads_ok (es_sync_state (snd (fst r)))", OF _ assms(1)], goal_cases)
    case (1 f C' u' s r)
    obtain e st where s: "s = (e, st)" by (cases s)
    obtain e' st' q where x: "synchronize_execute C u (e, st) = ((e', st'), q)" by (metis prod.exhaust)
    show ?case
    proof (intro impI, elim conjE)
      assume eqs: "C' = C" "u' = u" and ok: "heads_ok (es_sync_state (snd s))"
      have ok': "heads_ok (es_sync_state st')" using synchronize_effect(2) [OF x] ok s by simp
      have "(case q of Bad err \<Rightarrow> if synchronize_severity err = Critical then Some ((e', st'), Bad err) else f C u (e', st')
          | _ \<Rightarrow> Some ((e', st'), q)) = Some r"
        using 1(2) unfolding s eqs by (simp add: x del: synchronize_execute.simps)
      with ok' 1(1) [of C u "(e', st')" r] show "heads_ok (es_sync_state (snd (fst r)))"
        by (cases q) (auto split: if_splits)
    qed
  qed
  with assms(2) show ?thesis by simp
qed

lemma engine_reset_heads_ok:
  assumes "engine_reset C X cfg (e, en) = Some (s', y)" "heads_ok (es_sync_state (en_state en))"
  shows "heads_ok (es_sync_state (en_state (snd s')))"
proof -
  obtain e1 r where f: "find_starting_forkchoice (rpc_client.truncate C) cfg e = Some (e1, r)"
    using assms(1) by (auto simp: bind_eq_Some_conv Let_def)
  show ?thesis
  proof (cases r)
    case (Inr start)
    with assms(1) f obtain e2 st q where s: "reset_synchronize C (start_update start) (e1, en_state en) = Some ((e2, st), q)"
      by (auto simp: bind_eq_Some_conv Let_def engine_clear_def)
    have "heads_ok (es_sync_state st)" using reset_synchronize_heads_ok [OF s] assms(2) by simp
    moreover have "en_state (snd s') = st"
      using assms(1) f Inr s
      by (cases q) (auto simp: engine_clear_def Let_def simp del: reset_lookups.simps split: prod.splits sum.splits)
    ultimately show ?thesis by simp
  qed (use assms f in \<open>auto simp: engine_clear_def Let_def\<close>)
qed

text \<open>
  C35. In every state the engine reaches, by tasks, drains, resets and whatever the execution layer
  does, the finalized head is not ahead of the unsafe head.
\<close>

theorem finalized_behind_unsafe:
  assumes "engine_reaches heap_peek C X cfg (e, en)"
  shows "bi_number (l2_info (ess_finalized_head (es_sync_state (en_state en)))) \<le>
    bi_number (l2_info (ess_unsafe_head (es_sync_state (en_state en))))"
proof -
  have "heads_ok (es_sync_state (en_state (snd s)))" if "engine_reaches heap_peek C X cfg s" for s
    using that
  proof induction
    case (Drain s s' x)
    then show ?case using drain_heads_ok by fastforce
  next
    case (Reset s s' y)
    then show ?case using engine_reset_heads_ok [of C X cfg "fst s" "snd s" s' y] by simp
  qed (simp_all add: engine_new_def initial_state_def default_sync_state_def heads_ok_def engine_enqueue_def engine_clear_def)
  from this [OF assms] show ?thesis by (simp add: heads_ok_def)
qed

theorem finalized_behind_unsafe_witness:
  "\<exists>en. engine_reaches example_peek (example_engine_client Valid) example_extra_data example_config ((), en) \<and>
     ess_finalized_head (es_sync_state (en_state en)) = example_genesis_info \<and>
     bi_number (l2_info (ess_finalized_head (es_sync_state (en_state en)))) \<le>
       bi_number (l2_info (ess_unsafe_head (es_sync_state (en_state en))))"
proof -
  obtain en' where en': "engine_drain example_peek (example_engine_client Valid) example_config ((), example_engine) = Some (((), en'), Good ())"
      "ess_finalized_head (es_sync_state (en_state en')) = example_genesis_info"
    using example_drain by blast
  have "engine_reaches example_peek (example_engine_client Valid) example_extra_data example_config ((), example_engine)"
    unfolding example_engine_def by (intro New Enqueue)
  then have "engine_reaches example_peek (example_engine_client Valid) example_extra_data example_config ((), en')"
    using en'(1) by (rule Drain)
  with en'(2) finalized_behind_unsafe [OF this] show ?thesis by blast
qed

section \<open>The deposits-only fallback\<close>

text \<open>
  C36. Holocene's fallback is never taken for derived attributes.  Their first transaction is the L1
  info deposit, which makes \<^verbatim>\<open>is_deposits_only\<close> true whatever follows, so a payload that the
  execution layer rejects is a critical error, also when it has user transactions and Holocene is
  active.
\<close>

theorem deposits_only_fallback_dead:
  assumes "opa_transactions (oap_inner attributes) = Some ((DEPOSIT_TX_TYPE # tx) # txs)"
    and "build_and_insert C cfg attributes derived s = (s', Good (payload, Bad (insert_error.UnexpectedPayloadStatus status)))"
  shows "build_execute C cfg attributes derived payload_tx s = Some (s', Bad DepositOnlyPayloadFailed) \<and>
    severity (BuildError DepositOnlyPayloadFailed) = Critical"
  using assms by (subst build_execute.simps) (simp add: build_attempt_def is_deposits_only_def)

definition example_attributes :: op_attributes_with_parent where
  "example_attributes =
     \<lparr>oap_inner = \<lparr>opa_payload_attributes = \<lparr>pa_timestamp = 61, pa_prev_randao = 0, pa_suggested_fee_recipient = 0,
          pa_withdrawals = None, pa_parent_beacon_block_root = None\<rparr>,
        opa_transactions = Some [[DEPOSIT_TX_TYPE, 1], [2, 3]], opa_no_tx_pool = None, opa_gas_limit = None,
        opa_eip_1559_params = None, opa_min_base_fee = None\<rparr>,
      oap_parent = default_l2_block_info, oap_derived_from = None, oap_is_last_in_span = True\<rparr>"

theorem deposits_only_fallback_dead_witness:
  "is_holocene_active example_config (pa_timestamp (opa_payload_attributes (oap_inner example_attributes))) \<and>
   build_execute (example_engine_client (Invalid ''bad'')) example_config example_attributes True False ((), initial_state) =
     Some (((), initial_state), Bad DepositOnlyPayloadFailed)"
proof -
  let ?C = "example_engine_client (Invalid ''bad'')"
  have v: "forkchoice_version example_config 61 = EV3" "get_payload_version example_config 61 = EV3"
      "is_holocene_active example_config 61"
    by (simp_all add: forkchoice_version_def get_payload_version_def cfg_defs reached_def example_config_defs)
  have "build_and_insert ?C example_config example_attributes True ((), initial_state) =
      (((), initial_state), Good (\<lparr>env_parent_beacon_block_root = Some 0, env_execution_payload = example_genesis_block\<rparr>,
        Bad (insert_error.UnexpectedPayloadStatus (Invalid ''bad''))))"
    by (simp add: build_and_insert_def example_attributes_def v example_engine_defs default_sync_state_def
        from_payload_and_genesis_def example_genesis_infos(1) call_new_payload_def)
  from deposits_only_fallback_dead [OF _ this] v(3) show ?thesis by (simp add: example_attributes_def)
qed

end
