(* ===== verification/Merkle_Trie.thy ===== *)
theory Merkle_Trie
  imports Decoding
begin

text \<open>
  The Merkle Patricia trie of \<^verbatim>\<open>proof/mpt/src/node.rs\<close>: nodes, their lengths, encoding and hash, and
  reading, insertion and deletion, which reveal blinded nodes through a provider.  The relation
  \<open>holds\<close> says which map from paths to values a node stands for; the operations implement lookup,
  update and removal on that map, and the root hash depends on the map alone.

  A path is the list of its nibbles.  Hashing, RLP and the hex prefix encoding of paths are library
  code and come as the record \<open>trie_lib\<close>.
\<close>

section \<open>Nodes\<close>

type_synonym nibbles = "u8 list"

datatype trie_node =
    Empty
  | Blinded b256
  | Leaf nibbles bytes
  | Extension nibbles trie_node
  | Branch "trie_node list"

datatype trie_node_error =
    InvalidNodeType
  | PathTooShort
  | RLPError string
  | KeyNotFound
  | Provider string

record trie_lib =
  tl_keccak256 :: "bytes \<Rightarrow> b256"
  tl_empty_root_hash :: b256
  tl_list_header :: "nat \<Rightarrow> bytes"
  tl_list_header_length :: "nat \<Rightarrow> nat"
  tl_bytes :: "bytes \<Rightarrow> bytes"
  tl_bytes_length :: "bytes \<Rightarrow> nat"
  tl_b256 :: "b256 \<Rightarrow> bytes"
  tl_b256_length :: nat
  tl_length_of_length :: "nat \<Rightarrow> nat"
  tl_encode_path_leaf :: "nibbles \<Rightarrow> bool \<Rightarrow> bytes"

type_synonym trie_provider = "b256 \<Rightarrow> string + trie_node"
type_synonym trie_hinter = "b256 \<Rightarrow> string + unit"

definition BRANCH_LIST_LENGTH :: nat where
  "BRANCH_LIST_LENGTH = 17"

definition EMPTY_STRING_CODE :: u8 where
  "EMPTY_STRING_CODE = 0x80"

section \<open>Lengths, encoding and hash\<close>

definition encoded_key_len :: "trie_lib \<Rightarrow> nibbles \<Rightarrow> nat" where
  "encoded_key_len L prefix =
     (let n = length prefix div 2 + 1 in if n \<noteq> 1 then n + tl_length_of_length L n else n)"

text \<open>The length of a node inside its parent: that of a hash, if the node is not shorter than a hash.\<close>

definition blinded :: "trie_lib \<Rightarrow> nat \<Rightarrow> nat" where
  "blinded L encoded_len = (if 32 \<le> encoded_len then tl_b256_length L else encoded_len)"

text \<open>The length of a node's encoding, from the length of its payload.\<close>

fun length_with :: "trie_lib \<Rightarrow> trie_node \<Rightarrow> nat \<Rightarrow> nat" where
  "length_with L Empty n = 1"
| "length_with L (Blinded commitment) n = tl_b256_length L"
| "length_with L node n = tl_list_header_length L n + n"

fun payload_length :: "trie_lib \<Rightarrow> trie_node \<Rightarrow> nat" where
  "payload_length L Empty = 0"
| "payload_length L (Blinded commitment) = 32"
| "payload_length L (Leaf prefix val) = encoded_key_len L prefix + tl_bytes_length L val"
| "payload_length L (Extension prefix node) =
     encoded_key_len L prefix + blinded L (length_with L node (payload_length L node))"
| "payload_length L (Branch stack) =
     sum_list (map (\<lambda>node. blinded L (length_with L node (payload_length L node))) stack)"

definition trie_length :: "trie_lib \<Rightarrow> trie_node \<Rightarrow> nat" where
  "trie_length L t = length_with L t (payload_length L t)"

definition blinded_length :: "trie_lib \<Rightarrow> trie_node \<Rightarrow> nat" where
  "blinded_length L node = blinded L (trie_length L node)"

text \<open>The hash of a node, from its encoding.\<close>

fun blind_with :: "trie_lib \<Rightarrow> trie_node \<Rightarrow> bytes \<Rightarrow> b256" where
  "blind_with L (Blinded commitment) rlp_buf = commitment"
| "blind_with L Empty rlp_buf = tl_empty_root_hash L"
| "blind_with L node rlp_buf = tl_keccak256 L rlp_buf"

fun trie_encode :: "trie_lib \<Rightarrow> trie_node \<Rightarrow> bytes" where
  "trie_encode L Empty = [EMPTY_STRING_CODE]"
| "trie_encode L (Blinded commitment) = tl_b256 L commitment"
| "trie_encode L (Leaf prefix val) =
     tl_list_header L (payload_length L (Leaf prefix val)) @
     tl_bytes L (tl_encode_path_leaf L prefix True) @ tl_bytes L val"
| "trie_encode L (Extension prefix node) =
     tl_list_header L (payload_length L (Extension prefix node)) @
     tl_bytes L (tl_encode_path_leaf L prefix False) @
     (if 32 \<le> trie_length L node then tl_b256 L (blind_with L node (trie_encode L node)) else trie_encode L node)"
| "trie_encode L (Branch stack) =
     tl_list_header L (payload_length L (Branch stack)) @
     concat (map (\<lambda>node.
       if 32 \<le> trie_length L node then tl_b256 L (blind_with L node (trie_encode L node)) else trie_encode L node) stack)"

definition blind :: "trie_lib \<Rightarrow> trie_node \<Rightarrow> b256" where
  "blind L t = blind_with L t (trie_encode L t)"

lemma trie_length_simps [simp]:
  "trie_length L Empty = 1" "trie_length L (Blinded h) = tl_b256_length L"
  "trie_length L (Leaf p v) = (let n = payload_length L (Leaf p v) in tl_list_header_length L n + n)"
  "trie_length L (Extension p t) = (let n = payload_length L (Extension p t) in tl_list_header_length L n + n)"
  "trie_length L (Branch stack) = (let n = payload_length L (Branch stack) in tl_list_header_length L n + n)"
  by (simp_all add: trie_length_def Let_def)

lemma blind_simps [simp]:
  "blind L (Blinded h) = h" "blind L Empty = tl_empty_root_hash L"
  "blind L (Leaf p v) = tl_keccak256 L (trie_encode L (Leaf p v))"
  "blind L (Extension p t) = tl_keccak256 L (trie_encode L (Extension p t))"
  "blind L (Branch stack) = tl_keccak256 L (trie_encode L (Branch stack))"
  by (simp_all add: blind_def)

lemmas node_folds [simp] = trie_length_def [symmetric] blind_def [symmetric]

section \<open>Operations\<close>

fun unblind :: "trie_lib \<Rightarrow> trie_provider \<Rightarrow> trie_node \<Rightarrow> trie_node \<times> (trie_node_error + unit)" where
  "unblind L fetcher (Blinded commitment) =
     (if commitment = tl_empty_root_hash L then (Empty, Inr ())
      else case fetcher commitment of
        Inl e \<Rightarrow> (Blinded commitment, Inl (Provider e))
      | Inr node \<Rightarrow> (node, Inr ()))"
| "unblind L fetcher node = (node, Inr ())"

type_synonym 'a trie_run = "trie_node \<times> (trie_node_error, 'a) outcome"

partial_function (option) trie_open ::
    "trie_lib \<Rightarrow> trie_provider \<Rightarrow> nibbles \<Rightarrow> trie_node \<Rightarrow> bytes option trie_run option" where
  "trie_open L fetcher path t =
     (case t of
        Branch stack \<Rightarrow>
          (case path of
             [] \<Rightarrow> Some (t, Bad PathTooShort)
           | branch_nibble # rest \<Rightarrow>
               if unat branch_nibble < length stack
               then Option.bind (trie_open L fetcher rest (stack ! unat branch_nibble))
                 (\<lambda>(node, r). Some (Branch (stack[unat branch_nibble := node]), r))
               else Some (t, Good None))
      | Leaf prefix val \<Rightarrow> Some (t, Good (if path = prefix then Some val else None))
      | Extension prefix node \<Rightarrow>
          if length path < length prefix then Some (t, Panic)
          else if take (length prefix) path = prefix then
            (case unblind L fetcher node of
               (node, Inl e) \<Rightarrow> Some (Extension prefix node, Bad e)
             | (node, Inr _) \<Rightarrow>
                 Option.bind (trie_open L fetcher (drop (length prefix) path) node)
                   (\<lambda>(node, r). Some (Extension prefix node, r)))
          else Some (t, Good None)
      | Blinded _ \<Rightarrow>
          (case unblind L fetcher t of
             (node, Inl e) \<Rightarrow> Some (node, Bad e)
           | (node, Inr _) \<Rightarrow> trie_open L fetcher path node)
      | Empty \<Rightarrow> Some (t, Good None))"

fun common_prefix_length :: "nibbles \<Rightarrow> nibbles \<Rightarrow> nat" where
  "common_prefix_length (x # xs) (y # ys) = (if x = y then Suc (common_prefix_length xs ys) else 0)"
| "common_prefix_length _ _ = 0"

text \<open>
  The branch that replaces a leaf or an extension: the shortened node and a new leaf, behind an
  extension if nibbles are shared.
\<close>

definition fork_node ::
    "trie_node \<Rightarrow> nibbles \<Rightarrow> nibbles \<Rightarrow> nat \<Rightarrow> bytes \<Rightarrow> (trie_node_error, trie_node) outcome" where
  "fork_node shortened prefix path shared val =
     (let stack = replicate BRANCH_LIST_LENGTH Empty in
      if length prefix \<le> shared then Bad PathTooShort
      else if BRANCH_LIST_LENGTH \<le> unat (prefix ! shared) then Panic
      else let stack = stack[unat (prefix ! shared) := shortened] in
      if length path \<le> shared then Bad PathTooShort
      else if BRANCH_LIST_LENGTH \<le> unat (path ! shared) then Panic
      else let stack = stack[unat (path ! shared) := Leaf (drop (shared + 1) path) val] in
      Good (if shared = 0 then Branch stack else Extension (take shared path) (Branch stack)))"

fun replace_self :: "trie_node \<Rightarrow> (trie_node_error, trie_node) outcome \<Rightarrow> unit trie_run" where
  "replace_self t (Good t') = (t', Good ())"
| "replace_self t (Bad e) = (t, Bad e)"
| "replace_self t Panic = (t, Panic)"

partial_function (option) trie_insert ::
    "trie_lib \<Rightarrow> trie_provider \<Rightarrow> nibbles \<Rightarrow> bytes \<Rightarrow> trie_node \<Rightarrow> unit trie_run option" where
  "trie_insert L fetcher path val t =
     (case t of
        Empty \<Rightarrow> Some (Leaf path val, Good ())
      | Leaf prefix leaf_value \<Rightarrow>
          let shared = common_prefix_length path prefix in
          if path = prefix then Some (Leaf prefix val, Good ())
          else Some (replace_self t
            (fork_node (Leaf (drop (shared + 1) prefix) leaf_value) prefix path shared val))
      | Extension prefix node \<Rightarrow>
          let shared = common_prefix_length path prefix in
          if shared = length prefix
          then Option.bind (trie_insert L fetcher (drop shared path) val node)
            (\<lambda>(node, r). Some (Extension prefix node, r))
          else Some (replace_self t
            (fork_node (let new_prefix = drop (shared + 1) prefix in
               if new_prefix = [] then node else Extension new_prefix node) prefix path shared val))
      | Branch stack \<Rightarrow>
          (case path of
             [] \<Rightarrow> Some (t, Bad PathTooShort)
           | branch_nibble # rest \<Rightarrow>
               if unat branch_nibble < length stack
               then Option.bind (trie_insert L fetcher rest val (stack ! unat branch_nibble))
                 (\<lambda>(node, r). Some (Branch (stack[unat branch_nibble := node]), r))
               else Some (t, Panic))
      | Blinded _ \<Rightarrow>
          (case unblind L fetcher t of
             (node, Inl e) \<Rightarrow> Some (node, Bad e)
           | (node, Inr _) \<Rightarrow> trie_insert L fetcher path val node))"

definition non_empty_children :: "trie_node list \<Rightarrow> nat list" where
  "non_empty_children stack = filter (\<lambda>i. stack ! i \<noteq> Empty) [0..<length stack]"

fun collapse_extension :: "nibbles \<Rightarrow> trie_node \<Rightarrow> trie_node" where
  "collapse_extension prefix (Extension child_prefix child_node) = Extension (prefix @ child_prefix) child_node"
| "collapse_extension prefix (Leaf child_prefix child_value) = Leaf (prefix @ child_prefix) child_value"
| "collapse_extension prefix Empty = Empty"
| "collapse_extension prefix node = Extension prefix node"

partial_function (option) collapse_if_possible ::
    "trie_lib \<Rightarrow> trie_provider \<Rightarrow> trie_hinter \<Rightarrow> trie_node \<Rightarrow> unit trie_run option" where
  "collapse_if_possible L fetcher hinter t =
     (case t of
        Extension prefix node \<Rightarrow> Some (collapse_extension prefix node, Good ())
      | Branch stack \<Rightarrow>
          if length (non_empty_children stack) = 1 then
            let index = hd (non_empty_children stack) in
            (case stack ! index of
               Leaf prefix val \<Rightarrow> Some (Leaf (word_of_nat index # prefix) val, Good ())
             | Extension prefix node \<Rightarrow> Some (Extension (word_of_nat index # prefix) node, Good ())
             | Branch s \<Rightarrow> Some (Extension [word_of_nat index] (Branch s), Good ())
             | Blinded commitment \<Rightarrow>
                 (case hinter commitment of
                    Inl e \<Rightarrow> Some (t, Bad (Provider e))
                  | Inr _ \<Rightarrow>
                      (case unblind L fetcher (Blinded commitment) of
                         (node, Inl e) \<Rightarrow> Some (Branch (stack[index := node]), Bad e)
                       | (node, Inr _) \<Rightarrow> collapse_if_possible L fetcher hinter (Branch (stack[index := node]))))
             | Empty \<Rightarrow> Some (t, Good ()))
          else Some (t, Good ())
      | _ \<Rightarrow> Some (t, Good ()))"

text \<open>The end of a deletion in a child: the error of the child, or the collapse of the parent.\<close>

definition collapse_after ::
    "trie_lib \<Rightarrow> trie_provider \<Rightarrow> trie_hinter \<Rightarrow> (trie_node \<Rightarrow> trie_node) \<Rightarrow> unit trie_run \<Rightarrow> unit trie_run option" where
  "collapse_after L fetcher hinter parent r =
     (case r of
        (node, Good _) \<Rightarrow> collapse_if_possible L fetcher hinter (parent node)
      | (node, Bad e) \<Rightarrow> Some (parent node, Bad e)
      | (node, Panic) \<Rightarrow> Some (parent node, Panic))"

partial_function (option) trie_delete ::
    "trie_lib \<Rightarrow> trie_provider \<Rightarrow> trie_hinter \<Rightarrow> nibbles \<Rightarrow> trie_node \<Rightarrow> unit trie_run option" where
  "trie_delete L fetcher hinter path t =
     (case t of
        Empty \<Rightarrow> Some (t, Bad KeyNotFound)
      | Leaf prefix val \<Rightarrow> Some (if path = prefix then (Empty, Good ()) else (t, Bad KeyNotFound))
      | Extension prefix node \<Rightarrow>
          let shared_nibbles = common_prefix_length path prefix in
          if shared_nibbles < length prefix then Some (t, Bad KeyNotFound)
          else if shared_nibbles = length path then Some (Empty, Good ())
          else Option.bind (trie_delete L fetcher hinter (drop (length prefix) path) node)
            (collapse_after L fetcher hinter (Extension prefix))
      | Branch stack \<Rightarrow>
          (case path of
             [] \<Rightarrow> Some (t, Bad PathTooShort)
           | branch_nibble # rest \<Rightarrow>
               if unat branch_nibble < length stack
               then Option.bind (trie_delete L fetcher hinter rest (stack ! unat branch_nibble))
                 (collapse_after L fetcher hinter (\<lambda>node. Branch (stack[unat branch_nibble := node])))
               else Some (t, Panic))
      | Blinded _ \<Rightarrow>
          (case unblind L fetcher t of
             (node, Inl e) \<Rightarrow> Some (node, Bad e)
           | (node, Inr _) \<Rightarrow> trie_delete L fetcher hinter path node))"

section \<open>What a node stands for\<close>

type_synonym contents = "nibbles \<Rightarrow> bytes option"

text \<open>The contents below a prefix, and those of a branch from the contents of its children.\<close>

definition below :: "nibbles \<Rightarrow> contents \<Rightarrow> contents" where
  "below p m q = (if take (length p) q = p then m (drop (length p) q) else None)"

fun branches :: "(nat \<Rightarrow> contents) \<Rightarrow> contents" where
  "branches f [] = None"
| "branches f (x # q) = (if unat x < 16 then f (unat x) q else None)"

definition valid_nibbles :: "nibbles \<Rightarrow> bool" where
  "valid_nibbles p \<longleftrightarrow> (\<forall>x\<in>set p. unat x < 16)"

text \<open>
  A node in canonical form and its contents, which are never empty: branches have at least two
  children and no value, extensions lead to branches (the flag says that a node is a branch, once
  revealed), and a blinded node is the hash of a node that the provider knows and that is not
  shorter than a hash.
\<close>

inductive holds :: "trie_lib \<Rightarrow> trie_provider \<Rightarrow> bool \<Rightarrow> contents \<Rightarrow> trie_node \<Rightarrow> bool" for L F where
  holds_Leaf: "valid_nibbles p \<Longrightarrow> holds L F False [p \<mapsto> v] (Leaf p v)"
| holds_Extension:
    "p \<noteq> [] \<Longrightarrow> valid_nibbles p \<Longrightarrow> holds L F True m t \<Longrightarrow> holds L F False (below p m) (Extension p t)"
| holds_Branch:
    "length stack = 17 \<Longrightarrow> stack ! 16 = Empty \<Longrightarrow>
     \<forall>i<16. stack ! i = Empty \<and> f i = Map.empty \<or> (\<exists>b. holds L F b (f i) (stack ! i)) \<Longrightarrow>
     i < 16 \<Longrightarrow> j < 16 \<Longrightarrow> i \<noteq> j \<Longrightarrow> stack ! i \<noteq> Empty \<Longrightarrow> stack ! j \<noteq> Empty \<Longrightarrow>
     holds L F True (branches f) (Branch stack)"
| holds_Blinded:
    "h \<noteq> tl_empty_root_hash L \<Longrightarrow> F h = Inr t \<Longrightarrow> blind L t = h \<Longrightarrow> 32 \<le> trie_length L t \<Longrightarrow>
     holds L F b m t \<Longrightarrow> holds L F b m (Blinded h)"

text \<open>A root may be empty, and may be the hash of a short node.\<close>

definition trie_holds :: "trie_lib \<Rightarrow> trie_provider \<Rightarrow> contents \<Rightarrow> trie_node \<Rightarrow> bool" where
  "trie_holds L F m t \<longleftrightarrow>
     m = Map.empty \<and> (t = Empty \<or> t = Blinded (tl_empty_root_hash L)) \<or>
     (\<exists>b. holds L F b m t) \<or>
     (\<exists>h t' b. t = Blinded h \<and> h \<noteq> tl_empty_root_hash L \<and> F h = Inr t' \<and> blind L t' = h \<and> holds L F b m t')"

text \<open>No key is a proper prefix of another, as with keys of one length.\<close>

definition prefix_free :: "nibbles set \<Rightarrow> bool" where
  "prefix_free A \<longleftrightarrow> (\<forall>p\<in>A. \<forall>q\<in>A. \<forall>r. q = p @ r \<longrightarrow> r = [])"

subsection \<open>Contents\<close>

lemma below_append [simp]: "below p m (p @ q) = m q"
  by (simp add: below_def)

lemma below_Nil [simp]: "below [] m = m"
  by (rule ext) (simp add: below_def)

lemma below_neq: "take (length p) q \<noteq> p \<Longrightarrow> below p m q = None"
  by (simp add: below_def)

lemma below_eq_Some: "below p m q = Some v \<longleftrightarrow> (\<exists>r. q = p @ r \<and> m r = Some v)"
  by (auto simp: below_def) (metis append_take_drop_id)

lemma contents_eqI: "(\<And>q v. m q = Some v \<longleftrightarrow> m' q = Some v) \<Longrightarrow> m = (m' :: contents)"
  by (rule ext) (metis option.exhaust)

lemma below_below: "below p (below q m) = below (p @ q) m"
  by (rule contents_eqI) (auto simp: below_eq_Some)

lemma below_update: "below p (m(q := v)) = (below p m)(p @ q := v)"
proof
  fix r show "below p (m(q := v)) r = ((below p m)(p @ q := v)) r"
  proof (cases "take (length p) r = p")
    case True
    then obtain s where "r = p @ s" by (metis append_take_drop_id)
    then show ?thesis by simp
  qed (auto simp: below_def)
qed

lemma below_single: "below p [q \<mapsto> v] = [p @ q \<mapsto> v]"
  using below_update [of p Map.empty q "Some v"] by (simp add: below_def fun_eq_iff)

lemma below_inject: "below p m = below p m' \<Longrightarrow> m = m'"
proof
  fix q assume "below p m = below p m'"
  then have "below p m (p @ q) = below p m' (p @ q)" by simp
  then show "m q = m' q" by simp
qed

lemma branches_eq_Some: "branches f q = Some v \<longleftrightarrow> (\<exists>x r. q = x # r \<and> unat x < 16 \<and> f (unat x) r = Some v)"
  by (cases q) auto

lemma branches_update:
  "unat x < 16 \<Longrightarrow> branches (f(unat x := (f (unat x))(q := v))) = (branches f)(x # q := v)"
  by (rule ext, rename_tac r, case_tac r) (auto simp: word_unat_eq_iff)

lemma branches_one:
  assumes "i < 16" "\<And>j. j < 16 \<Longrightarrow> j \<noteq> i \<Longrightarrow> f j = Map.empty"
  shows "branches f = below [word_of_nat i] (f i)"
proof
  fix q :: nibbles
  have i: "unat (word_of_nat i :: u8) = i" using assms(1) by (simp add: unat_of_nat)
  show "branches f q = below [word_of_nat i] (f i) q"
  proof (cases q)
    case (Cons x r)
    then show ?thesis
      using assms i by (cases "unat x = i") (auto simp: below_def word_unat_eq_iff)
  qed (simp add: below_def)
qed

lemma branches_cong: "(\<And>i. i < 16 \<Longrightarrow> f i = g i) \<Longrightarrow> branches f = branches g"
  by (rule ext, rename_tac q, case_tac q) auto

lemma branches_inject:
  assumes "branches f = branches g" "i < 16" shows "f i = g i"
proof
  fix q
  have "branches f (word_of_nat i # q) = branches g (word_of_nat i # q)" using assms(1) by simp
  then show "f i q = g i q" using assms(2) by (simp add: unat_of_nat)
qed

lemma common_prefix:
  "\<exists>c r s. p = c @ r \<and> q = c @ s \<and> common_prefix_length p q = length c \<and> (r = [] \<or> s = [] \<or> hd r \<noteq> hd s)"
proof (induction p q rule: common_prefix_length.induct)
  case (1 x xs y ys)
  show ?case
  proof (cases "x = y")
    case True
    with 1 obtain c r s where "xs = c @ r" "ys = c @ s" "common_prefix_length xs ys = length c"
        "r = [] \<or> s = [] \<or> hd r \<noteq> hd s" by blast
    with True show ?thesis by (intro exI [of _ "x # c"] exI [of _ r] exI [of _ s]) simp
  next
    case False
    then show ?thesis by (intro exI [of _ "[]"] exI [of _ "x # xs"] exI [of _ "y # ys"]) simp
  qed
qed simp_all

lemma valid_nibbles_simps [simp]:
  "valid_nibbles []" "valid_nibbles (x # p) \<longleftrightarrow> unat x < 16 \<and> valid_nibbles p"
  "valid_nibbles (p @ q) \<longleftrightarrow> valid_nibbles p \<and> valid_nibbles q"
  by (auto simp: valid_nibbles_def)

lemma prefix_free_below:
  assumes "prefix_free (insert (p @ q) (dom (below p m)))" shows "prefix_free (insert q (dom m))"
  unfolding prefix_free_def
proof (intro ballI allI impI)
  fix a b r assume "a \<in> insert q (dom m)" "b \<in> insert q (dom m)" "b = a @ r"
  then have "p @ a \<in> insert (p @ q) (dom (below p m))" "p @ b \<in> insert (p @ q) (dom (below p m))" "p @ b = (p @ a) @ r" by auto
  with assms show "r = []" unfolding prefix_free_def by blast
qed

lemma prefix_free_branches:
  assumes "prefix_free (insert (x # q) (dom (branches f)))" "unat x < 16"
  shows "prefix_free (insert q (dom (f (unat x))))"
  unfolding prefix_free_def
proof (intro ballI allI impI)
  fix a b r assume "a \<in> insert q (dom (f (unat x)))" "b \<in> insert q (dom (f (unat x)))" "b = a @ r"
  then have "x # a \<in> insert (x # q) (dom (branches f))" "x # b \<in> insert (x # q) (dom (branches f))" "x # b = (x # a) @ r"
    using assms(2) by auto
  with assms(1) show "r = []" unfolding prefix_free_def by blast
qed

lemma prefix_free_uniform:
  assumes "\<And>p. p \<in> A \<Longrightarrow> length p = n" shows "prefix_free A"
  unfolding prefix_free_def
proof (intro ballI allI impI)
  fix p q r assume "p \<in> A" "q \<in> A" "q = p @ r"
  with assms [of p] assms [of q] show "r = []" by simp
qed

subsection \<open>Nodes and their contents\<close>

definition children_hold :: "trie_lib \<Rightarrow> trie_provider \<Rightarrow> (nat \<Rightarrow> contents) \<Rightarrow> trie_node list \<Rightarrow> bool" where
  "children_hold L F f stack \<longleftrightarrow> length stack = 17 \<and> stack ! 16 = Empty \<and>
     (\<forall>i<16. stack ! i = Empty \<and> f i = Map.empty \<or> (\<exists>b. holds L F b (f i) (stack ! i)))"

definition two_children :: "trie_node list \<Rightarrow> bool" where
  "two_children stack \<longleftrightarrow> (\<exists>i<16. \<exists>j<16. i \<noteq> j \<and> stack ! i \<noteq> Empty \<and> stack ! j \<noteq> Empty)"

lemma holds_BranchI: "children_hold L F f stack \<Longrightarrow> two_children stack \<Longrightarrow> holds L F True (branches f) (Branch stack)"
  unfolding children_hold_def two_children_def using holds_Branch by blast

lemma holds_induct [consumes 1, case_names Leaf Extension Branch Blinded]:
  assumes "holds L F b m t"
    and "\<And>p v. valid_nibbles p \<Longrightarrow> P False [p \<mapsto> v] (Leaf p v)"
    and "\<And>p m t. p \<noteq> [] \<Longrightarrow> valid_nibbles p \<Longrightarrow> holds L F True m t \<Longrightarrow> P True m t \<Longrightarrow> P False (below p m) (Extension p t)"
    and "\<And>f stack. children_hold L F f stack \<Longrightarrow> two_children stack \<Longrightarrow>
      (\<And>i. i < 16 \<Longrightarrow> stack ! i \<noteq> Empty \<Longrightarrow> \<exists>b. holds L F b (f i) (stack ! i) \<and> P b (f i) (stack ! i)) \<Longrightarrow>
      P True (branches f) (Branch stack)"
    and "\<And>h t b m. h \<noteq> tl_empty_root_hash L \<Longrightarrow> F h = Inr t \<Longrightarrow> blind L t = h \<Longrightarrow> 32 \<le> trie_length L t \<Longrightarrow>
      holds L F b m t \<Longrightarrow> P b m t \<Longrightarrow> P b m (Blinded h)"
  shows "P b m t"
  using assms(1)
proof (induction rule: holds.induct)
  case (holds_Branch stack f i j)
  show ?case
  proof (rule assms(4))
    show "children_hold L F f stack" unfolding children_hold_def using holds_Branch by blast
    show "two_children stack" unfolding two_children_def using holds_Branch by blast
    fix i assume "i < 16" "stack ! i \<noteq> Empty"
    with holds_Branch.IH show "\<exists>b. holds L F b (f i) (stack ! i) \<and> P b (f i) (stack ! i)" by blast
  qed
qed (use assms in blast)+

lemma holds_not_Empty: "holds L F b m t \<Longrightarrow> t \<noteq> Empty"
  by (erule holds.cases) auto

lemma children_hold_cases:
  assumes "children_hold L F f stack" "i < 16"
  obtains "stack ! i = Empty" "f i = Map.empty" | b where "stack ! i \<noteq> Empty" "holds L F b (f i) (stack ! i)"
  using assms holds_not_Empty unfolding children_hold_def by blast

lemma children_hold_update:
  assumes "children_hold L F f stack" "i < 16" "t = Empty \<and> m = Map.empty \<or> holds L F b m t"
  shows "children_hold L F (f(i := m)) (stack[i := t])"
  using assms unfolding children_hold_def by (auto simp: nth_list_update)

lemma nth_update_not_Empty: "k < length stack \<Longrightarrow> t \<noteq> Empty \<Longrightarrow> stack ! k \<noteq> Empty \<Longrightarrow> stack[i := t] ! k \<noteq> Empty"
  by (cases "i = k") auto

lemma two_children_update:
  assumes "two_children stack" "length stack = 17" "t \<noteq> Empty"
  shows "two_children (stack[i := t])"
proof -
  obtain j k where jk: "j < 16" "k < 16" "j \<noteq> k" "stack ! j \<noteq> Empty" "stack ! k \<noteq> Empty"
    using assms(1) unfolding two_children_def by blast
  with assms(2,3) have "stack[i := t] ! j \<noteq> Empty" "stack[i := t] ! k \<noteq> Empty" by (simp_all add: nth_update_not_Empty)
  with jk show ?thesis unfolding two_children_def by blast
qed

lemma holds_some: "holds L F b m t \<Longrightarrow> \<exists>q v. m q = Some v"
proof (induction rule: holds_induct)
  case (Extension p m t)
  then obtain q v where "m q = Some v" by blast
  then have "below p m (p @ q) = Some v" by simp
  then show ?case by blast
next
  case (Branch f stack)
  then obtain i where i: "i < 16" "stack ! i \<noteq> Empty" unfolding two_children_def by blast
  with Branch(3) obtain q v where "f i q = Some v" by blast
  with i(1) have "branches f (word_of_nat i # q) = Some v" by (simp add: unat_of_nat)
  then show ?case by blast
qed auto

lemma holds_keys_valid: "holds L F b m t \<Longrightarrow> m q = Some v \<Longrightarrow> valid_nibbles q"
proof (induction arbitrary: q v rule: holds_induct)
  case (Branch f stack)
  from Branch(4) obtain x r where q: "q = x # r" "unat x < 16" "f (unat x) r = Some v"
    by (auto simp: branches_eq_Some)
  with Branch(1) have "stack ! unat x \<noteq> Empty" by (auto elim: children_hold_cases)
  with Branch(3) q show ?case by fastforce
qed (auto simp: below_eq_Some split: if_splits)

text \<open>A branch has two keys that differ in their first nibble.\<close>

lemma holds_branch_keys:
  assumes "holds L F True m t"
  obtains x y q r v w where "x \<noteq> y" "m (x # q) = Some v" "m (y # r) = Some w" "m [] = None"
proof -
  have "b \<longrightarrow> (\<exists>x y q r v w. x \<noteq> y \<and> m (x # q) = Some v \<and> m (y # r) = Some w \<and> m [] = None)" if "holds L F b m t" for b
    using that
  proof (induction rule: holds_induct)
    case (Branch f stack)
    then obtain i j where ij: "i < 16" "j < 16" "i \<noteq> j" "stack ! i \<noteq> Empty" "stack ! j \<noteq> Empty"
      unfolding two_children_def by blast
    then obtain q r v w where "f i q = Some v" "f j r = Some w" using Branch(3) holds_some by metis
    with ij have "branches f (word_of_nat i # q) = Some v" "branches f (word_of_nat j # r) = Some w"
        "(word_of_nat i :: u8) \<noteq> word_of_nat j"
      by (simp_all add: unat_of_nat word_unat_eq_iff)
    then show ?case by (metis branches.simps(1))
  qed auto
  from this [OF assms] that show ?thesis by blast
qed

lemma unblind_holds: "holds L F b m t \<Longrightarrow> \<exists>t'. unblind L F t = (t', Inr ()) \<and> holds L F b m t'"
  by (erule holds.cases) (auto intro: holds.intros)

section \<open>Reading\<close>

lemma open_unblind: "unblind L F t = (t', Inr ()) \<Longrightarrow> trie_open L F path t = trie_open L F path t'"
  by (cases t) (auto simp: trie_open.simps [of L F path "Blinded _"])

lemma open_Empty [simp]: "trie_open L F path Empty = Some (Empty, Good None)"
  by (simp add: trie_open.simps)

lemma open_Branch_holds:
  assumes "children_hold L F f stack" "two_children stack"
    and IH: "\<And>b. stack ! unat x \<noteq> Empty \<Longrightarrow> unat x < 16 \<Longrightarrow>
      \<exists>t' b. trie_open L F q (stack ! unat x) = Some (t', Good (f (unat x) q)) \<and> holds L F b (f (unat x)) t'"
  shows "\<exists>t'. trie_open L F (x # q) (Branch stack) = Some (t', Good (branches f (x # q))) \<and> holds L F True (branches f) t'"
proof (cases "unat x < 16")
  case x: True
  then have len: "unat x < length stack" using assms(1) by (simp add: children_hold_def)
  from assms(1) x show ?thesis
  proof (cases rule: children_hold_cases)
    case 1
    moreover from 1 have "stack[unat x := Empty] = stack" by (metis list_update_id)
    ultimately show ?thesis using assms(1,2) x len by (subst trie_open.simps) (auto intro: holds_BranchI)
  next
    case 2
    with IH x obtain t' b where t': "trie_open L F q (stack ! unat x) = Some (t', Good (f (unat x) q))" "holds L F b (f (unat x)) t'"
      by blast
    have "holds L F True (branches (f(unat x := f (unat x)))) (Branch (stack[unat x := t']))"
      using assms t'(2) x by (intro holds_BranchI children_hold_update two_children_update)
        (auto simp: holds_not_Empty children_hold_def)
    with t'(1) x len show ?thesis by (subst trie_open.simps) simp
  qed
next
  case x: False
  then consider "\<not> unat x < length stack" | "unat x = 16" "unat x < length stack" "stack ! 16 = Empty"
    using assms(1) by (force simp: children_hold_def)
  then show ?thesis
  proof cases
    case 2
    then have "stack[16 := Empty] = stack" by (metis list_update_id)
    with 2 x assms(1,2) show ?thesis by (subst trie_open.simps) (auto intro: holds_BranchI)
  qed (use x assms(1,2) in \<open>subst trie_open.simps, auto intro: holds_BranchI\<close>)
qed

lemma open_holds:
  "holds L F b m t \<Longrightarrow> (\<And>q v. m q = Some v \<Longrightarrow> length q \<le> length path) \<Longrightarrow>
   \<exists>t'. trie_open L F path t = Some (t', Good (m path)) \<and> holds L F b m t'"
proof (induction arbitrary: path rule: holds_induct)
  case (Leaf p v)
  then show ?case by (subst trie_open.simps) (auto intro: holds_Leaf)
next
  case (Extension p m t)
  from holds_some [OF Extension(3)] obtain q v where "m q = Some v" by blast
  then have len: "length p \<le> length path" using Extension(5) [of "p @ q" v] by simp
  show ?case
  proof (cases "take (length p) path = p")
    case True
    then obtain r where path: "path = p @ r" by (metis append_take_drop_id)
    have "length q \<le> length r" if "m q = Some v" for q v using Extension(5) [of "p @ q" v] that path by simp
    with Extension(4) obtain t' where t': "trie_open L F r t = Some (t', Good (m r))" "holds L F True m t'" by blast
    obtain t0 where t0: "unblind L F t = (t0, Inr ())" using unblind_holds [OF Extension(3)] by blast
    have "trie_open L F path (Extension p t) = Some (Extension p t', Good (m r))"
      using t0 t'(1) open_unblind [OF t0, of r] path by (subst trie_open.simps) simp
    with path t'(2) Extension(1,2) show ?thesis by (auto intro: holds_Extension)
  next
    case False
    with len Extension(1,2,3) show ?thesis
      by (subst trie_open.simps) (auto simp: below_neq intro: holds_Extension)
  qed
next
  case (Branch f stack)
  obtain x q v where "branches f (x # q) = Some v"
    using holds_branch_keys [OF holds_BranchI [OF Branch(1,2)]] by metis
  then obtain y r where path: "path = y # r" using Branch(4) [of "x # q" v] by (cases path) auto
  have "length q \<le> length r" if "f (unat y) q = Some v" "unat y < 16" for q v
    using Branch(4) [of "y # q" v] that path by simp
  with Branch(3) [of "unat y"] have "\<exists>t' b. trie_open L F r (stack ! unat y) = Some (t', Good (f (unat y) r)) \<and> holds L F b (f (unat y)) t'"
    if "stack ! unat y \<noteq> Empty" "unat y < 16" using that by meson
  then show ?case unfolding path by (rule open_Branch_holds [OF Branch(1,2)])
next
  case (Blinded h t b m)
  then have "unblind L F (Blinded h) = (t, Inr ())" by simp
  from open_unblind [OF this] Blinded show ?case by simp
qed

section \<open>Insertion\<close>

lemma insert_unblind: "unblind L F t = (t', Inr ()) \<Longrightarrow> trie_insert L F path v t = trie_insert L F path v t'"
  by (cases t) (auto simp: trie_insert.simps [of L F path v "Blinded _"])

text \<open>The branch of two nodes under different nibbles.\<close>

lemma holds_two:
  assumes "unat x < 16" "unat y < 16" "x \<noteq> y" "holds L F b m s" "holds L F b' m' t"
  shows "holds L F True (branches ((\<lambda>_. Map.empty)(unat x := m, unat y := m')))
    (Branch ((replicate 17 Empty)[unat x := s, unat y := t]))"
proof (rule holds_BranchI)
  have "children_hold L F (\<lambda>_. Map.empty) (replicate 17 Empty)" by (simp add: children_hold_def)
  with assms show "children_hold L F ((\<lambda>_. Map.empty)(unat x := m, unat y := m')) ((replicate 17 Empty)[unat x := s, unat y := t])"
    by (intro children_hold_update) auto
  have "unat x \<noteq> unat y" using assms(3) by (simp add: word_unat_eq_iff)
  with assms show "two_children ((replicate 17 Empty)[unat x := s, unat y := t])"
    unfolding two_children_def
    by (intro exI [of _ "unat x"] conjI exI [of _ "unat y"]) (auto simp: holds_not_Empty nth_list_update)
qed

lemma branches_two:
  assumes "unat x < 16" "unat y < 16" "x \<noteq> y"
  shows "branches ((\<lambda>_. Map.empty)(unat x := m, unat y := [r \<mapsto> v])) = (below [x] m)(y # r \<mapsto> v)"
proof
  have "unat x \<noteq> unat y" using assms(3) by (simp add: word_unat_eq_iff)
  fix q show "branches ((\<lambda>_. Map.empty)(unat x := m, unat y := [r \<mapsto> v])) q = ((below [x] m)(y # r \<mapsto> v)) q"
    using assms \<open>unat x \<noteq> unat y\<close> by (cases q) (auto simp: below_def word_unat_eq_iff)
qed

lemma fork_node_holds:
  assumes "prefix = c @ x # s" "path = c @ y # r" "x \<noteq> y" "valid_nibbles prefix" "valid_nibbles path" "holds L F b m t"
  shows "\<exists>t' b'. fork_node t prefix path (length c) v = Good t' \<and>
    holds L F b' ((below (c @ [x]) m)(path \<mapsto> v)) t'"
proof -
  let ?B = "Branch ((replicate 17 Empty)[unat x := t, unat y := Leaf r v])"
  have "holds L F True ((below [x] m)(y # r \<mapsto> v)) ?B"
    using holds_two [of x y L F b m t False "[r \<mapsto> v]" "Leaf r v"] assms by (simp add: branches_two holds_Leaf)
  then have "\<exists>b'. holds L F b' (below c ((below [x] m)(y # r \<mapsto> v))) (if c = [] then ?B else Extension c ?B)"
    using assms(1,4) by (cases "c = []") (auto intro: holds_Extension)
  moreover have "fork_node t prefix path (length c) v = Good (if c = [] then ?B else Extension c ?B)"
    using assms(1,2,4,5) by (simp add: fork_node_def BRANCH_LIST_LENGTH_def)
  moreover have "below c ((below [x] m)(y # r \<mapsto> v)) = (below (c @ [x]) m)(path \<mapsto> v)"
    using assms(2) by (simp add: below_update below_below)
  ultimately show ?thesis by auto
qed

lemma insert_Branch_holds:
  assumes "children_hold L F f stack" "two_children stack" "unat x < 16" "valid_nibbles q"
    and IH: "stack ! unat x \<noteq> Empty \<Longrightarrow>
      \<exists>t' b. trie_insert L F q v (stack ! unat x) = Some (t', Good ()) \<and> holds L F b ((f (unat x))(q \<mapsto> v)) t'"
  shows "\<exists>t'. trie_insert L F (x # q) v (Branch stack) = Some (t', Good ()) \<and> holds L F True ((branches f)(x # q \<mapsto> v)) t'"
proof -
  have len: "length stack = 17" using assms(1) by (simp add: children_hold_def)
  from assms(1,3) have "\<exists>t' b. trie_insert L F q v (stack ! unat x) = Some (t', Good ()) \<and> holds L F b ((f (unat x))(q \<mapsto> v)) t'"
  proof (cases rule: children_hold_cases)
    case 1
    with assms(4) show ?thesis by (auto simp: trie_insert.simps [of L F q v Empty] intro: holds_Leaf)
  qed (rule IH)
  then obtain t' b where t': "trie_insert L F q v (stack ! unat x) = Some (t', Good ())" "holds L F b ((f (unat x))(q \<mapsto> v)) t'"
    by blast
  have "holds L F True (branches (f(unat x := (f (unat x))(q \<mapsto> v)))) (Branch (stack[unat x := t']))"
    using assms(1-3) t'(2) len by (intro holds_BranchI children_hold_update two_children_update) (auto simp: holds_not_Empty)
  with t'(1) assms(3) len show ?thesis by (subst trie_insert.simps) (simp add: branches_update)
qed

lemma prefix_free_no_prefix: "prefix_free A \<Longrightarrow> p \<in> A \<Longrightarrow> p @ r \<in> A \<Longrightarrow> r = []"
  unfolding prefix_free_def by blast

lemma branch_path:
  assumes "holds L F True m t" "prefix_free (insert path (dom m))" shows "path \<noteq> []"
proof
  assume "path = []"
  obtain x q v where "m (x # q) = Some v" using assms(1) by (metis holds_branch_keys)
  then have "x # q \<in> insert path (dom m)" by blast
  with prefix_free_no_prefix [OF assms(2), of path "x # q"] \<open>path = []\<close> show False by simp
qed

lemma insert_Leaf_holds:
  assumes "valid_nibbles p" "valid_nibbles path" "prefix_free {path, p}"
  shows "\<exists>t' b. trie_insert L F path v (Leaf p w) = Some (t', Good ()) \<and> holds L F b ([p \<mapsto> w, path \<mapsto> v]) t'"
proof (cases "path = p")
  case True
  with assms show ?thesis by (subst trie_insert.simps) (auto intro: holds_Leaf)
next
  case False
  obtain c r s where c: "path = c @ r" "p = c @ s" "common_prefix_length path p = length c" "r = [] \<or> s = [] \<or> hd r \<noteq> hd s"
    using common_prefix [of path p] by blast
  have "r \<noteq> []" using prefix_free_no_prefix [OF assms(3), of path s] c(1,2) False by auto
  moreover have "s \<noteq> []" using prefix_free_no_prefix [OF assms(3), of p r] c(1,2) False by auto
  ultimately obtain x y r' s' where xy: "r = y # r'" "s = x # s'" "x \<noteq> y" using c(4) by (cases r; cases s) auto
  have "valid_nibbles s'" using assms(1) c(2) xy by simp
  then have "\<exists>t' b'. fork_node (Leaf s' w) p path (length c) v = Good t' \<and> holds L F b' ((below (c @ [x]) [s' \<mapsto> w])(path \<mapsto> v)) t'"
    using assms(1,2) c(1,2) xy by (intro fork_node_holds) (auto intro: holds_Leaf)
  with False c xy show ?thesis by (subst trie_insert.simps) (auto simp: below_single)
qed

lemma insert_Extension_holds:
  assumes "p \<noteq> []" "valid_nibbles p" "holds L F True m t" "valid_nibbles path" "prefix_free (insert path (dom (below p m)))"
    and IH: "\<And>q. path = p @ q \<Longrightarrow> valid_nibbles q \<Longrightarrow> prefix_free (insert q (dom m)) \<Longrightarrow>
      \<exists>t'. trie_insert L F q v t = Some (t', Good ()) \<and> holds L F True (m(q \<mapsto> v)) t'"
  shows "\<exists>t' b. trie_insert L F path v (Extension p t) = Some (t', Good ()) \<and> holds L F b ((below p m)(path \<mapsto> v)) t'"
proof -
  obtain c r s where c: "path = c @ r" "p = c @ s" "common_prefix_length path p = length c" "r = [] \<or> s = [] \<or> hd r \<noteq> hd s"
    using common_prefix [of path p] by blast
  show ?thesis
  proof (cases s)
    case Nil
    with c have path: "path = p @ r" by simp
    with assms(4,5) IH [of r] obtain t' where t': "trie_insert L F r v t = Some (t', Good ())" "holds L F True (m(r \<mapsto> v)) t'"
      using prefix_free_below by auto
    with Nil c path assms(1,2) show ?thesis
      by (subst trie_insert.simps) (auto simp: below_update [symmetric] intro!: holds_Extension exI)
  next
    case (Cons x s')
    obtain q w where "m q = Some w" using holds_some [OF assms(3)] by blast
    then have "p @ q \<in> insert path (dom (below p m))" by auto
    then have "s @ q = []" if "r = []" using prefix_free_no_prefix [OF assms(5), of path "s @ q"] c(1,2) that by simp
    then have "r \<noteq> []" using Cons by blast
    then obtain y r' where xy: "r = y # r'" "x \<noteq> y" using c(4) Cons by (cases r) auto
    let ?n = "if s' = [] then t else Extension s' t"
    have "\<exists>b. holds L F b (below s' m) ?n" using assms(2,3) c(2) Cons by (auto intro: holds_Extension)
    then obtain b where "holds L F b (below s' m) ?n" by blast
    then have "\<exists>t' b'. fork_node ?n p path (length c) v = Good t' \<and> holds L F b' ((below (c @ [x]) (below s' m))(path \<mapsto> v)) t'"
      using assms(2,4) c(1,2) xy Cons by (intro fork_node_holds) auto
    with c xy Cons show ?thesis by (subst trie_insert.simps) (auto simp: below_below Let_def)
  qed
qed

lemma insert_holds:
  "holds L F b m t \<Longrightarrow> valid_nibbles path \<Longrightarrow> prefix_free (insert path (dom m)) \<Longrightarrow>
   \<exists>t' b'. trie_insert L F path v t = Some (t', Good ()) \<and> holds L F b' (m(path \<mapsto> v)) t' \<and> (b \<longrightarrow> b')"
proof (induction arbitrary: path rule: holds_induct)
  case (Leaf p w)
  have "dom [p \<mapsto> w] = {p}" by (rule dom_eq_singleton_conv [THEN iffD2]) blast
  with Leaf insert_Leaf_holds [of p path L F v w] show ?case by (simp del: fun_upd_apply)
next
  case (Extension p m t)
  have "\<exists>t'. trie_insert L F q v t = Some (t', Good ()) \<and> holds L F True (m(q \<mapsto> v)) t'"
    if "valid_nibbles q" "prefix_free (insert q (dom m))" for q
    using Extension(4) [OF that] by (auto simp del: fun_upd_apply)
  then have "\<exists>t' b. trie_insert L F path v (Extension p t) = Some (t', Good ()) \<and> holds L F b ((below p m)(path \<mapsto> v)) t'"
    by (intro insert_Extension_holds [OF Extension(1-3,5,6)])
  then show ?case by blast
next
  case (Branch f stack)
  obtain y r where path: "path = y # r"
    using branch_path [OF holds_BranchI [OF Branch(1,2)] Branch(5)] by (cases path) auto
  then have y: "unat y < 16" "valid_nibbles r" using Branch(4) by simp_all
  have "prefix_free (insert r (dom (f (unat y))))" using prefix_free_branches Branch(5) path y(1) by blast
  with Branch(3) [OF y(1)] y(2) have "\<exists>t' b. trie_insert L F r v (stack ! unat y) = Some (t', Good ()) \<and> holds L F b ((f (unat y))(r \<mapsto> v)) t'"
    if "stack ! unat y \<noteq> Empty" using that by meson
  from insert_Branch_holds [OF Branch(1,2) y this] path show ?case by blast
next
  case (Blinded h t b m)
  then have "unblind L F (Blinded h) = (t, Inr ())" by simp
  from insert_unblind [OF this] Blinded show ?case by simp
qed

section \<open>Deletion\<close>

lemma delete_unblind: "unblind L F t = (t', Inr ()) \<Longrightarrow> trie_delete L F H path t = trie_delete L F H path t'"
  by (cases t) (auto simp: trie_delete.simps [of L F H path "Blinded _"])

definition is_blinded :: "trie_node \<Rightarrow> bool" where
  "is_blinded t \<longleftrightarrow> (\<exists>h. t = Blinded h)"

lemma is_blinded_simps [simp]:
  "is_blinded (Blinded h)" "\<not> is_blinded Empty" "\<not> is_blinded (Leaf p v)" "\<not> is_blinded (Extension p t)" "\<not> is_blinded (Branch stack)"
  by (simp_all add: is_blinded_def)

lemma collapse_extension_holds:
  assumes "holds L F b m t" "\<not> is_blinded t" "p \<noteq> []" "valid_nibbles p"
  shows "(\<exists>b'. holds L F b' (below p m) (collapse_extension p t)) \<and> \<not> is_blinded (collapse_extension p t)"
  using assms(1)
proof (cases rule: holds.cases)
  case (holds_Extension q m' t')
  with assms(3,4) show ?thesis by (auto simp: below_below intro!: holds.holds_Extension exI)
next
  case (holds_Branch stack f i j)
  with assms show ?thesis by (auto intro!: holds.holds_Extension exI)
qed (use assms in \<open>auto simp: below_single intro!: holds_Leaf exI\<close>)

text \<open>A branch left with one child: the child takes its place.\<close>

lemma filter_eq_single: "i < n \<Longrightarrow> filter (\<lambda>j. j = i) [0..<n] = [i]"
  by (induction n) (auto simp: less_Suc_eq filter_empty_conv)

lemma non_empty_children_single:
  "i < 17 \<Longrightarrow> t \<noteq> Empty \<Longrightarrow> non_empty_children ((replicate 17 Empty)[i := t]) = [i]"
proof -
  assume i: "i < 17" and t: "t \<noteq> Empty"
  have "filter (\<lambda>j. (replicate 17 Empty)[i := t] ! j \<noteq> Empty) [0..<17] = filter (\<lambda>j. j = i) [0..<17]"
    using i t by (intro filter_cong) (auto simp: nth_list_update)
  also have "\<dots> = [i]" using i by (rule filter_eq_single)
  finally show ?thesis by (simp add: non_empty_children_def)
qed

lemma collapse_single:
  assumes H: "\<forall>h. H h = Inr ()" and i: "i < 16"
  shows "holds L F b m t \<Longrightarrow> \<exists>t' b'. collapse_if_possible L F H (Branch ((replicate 17 Empty)[i := t])) = Some (t', Good ()) \<and>
    holds L F b' (below [word_of_nat i] m) t' \<and> \<not> is_blinded t'"
proof (induction rule: holds_induct)
  case (Leaf p v)
  with i show ?case
    by (subst collapse_if_possible.simps)
      (auto simp: non_empty_children_single below_single unat_of_nat intro!: exI holds_Leaf)
next
  case (Extension p m t)
  with i show ?case
    by (subst collapse_if_possible.simps)
      (auto simp: non_empty_children_single below_below unat_of_nat intro!: exI holds_Extension)
next
  case (Branch f stack)
  with i show ?case
    by (subst collapse_if_possible.simps)
      (auto simp: non_empty_children_single unat_of_nat intro!: exI holds_Extension holds_BranchI)
next
  case (Blinded h t b m)
  moreover have "H h = Inr ()" using H by blast
  ultimately show ?case using i by (subst collapse_if_possible.simps) (simp add: non_empty_children_single)
qed

lemma collapse_Branch:
  assumes H: "\<forall>h. H h = Inr ()" and "children_hold L F f stack" "i < 16" "stack ! i \<noteq> Empty"
  shows "\<exists>t' b'. collapse_if_possible L F H (Branch stack) = Some (t', Good ()) \<and> holds L F b' (branches f) t' \<and> \<not> is_blinded t'"
proof (cases "two_children stack")
  case True
  then obtain j k where "j < 16" "k < 16" "j \<noteq> k" "stack ! j \<noteq> Empty" "stack ! k \<noteq> Empty" unfolding two_children_def by blast
  then have "{j, k} \<subseteq> set (non_empty_children stack)" using assms(2) by (auto simp: non_empty_children_def children_hold_def)
  from card_mono [OF _ this] \<open>j \<noteq> k\<close> have "length (non_empty_children stack) \<noteq> 1"
    using card_length [of "non_empty_children stack"] by auto
  with holds_BranchI [OF assms(2) True] show ?thesis by (subst collapse_if_possible.simps) auto
next
  case False
  then have E: "stack ! j = Empty" if "j < 17" "j \<noteq> i" for j
  proof (cases "j = 16")
    case True
    with assms(2) show ?thesis by (simp add: children_hold_def)
  next
    case False
    with that(1) have "j < 16" by simp
    with that(2) \<open>\<not> two_children stack\<close> assms(3,4) show ?thesis unfolding two_children_def by blast
  qed
  have len: "length stack = 17" using assms(2) by (simp add: children_hold_def)
  obtain t b where t: "t = stack ! i" "holds L F b (f i) t" using assms(2-4) by (auto elim: children_hold_cases)
  have "stack = (replicate 17 Empty)[i := t]"
    using assms(3) E len t(1) by (intro nth_equalityI) (auto simp: nth_list_update)
  moreover have "branches f = below [word_of_nat i] (f i)"
  proof (rule branches_one [OF assms(3)])
    fix j :: nat assume "j < 16" "j \<noteq> i"
    with E [of j] assms(2) show "f j = Map.empty" by (auto elim!: children_hold_cases)
  qed
  ultimately show ?thesis using collapse_single [OF H assms(3) t(2)] by simp
qed

text \<open>What a deletion promises, if the path is there and if it is not.\<close>

definition deleted :: "trie_lib \<Rightarrow> trie_provider \<Rightarrow> bool \<Rightarrow> contents \<Rightarrow> nibbles \<Rightarrow> unit trie_run option \<Rightarrow> bool" where
  "deleted L F b m path r \<longleftrightarrow>
     (if m path = None then \<exists>t'. r = Some (t', Bad KeyNotFound) \<and> holds L F b m t'
      else \<exists>t'. r = Some (t', Good ()) \<and> \<not> is_blinded t' \<and>
        (\<not> b \<and> t' = Empty \<and> m(path := None) = Map.empty \<or> (\<exists>b'. holds L F b' (m(path := None)) t')))"

lemma delete_Branch_absent:
  assumes "children_hold L F f stack" "two_children stack" "unat x < 16" "f (unat x) q = None"
    and "stack ! unat x \<noteq> Empty \<Longrightarrow> \<exists>b. deleted L F b (f (unat x)) q (trie_delete L F H q (stack ! unat x))"
  shows "\<exists>t'. trie_delete L F H (x # q) (Branch stack) = Some (t', Bad KeyNotFound) \<and> holds L F True (branches f) t'"
proof -
  have len: "length stack = 17" using assms(1) by (simp add: children_hold_def)
  have "\<exists>t'. trie_delete L F H q (stack ! unat x) = Some (t', Bad KeyNotFound) \<and>
      holds L F True (branches f) (Branch (stack[unat x := t']))"
  proof (cases "stack ! unat x = Empty")
    case True
    then have "stack[unat x := Empty] = stack" by (metis list_update_id)
    with True assms(1,2) show ?thesis by (auto simp: trie_delete.simps [of L F H q Empty] intro: holds_BranchI)
  next
    case False
    with assms(4,5) obtain t' b where t': "trie_delete L F H q (stack ! unat x) = Some (t', Bad KeyNotFound)" "holds L F b (f (unat x)) t'"
      unfolding deleted_def by auto
    have "holds L F True (branches (f(unat x := f (unat x)))) (Branch (stack[unat x := t']))"
      using assms(1-3) t'(2) len by (intro holds_BranchI children_hold_update two_children_update) (auto simp: holds_not_Empty)
    with t'(1) show ?thesis by simp
  qed
  with assms(3) len show ?thesis by (subst trie_delete.simps) (auto simp: collapse_after_def)
qed

lemma delete_Branch_present:
  assumes H: "\<forall>h. H h = Inr ()" and "children_hold L F f stack" "two_children stack" "unat x < 16" "f (unat x) q = Some v"
    and IH: "\<exists>b. deleted L F b (f (unat x)) q (trie_delete L F H q (stack ! unat x))"
  shows "\<exists>t' b. trie_delete L F H (x # q) (Branch stack) = Some (t', Good ()) \<and> \<not> is_blinded t' \<and> holds L F b ((branches f)(x # q := None)) t'"
proof -
  have len: "length stack = 17" using assms(2) by (simp add: children_hold_def)
  from IH assms(5) obtain t' b where t': "trie_delete L F H q (stack ! unat x) = Some (t', Good ())"
      "t' = Empty \<and> (f (unat x))(q := None) = Map.empty \<or> holds L F b ((f (unat x))(q := None)) t'"
    unfolding deleted_def by auto
  have ch: "children_hold L F (f(unat x := (f (unat x))(q := None))) (stack[unat x := t'])"
    using assms(2,4) t'(2) by (rule children_hold_update)
  obtain i where "i < 16" "i \<noteq> unat x" "stack ! i \<noteq> Empty" using assms(3) unfolding two_children_def by metis
  then have "i < 16" "stack[unat x := t'] ! i \<noteq> Empty" by simp_all
  from collapse_Branch [OF H ch this] t'(1) assms(4) len show ?thesis
    by (subst trie_delete.simps) (simp add: collapse_after_def branches_update, blast)
qed

lemma delete_Extension:
  assumes H: "\<forall>h. H h = Inr ()" and p: "p \<noteq> []" "valid_nibbles p" and t: "holds L F True m t"
    and path: "prefix_free (insert path (dom (below p m)))"
    and IH: "\<And>q. path = p @ q \<Longrightarrow> deleted L F True m q (trie_delete L F H q t)"
  shows "deleted L F False (below p m) path (trie_delete L F H path (Extension p t))"
proof -
  obtain c r s where c: "path = c @ r" "p = c @ s" "common_prefix_length path p = length c" "r = [] \<or> s = [] \<or> hd r \<noteq> hd s"
    using common_prefix [of path p] by blast
  show ?thesis
  proof (cases s)
    case Nil
    with c have pr: "path = p @ r" "common_prefix_length path p = length p" by simp_all
    have "r \<noteq> []" using branch_path [OF t prefix_free_below] path pr(1) by blast
    then have del: "trie_delete L F H path (Extension p t) =
        Option.bind (trie_delete L F H r t) (collapse_after L F H (Extension p))"
      using pr by (subst trie_delete.simps) simp
    show ?thesis
    proof (cases "m r")
      case None
      with IH [OF pr(1)] obtain t' where "trie_delete L F H r t = Some (t', Bad KeyNotFound)" "holds L F True m t'"
        unfolding deleted_def by auto
      with None del pr p show ?thesis by (auto simp: deleted_def collapse_after_def intro: holds_Extension)
    next
      case (Some v)
      with IH [OF pr(1)] obtain t' b' where t': "trie_delete L F H r t = Some (t', Good ())" "\<not> is_blinded t'" "holds L F b' (m(r := None)) t'"
        unfolding deleted_def by auto
      from collapse_extension_holds [OF t'(3,2) p] t'(1) Some del pr show ?thesis
        by (auto simp: deleted_def collapse_after_def collapse_if_possible.simps [of L F H "Extension _ _"] below_update)
    qed
  next
    case (Cons x s')
    have "below p m path = None"
    proof (rule ccontr)
      assume "below p m path \<noteq> None"
      then obtain q where "path = p @ q" by (auto simp: below_eq_Some)
      with c Cons show False by (cases r) auto
    qed
    with c Cons p t show ?thesis by (subst trie_delete.simps) (auto simp: deleted_def intro: holds_Extension)
  qed
qed

lemma delete_holds:
  assumes H: "\<forall>h. H h = Inr ()"
  shows "holds L F b m t \<Longrightarrow> valid_nibbles path \<Longrightarrow> prefix_free (insert path (dom m)) \<Longrightarrow>
   deleted L F b m path (trie_delete L F H path t)"
proof (induction arbitrary: path rule: holds_induct)
  case (Leaf p v)
  then show ?case by (subst trie_delete.simps) (auto simp: deleted_def intro: holds_Leaf)
next
  case (Extension p m t)
  from H Extension(1-3,6) show ?case
    by (rule delete_Extension) (use Extension(4,5,6) prefix_free_below in auto)
next
  case (Branch f stack)
  obtain y r where path: "path = y # r"
    using branch_path [OF holds_BranchI [OF Branch(1,2)] Branch(5)] by (cases path) auto
  then have y: "unat y < 16" "valid_nibbles r" using Branch(4) by simp_all
  have "prefix_free (insert r (dom (f (unat y))))" using prefix_free_branches Branch(5) path y(1) by blast
  with Branch(3) [OF y(1)] y(2) have IH: "\<exists>b. deleted L F b (f (unat y)) r (trie_delete L F H r (stack ! unat y))"
    if "stack ! unat y \<noteq> Empty" using that by meson
  show ?case
  proof (cases "f (unat y) r")
    case None
    with delete_Branch_absent [OF Branch(1,2) y(1) None IH] path y(1) show ?thesis by (simp add: deleted_def)
  next
    case (Some v)
    then have "stack ! unat y \<noteq> Empty" using Branch(1) y(1) by (auto elim: children_hold_cases)
    from delete_Branch_present [OF H Branch(1,2) y(1) Some IH [OF this]] path y(1) Some show ?thesis
      by (auto simp: deleted_def)
  qed
next
  case (Blinded h t b m)
  then have "unblind L F (Blinded h) = (t, Inr ())" by simp
  from delete_unblind [OF this] Blinded show ?case by simp
qed

section \<open>The root hash\<close>

text \<open>What a parent's encoding contains of a node.\<close>

definition node_ref :: "trie_lib \<Rightarrow> trie_node \<Rightarrow> bytes" where
  "node_ref L t = (if 32 \<le> trie_length L t then tl_b256 L (blind L t) else trie_encode L t)"

definition agree :: "trie_lib \<Rightarrow> trie_node \<Rightarrow> trie_node \<Rightarrow> bool" where
  "agree L t t' \<longleftrightarrow> node_ref L t = node_ref L t' \<and> blinded_length L t = blinded_length L t' \<and> blind L t = blind L t'"

lemma agree_refl: "agree L t t"
  by (simp add: agree_def)

lemma agree_sym: "agree L t t' \<Longrightarrow> agree L t' t"
  by (simp add: agree_def)

lemma agree_trans: "agree L s t \<Longrightarrow> agree L t u \<Longrightarrow> agree L s u"
  by (simp add: agree_def)

lemma agreeI:
  assumes "trie_length L t = trie_length L t'" "trie_encode L t = trie_encode L t'" "blind L t = blind L t'"
  shows "agree L t t'"
  using assms by (simp add: agree_def node_ref_def blinded_length_def)

lemma payload_length_ref:
  "payload_length L (Extension p t) = encoded_key_len L p + blinded_length L t"
  "payload_length L (Branch stack) = sum_list (map (blinded_length L) stack)"
  by (simp_all add: blinded_length_def [abs_def])

lemma trie_encode_ref:
  "trie_encode L (Extension p t) = tl_list_header L (payload_length L (Extension p t)) @
     tl_bytes L (tl_encode_path_leaf L p False) @ node_ref L t"
  "trie_encode L (Branch stack) = tl_list_header L (payload_length L (Branch stack)) @ concat (map (node_ref L) stack)"
  by (simp_all add: node_ref_def [abs_def] cong: if_cong)

lemmas ref_simps = trie_length_simps blind_simps payload_length_ref trie_encode_ref Let_def

lemma agree_Extension: "agree L t t' \<Longrightarrow> agree L (Extension p t) (Extension p t')"
  by (rule agreeI) (simp_all only: ref_simps agree_def)

lemma agree_Branch:
  assumes "length stack = length stack'" "\<And>i. i < length stack \<Longrightarrow> agree L (stack ! i) (stack' ! i)"
  shows "agree L (Branch stack) (Branch stack')"
proof -
  have "map (blinded_length L) stack = map (blinded_length L) stack'"
    using assms by (intro nth_equalityI) (auto simp: agree_def)
  moreover have "map (node_ref L) stack = map (node_ref L) stack'"
    using assms by (intro nth_equalityI) (auto simp: agree_def)
  ultimately show ?thesis by (intro agreeI) (simp_all only: ref_simps)
qed

text \<open>Revealing a node does not change what is hashed.\<close>

lemma agree_Blinded:
  "blind L t = h \<Longrightarrow> 32 \<le> trie_length L t \<Longrightarrow> 32 \<le> tl_b256_length L \<Longrightarrow> agree L (Blinded h) t"
  by (simp add: agree_def node_ref_def blinded_length_def blinded_def)

lemma holds_reveal:
  assumes "32 \<le> tl_b256_length L"
  shows "holds L F b m t \<Longrightarrow> \<exists>t'. holds L F b m t' \<and> \<not> is_blinded t' \<and> agree L t t'"
proof (induction rule: holds_induct)
  case (Blinded h t b m)
  then obtain t' where t': "holds L F b m t'" "\<not> is_blinded t'" "agree L t t'" by blast
  have "agree L (Blinded h) t" using Blinded(3,4) assms by (rule agree_Blinded)
  with t' show ?case using agree_trans by blast
qed (auto simp del: fun_upd_apply intro!: exI intro: holds.intros holds_BranchI agree_refl)

text \<open>The contents decide between a leaf, an extension and a branch.\<close>

lemma branch_not_single: "holds L F True m t \<Longrightarrow> m \<noteq> [q \<mapsto> v]"
  by (erule holds_branch_keys) (auto split: if_splits)

lemma extension_not_single:
  assumes "holds L F True m t" shows "below p m \<noteq> [q \<mapsto> v]"
proof
  assume e: "below p m = [q \<mapsto> v]"
  obtain x y r s v w where xy: "x \<noteq> y" "m (x # r) = Some v" "m (y # s) = Some w" by (rule holds_branch_keys [OF assms])
  then have "below p m (p @ x # r) \<noteq> None" "below p m (p @ y # s) \<noteq> None" by simp_all
  with e have "p @ x # r = q" "p @ y # s = q" by (auto split: if_splits)
  with xy(1) show False by auto
qed

lemma branch_not_below:
  assumes "holds L F True m t" "p \<noteq> []" shows "m \<noteq> below p m'"
proof
  assume e: "m = below p m'"
  obtain x y r s v w where xy: "x \<noteq> y" "m (x # r) = Some v" "m (y # s) = Some w" by (rule holds_branch_keys [OF assms(1)])
  with e have "\<exists>r'. x # r = p @ r'" "\<exists>s'. y # s = p @ s'" by (auto simp: below_eq_Some)
  with assms(2) xy(1) show False by (cases p) auto
qed

lemma below_branch_unique:
  assumes "holds L F True m t" "holds L F' True m' t'" "below p m = below p' m'"
  shows "p = p' \<and> m = m'"
proof -
  obtain c r s where c: "p = c @ r" "p' = c @ s" "r = [] \<or> s = [] \<or> hd r \<noteq> hd s" using common_prefix [of p p'] by blast
  from assms(3) have e: "below r m = below s m'" unfolding c below_below [symmetric] by (rule below_inject)
  obtain q v where "m q = Some v" using holds_some [OF assms(1)] by blast
  then have "below s m' (r @ q) = Some v" by (simp flip: e)
  then have "\<exists>q'. r @ q = s @ q'" by (auto simp: below_eq_Some)
  with c(3) have "r = [] \<or> s = []" by (cases r; cases s) auto
  moreover have "r = []" if "s = []" using e that branch_not_below [OF assms(2), of r m] by (metis below_Nil)
  moreover have "s = []" if "r = []" using e that branch_not_below [OF assms(1), of s m'] by (metis below_Nil)
  ultimately have "r = []" "s = []" by blast+
  with c(1,2) e show ?thesis by simp
qed

lemma holds_not_empty: "\<not> holds L F b Map.empty t"
  by (auto dest: holds_some)

lemma children_agree:
  assumes "children_hold L F f stack" "children_hold L F' f' stack'" "branches f = branches f'"
    and "\<And>i b t'. i < 16 \<Longrightarrow> stack ! i \<noteq> Empty \<Longrightarrow> holds L F' b (f i) t' \<Longrightarrow> agree L (stack ! i) t'"
  shows "agree L (Branch stack) (Branch stack')"
proof (rule agree_Branch)
  show "length stack = length stack'" using assms(1,2) by (simp add: children_hold_def)
  fix i assume "i < length stack"
  then consider "i = 16" | "i < 16" using assms(1) by (fastforce simp: children_hold_def)
  then show "agree L (stack ! i) (stack' ! i)"
  proof cases
    case 1
    with assms(1,2) show ?thesis by (simp add: children_hold_def agree_refl)
  next
    case 2
    have f: "f' i = f i" using branches_inject [OF assms(3) 2] by simp
    from assms(2) 2 show ?thesis
    proof (cases rule: children_hold_cases)
      case 1
      with f have "f i = Map.empty" by simp
      with assms(1) 2 have "stack ! i = Empty" by (metis children_hold_cases holds_not_empty)
      with 1 show ?thesis by (simp add: agree_refl)
    next
      case (2 b)
      with f have "f i \<noteq> Map.empty" using holds_not_empty by metis
      with assms(1) \<open>i < 16\<close> have "stack ! i \<noteq> Empty" by (auto elim!: children_hold_cases dest: holds_not_Empty)
      with 2 f assms(4) [OF \<open>i < 16\<close>] show ?thesis by simp
    qed
  qed
qed

lemma single_inject: "[p \<mapsto> v] = [q \<mapsto> w] \<Longrightarrow> p = q \<and> v = w"
  by (drule fun_cong [of _ _ p]) (simp split: if_splits)

lemma contents_unique:
  assumes "32 \<le> tl_b256_length L"
  shows "holds L F b m t \<Longrightarrow> holds L F' b' m t' \<Longrightarrow> agree L t t'"
proof (induction arbitrary: b' t' rule: holds_induct)
  case (Leaf p v)
  from holds_reveal [OF assms this(2)] obtain u where u: "holds L F' b' [p \<mapsto> v] u" "\<not> is_blinded u" "agree L t' u" by blast
  from u(1) have "u = Leaf p v"
  proof (cases rule: holds.cases)
    case (holds_Leaf q w)
    with single_inject [of p v q w] show ?thesis by (simp del: fun_upd_apply)
  next
    case (holds_Extension q m s)
    with extension_not_single [OF holds_Extension(6), of q p v] show ?thesis by simp
  next
    case (holds_Branch stack f i j)
    with branch_not_single [of L F' "[p \<mapsto> v]" u p v] u(1) show ?thesis by simp
  qed (use u(2) in simp)
  with u(3) show ?case by (simp add: agree_sym)
next
  case (Extension p m t)
  from holds_reveal [OF assms this(5)] obtain u where u: "holds L F' b' (below p m) u" "\<not> is_blinded u" "agree L t' u" by blast
  from u(1) have "agree L (Extension p t) u"
  proof (cases rule: holds.cases)
    case (holds_Leaf q v)
    with extension_not_single [OF Extension(3)] show ?thesis by blast
  next
    case (holds_Extension q m' s)
    with below_branch_unique [OF Extension(3), of F' m' s p q] Extension(4) show ?thesis by (auto intro: agree_Extension)
  next
    case (holds_Branch stack f i j)
    then show ?thesis using branch_not_below [of L F' "below p m" u p m] u(1) Extension(1) by simp
  qed (use u(2) in simp)
  with u(3) show ?case by (metis agree_sym agree_trans)
next
  case (Branch f stack)
  note B = holds_BranchI [OF Branch(1,2)]
  from holds_reveal [OF assms Branch(4)] obtain u where u: "holds L F' b' (branches f) u" "\<not> is_blinded u" "agree L t' u" by blast
  from u(1) have "agree L (Branch stack) u"
  proof (cases rule: holds.cases)
    case (holds_Leaf q v)
    with branch_not_single [OF B] show ?thesis by blast
  next
    case (holds_Extension q m' s)
    with branch_not_below [OF B] show ?thesis by blast
  next
    case (holds_Branch stack' f' i j)
    then have "children_hold L F' f' stack'" unfolding children_hold_def by blast
    from children_agree [OF Branch(1) this holds_Branch(2)] Branch(3) holds_Branch(3) show ?thesis by blast
  qed (use u(2) in simp)
  with u(3) show ?case by (metis agree_sym agree_trans)
next
  case (Blinded h t b m)
  with agree_Blinded [OF Blinded(3,4) assms] show ?case using agree_trans by blast
qed

section \<open>The trie as a map\<close>

lemma trie_holds_cases:
  assumes "trie_holds L F m t"
  obtains "m = Map.empty" "t = Empty \<or> t = Blinded (tl_empty_root_hash L)"
  | b t' where "holds L F b m t'" "unblind L F t = (t', Inr ())" "blind L t' = blind L t"
  | b where "holds L F b m t"
  using assms unfolding trie_holds_def by auto

lemma trie_holdsI: "holds L F b m t \<Longrightarrow> trie_holds L F m t"
  by (auto simp: trie_holds_def)

lemma unblind_empty: "unblind L F (Blinded (tl_empty_root_hash L)) = (Empty, Inr ())"
  by simp

lemma trie_holds_Empty: "trie_holds L F Map.empty Empty"
  by (simp add: trie_holds_def)

text \<open>
  C37. Reading a path that is not shorter than any key, from a trie in canonical form whose blinded
  nodes the provider knows, returns the value stored at the path, or none if there is none, whichever
  nodes are revealed on the way; the trie still stands for the same map.
\<close>

theorem trie_open_reads:
  assumes "trie_holds L F m t" and "\<forall>q\<in>dom m. length q \<le> length path"
  shows "\<exists>t'. trie_open L F path t = Some (t', Good (m path)) \<and> trie_holds L F m t'"
  using assms(1)
proof (cases rule: trie_holds_cases)
  case 1
  then show ?thesis using open_unblind [OF unblind_empty] by (auto simp: trie_holds_Empty)
next
  case (2 b t')
  from open_holds [OF 2(1), of path] assms(2) open_unblind [OF 2(2)] show ?thesis by (auto intro: trie_holdsI)
next
  case (3 b)
  from open_holds [OF 3, of path] assms(2) show ?thesis by (auto intro: trie_holdsI)
qed

text \<open>
  C38. Inserting a value at a path of nibbles always succeeds and yields a trie in canonical form for
  the updated map, if neither the path nor a key of the trie is a proper prefix of the other.
\<close>

theorem trie_insert_updates:
  assumes "trie_holds L F m t" and "valid_nibbles path" and "prefix_free (insert path (dom m))"
  shows "\<exists>t'. trie_insert L F path v t = Some (t', Good ()) \<and> trie_holds L F (m(path \<mapsto> v)) t'"
  using assms(1)
proof (cases rule: trie_holds_cases)
  case 1
  have "trie_insert L F path v t = Some (Leaf path v, Good ())"
    using 1(2) insert_unblind [OF unblind_empty] by (auto simp: trie_insert.simps [of L F path v Empty])
  with 1(1) assms(2) show ?thesis by (auto simp del: fun_upd_apply intro: trie_holdsI holds_Leaf)
next
  case (2 b t')
  from insert_holds [OF 2(1) assms(2,3)] insert_unblind [OF 2(2)] show ?thesis
    by (fastforce simp del: fun_upd_apply intro: trie_holdsI)
next
  case (3 b)
  from insert_holds [OF 3 assms(2,3)] show ?thesis by (blast intro: trie_holdsI)
qed

lemma deleted_root:
  assumes "deleted L F b m path r"
  shows "\<exists>t' e. r = Some (t', e) \<and> e = (if m path = None then Bad KeyNotFound else Good ()) \<and>
    trie_holds L F (m(path := None)) t'"
proof (cases "m path")
  case None
  then have "m(path := None) = m" by (simp add: fun_upd_idem)
  with assms None show ?thesis by (auto simp: deleted_def intro: trie_holdsI)
next
  case (Some v)
  with assms show ?thesis by (auto simp del: fun_upd_apply simp: deleted_def trie_holds_Empty intro: trie_holdsI)
qed

text \<open>
  C39. Deleting a path removes it and yields a trie in canonical form for the remaining map, with the
  branch left with one child merged with that child; a path that is not in the trie is reported as
  such, and the trie stays as it is.  The hints for the nodes that are opened on the way are assumed
  to be accepted.
\<close>

theorem trie_delete_removes:
  assumes "trie_holds L F m t" and "valid_nibbles path" and "prefix_free (insert path (dom m))"
    and "\<forall>h. hinter h = Inr ()"
  shows "\<exists>t'. trie_delete L F hinter path t = Some (t', if m path = None then Bad KeyNotFound else Good ()) \<and>
    trie_holds L F (m(path := None)) t'"
  using assms(1)
proof (cases rule: trie_holds_cases)
  case 1
  have "trie_delete L F hinter path t = Some (Empty, Bad KeyNotFound)"
    using 1(2) delete_unblind [OF unblind_empty] by (auto simp: trie_delete.simps [of L F hinter path Empty])
  with 1(1) show ?thesis by (simp add: trie_holds_Empty fun_upd_idem)
next
  case (2 b t')
  from deleted_root [OF delete_holds [OF assms(4) 2(1) assms(2,3)]] delete_unblind [OF 2(2)] show ?thesis by simp
next
  case (3 b)
  from deleted_root [OF delete_holds [OF assms(4) 3 assms(2,3)]] show ?thesis by blast
qed

lemma trie_root:
  assumes "trie_holds L F m t"
  shows "m = Map.empty \<and> blind L t = tl_empty_root_hash L \<or> (\<exists>b t'. holds L F b m t' \<and> blind L t' = blind L t)"
  using assms by (cases rule: trie_holds_cases) auto

text \<open>
  C40. The root hash depends on the contents alone: two tries in canonical form that stand for the same
  map have the same hash, whichever of their nodes are blinded and in whatever order their keys were
  inserted and deleted.
\<close>

theorem trie_root_unique:
  assumes "trie_holds L F m t" and "trie_holds L F' m t'" and "32 \<le> tl_b256_length L"
  shows "blind L t = blind L t'"
proof (cases "m = Map.empty")
  case True
  with trie_root [OF assms(1)] trie_root [OF assms(2)] holds_not_empty show ?thesis by metis
next
  case False
  with trie_root [OF assms(1)] trie_root [OF assms(2)] obtain b b' u u'
    where u: "holds L F b m u" "blind L u = blind L t" "holds L F' b' m u'" "blind L u' = blind L t'" by blast
  from contents_unique [OF assms(3) u(1,3)] u(2,4) show ?thesis by (simp add: agree_def)
qed

section \<open>An example\<close>

text \<open>A trie of two keys, one of them in a blinded leaf.\<close>

definition example_trie_lib :: trie_lib where
  "example_trie_lib =
     \<lparr>tl_keccak256 = \<lambda>bs. word_of_nat (be_decode bs), tl_empty_root_hash = 0, tl_list_header = \<lambda>n. [0xc0],
      tl_list_header_length = \<lambda>n. 33, tl_bytes = \<lambda>bs. bs, tl_bytes_length = length, tl_b256 = \<lambda>h. be_encode 32 (unat h),
      tl_b256_length = 33, tl_length_of_length = \<lambda>n. 1, tl_encode_path_leaf = \<lambda>p leaf. p\<rparr>"

definition example_trie_provider :: trie_provider where
  "example_trie_provider h = (if h = 0xc00408 then Inr (Leaf [4] [8]) else Inl ''unknown node'')"

definition example_trie :: trie_node where
  "example_trie = Branch ((replicate 17 Empty)[1 := Leaf [3] [7], 2 := Blinded 0xc00408])"

definition example_contents :: contents where
  "example_contents = [[1, 3] \<mapsto> [7], [2, 4] \<mapsto> [8]]"

lemma example_blinded_leaf: "holds example_trie_lib example_trie_provider False [[4] \<mapsto> [8]] (Blinded 0xc00408)"
proof (rule holds_Blinded)
  show "holds example_trie_lib example_trie_provider False [[4] \<mapsto> [8]] (Leaf [4] [8])" by (rule holds_Leaf) simp
qed (simp_all add: example_trie_lib_def example_trie_provider_def be_decode_def)

lemma example_trie_holds: "trie_holds example_trie_lib example_trie_provider example_contents example_trie"
proof (rule trie_holdsI)
  have "holds example_trie_lib example_trie_provider False [[3] \<mapsto> [7]] (Leaf [3] [7])" by (rule holds_Leaf) simp
  from holds_two [OF _ _ _ this example_blinded_leaf, of "1 :: u8" 2] branches_two [of 1 2 "[[3] \<mapsto> [7]]" "[4]" "[8]"]
  show "holds example_trie_lib example_trie_provider True example_contents example_trie"
    by (simp add: example_trie_def example_contents_def below_single del: fun_upd_apply)
qed

lemma example_dom: "dom example_contents = {[1, 3], [2, 4]}"
  by (auto simp: example_contents_def)

lemma example_prefix_free: "prefix_free (insert [2, 5] (dom example_contents))" "prefix_free (insert [2, 4] (dom example_contents))"
  by (rule prefix_free_uniform [of _ 2], auto simp: example_dom)+

theorem trie_open_reads_witness:
  "\<exists>t'. trie_open example_trie_lib example_trie_provider [2, 4] example_trie = Some (t', Good (Some [8]))"
  using trie_open_reads [OF example_trie_holds, of "[2, 4]"] by (auto simp: example_dom) (simp add: example_contents_def)

theorem trie_insert_updates_witness:
  "\<exists>t'. trie_insert example_trie_lib example_trie_provider [2, 5] [9] example_trie = Some (t', Good ()) \<and>
     trie_holds example_trie_lib example_trie_provider (example_contents([2, 5] \<mapsto> [9])) t'"
  by (rule trie_insert_updates [OF example_trie_holds _ example_prefix_free(1)]) simp

theorem trie_delete_removes_witness:
  "\<exists>t'. trie_delete example_trie_lib example_trie_provider (\<lambda>_. Inr ()) [2, 4] example_trie = Some (t', Good ()) \<and>
     trie_holds example_trie_lib example_trie_provider (example_contents([2, 4] := None)) t'"
  using trie_delete_removes [OF example_trie_holds _ example_prefix_free(2), of "\<lambda>_. Inr ()"]
  by (simp add: example_contents_def del: fun_upd_apply) (simp add: fun_upd_def)

theorem trie_root_unique_witness:
  "blind example_trie_lib example_trie =
   blind example_trie_lib (Branch ((replicate 17 Empty)[1 := Leaf [3] [7], 2 := Leaf [4] [8]]))"
proof (rule trie_root_unique [OF example_trie_holds])
  have "holds example_trie_lib example_trie_provider False [[3] \<mapsto> [7]] (Leaf [3] [7])"
    "holds example_trie_lib example_trie_provider False [[4] \<mapsto> [8]] (Leaf [4] [8])" by (rule holds_Leaf, simp)+
  from holds_two [OF _ _ _ this, of "1 :: u8" 2] branches_two [of 1 2 "[[3] \<mapsto> [7]]" "[4]" "[8]"]
  show "trie_holds example_trie_lib example_trie_provider example_contents
      (Branch ((replicate 17 Empty)[1 := Leaf [3] [7], 2 := Leaf [4] [8]]))"
    by (intro trie_holdsI [of _ _ True]) (simp add: example_contents_def below_single del: fun_upd_apply)
qed (simp add: example_trie_lib_def)

end
