(* ===== verification/Spec2Isabelle.thy ===== *)
theory Spec2Isabelle
  imports Driver Data_Sources Engine Merkle_Trie
begin

text \<open>
  Verification of the derivation of L2 blocks from L1 data in kona, a Rust implementation of the
  OP Stack.  Paths below are relative to \<^verbatim>\<open>src/crates\<close>.

  \<^bold>\<open>The program.\<close>  Batchers post the transactions of L2 blocks to L1: batches, compressed and RLP
  encoded into channels, cut into frames.  The derivation pipeline is a stack of stages, each of
  which owns the stage below it and pulls from it: L1 traversal walks the L1 chain, L1 retrieval
  reads the batcher's data of the current block, the frame queue parses frames, the channel stages
  collect them into channels, the channel reader decompresses channels into batches, the batch
  stages order and check batches, and the attributes queue turns the next batch into payload
  attributes, adding the L1 info transaction, the user deposits and the upgrade transactions.  The
  pipeline object steps the stack, moves its L1 origin and passes signals (reset, activation,
  channel flush) down.  The driver of the proof program steps the pipeline until attributes are
  there, executes them, and keeps a cursor of safe heads by L1 origin.  In the node, the engine
  controller does this against an execution client: a queue of tasks, ordered by priority, inserts,
  builds, consolidates and finalizes blocks and keeps the heads, and a reset searches a starting
  point on both chains.

  \<^bold>\<open>Theories.\<close>

  \<^item> \<open>Prelude\<close>, \<open>Decoding\<close>, \<open>Ordered_Map\<close>: machine integers, big-endian bytes, slices, byte readers,
    sorted association lists as \<^verbatim>\<open>BTreeMap\<close>.
  \<^item> \<open>Rollup_Config\<close> (\<^verbatim>\<open>protocol/genesis/src/{rollup,params,genesis,chain/*}.rs\<close>): configuration and fork
    schedule; \<open>System_Config\<close> (\<^verbatim>\<open>genesis/src/{system,updates}\<close>): the config contract's logs.
  \<^item> \<open>Blocks\<close>, \<open>L2_Blocks\<close>, \<open>L1_Info\<close> (\<^verbatim>\<open>protocol/protocol/src/{block,utils,info/*}.rs\<close>): block references,
    the L1 info transaction of each fork, what is read back off an L2 block.
  \<^item> \<open>Frames\<close>, \<open>Channels\<close> (\<^verbatim>\<open>protocol/src/{frame,channel}.rs\<close>): wire format and assembly.
  \<^item> \<open>Span_Bits\<close>, \<open>Span_Transactions\<close>, \<open>Single_Batches\<close>, \<open>Span_Batches\<close>, \<open>Span_Validity\<close>, \<open>Batch_Reader\<close>
    (\<^verbatim>\<open>protocol/src/batch/*.rs\<close>, \<^verbatim>\<open>brotli.rs\<close>): both kinds of batch, their encoding, their checks, and the
    decompression of channels.
  \<^item> \<open>Pipeline_Types\<close> (\<^verbatim>\<open>derive/src/{errors,types,traits}\<close>): results \<open>Ok\<close>, \<open>Err\<close>, \<open>Panicked\<close> threaded
    with the stage's state, signals, the operations every stage offers.
  \<^item> \<open>Traversal\<close>, \<open>L1_Retrieval\<close>, \<open>Frame_Queue\<close>, \<open>Channel_Bank\<close>, \<open>Channel_Assembler\<close>,
    \<open>Channel_Provider\<close>, \<open>Channel_Reader\<close>, \<open>Batch_Stream\<close>, \<open>Batch_Queue\<close>, \<open>Batch_Validator\<close>,
    \<open>Batch_Provider\<close>, \<open>Attributes_Queue\<close> (\<^verbatim>\<open>derive/src/stages\<close>): one theory per stage, with every
    implementation of the stage traits.  \<open>Mux\<close> holds what the two providers share.
  \<^item> \<open>Deposits\<close>, \<open>Upgrades\<close>, \<open>Attributes\<close> (\<^verbatim>\<open>protocol/src/{deposits,attributes,predeploys}.rs\<close>,
    \<^verbatim>\<open>hardforks/src\<close>, \<^verbatim>\<open>derive/src/attributes/stateful.rs\<close>): the transactions of payload attributes and
    the stateful builder.
  \<^item> \<open>Blob_Data\<close>, \<open>Data_Sources\<close> (\<^verbatim>\<open>derive/src/sources\<close>): the encoding of data in blobs and the sources of
    the batcher's data, from calldata and from blobs.
  \<^item> \<open>Pipeline\<close> (\<^verbatim>\<open>derive/src/pipeline\<close>) and \<open>Driver\<close> (\<^verbatim>\<open>proof/driver/src\<close>, \<^verbatim>\<open>proof/proof/src/sync.rs\<close>):
    the composition of the stages and the loop around it.
  \<^item> \<open>Consolidation\<close> (\<^verbatim>\<open>node/engine/src/attributes.rs\<close>), \<open>Sync_Start\<close> (\<^verbatim>\<open>node/sources/src/sync\<close>),
    \<open>Engine\<close> (\<^verbatim>\<open>node/engine/src/{state,versions,task_queue}\<close>): the comparison of attributes with a block,
    the search for the starting forkchoice, the engine's tasks, queue and reset.
  \<^item> \<open>Merkle_Trie\<close> (\<^verbatim>\<open>proof/mpt/src/node.rs\<close>): the Merkle Patricia trie that the proof program reads and
    writes the state through.

  \<^bold>\<open>Correspondence.\<close>  A struct is a record, an enum a datatype, a method a function of the same name
  (prefixed where two types share it) from the state to the new state and the result.  The traits
  a stage needs of the stage below are a record of operations, so a stage is a function of that
  record and of the state below, as the Rust type is generic in it.  Builds of the repository have
  \<^verbatim>\<open>overflow-checks = false\<close>, so \<open>+\<close> and \<open>-\<close> on integers wrap; lengths of collections are natural
  numbers.  A slice out of range, \<^verbatim>\<open>unwrap\<close> or \<^verbatim>\<open>expect\<close> is an own result (\<open>Panicked\<close>, \<open>None\<close>).  A loop
  that may not end is a \<^verbatim>\<open>partial_function\<close> into \<open>option\<close>, where \<open>None\<close> is not returning: there is no
  fuel in the development, and where a loop is claimed to return this is proved.

  \<^bold>\<open>Parameters.\<close>  Code of other crates is an argument: RLP and EIP-2718 codecs, ABI decoding, hash
  functions, varints, the brotli and zlib decoders, blob fee functions, the providers of L1 and L2
  blocks and of blobs, the block executor, the engine API, the clock, and which of several equal tasks
  a \<^verbatim>\<open>BinaryHeap\<close> hands out.  What a theorem needs of them is a named
  hypothesis (for instance a codec's round trip), and its witness instantiates it.

  \<^bold>\<open>Interfaces.\<close>  The locale \<open>stage_contract\<close> says what every operation of a stage keeps, and the locales
  of each pair of neighbouring stages (\<open>channel_stage\<close>, \<open>next_batch_stage\<close>, \<open>attributes_stage\<close> and
  others) extend it with what the upper stage relies on.  Each stage's operations are shown to
  satisfy the contract whenever the stage below does (a \<open>sublocale\<close>), and the interpretations at the
  bottom, over both L1 traversals, give the facts for the concrete stacks.  \<open>mux\<close> is the contract of
  the two stages that switch at Holocene; \<open>batches_from\<close> that of stages whose batches come from a
  channel; \<open>data_source\<close> is that of the sources of batcher data.

  \<^bold>\<open>What the lemmas show.\<close>  Wire formats: frames and span batches survive encoding and decoding, and
  the parser accepts exact input only.  Configuration: forks activate monotonically; config logs of
  a block act in order and keep the parameters well formed.  Channels: any order of arrival of the
  frames assembles the same data; size and readiness invariants; the Holocene rules (pruned queues
  are contiguous, frames are taken in order).  Batches: the check of a single batch accepts exactly
  the admissible ones and its verdict does not change as more L1 origins become known; an accepted
  span batch yields single batches that pass their own check; what the batch stages hand out extends
  the safe head.  Attributes: they carry the batch's transactions, timestamp and epoch, and all the
  deposits of a new epoch in log order.  Pipeline and driver: the origin moves along the L1 chain,
  attributes come out first in, first out, and the driver returns a safe head only at its target or
  where its source is exhausted.  Data: the blob decoder is inverse to an encoder and accepts nothing
  else; a source hands out what the batcher posted, in order.  Engine: attributes match a block exactly
  when it has the fields they ask for, the minimum base fee excepted; sync start returns and finds the
  highest suitable heads; tasks run by priority, change only the heads they are meant to, and keep the
  finalized head behind the unsafe head; the
  deposits-only fallback is never reached for derived attributes.  Trie: reading, insertion and
  deletion implement a map from paths to values and keep the canonical form, and the root hash depends
  on the map alone.

  \<^bold>\<open>Not modelled.\<close>  Logging, metrics, asynchrony (an \<^verbatim>\<open>await\<close> is a call) and test utilities.  The files
  \<^verbatim>\<open>protocol/src/info/interop.rs\<close> and \<^verbatim>\<open>derive/src/sources/variant.rs\<close> belong to no module.
  Serialisation of configurations and the superchain registry (data and serde derivations).  The rest of
  the node (\<^verbatim>\<open>node/{service,gossip,disc,peers,rpc}\<close> and the engine's RPC client), supervisor (\<^verbatim>\<open>supervisor/*\<close>), providers (\<^verbatim>\<open>providers/*\<close>) and binaries: services around
  network, RPC and database libraries that are not part of the repository.  Of the proof crates, the
  stateless executor with its database, the preimage oracle and the FPVM runtime rest on the EVM and
  system calls; of the trie crate, the decoding of nodes and the list walker are left out.
\<close>

end
